(* ===== verification/Divutil.thy ===== *)
theory Divutil
  imports Kos_Base
begin

text \<open>
  \<^verbatim>\<open>client/include/kosload/divutil.h\<close>: division by a compile-time constant through a
  multiply by the rounded-up fixed-point reciprocal. The three macros and
  \<open>ms_to_ticks\<close> are translated on 32-bit and 64-bit words; the lemmas relate them to
  true division. The quotient is never too small and at most one too large
  (\<open>UDIV_CONST_mono_div\<close>), and it is exact precisely when the
  surplus \<open>n * e\<close> of the rounded reciprocal does not carry (\<open>UDIV_CONST_eq_div_iff\<close>).
\<close>

section \<open>The macros\<close>

definition UDIV_RECIP :: "u32 \<Rightarrow> u32" where
  "UDIV_RECIP d = 0xFFFFFFFF div d + 1"

definition UDIV_CONST :: "u32 \<Rightarrow> u32 \<Rightarrow> u32" where
  "UDIV_CONST n d = ucast (drop_bit 32 ((ucast n :: u64) * ucast (UDIV_RECIP d)))"

definition UMOD_CONST :: "u32 \<Rightarrow> u32 \<Rightarrow> u32" where
  "UMOD_CONST n d = n - UDIV_CONST n d * d"

definition ms_to_ticks :: "u32 \<Rightarrow> u32 \<Rightarrow> u32" where
  "ms_to_ticks tps ms =
     (let per_ms = UDIV_CONST tps 1000;
          rem = tps - per_ms * 1000;
          (per_ms, rem) = (if rem \<ge> 1000 then (per_ms - 1, rem + 1000) else (per_ms, rem))
      in per_ms * ms + UDIV_CONST (rem * ms) 1000)"

section \<open>The reciprocal\<close>

lemma unat_max32 [simp]: "unat (0xFFFFFFFF :: u32) = 4294967295"
  by simp

lemma unat_UDIV_RECIP:
  assumes "2 \<le> unat d"
  shows "unat (UDIV_RECIP d) = 4294967295 div unat d + 1"
proof -
  have "4294967295 div unat d \<le> 4294967295 div 2" using assms by (intro div_le_mono2) auto
  then have "unat (0xFFFFFFFF div d) + unat (1::u32) < 2 ^ LENGTH(32)"
    by (simp add: unat_div del: unat_div_distrib)
  then show ?thesis unfolding UDIV_RECIP_def by (simp add: unat_add_lt unat_div)
qed

text \<open>The product \<open>n * R\<close> is taken at 64 bits, where it cannot overflow.\<close>

lemma unat_UDIV_CONST:
  assumes "2 \<le> unat d"
  shows "unat (UDIV_CONST n d) = unat n * (4294967295 div unat d + 1) div 4294967296"
proof -
  let ?R = "4294967295 div unat d + 1"
  have R: "?R \<le> 2147483648" using assms div_le_mono2 [of 2 "unat d" 4294967295] by simp
  have n: "unat n < 4294967296" by simp
  have prod: "unat n * ?R \<le> 4294967295 * 2147483648" using n R by (intro mult_le_mono) linarith+
  have "unat ((ucast n :: u64) * ucast (UDIV_RECIP d)) = unat n * ?R"
  proof -
    have "unat (ucast n :: u64) * unat (ucast (UDIV_RECIP d) :: u64) = unat n * ?R"
      by (simp add: unat_ucast_up unat_UDIV_RECIP [OF assms])
    with prod show ?thesis by (simp add: unat_word_ariths)
  qed
  then have "unat (drop_bit 32 ((ucast n :: u64) * ucast (UDIV_RECIP d))) = unat n * ?R div 4294967296"
    by (subst unat_drop_bit_eq) (simp add: drop_bit_eq_div)
  moreover have "unat n * ?R div 4294967296 < 4294967296" using prod by (simp add: less_mult_imp_div_less)
  ultimately show ?thesis unfolding UDIV_CONST_def
    by (simp add: unsigned_ucast_eq take_bit_nat_eq_self)
qed

text \<open>
  The rounding surplus of the reciprocal: \<open>R * d = 2^32 + e\<close> with \<open>0 < e \<le> d\<close>.
\<close>

definition recip_excess :: "nat \<Rightarrow> nat" where
  "recip_excess d = (4294967295 div d + 1) * d - 4294967296"

lemma recip_excess:
  assumes "0 < d"
  shows "(4294967295 div d + 1) * d = 4294967296 + recip_excess d" and "recip_excess d \<le> d - 1"
proof -
  have m: "4294967295 div d * d + 4294967295 mod d = (4294967295::nat)" by (rule div_mult_mod_eq)
  have "4294967295 mod d < d" using assms by simp
  then have "4294967296 \<le> (4294967295 div d + 1) * d" and "(4294967295 div d + 1) * d \<le> 4294967295 + d"
    using m unfolding add_mult_distrib mult_1 by linarith+
  then show "(4294967295 div d + 1) * d = 4294967296 + recip_excess d" and "recip_excess d \<le> d - 1"
    unfolding recip_excess_def by linarith+
qed

lemma mult_recip_div:
  assumes "0 < d"
  shows "n * (4294967295 div d + 1) div 4294967296 = n div d + (n mod d * 4294967296 + n * recip_excess d) div (d * 4294967296)"
proof -
  let ?R = "4294967295 div d + (1::nat)"
  have "n * ?R div 4294967296 = (n * ?R * d) div (4294967296 * d)" using assms by (simp only: div_mult_mult2 neq0_conv)
  also have "n * ?R * d = n * 4294967296 + n * recip_excess d"
    using recip_excess (1) [OF assms] by (metis add_mult_distrib2 mult.assoc)
  also have "n * 4294967296 = n div d * (d * 4294967296) + n mod d * 4294967296"
    by (metis add_mult_distrib div_mult_mod_eq mult.assoc)
  finally have "n * ?R div 4294967296 =
      (n div d * (d * 4294967296) + (n mod d * 4294967296 + n * recip_excess d)) div (d * 4294967296)"
    by (simp add: ac_simps)
  then show ?thesis using assms by (simp add: div_mult_self3)
qed

lemma surplus_lt:
  assumes "0 < d" "n < 4294967296"
  shows "n mod d * 4294967296 + n * recip_excess d < 2 * (d * 4294967296)"
proof -
  have "n mod d * 4294967296 < d * 4294967296" using assms by simp
  moreover have "n * recip_excess d \<le> 4294967296 * d"
    using assms recip_excess (2) [OF assms(1)] by (intro mult_le_mono) auto
  ultimately show ?thesis by linarith
qed

lemma UDIV_CONST_cases:
  assumes "2 \<le> unat d"
  shows "unat (UDIV_CONST n d) =
    unat n div unat d + (if unat n mod unat d * 4294967296 + unat n * recip_excess (unat d) < unat d * 4294967296 then 0 else 1)"
proof -
  let ?x = "unat n mod unat d * 4294967296 + unat n * recip_excess (unat d)" and ?D = "unat d * 4294967296"
  have d: "0 < unat d" using assms by simp
  have lt: "?x < 2 * ?D" using surplus_lt [OF d, of "unat n"] by simp
  have "?x div ?D = (if ?x < ?D then 0 else 1)"
  proof (cases "?x < ?D")
    case False
    with lt have "?x div ?D = 1" by (intro div_nat_eqI) auto
    with False show ?thesis by simp
  qed simp
  then show ?thesis using unat_UDIV_CONST [OF assms, of n] mult_recip_div [OF d, of "unat n"] by simp
qed

section \<open>Exactness\<close>

lemma UDIV_CONST_mono_div:
  assumes "2 \<le> unat d"
  shows "unat n div unat d \<le> unat (UDIV_CONST n d) \<and> unat (UDIV_CONST n d) \<le> unat n div unat d + 1"
  using UDIV_CONST_cases [OF assms, of n] by simp

lemma UDIV_CONST_eq_div_iff:
  assumes "2 \<le> unat d"
  shows "UDIV_CONST n d = n div d \<longleftrightarrow>
    unat n mod unat d * 4294967296 + unat n * recip_excess (unat d) < unat d * 4294967296"
  using UDIV_CONST_cases [OF assms, of n] by (simp add: word_unat_eq_iff unat_div split: if_splits)

text \<open>A multiple of the divisor always comes out exact: the surplus stays below one.\<close>

lemma UDIV_CONST_multiple:
  assumes "2 \<le> unat d" "unat n = k * unat d"
  shows "unat (UDIV_CONST n d) = k"
proof -
  have d: "0 < unat d" using assms by simp
  have "unat n * recip_excess (unat d) < unat d * 4294967296"
  proof -
    have "unat n * recip_excess (unat d) \<le> 4294967295 * (unat d - 1)"
      using recip_excess(2) [OF d] unat_lt32 [of n] by (intro mult_le_mono) linarith+
    also have "\<dots> < unat d * 4294967296" using d by (cases "unat d") auto
    finally show ?thesis .
  qed
  with assms show ?thesis using UDIV_CONST_cases [OF assms(1), of n] d by simp
qed

text \<open>For every smaller numerator the quotient by a constant below is exact.\<close>

lemma UDIV_CONST_exact_below:
  assumes "2 \<le> unat d" "unat n * recip_excess (unat d) < 4294967296"
  shows "unat (UDIV_CONST n d) = unat n div unat d"
proof -
  have "unat n mod unat d < unat d" using assms(1) by simp
  then have "unat n mod unat d \<le> unat d - 1" by linarith
  then have "unat n mod unat d * 4294967296 \<le> (unat d - 1) * 4294967296" by (rule mult_le_mono1)
  moreover have "(unat d - 1) * 4294967296 + 4294967296 = unat d * 4294967296"
    using assms(1) by (cases "unat d") auto
  ultimately have "unat n mod unat d * 4294967296 + unat n * recip_excess (unat d) < unat d * 4294967296"
    using assms(2) by linarith
  then show ?thesis using UDIV_CONST_cases [OF assms(1), of n] by simp
qed

lemma recip_excess_values [simp]:
  "recip_excess 10 = 4" "recip_excess 100 = 4" "recip_excess 1000 = 704" "recip_excess 1440 = 1184" "recip_excess 60 = 44"
  by (simp_all add: recip_excess_def)

section \<open>Milliseconds to ticks\<close>

lemma rem_wraps: "x < 1000 \<Longrightarrow> 1000 \<le> x - (1000::u32)"
  by (simp add: word_le_nat_alt word_less_nat_alt unat_sub_if_size word_size)

lemma ms_to_ticks_split:
  "ms_to_ticks tps ms = (tps div 1000) * ms + UDIV_CONST ((tps mod 1000) * ms) 1000"
proof -
  have d: "2 \<le> unat (1000::u32)" by simp
  have rem: "tps - tps div 1000 * 1000 = tps mod 1000" by (rule minus_div_mult_eq_mod)
  have lt: "tps mod 1000 < 1000" by (rule word_mod_less_divisor) simp
  have "unat (UDIV_CONST tps 1000) = unat (tps div 1000) \<or> unat (UDIV_CONST tps 1000) = unat (tps div 1000) + 1"
    using UDIV_CONST_cases [OF d, of tps] by (simp add: unat_div split: if_splits)
  moreover have "UDIV_CONST tps 1000 = tps div 1000 + 1" if h: "unat (UDIV_CONST tps 1000) = unat (tps div 1000) + 1"
  proof -
    have "unat (tps div 1000 + 1) = unat (tps div 1000) + 1"
      using unat_lt32 [of "UDIV_CONST tps 1000"] h by (simp add: unat_add_lt)
    with h show ?thesis by (simp add: word_unat_eq_iff)
  qed
  ultimately consider (exact) "UDIV_CONST tps 1000 = tps div 1000" | (over) "UDIV_CONST tps 1000 = tps div 1000 + 1"
    by (auto simp: word_unat_eq_iff)
  then show ?thesis
  proof cases
    case exact
    then show ?thesis using lt by (auto simp: ms_to_ticks_def rem Let_def)
  next
    case over
    have e: "tps - UDIV_CONST tps 1000 * 1000 = tps mod 1000 - 1000"
      unfolding over rem [symmetric] by (simp add: algebra_simps)
    show ?thesis unfolding ms_to_ticks_def Let_def e using rem_wraps [OF lt] by (simp add: over)
  qed
qed

lemma ms_to_ticks_near:
  assumes "(unat tps mod 1000) * unat ms < 4294967296" and "unat tps * unat ms < 1000 * 4294967296"
  shows "ms_to_ticks tps ms = of_nat (unat tps * unat ms div 1000) \<or>
         ms_to_ticks tps ms = of_nat (unat tps * unat ms div 1000) + 1"
proof -
  let ?q = "tps div 1000" and ?r = "tps mod 1000"
  have T: "unat tps * unat ms = unat ?q * unat ms * 1000 + unat ?r * unat ms"
  proof -
    have "unat tps = unat ?q * 1000 + unat ?r" by (simp add: unat_div unat_mod)
    then have "unat tps * unat ms = (unat ?q * 1000 + unat ?r) * unat ms" by (rule arg_cong)
    then show ?thesis by (simp add: add_mult_distrib)
  qed
  have r: "unat (?r * ms) = unat ?r * unat ms" using assms(1) by (simp add: unat_mult_lt unat_mod)
  have "unat tps * unat ms div 1000 = unat ?q * unat ms + unat ?r * unat ms div 1000"
    unfolding T by simp
  then have eq: "of_nat (unat tps * unat ms div 1000) = ?q * ms + of_nat (unat ?r * unat ms div 1000)"
    by simp
  have "unat (UDIV_CONST (?r * ms) 1000) = unat ?r * unat ms div 1000 \<or>
     unat (UDIV_CONST (?r * ms) 1000) = unat ?r * unat ms div 1000 + 1"
    using UDIV_CONST_cases [of 1000 "?r * ms"] by (simp add: r split: if_splits)
  then have "UDIV_CONST (?r * ms) 1000 = of_nat (unat ?r * unat ms div 1000) \<or>
     UDIV_CONST (?r * ms) 1000 = of_nat (unat ?r * unat ms div 1000) + 1"
    by (auto dest!: unat_eq_of_nat simp: add.commute)
  then show ?thesis by (elim disjE) (simp_all only: ms_to_ticks_split eq add.assoc simp_thms)
qed

section \<open>Properties\<close>

text \<open>
  C35. Division by a constant \<open>d \<ge> 2\<close> through the rounded-up reciprocal never comes out
  too small and at most one too large; it equals the true quotient exactly when the
  accumulated rounding surplus \<open>n * e\<close> of the reciprocal does not carry the
  remainder \<open>n mod d\<close> over \<open>d\<close>.
\<close>
theorem UDIV_CONST_correct:
  assumes "2 \<le> unat d"
  shows "unat n div unat d \<le> unat (UDIV_CONST n d) \<and> unat (UDIV_CONST n d) \<le> unat n div unat d + 1
    \<and> (UDIV_CONST n d = n div d \<longleftrightarrow>
      unat n mod unat d * 2 ^ 32 + unat n * recip_excess (unat d) < unat d * 2 ^ 32)"
  using UDIV_CONST_mono_div [OF assms, of n] UDIV_CONST_eq_div_iff [OF assms, of n] by simp_all

theorem UDIV_CONST_correct_witness:
  "2 \<le> unat (1440::u32) \<and> UDIV_CONST 1440 1440 = 1 \<and> UDIV_CONST 3628799 1440 = 2520"
proof -
  have d: "2 \<le> unat (1440::u32)" by simp
  have "UDIV_CONST 1440 1440 = 1440 div 1440" using UDIV_CONST_correct [OF d, of 1440] by simp
  moreover have "UDIV_CONST 3628799 1440 \<noteq> 3628799 div 1440" using UDIV_CONST_correct [OF d, of 3628799] by simp
  moreover have "unat (UDIV_CONST 3628799 1440) \<in> {2519, 2520}"
    using UDIV_CONST_correct [OF d, of 3628799] by auto
  ultimately show ?thesis by (auto dest: unat_eq_of_nat)
qed

text \<open>
  \<open>ms_to_ticks\<close> returns the truncated product \<open>tps * ms / 1000\<close> or one tick
  more, for every rate and delay whose result fits 32 bits and whose scaled remainder
  \<open>(tps mod 1000) * ms\<close> fits too.
\<close>
theorem ms_to_ticks_accurate:
  assumes "unat tps * unat ms < 1000 * 2 ^ 32" and "(unat tps mod 1000) * unat ms < 2 ^ 32"
  shows "ms_to_ticks tps ms = of_nat (unat tps * unat ms div 1000) \<or>
         ms_to_ticks tps ms = of_nat (unat tps * unat ms div 1000) + 1"
  using ms_to_ticks_near [of tps ms] assms by simp

theorem ms_to_ticks_accurate_witness:
  "unat (27000000::u32) * unat (600::u32) < 1000 * 2 ^ 32 \<and> (unat (27000000::u32) mod 1000) * unat (600::u32) < 2 ^ 32
    \<and> (ms_to_ticks 27000000 600 = 16200000 \<or> ms_to_ticks 27000000 600 = 16200001)"
  using ms_to_ticks_accurate [of 27000000 600] by simp

text \<open>
  The header states that \<open>ms_to_ticks\<close> is good for any result that fits in 32 bits,
  that is whenever \<open>tps * ms < 1000 * 2^32\<close>. It is not: at 999 ticks per second and
  4299267 ms the product of the remainder with the delay wraps, and the function returns 0
  where 4294967 ticks have to pass.
\<close>
theorem ms_to_ticks_documented_domain_too_large:
  "\<exists>tps ms. unat tps * unat ms < 1000 * 2 ^ 32 \<and> unat tps * unat ms div 1000 = 4294967 \<and> ms_to_ticks tps ms = 0"
proof (intro exI conjI)
  show "ms_to_ticks 999 4299267 = 0" by (simp add: ms_to_ticks_def UDIV_CONST_def UDIV_RECIP_def)
qed simp_all

end
