(* ===== verification/Checksum.thy ===== *)
theory Checksum
  imports Kos_Base
begin

text \<open>
  \<^verbatim>\<open>client/common/network/checksum.c\<close> and \<^verbatim>\<open>packet_helpers.c\<close>: the
  internet checksum and the IP and UDP header builders. The consoles differ in byte
  order, so every native 16-bit load and store takes an \<open>endian\<close> argument. A read
  beyond the buffer (undefined in C) is the value \<open>None\<close>; so is a negative word
  count, with which the C loop \<open>while(count--)\<close> runs through all of memory.
  \<open>rep16\<close> is the reference semantics: the representative of a sum in
  one's-complement arithmetic modulo 65535.
\<close>

section \<open>Native halfwords\<close>

datatype endian = LE | BE

definition ld16 :: "endian \<Rightarrow> u8 \<Rightarrow> u8 \<Rightarrow> u16" where
  "ld16 e a b = (case e of LE \<Rightarrow> get_be16 b a | BE \<Rightarrow> get_be16 a b)"

definition st16 :: "endian \<Rightarrow> u16 \<Rightarrow> bytes" where
  "st16 e w = (case e of LE \<Rightarrow> rev (be16 w) | BE \<Rightarrow> be16 w)"

definition ld32 :: "endian \<Rightarrow> u8 \<Rightarrow> u8 \<Rightarrow> u8 \<Rightarrow> u8 \<Rightarrow> u32" where
  "ld32 e a b c d = (case e of LE \<Rightarrow> get_le32 a b c d | BE \<Rightarrow> get_be32 a b c d)"

definition st32 :: "endian \<Rightarrow> u32 \<Rightarrow> bytes" where
  "st32 e w = (case e of LE \<Rightarrow> le32 w | BE \<Rightarrow> be32 w)"

lemma length_st32 [simp]: "length (st32 e w) = 4"
  by (cases e) (simp_all add: st32_def)

lemma ld32_st32 [wire_simps]: "ld32 e (st32 e w ! 0) (st32 e w ! 1) (st32 e w ! 2) (st32 e w ! 3) = w"
  by (cases e) (simp_all add: ld32_def st32_def le32_def be32_def get_be32_be32 get_le32_le32)

section \<open>checksum.c\<close>

function fold_carry :: "u32 \<Rightarrow> u32" where
  "fold_carry s = (if drop_bit 16 s \<noteq> 0
     then fold_carry (drop_bit 16 s + (s AND 0xffff)) else s)"
  by pat_completeness auto

lemma unat_hi16: "unat (drop_bit 16 (s::u32)) = unat s div 65536"
  by (subst unat_drop_bit_eq) (simp add: drop_bit_eq_div)

lemma unat_lo16: "unat ((s::u32) AND 0xffff) = unat s mod 65536"
proof -
  have "s AND 0xffff = take_bit 16 s"
    by (simp add: take_bit_eq_mask mask_eq_exp_minus_1)
  moreover have "unat (take_bit 16 s) = take_bit 16 (unat s)"
    by (rule unsigned_take_bit_eq)
  ultimately show ?thesis by (simp add: take_bit_eq_mod)
qed

lemma unat_fold_step: "unat (drop_bit 16 (s::u32) + (s AND 0xffff)) = unat s div 65536 + unat s mod 65536"
proof -
  have "unat s div 65536 < 65536" using unat_lt32 [of s] by (simp add: less_mult_imp_div_less)
  moreover have "unat s mod 65536 < 65536" by simp
  ultimately have "unat s div 65536 + unat s mod 65536 < 2 ^ LENGTH(32)" by simp
  then show ?thesis by (simp add: unat_add_lt unat_hi16 unat_lo16)
qed

termination fold_carry
proof (relation "measure unat")
  fix s :: u32
  assume "drop_bit 16 s \<noteq> 0"
  then have "0 < unat s div 65536" by (metis bot_nat_0.not_eq_extremum unat_eq_zero unat_hi16)
  moreover have "unat s = unat s div 65536 * 65536 + unat s mod 65536" by simp
  ultimately have "unat s div 65536 + unat s mod 65536 < unat s" by linarith
  then show "(drop_bit 16 s + (s AND 0xffff), s) \<in> measure unat" by (simp add: unat_fold_step)
qed simp

declare fold_carry.simps [simp del]

definition fold_sum :: "u32 \<Rightarrow> u16" where
  "fold_sum s = ucast (NOT (fold_carry s))"

definition odd_byte :: "endian \<Rightarrow> u8 \<Rightarrow> u32" where
  "odd_byte e b = ucast (ld16 e b 0)"

fun sum_words :: "endian \<Rightarrow> bytes \<Rightarrow> nat \<Rightarrow> u32 \<Rightarrow> (u32 \<times> bytes) option" where
  "sum_words e buf 0 s = Some (s, buf)"
| "sum_words e (a # b # buf) (Suc count) s = sum_words e buf count (s + ucast (ld16 e a b))"
| "sum_words e buf (Suc count) s = None"

definition finish :: "endian \<Rightarrow> bool \<Rightarrow> u32 \<times> bytes \<Rightarrow> u16 option" where
  "finish e is_odd = (\<lambda>(s, rest).
     if is_odd then (case rest of [] \<Rightarrow> None | b # _ \<Rightarrow> Some (fold_sum (s + odd_byte e b)))
     else Some (fold_sum s))"

definition checksum :: "endian \<Rightarrow> bytes \<Rightarrow> int \<Rightarrow> bool \<Rightarrow> u16 option" where
  "checksum e buf count is_odd =
     (if count < 0 then None
      else Option.bind (sum_words e buf (nat count) 0) (finish e is_odd))"

definition PSEUDO_H_LEN :: nat where "PSEUDO_H_LEN = 20"

definition checksum_udp :: "endian \<Rightarrow> bytes \<Rightarrow> bytes \<Rightarrow> int \<Rightarrow> bool \<Rightarrow> u16 option" where
  "checksum_udp e buf_pseudo buf_data datacount is_odd =
     Option.bind (sum_words e buf_pseudo (PSEUDO_H_LEN div 2) 0) (\<lambda>(s, _).
       if datacount < 0 then None
       else Option.bind (sum_words e buf_data (nat datacount) s) (finish e is_odd))"

section \<open>packet_helpers.c\<close>

definition make_ip :: "endian \<Rightarrow> u32 \<Rightarrow> u32 \<Rightarrow> nat \<Rightarrow> u8 \<Rightarrow> u16 \<Rightarrow> bytes" where
  "make_ip e dest src len protocol pkt_id =
     (let pre = [0x45, 0xb8] @ be16 (of_nat (20 + len)) @ st16 e pkt_id @ be16 0x4000 @ [64, protocol];
          post = be32 src @ be32 dest;
          csum = (case checksum e (pre @ [0, 0] @ post) 10 False of Some c \<Rightarrow> c | None \<Rightarrow> 0)
      in pre @ st16 e csum @ post)"

definition pseudo_header :: "bytes \<Rightarrow> bytes \<Rightarrow> bytes" where
  "pseudo_header ip udp =
     take 4 (drop 12 ip) @ take 4 (drop 16 ip) @ [0, ip ! 9]
     @ take 2 (drop 4 udp) @ take 2 udp @ take 2 (drop 2 udp) @ take 2 (drop 4 udp) @ [0, 0]"

definition make_udp :: "endian \<Rightarrow> u16 \<Rightarrow> u16 \<Rightarrow> nat \<Rightarrow> bytes \<Rightarrow> bytes \<Rightarrow> bytes option" where
  "make_udp e dest src len ip data =
     (let udp = be16 src @ be16 dest @ be16 (of_nat (len + 8)) in
      Option.bind (checksum_udp e (pseudo_header ip udp) data (int (len div 2)) (len mod 2 \<noteq> 0))
        (\<lambda>csum. Some (udp @ st16 e (if csum = 0 then 0xffff else csum))))"

section \<open>Reference semantics\<close>

definition rep16 :: "nat \<Rightarrow> nat" where
  "rep16 s = (if s = 0 then 0 else (s - 1) mod 65535 + 1)"

lemma rep16_le: "rep16 s \<le> 65535"
  using mod_less_divisor [of 65535 "s - 1"] by (auto simp: rep16_def simp del: mod_less_divisor)

lemma rep16_eq_0 [simp]: "rep16 s = 0 \<longleftrightarrow> s = 0"
  by (simp add: rep16_def)

lemma rep16_id: "s \<le> 65535 \<Longrightarrow> rep16 s = s"
  by (simp add: rep16_def)

lemma rep16_add_mult: "0 < a \<Longrightarrow> rep16 (a + k * 65535) = rep16 a"
  by (cases a) (simp_all add: rep16_def)

lemma rep16_cong_le: "a mod 65535 = b mod 65535 \<Longrightarrow> 0 < a \<Longrightarrow> a \<le> b \<Longrightarrow> rep16 a = rep16 b"
proof -
  assume h: "a mod 65535 = b mod 65535" "0 < a" "a \<le> b"
  then have "65535 dvd b - a" by (metis mod_eq_dvd_iff_nat)
  then obtain k where "b - a = k * 65535" by (auto elim: dvdE)
  with h have "b = a + k * 65535" by simp
  with h show ?thesis by (simp add: rep16_add_mult)
qed

lemma rep16_cong: "a mod 65535 = b mod 65535 \<Longrightarrow> (a = 0 \<longleftrightarrow> b = 0) \<Longrightarrow> rep16 a = rep16 b"
proof (cases "a \<le> b")
  case True
  assume "a mod 65535 = b mod 65535" "a = 0 \<longleftrightarrow> b = 0"
  with True show ?thesis by (cases "a = 0") (simp, rule rep16_cong_le, simp_all)
next
  case False
  assume "a mod 65535 = b mod 65535" "a = 0 \<longleftrightarrow> b = 0"
  with False show ?thesis by (intro rep16_cong_le [symmetric]) simp_all
qed

lemma unat_fold_carry: "unat (fold_carry s) = rep16 (unat s)"
proof (induction s rule: fold_carry.induct)
  case (1 s)
  have split: "unat s = (unat s div 65536 + unat s mod 65536) + unat s div 65536 * 65535"
    using div_mult_mod_eq [of "unat s" 65536] by linarith
  show ?case
  proof (cases "drop_bit 16 s = 0")
    case True
    then have "unat s div 65536 = 0" by (metis unat_hi16 unat_0)
    then have "unat s \<le> 65535" by (simp add: div_eq_0_iff)
    with True show ?thesis by (simp add: fold_carry.simps rep16_id)
  next
    case False
    then have pos: "0 < unat s div 65536" by (metis bot_nat_0.not_eq_extremum unat_eq_zero unat_hi16)
    have "rep16 (unat s) = rep16 (unat s div 65536 + unat s mod 65536)"
      by (subst split, subst rep16_add_mult) (use pos in simp_all)
    with 1 [OF False] False show ?thesis by (simp add: fold_carry.simps [of s] unat_fold_step)
  qed
qed

lemma unat_minus1_16: "unat (- 1 :: u16) = 65535"
proof -
  have "(0xffff :: u16) + 1 = 0" by simp
  then have "- 1 = (0xffff :: u16)" by (metis add_eq_0_iff2)
  then have "unat (- 1 :: u16) = unat (0xffff :: u16)" by (rule arg_cong)
  then show ?thesis by (simp only: unat_numeral) simp
qed

lemma unat_fold_sum: "unat (fold_sum s) = 65535 - rep16 (unat s)"
proof -
  let ?f = "fold_carry s"
  have le: "unat ?f \<le> 65535" by (simp add: unat_fold_carry rep16_le)
  have "fold_sum s = NOT (ucast ?f)" unfolding fold_sum_def
    by (rule bit_word_eqI) (simp add: bit_simps)
  moreover have "unat (NOT (ucast ?f :: u16)) = 65535 - unat (ucast ?f :: u16)"
  proof -
    have "NOT (ucast ?f :: u16) = - 1 - ucast ?f" by (simp add: not_eq_complement)
    then show ?thesis using unat_sub [OF word_order.extremum, of "ucast ?f :: u16"] by (simp add: unat_minus1_16)
  qed
  moreover have "unat (ucast ?f :: u16) = unat ?f"
    using le by (simp add: unsigned_ucast_eq take_bit_nat_eq_self)
  ultimately show ?thesis by (simp add: unat_fold_carry)
qed

lemma unat_get_be16: "unat (get_be16 a b) = 256 * unat a + unat b"
proof -
  have "get_be16 a b = push_bit 8 (ucast a) + ucast b" unfolding get_be16_def
    by (rule disjunctive_add [symmetric]) (auto simp: bit_simps dest: bit_imp_le_length)
  also have "\<dots> = 256 * ucast a + ucast b" by (simp add: push_bit_eq_mult)
  finally have *: "get_be16 a b = 256 * ucast a + ucast b" .
  have ab: "unat a < 256" "unat b < 256" by simp_all
  have u: "unat (ucast a :: u16) = unat a" "unat (ucast b :: u16) = unat b"
    by (simp_all add: unat_ucast_up)
  then have "unat (256 * ucast a :: u16) = 256 * unat a" using ab by (subst unat_mult_lt) simp_all
  moreover have "256 * unat a + unat b < 65536" using ab by linarith
  ultimately show ?thesis unfolding * using u by (subst unat_add_lt) simp_all
qed

text \<open>The sum of the zero-padded halfwords of a buffer, as a natural number.\<close>

fun wsum :: "endian \<Rightarrow> bytes \<Rightarrow> nat" where
  "wsum e [] = 0"
| "wsum e [b] = unat (ld16 e b 0)"
| "wsum e (a # b # bs) = unat (ld16 e a b) + wsum e bs"

lemma wsum_le: "wsum e bs \<le> 65535 * ((length bs + 1) div 2)"
proof (induction e bs rule: wsum.induct)
  case (3 e a b bs)
  have "unat (ld16 e a b) \<le> 65535" using unat_lt16 [of "ld16 e a b"] by linarith
  with 3 show ?case by simp
qed (use unat_lt16 in \<open>auto simp: less_Suc_eq_le [symmetric]\<close>)

lemma wsum_append: "even (length xs) \<Longrightarrow> wsum e (xs @ ys) = wsum e xs + wsum e ys"
  by (induction e xs rule: wsum.induct) auto

lemma sum_words_wsum:
  "2 * n \<le> length bs \<Longrightarrow> unat s + wsum e (take (2 * n) bs) < 4294967296 \<Longrightarrow>
   sum_words e bs n s = Some (s + of_nat (wsum e (take (2 * n) bs)), drop (2 * n) bs)"
proof (induction e bs n s rule: sum_words.induct)
  case (2 e a b buf count s)
  have "unat (ucast (ld16 e a b) :: u32) = unat (ld16 e a b)" by (simp add: unat_ucast_up)
  moreover from this 2 have "unat (s + ucast (ld16 e a b)) = unat s + unat (ld16 e a b)"
    by (subst unat_add_lt) simp_all
  moreover have "of_nat (unat (ld16 e a b)) = (ucast (ld16 e a b) :: u32)"
    by (rule of_nat_unat)
  ultimately show ?case using 2 by (simp add: add.assoc)
qed auto

lemma unat_ld16:
  "unat (ld16 BE a b) = 256 * unat a + unat b" "unat (ld16 LE a b) = unat a + 256 * unat b"
  by (simp_all add: ld16_def unat_get_be16)

lemma checksum_sum:
  assumes "length bs < 131072" and c: "c = int (length bs div 2)" and o: "is_odd = odd (length bs)"
  obtains r where "checksum e bs c is_odd = Some r" and "unat r = 65535 - rep16 (wsum e bs)"
proof -
  let ?n = "length bs div 2"
  have "wsum e bs \<le> 65535 * 65536" 
  proof -
    have "(length bs + 1) div 2 \<le> 65536" using assms(1) by linarith
    then have "65535 * ((length bs + 1) div 2) \<le> 65535 * 65536" by (rule mult_le_mono2)
    with wsum_le [of e bs] show ?thesis by (rule order_trans)
  qed
  then have lt: "wsum e bs < 4294967296" by simp
  have f: "unat (fold_sum (of_nat (wsum e bs))) = 65535 - rep16 (wsum e bs)"
    unfolding unat_fold_sum by (subst unat_of_nat_lt) (use lt in simp_all)
  have split: "wsum e bs = wsum e (take (2 * ?n) bs) + wsum e (drop (2 * ?n) bs)"
    using wsum_append [of "take (2 * ?n) bs" e "drop (2 * ?n) bs"] by simp
  have sw: "sum_words e bs ?n 0 = Some (of_nat (wsum e (take (2 * ?n) bs)), drop (2 * ?n) bs)"
    using sum_words_wsum [of ?n bs 0 e] lt split by simp
  show thesis
  proof (cases "odd (length bs)")
    case True
    then have "length (drop (2 * ?n) bs) = 1" by (auto elim!: oddE)
    then obtain b where b: "drop (2 * ?n) bs = [b]" by (cases "drop (2 * ?n) bs") auto
    have "of_nat (wsum e (take (2 * ?n) bs)) + odd_byte e b = (of_nat (wsum e bs) :: u32)"
      unfolding split b by (simp add: odd_byte_def of_nat_unat)
    with True sw b have "checksum e bs c is_odd = Some (fold_sum (of_nat (wsum e bs)))"
      by (simp add: checksum_def finish_def c o)
    with f show thesis by (intro that)
  next
    case False
    then have "drop (2 * ?n) bs = []" by simp
    with False sw have "checksum e bs c is_odd = Some (fold_sum (of_nat (wsum e bs)))"
      by (simp add: checksum_def finish_def c o)
    with f show thesis by (intro that)
  qed
qed

section \<open>Byte order independence\<close>

definition swapn :: "nat \<Rightarrow> nat" where
  "swapn n = n mod 256 * 256 + n div 256"

lemma mod256: "x < 256 \<Longrightarrow> (x + y * 256) mod 256 = (x::nat)" by simp

lemma div256: "x < 256 \<Longrightarrow> (x + y * 256) div 256 = (y::nat)" by simp

lemma swapn_cong: "256 * n = swapn n + 65535 * (n div 256)"
  using div_mult_mod_eq [of n 256] unfolding swapn_def by linarith

lemma swapn_le: "n \<le> 65535 \<Longrightarrow> swapn n \<le> 65535"
proof -
  assume "n \<le> 65535"
  then have "n div 256 \<le> 255" by linarith
  moreover have "n mod 256 \<le> 255" using mod_less_divisor [of 256 n] by linarith
  ultimately show ?thesis unfolding swapn_def by linarith
qed

lemma swapn_compl: "n \<le> 65535 \<Longrightarrow> swapn (65535 - n) = 65535 - swapn n"
proof -
  assume n: "n \<le> 65535"
  let ?h = "n div 256" and ?l = "n mod 256"
  have h: "?h \<le> 255" using n by linarith
  have l: "?l \<le> 255" using mod_less_divisor [of 256 n] by linarith
  have e: "65535 - n = (255 - ?l) + (255 - ?h) * 256"
    using div_mult_mod_eq [of n 256] n h l by linarith
  have m: "(65535 - n) mod 256 = 255 - ?l" and d: "(65535 - n) div 256 = 255 - ?h"
    unfolding e using mod256 [of "255 - ?l"] div256 [of "255 - ?l"] by simp_all
  have "?l * 256 + ?h \<le> 65535" using h l by linarith
  then show ?thesis unfolding swapn_def m d using h l by linarith
qed

lemma swapn_eq_0: "swapn n = 0 \<longleftrightarrow> n = 0"
  unfolding swapn_def by (metis add_is_0 div_mult_mod_eq mult_is_0 zero_neq_numeral)

lemma wsum_swap: "\<exists>k. 256 * wsum BE bs = wsum LE bs + 65535 * k"
proof (induction "BE" bs rule: wsum.induct)
  case (3 a b bs)
  then obtain k where "256 * wsum BE bs = wsum LE bs + 65535 * k" by auto
  then have "256 * wsum BE (a # b # bs) = wsum LE (a # b # bs) + 65535 * (k + unat a)"
    by (simp add: unat_ld16 algebra_simps)
  then show ?case by blast
qed (auto simp: unat_ld16 intro: exI [of _ "unat b" for b])

lemma wsum_eq_0: "wsum LE bs = 0 \<longleftrightarrow> wsum BE bs = 0"
  by (induction "BE" bs rule: wsum.induct) (auto simp: unat_ld16)

lemma rep16_swap: "rep16 (wsum LE bs) = swapn (rep16 (wsum BE bs))"
proof -
  let ?p = "rep16 (wsum BE bs)"
  obtain k where k: "256 * wsum BE bs = wsum LE bs + 65535 * k" using wsum_swap by blast
  have m: "rep16 n mod 65535 = n mod 65535" for n
    by (cases n) (simp_all add: rep16_def mod_Suc_eq)
  have "swapn ?p mod 65535 = 256 * ?p mod 65535" using swapn_cong [of ?p] by simp
  also have "\<dots> = 256 * wsum BE bs mod 65535" by (metis m mod_mult_right_eq)
  also have "\<dots> = wsum LE bs mod 65535" unfolding k by simp
  finally have "rep16 (swapn ?p) = rep16 (wsum LE bs)"
    by (rule rep16_cong) (simp add: swapn_eq_0 wsum_eq_0)
  then show ?thesis by (simp add: rep16_id swapn_le rep16_le)
qed

lemma st16_swap: "unat a = swapn (unat b) \<Longrightarrow> st16 LE a = st16 BE b"
proof -
  assume h: "unat a = swapn (unat b)"
  define x y :: u8 where "x = ucast (drop_bit 8 b)" and "y = ucast b"
  then have b: "b = get_be16 x y" by (simp add: get_be16_be16)
  have "unat a = unat (get_be16 y x)"
    unfolding h b swapn_def unat_get_be16 using mod256 [of "unat y" "unat x"] div256 [of "unat y" "unat x"]
    by (simp add: algebra_simps)
  then have a: "a = get_be16 y x" by (simp add: word_unat_eq_iff)
  have hl: "ucast (drop_bit 8 (get_be16 p q)) = p" "ucast (get_be16 p q) = q" for p q
    by (rule bit_word_eqI; auto simp: get_be16_def bit_simps dest: bit_imp_le_length)+
  show ?thesis by (simp add: st16_def be16_def a b hl)
qed

section \<open>Header builders\<close>

lemma length_st16 [simp]: "length (st16 e w) = 2"
  by (cases e) (simp_all add: st16_def)

lemma wsum_st16: "wsum e (st16 e w) = unat w"
  by (cases e) (simp_all add: st16_def be16_def ld16_def get_be16_be16)

lemma rep16_complement: "rep16 (s + (65535 - rep16 s)) = 65535"
proof (cases "s = 0")
  case False
  then have r: "rep16 s = (s - 1) mod 65535 + 1" by (simp add: rep16_def)
  have "s - 1 = (s - 1) div 65535 * 65535 + (s - 1) mod 65535" by simp
  then have "s = (s - 1) div 65535 * 65535 + rep16 s" using False r by linarith
  moreover have "rep16 s \<le> 65535" by (rule rep16_le)
  ultimately have "s + (65535 - rep16 s) = 65535 + (s - 1) div 65535 * 65535" by linarith
  then show ?thesis using rep16_add_mult [of 65535] by (simp add: rep16_def)
qed (simp add: rep16_def)

text \<open>Writing the computed checksum into a zeroed field makes the whole sum come out as zero.\<close>

lemma checksum_verifies:
  assumes "even (length pre)" "length pre + length post < 100000"
    and n: "c = int ((length pre + length post) div 2) + 1" and o: "is_odd = odd (length post)"
    and r: "checksum e (pre @ [0, 0] @ post) c is_odd = Some r"
  shows "checksum e (pre @ st16 e r @ post) c is_odd = Some 0"
proof -
  let ?z = "pre @ [0, 0] @ post" and ?b = "pre @ st16 e r @ post"
  have c: "c = int (length ?z div 2)" "c = int (length ?b div 2)" using n by simp_all
  have o: "is_odd = odd (length ?z)" "is_odd = odd (length ?b)" using assms(1) o by simp_all
  have l: "length ?z < 131072" "length ?b < 131072" using assms(2) by simp_all
  from checksum_sum [OF l(1) c(1) o(1), of e] r have u: "unat r = 65535 - rep16 (wsum e ?z)" by auto
  obtain q where q: "checksum e ?b c is_odd = Some q" "unat q = 65535 - rep16 (wsum e ?b)"
    by (rule checksum_sum [OF l(2) c(2) o(2), of e]) (rule that)
  have z: "ld16 e 0 0 = 0" by (cases e) (simp_all add: ld16_def get_be16_def)
  have "wsum e ?b = wsum e ?z + unat r"
    using assms(1) by (simp add: wsum_append wsum_st16 z)
  with q(2) rep16_complement [of "wsum e ?z"] u have "unat q = 0" by simp
  with q(1) show ?thesis by (simp add: unat_eq_zero)
qed

lemma ld16_zero_iff: "unat (ld16 e a b) = 0 \<longleftrightarrow> a = 0 \<and> b = 0"
  by (cases e) (auto simp: unat_ld16 unat_eq_zero)

lemma length_make_ip [simp]: "length (make_ip e dest src len protocol pkt_id) = 20"
  by (simp add: make_ip_def Let_def)

lemma length_pseudo_header: "length ip = 20 \<Longrightarrow> 6 \<le> length udp \<Longrightarrow> length (pseudo_header ip udp) = 20"
  by (simp add: pseudo_header_def)

lemma checksum_udp_sum:
  assumes "length ps = 20" "length bs < 65536"
    and c: "c = int (length bs div 2)" and o: "is_odd = odd (length bs)"
  obtains r where "checksum_udp e ps bs c is_odd = Some r" and "unat r = 65535 - rep16 (wsum e ps + wsum e bs)"
proof -
  have l: "length (ps @ bs) < 131072" using assms by simp
  obtain r where r: "checksum e (ps @ bs) (10 + c) is_odd = Some r" "unat r = 65535 - rep16 (wsum e (ps @ bs))"
    by (rule checksum_sum [OF l, of "10 + c" is_odd e]) (use assms in auto)
  have nc: "nat (10 + c) = 10 + nat c" using c by simp
  have app: "sum_words e (ps @ bs) (10 + m) s = Option.bind (sum_words e ps 10 s) (\<lambda>(s, _). sum_words e bs m s)" for m s
  proof -
    have gen: "sum_words e (xs @ bs) (n + m) t = Option.bind (sum_words e xs n t) (\<lambda>(t, _). sum_words e bs m t)"
      if "length xs = 2 * n" for xs n t using that
      by (induction e xs n t rule: sum_words.induct) auto
    show ?thesis using gen [of ps 10 s] assms(1) by simp
  qed
  have "checksum_udp e ps bs c is_odd = checksum e (ps @ bs) (10 + c) is_odd"
    unfolding checksum_def checksum_udp_def nc app PSEUDO_H_LEN_def using c by (auto split: bind_splits)
  then show thesis using r assms(1) by (intro that [of r]) (simp_all add: wsum_append)
qed

lemma make_udp_exists:
  assumes "length ip = 20" "length payload < 65536"
  shows "\<exists>udp. make_udp e dport sport (length payload) ip payload = Some udp \<and> length udp = 8"
proof -
  let ?u = "be16 sport @ be16 dport @ be16 (of_nat (length payload + 8))"
  obtain r where "checksum_udp e (pseudo_header ip ?u) payload (int (length payload div 2)) (length payload mod 2 \<noteq> 0) = Some r"
    by (rule checksum_udp_sum [of "pseudo_header ip ?u" payload "int (length payload div 2)" "length payload mod 2 \<noteq> 0" e])
      (use assms in \<open>simp_all add: length_pseudo_header odd_iff_mod_2_eq_one\<close>)
  then show ?thesis unfolding make_udp_def Let_def by simp
qed

text \<open>Bytes behind the counted halfwords do not change a checksum.\<close>

lemma sum_words_append:
  "sum_words e xs n s = Some (t, r) \<Longrightarrow> sum_words e (xs @ ys) n s = Some (t, r @ ys)"
  by (induction e xs n s rule: sum_words.induct) auto

lemma finish_append: "finish e is_odd (t, r) = Some c \<Longrightarrow> finish e is_odd (t, r @ ys) = Some c"
  by (cases r) (auto simp: finish_def split: if_splits)

lemma sum_finish_append:
  assumes "Option.bind (sum_words e xs n s) (finish e is_odd) = Some c"
  shows "Option.bind (sum_words e (xs @ ys) n s) (finish e is_odd) = Some c"
proof -
  obtain t r where "sum_words e xs n s = Some (t, r)" "finish e is_odd (t, r) = Some c"
    using assms by (auto simp: bind_eq_Some_conv)
  then show ?thesis by (simp add: sum_words_append finish_append)
qed

lemma checksum_append: "checksum e xs n is_odd = Some c \<Longrightarrow> checksum e (xs @ ys) n is_odd = Some c"
  by (auto simp: checksum_def sum_finish_append split: if_splits)

lemma checksum_udp_append:
  assumes "checksum_udp e ps xs n is_odd = Some c"
  shows "checksum_udp e ps (xs @ ys) n is_odd = Some c"
proof -
  obtain t r where t: "sum_words e ps (PSEUDO_H_LEN div 2) 0 = Some (t, r)"
    using assms by (auto simp: checksum_udp_def bind_eq_Some_conv)
  with assms show ?thesis by (auto simp: checksum_udp_def sum_finish_append split: if_splits)
qed

text \<open>The UDP header \<open>make_udp\<close> builds, and why its checksum field passes the receiver's test.\<close>

lemma make_udp_fields:
  assumes "length ip = 20" "length payload < 65528" "ip ! 9 = 17"
  obtains r where "make_udp e dport sport (length payload) ip payload =
      Some (be16 sport @ be16 dport @ be16 (of_nat (length payload + 8)) @ st16 e (if r = 0 then 0xffff else r))"
    "checksum_udp e (pseudo_header ip (be16 sport @ be16 dport @ be16 (of_nat (length payload + 8)))) payload
       (int (length payload div 2)) (odd (length payload)) = Some r" "r \<noteq> 0xffff"
proof -
  let ?u = "be16 sport @ be16 dport @ be16 (of_nat (length payload + 8))"
  let ?ps = "pseudo_header ip ?u"
  have l: "length ?ps = 20" using assms(1) by (simp add: length_pseudo_header)
  obtain r where r: "checksum_udp e ?ps payload (int (length payload div 2)) (odd (length payload)) = Some r"
      "unat r = 65535 - rep16 (wsum e ?ps + wsum e payload)"
    by (rule checksum_udp_sum [OF l, of payload "int (length payload div 2)" "odd (length payload)" e]) (use assms(2) in simp_all)
  have "wsum e ?ps \<noteq> 0"
  proof -
    let ?a = "take 4 (drop 12 ip) @ take 4 (drop 16 ip)"
    have split: "?ps = ?a @ [0, 17] @ (take 2 (drop 4 ?u) @ take 2 ?u @ take 2 (drop 2 ?u) @ take 2 (drop 4 ?u) @ [0, 0])"
      using assms(3) by (simp add: pseudo_header_def)
    have "unat (ld16 e 0 17) \<noteq> 0" by (simp add: ld16_zero_iff)
    then show ?thesis unfolding split using assms(1) by (simp add: wsum_append)
  qed
  then have "1 \<le> rep16 (wsum e ?ps + wsum e payload)" by (simp add: Suc_le_eq neq0_conv [symmetric] del: neq0_conv)
  then have "r \<noteq> 0xffff" using r(2) by auto
  moreover have "make_udp e dport sport (length payload) ip payload = Some (?u @ st16 e (if r = 0 then 0xffff else r))"
    unfolding make_udp_def Let_def odd_iff_mod_2_eq_one [symmetric] using r(1) by (simp add: odd_iff_mod_2_eq_one)
  ultimately show thesis using r(1) by (intro that [of r]) simp_all
qed

definition ip_pre :: "endian \<Rightarrow> nat \<Rightarrow> u8 \<Rightarrow> u16 \<Rightarrow> bytes" where
  "ip_pre e len protocol pkt_id =
     [0x45, 0xb8] @ be16 (of_nat (20 + len)) @ st16 e pkt_id @ be16 0x4000 @ [64, protocol]"

lemma length_ip_pre [simp]: "length (ip_pre e len protocol pkt_id) = 10"
  by (simp add: ip_pre_def)

lemma make_ip_shape:
  obtains r where "make_ip e dest src len protocol pkt_id = ip_pre e len protocol pkt_id @ st16 e r @ be32 src @ be32 dest"
    "checksum e (ip_pre e len protocol pkt_id @ [0, 0] @ be32 src @ be32 dest) 10 False = Some r"
proof -
  let ?z = "ip_pre e len protocol pkt_id @ [0, 0] @ be32 src @ be32 dest"
  obtain r where r: "checksum e ?z 10 False = Some r"
    by (rule checksum_sum [of ?z 10 False e]) simp_all
  have "make_ip e dest src len protocol pkt_id = ip_pre e len protocol pkt_id @ st16 e r @ be32 src @ be32 dest"
    unfolding make_ip_def Let_def ip_pre_def [symmetric] r by simp
  then show thesis using r by (rule that)
qed

section \<open>Properties\<close>

text \<open>
  C32. RFC 1071 byte-order independence: for every buffer below 128 KiB, odd lengths included, a
  little-endian and a big-endian console compute checksums whose stored bytes are the same, and the value is
  the complement of the one's-complement sum of the zero-padded big-endian halfwords.
\<close>
theorem checksum_byte_order_independent:
  assumes "length bs < 131072"
  shows "\<exists>l b. checksum LE bs (int (length bs div 2)) (odd (length bs)) = Some l
     \<and> checksum BE bs (int (length bs div 2)) (odd (length bs)) = Some b
     \<and> st16 LE l = st16 BE b \<and> unat b = 65535 - rep16 (wsum BE bs)"
proof -
  obtain l b where *: "checksum LE bs (int (length bs div 2)) (odd (length bs)) = Some l"
      "unat l = 65535 - rep16 (wsum LE bs)"
      "checksum BE bs (int (length bs div 2)) (odd (length bs)) = Some b"
      "unat b = 65535 - rep16 (wsum BE bs)"
    using checksum_sum [OF assms refl refl] by metis
  moreover have "st16 LE l = st16 BE b"
    using * by (intro st16_swap) (simp add: rep16_swap swapn_compl rep16_le)
  ultimately show ?thesis by blast
qed

theorem checksum_byte_order_independent_witness:
  "length [0x12, 0x34, 0x56::u8] < 131072 \<and>
   (\<exists>l b. checksum LE [0x12, 0x34, 0x56] 1 True = Some l \<and> checksum BE [0x12, 0x34, 0x56] 1 True = Some b
     \<and> st16 LE l = st16 BE b)"
  using checksum_byte_order_independent [of "[0x12, 0x34, 0x56]"] by auto

text \<open>
  Every IP header \<open>make_ip\<close> builds, on either byte order, carries a valid checksum: summed over its ten halfwords
  with the checksum in place it comes out as zero, which is the receiver's RFC 791 test.
\<close>
theorem make_ip_checksum_valid:
  "length (make_ip e dest src len protocol pkt_id) = 20 \<and>
   checksum e (make_ip e dest src len protocol pkt_id) 10 False = Some 0"
proof -
  let ?pre = "ip_pre e len protocol pkt_id" and ?post = "be32 src @ be32 dest"
  obtain r where m: "make_ip e dest src len protocol pkt_id = ?pre @ st16 e r @ ?post"
      and r: "checksum e (?pre @ [0, 0] @ ?post) 10 False = Some r" by (rule make_ip_shape)
  have "checksum e (?pre @ st16 e r @ ?post) 10 False = Some 0"
    by (intro checksum_verifies r) simp_all
  then show ?thesis unfolding m by simp
qed

end
