(* ===== verification/Client_State.thy ===== *)
theory Client_State
  imports Checksum Divutil "HOL-Library.Monad_Syntax"
begin

text \<open>
  The state shared by the network client: the globals of
  \<^verbatim>\<open>client/common/core/commands.c\<close>, \<^verbatim>\<open>network/net.c\<close> and
  \<^verbatim>\<open>network/network_syscalls.c\<close> in one record, guest memory as a function from
  32-bit addresses to bytes, and every call into the hardware layer (\<open>bb\<close> and
  \<open>target_ops_t\<close>) as an entry of the trace. What the console-specific layer decides
  (byte order, adapter, RAM size, the adapter's receive loop, the executed program) is
  the record \<open>platform\<close>, an argument of every handler. Undefined behaviour of the C code
  (reading past the received packet, writing past the transmit buffer) is \<open>None\<close>.
\<close>

section \<open>Trace\<close>

datatype event =
    Tx bytes | BbStop | BbInit | BbStart
  | DispInfo | DispStatus string | ScreensaverReset | ScreensaverWake
  | SetConsole bool | CdfsRedirEnable | FwUpdatePrepare
  | Execute u32 | RestartTimer | Reboot | SetRtc u32
  | CachePurge u32 u32
  | PmcrInit u8 u8 u8 | PmcrEnable u8 u8 u8 u8 | PmcrRestart u8 u8 u8 | PmcrRead u8 | PmcrGetConfig u8
  | PmcrStop u8 | PmcrDisable u8

type_synonym memory = "u32 \<Rightarrow> u8"

definition mem_read :: "memory \<Rightarrow> u32 \<Rightarrow> nat \<Rightarrow> bytes" where
  "mem_read m a n = map (\<lambda>i. m (a + of_nat i)) [0..<n]"

fun mem_write :: "memory \<Rightarrow> u32 \<Rightarrow> bytes \<Rightarrow> memory" where
  "mem_write m a [] = m"
| "mem_write m a (b # bs) = mem_write (m(a := b)) (a + 1) bs"

section \<open>Client state\<close>

record info =
  console_ip :: bytes
  console_port :: bytes
  host_ip :: bytes
  host_port :: bytes
  capabilities :: u32
  host_capabilities :: u32
  argc :: u32
  argv_data :: bytes

record client =
  our_ip :: u32
  tool_ip :: u32
  tool_mac :: bytes
  tool_port :: u16
  tool_version :: u32
  cached_dest :: bool
  payload1024 :: bool
  load_address :: u32
  load_size :: u32
  bin_map :: bytes
  running :: bool
  booted :: bool
  escape_loop :: bool
  kosload_info :: info
  kosload_syscall_port :: u16
  syscall_retval :: u32
  syscall_data :: bytes
  syscall_data_len :: u32
  loop_deadline_ticks :: u64
  kos_syscall_save_pkt :: bytes
  kos_syscall_timeout_ticks :: u64
  kos_syscall_seq :: u32
  kos_syscall_next_seq :: u32
  our_dir :: bytes
  pkt_buf :: bytes
  dhcpoffer_server_ip_from_pkt :: u32
  dhcpoffer_ip_from_pkt :: u32
  dhcpoffer_xid :: u32
  dhcp_lease_time :: u32
  renewal_increment :: u32
  dhcp_acked :: bool
  dhcp_renewal :: bool
  dhcp_renewal_nak :: bool
  dhcp_nak_received :: bool
  dhcp_nest_counter_maxed :: bool
  dhcp_attempts :: nat
  router_mac :: bytes
  timeout_loop :: int
  lease_expiry_rtc :: u32
  lease_display_secs :: u32
  last_display_tick :: u64
  dont_renew :: bool
  renew_threshold :: u32
  screensaver_active :: bool
  rtc :: u32
  ticks :: u64
  mem :: memory
  trace :: "event list"

record platform =
  endian :: endian
  bb_mac :: bytes
  bb_name :: bytes
  bb_lossy :: bool
  bb_loop :: "client \<Rightarrow> client"
  installed_adapter :: u32
  loader_string :: bytes
  MAX_RAM_BYTES :: nat
  detect_ram_size :: u32
  ticks_per_second :: u32
  has_get_ticks :: bool
  has_cdfs_redir :: bool
  has_fw_update_prepare :: bool
  run_program :: "u32 \<Rightarrow> client \<Rightarrow> client"
  maple_docmd :: "nat \<Rightarrow> bytes \<Rightarrow> bytes"
  pmcr_counter :: "u8 \<Rightarrow> bytes"
  pmcr_config :: "u8 \<Rightarrow> bytes"
  our_dir_addr :: u32
  rodata :: "string \<Rightarrow> u32"

definition emit :: "event \<Rightarrow> client \<Rightarrow> client" where
  "emit ev st = st\<lparr>trace := trace st @ [ev]\<rparr>"

definition DCTOOL_MAJOR :: "client \<Rightarrow> u32" where
  "DCTOOL_MAJOR st = drop_bit 16 (tool_version st AND 0x00ff0000)"

definition host_supports_dedup :: "client \<Rightarrow> bool" where
  "host_supports_dedup st = (tool_version st \<ge> 0x00030000)"

section \<open>Status screen\<close>

text \<open>
  \<^verbatim>\<open>network/entry.c\<close>: \<open>disp_info\<close> redraws the screen (the trace entry), refreshes the info
  block and the lease countdown and marks the loader as booted.
\<close>

definition lease_resync_from_rtc :: "client \<Rightarrow> client" where
  "lease_resync_from_rtc st =
     (if lease_expiry_rtc st = 0 then st\<lparr>lease_display_secs := 0\<rparr>
      else st\<lparr>lease_display_secs := (if rtc st < lease_expiry_rtc st then lease_expiry_rtc st - rtc st else 0),
              last_display_tick := ticks st\<rparr>)"

definition disp_info :: "client \<Rightarrow> client" where
  "disp_info st =
     (let st = emit DispInfo st;
          st = st\<lparr>kosload_info := (kosload_info st)\<lparr>console_ip := be32 (our_ip st), host_ip := be32 (tool_ip st),
                 host_port := be16 (tool_port st), console_port := be16 (kosload_syscall_port st)\<rparr>\<rparr>;
          st = st\<lparr>last_display_tick := ticks st\<rparr>;
          st = (if lease_expiry_rtc st \<noteq> 0 then lease_resync_from_rtc st else st)
      in st\<lparr>booted := True\<rparr>)"

definition disp_status :: "string \<Rightarrow> client \<Rightarrow> client" where
  "disp_status status st = emit (DispStatus status) st"

section \<open>Packets\<close>

definition ETHER_H_LEN :: nat where "ETHER_H_LEN = 14"
definition IP_H_LEN :: nat where "IP_H_LEN = 20"
definition UDP_H_LEN :: nat where "UDP_H_LEN = 8"
definition COMMAND_LEN :: nat where "COMMAND_LEN = 12"
definition NET_SEQ_TRAILER_LEN :: nat where "NET_SEQ_TRAILER_LEN = 8"
definition TX_CAPACITY :: nat where "TX_CAPACITY = 1534"
definition KOSLOAD_MAX_ARGV_DATA :: nat where "KOSLOAD_MAX_ARGV_DATA = 256"

lemmas len_defs = ETHER_H_LEN_def IP_H_LEN_def UDP_H_LEN_def COMMAND_LEN_def NET_SEQ_TRAILER_LEN_def
  TX_CAPACITY_def KOSLOAD_MAX_ARGV_DATA_def

definition ascii :: "string \<Rightarrow> bytes" where
  "ascii s = map (\<lambda>c. of_nat (of_char c)) s"

lemma length_ascii [simp]: "length (ascii s) = length s"
  by (simp add: ascii_def)

definition NET_SEQ_MAGIC :: bytes where "NET_SEQ_MAGIC = ascii ''KSQ0''"
definition NET_INLINE_RET_MAGIC :: bytes where "NET_INLINE_RET_MAGIC = ascii ''KIR0''"

text \<open>The headers of the datagram a handler answers, in host byte order, and the command itself.\<close>

record headers =
  eth_src :: bytes
  eth_dest :: bytes
  ip_src :: u32
  ip_dest :: u32
  ip_packet_id :: u16
  udp_src :: u16
  udp_dest :: u16
  udp_length :: u16

record command =
  cmd_id :: bytes
  cmd_address :: u32
  cmd_size :: u32
  cmd_data :: bytes

definition command_bytes :: "command \<Rightarrow> bytes" where
  "command_bytes c = cmd_id c @ be32 (cmd_address c) @ be32 (cmd_size c)"

definition make_ether :: "bytes \<Rightarrow> bytes \<Rightarrow> bytes \<Rightarrow> bytes" where
  "make_ether dest src pkt = take 6 dest @ take 6 src @ [8, 0] @ drop 14 pkt"

text \<open>
  The common tail of every handler: \<open>make_ip\<close>, \<open>make_udp\<close> over the payload already in
  \<open>pkt_buf\<close> and \<open>bb->tx\<close> of the whole frame.
\<close>

definition send_udp :: "platform \<Rightarrow> u32 \<Rightarrow> u32 \<Rightarrow> u16 \<Rightarrow> u16 \<Rightarrow> u16 \<Rightarrow> bytes \<Rightarrow> client \<Rightarrow> client option" where
  "send_udp p dest_ip src_ip pkt_id dport sport payload st =
     (let ip = make_ip (endian p) dest_ip src_ip (UDP_H_LEN + length payload) 17 pkt_id in
      do {
        udp \<leftarrow> make_udp (endian p) dport sport (length payload) ip payload;
        let frame = take ETHER_H_LEN (pkt_buf st) @ ip @ udp @ payload;
        if length frame > TX_CAPACITY then None
        else Some (emit (Tx frame) (st\<lparr>pkt_buf := frame @ drop (length frame) (pkt_buf st)\<rparr>))
      })"

section \<open>Lemmas on memory and frames\<close>

lemma mem_read_0 [simp]: "mem_read m a 0 = []"
  by (simp add: mem_read_def)

lemma length_mem_read [simp]: "length (mem_read m a n) = n"
  by (simp add: mem_read_def)

lemma mem_read_Suc: "mem_read m a (Suc n) = m a # mem_read m (a + 1) n"
  unfolding mem_read_def by (simp add: upt_conv_Cons map_Suc_upt [symmetric] add.assoc [symmetric]
    del: upt_Suc)

lemma mem_read_add: "mem_read m a (i + j) = mem_read m a i @ mem_read m (a + of_nat i) j"
proof (induction i arbitrary: a)
  case (Suc i)
  have "a + 1 + of_nat i = a + of_nat (Suc i)" by (simp add: add.assoc)
  with Suc show ?case by (simp only: add_Suc mem_read_Suc append_Cons)
qed simp

text \<open>A write of at most \<open>2^32\<close> bytes leaves at each offset the byte written there and nothing else changed.\<close>

lemma mem_write_other:
  "(\<And>i. i < length bs \<Longrightarrow> x \<noteq> a + of_nat i) \<Longrightarrow> mem_write m a bs x = m x"
proof (induction bs arbitrary: m a)
  case (Cons b bs)
  have "x \<noteq> a" using Cons.prems [of 0] by simp
  moreover have "x \<noteq> a + 1 + of_nat i" if "i < length bs" for i
    using Cons.prems [of "Suc i"] that by (simp add: add.assoc)
  ultimately show ?case by (simp add: Cons.IH)
qed simp

lemma mem_write_same:
  "i < length bs \<Longrightarrow> length bs \<le> 4294967296 \<Longrightarrow> mem_write m a bs (a + of_nat i) = bs ! i"
proof (induction bs arbitrary: m a i)
  case (Cons b bs)
  show ?case
  proof (cases i)
    case 0
    have "a \<noteq> a + 1 + of_nat j" if "j < length bs" for j
    proof
      assume "a = a + 1 + of_nat j"
      then have "of_nat (Suc j) = (0::u32)" by (simp add: add.assoc)
      moreover have "Suc j < 2 ^ LENGTH(32)" using that Cons.prems by simp
      ultimately have "Suc j = 0" by (metis unat_0 unat_of_nat_lt)
      then show False by simp
    qed
    then show ?thesis using 0 by (simp add: mem_write_other)
  next
    case (Suc k)
    have "a + of_nat (Suc k) = a + 1 + of_nat k" by (simp add: add.assoc)
    then show ?thesis unfolding Suc mem_write.simps using Suc Cons.prems by (simp only: Cons.IH length_Cons) simp
  qed
qed simp

lemma mem_read_write: "length bs \<le> 4294967296 \<Longrightarrow> mem_read (mem_write m a bs) a (length bs) = bs"
  unfolding mem_read_def by (rule nth_equalityI) (simp_all add: mem_write_same)

lemma emit_simps [simp]:
  "mem (emit ev st) = mem st" "bin_map (emit ev st) = bin_map st" "pkt_buf (emit ev st) = pkt_buf st"
  "running (emit ev st) = running st" "booted (emit ev st) = booted st"
  "tool_version (emit ev st) = tool_version st" "our_ip (emit ev st) = our_ip st"
  "tool_ip (emit ev st) = tool_ip st" "tool_port (emit ev st) = tool_port st"
  "tool_mac (emit ev st) = tool_mac st" "load_address (emit ev st) = load_address st"
  "load_size (emit ev st) = load_size st" "payload1024 (emit ev st) = payload1024 st"
  "cached_dest (emit ev st) = cached_dest st" "kosload_info (emit ev st) = kosload_info st"
  "kosload_syscall_port (emit ev st) = kosload_syscall_port st"
  "kos_syscall_seq (emit ev st) = kos_syscall_seq st"
  "kos_syscall_next_seq (emit ev st) = kos_syscall_next_seq st"
  "kos_syscall_save_pkt (emit ev st) = kos_syscall_save_pkt st" "ticks (emit ev st) = ticks st"
  "loop_deadline_ticks (emit ev st) = loop_deadline_ticks st" "our_dir (emit ev st) = our_dir st"
  "kos_syscall_timeout_ticks (emit ev st) = kos_syscall_timeout_ticks st"
  "dhcpoffer_server_ip_from_pkt (emit ev st) = dhcpoffer_server_ip_from_pkt st"
  "dhcpoffer_ip_from_pkt (emit ev st) = dhcpoffer_ip_from_pkt st"
  "dhcpoffer_xid (emit ev st) = dhcpoffer_xid st" "dhcp_lease_time (emit ev st) = dhcp_lease_time st"
  "renewal_increment (emit ev st) = renewal_increment st" "dhcp_acked (emit ev st) = dhcp_acked st"
  "dhcp_renewal (emit ev st) = dhcp_renewal st" "dhcp_renewal_nak (emit ev st) = dhcp_renewal_nak st"
  "dhcp_nak_received (emit ev st) = dhcp_nak_received st"
  "dhcp_nest_counter_maxed (emit ev st) = dhcp_nest_counter_maxed st"
  "dhcp_attempts (emit ev st) = dhcp_attempts st" "router_mac (emit ev st) = router_mac st"
  "timeout_loop (emit ev st) = timeout_loop st" "lease_expiry_rtc (emit ev st) = lease_expiry_rtc st"
  "lease_display_secs (emit ev st) = lease_display_secs st"
  "last_display_tick (emit ev st) = last_display_tick st" "dont_renew (emit ev st) = dont_renew st"
  "renew_threshold (emit ev st) = renew_threshold st"
  "screensaver_active (emit ev st) = screensaver_active st" "rtc (emit ev st) = rtc st"
  "escape_loop (emit ev st) = escape_loop st" "syscall_retval (emit ev st) = syscall_retval st"
  "syscall_data (emit ev st) = syscall_data st" "syscall_data_len (emit ev st) = syscall_data_len st"
  "trace (emit ev st) = trace st @ [ev]"
  by (simp_all add: emit_def)

lemma disp_status_simps [simp]:
  "mem (disp_status x st) = mem st" "bin_map (disp_status x st) = bin_map st"
  "pkt_buf (disp_status x st) = pkt_buf st" "running (disp_status x st) = running st"
  "booted (disp_status x st) = booted st" "tool_version (disp_status x st) = tool_version st"
  "our_ip (disp_status x st) = our_ip st" "tool_ip (disp_status x st) = tool_ip st"
  "tool_port (disp_status x st) = tool_port st" "tool_mac (disp_status x st) = tool_mac st"
  "load_address (disp_status x st) = load_address st" "load_size (disp_status x st) = load_size st"
  "payload1024 (disp_status x st) = payload1024 st" "cached_dest (disp_status x st) = cached_dest st"
  "kosload_info (disp_status x st) = kosload_info st"
  "kosload_syscall_port (disp_status x st) = kosload_syscall_port st"
  "kos_syscall_seq (disp_status x st) = kos_syscall_seq st"
  "kos_syscall_next_seq (disp_status x st) = kos_syscall_next_seq st"
  "kos_syscall_save_pkt (disp_status x st) = kos_syscall_save_pkt st" "ticks (disp_status x st) = ticks st"
  "loop_deadline_ticks (disp_status x st) = loop_deadline_ticks st" "our_dir (disp_status x st) = our_dir st"
  "kos_syscall_timeout_ticks (disp_status x st) = kos_syscall_timeout_ticks st"
  "dhcpoffer_server_ip_from_pkt (disp_status x st) = dhcpoffer_server_ip_from_pkt st"
  "dhcpoffer_ip_from_pkt (disp_status x st) = dhcpoffer_ip_from_pkt st"
  "dhcpoffer_xid (disp_status x st) = dhcpoffer_xid st"
  "dhcp_lease_time (disp_status x st) = dhcp_lease_time st"
  "renewal_increment (disp_status x st) = renewal_increment st"
  "dhcp_acked (disp_status x st) = dhcp_acked st" "dhcp_renewal (disp_status x st) = dhcp_renewal st"
  "dhcp_renewal_nak (disp_status x st) = dhcp_renewal_nak st"
  "dhcp_nak_received (disp_status x st) = dhcp_nak_received st"
  "dhcp_nest_counter_maxed (disp_status x st) = dhcp_nest_counter_maxed st"
  "dhcp_attempts (disp_status x st) = dhcp_attempts st" "router_mac (disp_status x st) = router_mac st"
  "timeout_loop (disp_status x st) = timeout_loop st"
  "lease_expiry_rtc (disp_status x st) = lease_expiry_rtc st"
  "lease_display_secs (disp_status x st) = lease_display_secs st"
  "last_display_tick (disp_status x st) = last_display_tick st"
  "dont_renew (disp_status x st) = dont_renew st" "renew_threshold (disp_status x st) = renew_threshold st"
  "screensaver_active (disp_status x st) = screensaver_active st" "rtc (disp_status x st) = rtc st"
  "escape_loop (disp_status x st) = escape_loop st" "syscall_retval (disp_status x st) = syscall_retval st"
  "syscall_data (disp_status x st) = syscall_data st"
  "syscall_data_len (disp_status x st) = syscall_data_len st"
  "trace (disp_status x st) = trace st @ [DispStatus x]"
  by (simp_all add: disp_status_def)

lemma disp_info_simps [simp]:
  "mem (disp_info st) = mem st" "bin_map (disp_info st) = bin_map st" "pkt_buf (disp_info st) = pkt_buf st"
  "running (disp_info st) = running st" "tool_version (disp_info st) = tool_version st"
  "our_ip (disp_info st) = our_ip st" "tool_ip (disp_info st) = tool_ip st"
  "tool_port (disp_info st) = tool_port st" "tool_mac (disp_info st) = tool_mac st"
  "load_address (disp_info st) = load_address st" "load_size (disp_info st) = load_size st"
  "payload1024 (disp_info st) = payload1024 st" "cached_dest (disp_info st) = cached_dest st"
  "kosload_syscall_port (disp_info st) = kosload_syscall_port st"
  "kos_syscall_seq (disp_info st) = kos_syscall_seq st"
  "kos_syscall_next_seq (disp_info st) = kos_syscall_next_seq st"
  "kos_syscall_save_pkt (disp_info st) = kos_syscall_save_pkt st" "ticks (disp_info st) = ticks st"
  "loop_deadline_ticks (disp_info st) = loop_deadline_ticks st" "our_dir (disp_info st) = our_dir st"
  "kos_syscall_timeout_ticks (disp_info st) = kos_syscall_timeout_ticks st"
  "dhcpoffer_server_ip_from_pkt (disp_info st) = dhcpoffer_server_ip_from_pkt st"
  "dhcpoffer_ip_from_pkt (disp_info st) = dhcpoffer_ip_from_pkt st"
  "dhcpoffer_xid (disp_info st) = dhcpoffer_xid st" "dhcp_lease_time (disp_info st) = dhcp_lease_time st"
  "renewal_increment (disp_info st) = renewal_increment st" "dhcp_acked (disp_info st) = dhcp_acked st"
  "dhcp_renewal (disp_info st) = dhcp_renewal st" "dhcp_renewal_nak (disp_info st) = dhcp_renewal_nak st"
  "dhcp_nak_received (disp_info st) = dhcp_nak_received st"
  "dhcp_nest_counter_maxed (disp_info st) = dhcp_nest_counter_maxed st"
  "dhcp_attempts (disp_info st) = dhcp_attempts st" "router_mac (disp_info st) = router_mac st"
  "timeout_loop (disp_info st) = timeout_loop st" "lease_expiry_rtc (disp_info st) = lease_expiry_rtc st"
  "dont_renew (disp_info st) = dont_renew st" "renew_threshold (disp_info st) = renew_threshold st"
  "screensaver_active (disp_info st) = screensaver_active st" "rtc (disp_info st) = rtc st"
  "escape_loop (disp_info st) = escape_loop st" "syscall_retval (disp_info st) = syscall_retval st"
  "syscall_data (disp_info st) = syscall_data st" "syscall_data_len (disp_info st) = syscall_data_len st"
  "trace (disp_info st) = trace st @ [DispInfo]" "booted (disp_info st)"
  "argc (kosload_info (disp_info st)) = argc (kosload_info st)"
  "argv_data (kosload_info (disp_info st)) = argv_data (kosload_info st)"
  "DCTOOL_MAJOR (disp_info st) = DCTOOL_MAJOR st"
  by (simp_all add: disp_info_def lease_resync_from_rtc_def Let_def DCTOOL_MAJOR_def)

text \<open>The frame \<open>send_udp\<close> transmits and the state it leaves, in closed form.\<close>

definition udp_frame :: "platform \<Rightarrow> u32 \<Rightarrow> u32 \<Rightarrow> u16 \<Rightarrow> u16 \<Rightarrow> u16 \<Rightarrow> bytes \<Rightarrow> bytes \<Rightarrow> bytes" where
  "udp_frame p dest_ip src_ip pkt_id dport sport payload ether =
     (let ip = make_ip (endian p) dest_ip src_ip (UDP_H_LEN + length payload) 17 pkt_id in
      take ETHER_H_LEN ether @ ip @ the (make_udp (endian p) dport sport (length payload) ip payload) @ payload)"

definition sent :: "bytes \<Rightarrow> client \<Rightarrow> client" where
  "sent frame st = emit (Tx frame) (st\<lparr>pkt_buf := frame @ drop (length frame) (pkt_buf st)\<rparr>)"

definition frame_payload :: "bytes \<Rightarrow> bytes" where
  "frame_payload f = drop 42 f"

lemma make_udp_Some:
  assumes "length payload < 65536" "length ip = 20"
  obtains udp where "make_udp e dport sport (length payload) ip payload = Some udp" "length udp = 8"
  using make_udp_exists [OF assms(2,1)] by blast

lemma udp_frame:
  assumes "length payload < 65536" "14 \<le> length ether"
  shows "length (udp_frame p d s i dp sp payload ether) = 42 + length payload"
    and "frame_payload (udp_frame p d s i dp sp payload ether) = payload"
    and "take 14 (udp_frame p d s i dp sp payload ether) = take 14 ether"
proof -
  let ?ip = "make_ip (endian p) d s (UDP_H_LEN + length payload) 17 i"
  obtain udp where u: "make_udp (endian p) dp sp (length payload) ?ip payload = Some udp" "length udp = 8"
    by (rule make_udp_Some [OF assms(1), of ?ip]) simp_all
  show "length (udp_frame p d s i dp sp payload ether) = 42 + length payload"
    and "frame_payload (udp_frame p d s i dp sp payload ether) = payload"
    and "take 14 (udp_frame p d s i dp sp payload ether) = take 14 ether"
    unfolding udp_frame_def Let_def u frame_payload_def using assms(2) u(2) by (simp_all add: len_defs)
qed

lemma send_udp_eq:
  assumes "length payload \<le> 1492" "14 \<le> length (pkt_buf st)"
  shows "send_udp p d s i dp sp payload st = Some (sent (udp_frame p d s i dp sp payload (pkt_buf st)) st)"
proof -
  let ?ip = "make_ip (endian p) d s (UDP_H_LEN + length payload) 17 i"
  have "length payload < 65536" using assms by simp
  then obtain udp where u: "make_udp (endian p) dp sp (length payload) ?ip payload = Some udp" "length udp = 8"
    by (rule make_udp_Some [of _ ?ip]) simp_all
  show ?thesis unfolding send_udp_def Let_def udp_frame_def u sent_def using assms u(2)
    by (simp add: len_defs)
qed

lemma sent_simps [simp]:
  "mem (sent f st) = mem st" "bin_map (sent f st) = bin_map st" "running (sent f st) = running st"
  "booted (sent f st) = booted st" "tool_version (sent f st) = tool_version st"
  "our_ip (sent f st) = our_ip st" "tool_ip (sent f st) = tool_ip st" "tool_port (sent f st) = tool_port st"
  "tool_mac (sent f st) = tool_mac st" "load_address (sent f st) = load_address st"
  "load_size (sent f st) = load_size st" "payload1024 (sent f st) = payload1024 st"
  "cached_dest (sent f st) = cached_dest st" "kosload_info (sent f st) = kosload_info st"
  "kosload_syscall_port (sent f st) = kosload_syscall_port st"
  "kos_syscall_seq (sent f st) = kos_syscall_seq st"
  "kos_syscall_next_seq (sent f st) = kos_syscall_next_seq st"
  "kos_syscall_save_pkt (sent f st) = kos_syscall_save_pkt st" "ticks (sent f st) = ticks st"
  "loop_deadline_ticks (sent f st) = loop_deadline_ticks st" "our_dir (sent f st) = our_dir st"
  "kos_syscall_timeout_ticks (sent f st) = kos_syscall_timeout_ticks st"
  "dhcpoffer_server_ip_from_pkt (sent f st) = dhcpoffer_server_ip_from_pkt st"
  "dhcpoffer_ip_from_pkt (sent f st) = dhcpoffer_ip_from_pkt st"
  "dhcpoffer_xid (sent f st) = dhcpoffer_xid st" "dhcp_lease_time (sent f st) = dhcp_lease_time st"
  "renewal_increment (sent f st) = renewal_increment st" "dhcp_acked (sent f st) = dhcp_acked st"
  "dhcp_renewal (sent f st) = dhcp_renewal st" "dhcp_renewal_nak (sent f st) = dhcp_renewal_nak st"
  "dhcp_nak_received (sent f st) = dhcp_nak_received st"
  "dhcp_nest_counter_maxed (sent f st) = dhcp_nest_counter_maxed st"
  "dhcp_attempts (sent f st) = dhcp_attempts st" "router_mac (sent f st) = router_mac st"
  "timeout_loop (sent f st) = timeout_loop st" "lease_expiry_rtc (sent f st) = lease_expiry_rtc st"
  "lease_display_secs (sent f st) = lease_display_secs st"
  "last_display_tick (sent f st) = last_display_tick st" "dont_renew (sent f st) = dont_renew st"
  "renew_threshold (sent f st) = renew_threshold st" "screensaver_active (sent f st) = screensaver_active st"
  "rtc (sent f st) = rtc st" "escape_loop (sent f st) = escape_loop st"
  "syscall_retval (sent f st) = syscall_retval st" "syscall_data (sent f st) = syscall_data st"
  "syscall_data_len (sent f st) = syscall_data_len st" "trace (sent f st) = trace st @ [Tx f]"
  "pkt_buf (sent f st) = f @ drop (length f) (pkt_buf st)"
  by (simp_all add: sent_def)

lemma DCTOOL_MAJOR_cong: "tool_version st = tool_version st' \<Longrightarrow> DCTOOL_MAJOR st = DCTOOL_MAJOR st'"
  by (simp add: DCTOOL_MAJOR_def)

section \<open>What was transmitted\<close>

fun tx_frames :: "event list \<Rightarrow> bytes list" where
  "tx_frames [] = []"
| "tx_frames (Tx f # evs) = f # tx_frames evs"
| "tx_frames (_ # evs) = tx_frames evs"

lemma tx_frames_append [simp]: "tx_frames (xs @ ys) = tx_frames xs @ tx_frames ys"
  by (induction xs rule: tx_frames.induct) simp_all

definition new_frames :: "client \<Rightarrow> client \<Rightarrow> bytes list" where
  "new_frames st st' = tx_frames (drop (length (trace st)) (trace st'))"

lemma new_frames_append: "trace st' = trace st @ evs \<Longrightarrow> new_frames st st' = tx_frames evs"
  by (simp add: new_frames_def)

section \<open>Start state and an example console\<close>

text \<open>The values the C definitions of the globals initialise, with the receive loop not yet entered.\<close>

definition client_init :: "platform \<Rightarrow> memory \<Rightarrow> client" where
  "client_init p m =
     \<lparr>our_ip = 0, tool_ip = 0, tool_mac = replicate 6 0, tool_port = 0, tool_version = 0,
      cached_dest = False, payload1024 = False, load_address = 0, load_size = 0,
      bin_map = replicate (((MAX_RAM_BYTES p + 1439) div 1440 + 63) div 64 * 8) 0,
      running = False, booted = False, escape_loop = False,
      kosload_info = \<lparr>console_ip = be32 0, console_port = be16 0, host_ip = be32 0, host_port = be16 0,
        capabilities = 0, host_capabilities = 0, argc = 0, argv_data = replicate KOSLOAD_MAX_ARGV_DATA 0\<rparr>,
      kosload_syscall_port = 31313, syscall_retval = 0, syscall_data = [], syscall_data_len = 0,
      loop_deadline_ticks = 0, kos_syscall_save_pkt = [], kos_syscall_timeout_ticks = 0,
      kos_syscall_seq = 0, kos_syscall_next_seq = 1, our_dir = replicate 268 0,
      pkt_buf = replicate TX_CAPACITY 0,
      dhcpoffer_server_ip_from_pkt = 0, dhcpoffer_ip_from_pkt = 0, dhcpoffer_xid = 0, dhcp_lease_time = 0,
      renewal_increment = 0, dhcp_acked = False, dhcp_renewal = False, dhcp_renewal_nak = False,
      dhcp_nak_received = False, dhcp_nest_counter_maxed = False, dhcp_attempts = 0, router_mac = replicate 6 0,
      timeout_loop = 0, lease_expiry_rtc = 0, lease_display_secs = 0, last_display_tick = 0, dont_renew = False,
      renew_threshold = 0, screensaver_active = False, rtc = 0, ticks = 0, mem = m, trace = []\<rparr>"

text \<open>A little-endian console with 16 MB of RAM whose receive loop returns at once, for the witnesses.\<close>

definition example_platform :: platform where
  "example_platform =
     \<lparr>endian = LE, bb_mac = [0, 0xd0, 0xf1, 2, 3, 4], bb_name = ascii ''BBA'', bb_lossy = True,
      bb_loop = (\<lambda>st. st), installed_adapter = 0x100, loader_string = ascii ''kosload-ip 3.0.0 using '',
      MAX_RAM_BYTES = 16777216, detect_ram_size = 16777216, ticks_per_second = 1000000, has_get_ticks = True,
      has_cdfs_redir = True, has_fw_update_prepare = False, run_program = (\<lambda>a st. st),
      maple_docmd = (\<lambda>n args. [0, 0, 0, 0]), pmcr_counter = (\<lambda>ch. replicate 8 0),
      pmcr_config = (\<lambda>ch. replicate 2 0), our_dir_addr = 0x8c004000, rodata = (\<lambda>s. 0x8c005000)\<rparr>"

definition example_client :: client where
  "example_client = (client_init example_platform (\<lambda>_. 0))\<lparr>tool_version := 0x00030000\<rparr>"

definition example_headers :: headers where
  "example_headers = \<lparr>eth_src = [2, 0, 0, 0, 0, 1], eth_dest = [0, 0xd0, 0xf1, 2, 3, 4], ip_src = 0xc0a80001,
     ip_dest = 0xc0a80002, ip_packet_id = 7, udp_src = 53535, udp_dest = 53535, udp_length = 20\<rparr>"

lemmas example_defs = example_platform_def example_client_def example_headers_def client_init_def len_defs

end
