(* ===== verification/Net_Syscalls.thy ===== *)
theory Net_Syscalls
  imports Client_State
begin

text \<open>
  \<^verbatim>\<open>client/common/network/network_syscalls.c\<close>: the guest's file I/O as UDP requests to the
  host. Every request goes out through \<open>build_send_packet\<close>, which numbers it and appends the
  \<open>KSQ0\<close> trailer, and \<open>kos_syscall_wait_for_retval\<close> waits for the answer, with bounded
  retransmission on a lossy adapter. Arguments that are pointers into guest memory are
  32-bit addresses; the strings and buffers they point to are read from \<open>mem\<close>.
\<close>

section \<open>Helpers\<close>

definition KOS_SYSCALL_SAVE_MAX :: nat where "KOS_SYSCALL_SAVE_MAX = 2048"
definition KOS_SYSCALL_RETRY_MS :: u32 where "KOS_SYSCALL_RETRY_MS = 600"
definition KOS_SYSCALL_MAX_RETRIES :: nat where "KOS_SYSCALL_MAX_RETRIES = 6"
definition NET_WRITE_INLINE_MAX :: u32 where "NET_WRITE_INLINE_MAX = 512"
definition NET_PAYLOAD_SIZE :: u32 where "NET_PAYLOAD_SIZE = 1440"
definition STAT_SIZE :: nat where "STAT_SIZE = 60"
definition DIRENT_SIZE :: nat where "DIRENT_SIZE = 268"

text \<open>\<open>my_strlen\<close> does not return when guest memory holds no zero byte: \<open>None\<close>.\<close>

partial_function (option) my_strlen_from :: "memory \<Rightarrow> u32 \<Rightarrow> u32 \<Rightarrow> u32 option" where
  "my_strlen_from m s c = (if m (s + c) = 0 then Some c else my_strlen_from m s (c + 1))"

declare my_strlen_from.simps [code]

definition my_strlen :: "memory \<Rightarrow> u32 \<Rightarrow> u32 option" where
  "my_strlen m s = my_strlen_from m s 0"

text \<open>The string at a guest address with its terminator, as \<open>memcpy(..., namelen + 1)\<close> takes it.\<close>

definition guest_string :: "memory \<Rightarrow> u32 \<Rightarrow> bytes option" where
  "guest_string m s = do { n \<leftarrow> my_strlen m s; Some (mem_read m s (unat n + 1)) }"

definition copy_inline_ret :: "nat \<Rightarrow> client \<Rightarrow> bytes option" where
  "copy_inline_ret count st =
     (if unat (syscall_data_len st) \<noteq> 4 + count then None
      else if take 4 (syscall_data st) \<noteq> NET_INLINE_RET_MAGIC then None
      else Some (take count (drop 4 (syscall_data st))))"

section \<open>Requests\<close>

definition build_send_packet :: "platform \<Rightarrow> bytes \<Rightarrow> client \<Rightarrow> client option" where
  "build_send_packet p command st =
     (let st = st\<lparr>kos_syscall_seq := kos_syscall_next_seq st,
                  kos_syscall_next_seq := (if kos_syscall_next_seq st + 1 = 0 then 1 else kos_syscall_next_seq st + 1)\<rparr>;
          payload = command @ NET_SEQ_MAGIC @ be32 (kos_syscall_seq st);
          st = st\<lparr>pkt_buf := make_ether (tool_mac st) (bb_mac p) (pkt_buf st)\<rparr>
      in do {
        st \<leftarrow> send_udp p (tool_ip st) (our_ip st) 0 (tool_port st) (kosload_syscall_port st) payload (emit BbStart st);
        let total_len = ETHER_H_LEN + IP_H_LEN + UDP_H_LEN + length payload;
        Some (st\<lparr>kos_syscall_save_pkt := (if total_len \<le> KOS_SYSCALL_SAVE_MAX then take total_len (pkt_buf st) else [])\<rparr>)
      })"

definition net_bump_syscall_deadline :: "platform \<Rightarrow> client \<Rightarrow> client" where
  "net_bump_syscall_deadline p st =
     (if loop_deadline_ticks st = 0 then st
      else if has_get_ticks p then st\<lparr>loop_deadline_ticks := ticks st + kos_syscall_timeout_ticks st\<rparr>
      else st)"

fun wait_retries :: "platform \<Rightarrow> u64 \<Rightarrow> nat \<Rightarrow> client \<Rightarrow> client" where
  "wait_retries p timeout_ticks left st =
     (let deadline = ticks st + timeout_ticks;
          st = bb_loop p (st\<lparr>escape_loop := False, loop_deadline_ticks := deadline\<rparr>);
          st = st\<lparr>loop_deadline_ticks := 0\<rparr>
      in if ticks st < deadline then st
         else if kos_syscall_save_pkt st = [] \<or> left = 0
         then st\<lparr>kos_syscall_timeout_ticks := 0, syscall_retval := - 1, syscall_data := [], syscall_data_len := 0\<rparr>
         else (let pkt = kos_syscall_save_pkt st in
               wait_retries p timeout_ticks (left - 1)
                 (emit (Tx pkt) (st\<lparr>pkt_buf := pkt @ drop (length pkt) (pkt_buf st)\<rparr>))))"

declare wait_retries.simps [simp del]

definition kos_syscall_wait_for_retval :: "platform \<Rightarrow> client \<Rightarrow> client" where
  "kos_syscall_wait_for_retval p st =
     (if \<not> bb_lossy p then bb_loop p st
      else if \<not> host_supports_dedup st then bb_loop p st
      else if \<not> has_get_ticks p \<or> ticks_per_second p = 0 then bb_loop p st
      else (let t = ucast (ms_to_ticks (ticks_per_second p) KOS_SYSCALL_RETRY_MS);
                timeout_ticks = (if t = 0 then 1 else t)
            in wait_retries p timeout_ticks KOS_SYSCALL_MAX_RETRIES (st\<lparr>kos_syscall_timeout_ticks := timeout_ticks\<rparr>)))"

text \<open>Sending a request and waiting for its answer: the tail of every syscall but \<open>progexit\<close>.\<close>

definition syscall :: "platform \<Rightarrow> bytes \<Rightarrow> client \<Rightarrow> (u32 \<times> client) option" where
  "syscall p command st = do {
     st \<leftarrow> build_send_packet p command st;
     let st = kos_syscall_wait_for_retval p st;
     Some (syscall_retval st, st) }"

section \<open>System calls\<close>

definition assign_wrkmem :: "u32 \<Rightarrow> u32" where
  "assign_wrkmem user_buffer = - 1"

fun repeat_opt :: "nat \<Rightarrow> ('a \<Rightarrow> 'a option) \<Rightarrow> 'a \<Rightarrow> 'a option" where
  "repeat_opt 0 f x = Some x"
| "repeat_opt (Suc n) f x = Option.bind (f x) (repeat_opt n f)"

definition PROGEXIT_RETRANSMIT_COUNT :: nat where "PROGEXIT_RETRANSMIT_COUNT = 5"

definition progexit :: "platform \<Rightarrow> u32 \<Rightarrow> client \<Rightarrow> client option" where
  "progexit p ret_code st =
     repeat_opt PROGEXIT_RETRANSMIT_COUNT
       (build_send_packet p (ascii ''DC00'' @ be32 ret_code @ be32 0)) (emit BbStop st)"

definition net_read :: "platform \<Rightarrow> u32 \<Rightarrow> u32 \<Rightarrow> u32 \<Rightarrow> client \<Rightarrow> (u32 \<times> client) option" where
  "net_read p fd buf count st =
     syscall p (ascii ''DC03'' @ be32 fd @ be32 buf @ be32 count) st"

text \<open>\<open>write\<close> takes its buffer as the bytes at \<open>buf\<close>: a guest buffer or a string of the loader.\<close>

definition net_write :: "platform \<Rightarrow> u32 \<Rightarrow> u32 \<Rightarrow> (nat \<Rightarrow> bytes) \<Rightarrow> u32 \<Rightarrow> client \<Rightarrow> (u32 \<times> client) option" where
  "net_write p fd buf content count st =
     (let inline = host_supports_dedup st \<and> count > 0 \<and> count \<le> NET_WRITE_INLINE_MAX \<and> count \<le> NET_PAYLOAD_SIZE - 16
      in syscall p ((if DCTOOL_MAJOR st < 2 then ascii ''DD02'' else ascii ''DC02'')
           @ be32 fd @ be32 buf @ be32 count @ (if inline then content (unat count) else [])) st)"

definition net_open :: "platform \<Rightarrow> u32 \<Rightarrow> u32 \<Rightarrow> u32 \<Rightarrow> client \<Rightarrow> (u32 \<times> client) option" where
  "net_open p pathname flags mode st = do {
     name \<leftarrow> guest_string (mem st) pathname;
     syscall p (ascii ''DC04'' @ be32 flags @ be32 mode @ name) st }"

definition net_close :: "platform \<Rightarrow> u32 \<Rightarrow> client \<Rightarrow> (u32 \<times> client) option" where
  "net_close p fd st = syscall p (ascii ''DC05'' @ be32 fd) st"

definition net_creat :: "platform \<Rightarrow> u32 \<Rightarrow> u32 \<Rightarrow> client \<Rightarrow> (u32 \<times> client) option" where
  "net_creat p pathname mode st = do {
     name \<leftarrow> guest_string (mem st) pathname;
     syscall p (ascii ''DC06'' @ be32 mode @ name) st }"

definition net_link :: "platform \<Rightarrow> u32 \<Rightarrow> u32 \<Rightarrow> client \<Rightarrow> (u32 \<times> client) option" where
  "net_link p oldpath newpath st = do {
     name1 \<leftarrow> guest_string (mem st) oldpath;
     name2 \<leftarrow> guest_string (mem st) newpath;
     syscall p (ascii ''DC07'' @ name1 @ name2) st }"

definition net_unlink :: "platform \<Rightarrow> u32 \<Rightarrow> client \<Rightarrow> (u32 \<times> client) option" where
  "net_unlink p pathname st = do {
     name \<leftarrow> guest_string (mem st) pathname;
     syscall p (ascii ''DC08'' @ name) st }"

definition net_chdir :: "platform \<Rightarrow> u32 \<Rightarrow> client \<Rightarrow> (u32 \<times> client) option" where
  "net_chdir p path st = do {
     name \<leftarrow> guest_string (mem st) path;
     syscall p (ascii ''DC09'' @ name) st }"

definition net_chmod :: "platform \<Rightarrow> u32 \<Rightarrow> u32 \<Rightarrow> client \<Rightarrow> (u32 \<times> client) option" where
  "net_chmod p path mode st = do {
     name \<leftarrow> guest_string (mem st) path;
     syscall p (ascii ''DC10'' @ be32 mode @ name) st }"

definition net_mkdir :: "platform \<Rightarrow> u32 \<Rightarrow> u32 \<Rightarrow> client \<Rightarrow> (u32 \<times> client) option" where
  "net_mkdir p path mode st = do {
     name \<leftarrow> guest_string (mem st) path;
     syscall p (ascii ''DC23'' @ be32 mode @ name) st }"

definition net_lseek :: "platform \<Rightarrow> u32 \<Rightarrow> u32 \<Rightarrow> u32 \<Rightarrow> client \<Rightarrow> (u32 \<times> client) option" where
  "net_lseek p fd offset whence st =
     syscall p (ascii ''DC11'' @ be32 fd @ be32 offset @ be32 whence) st"

definition kir0 :: "client \<Rightarrow> bytes" where
  "kir0 st = (if host_supports_dedup st then NET_INLINE_RET_MAGIC else [])"

text \<open>The inlined answer of \<open>fstat\<close> and \<open>stat\<close>, taken when the call succeeded.\<close>

definition take_inline_stat :: "u32 \<Rightarrow> u32 \<times> client \<Rightarrow> u32 \<times> client" where
  "take_inline_stat buf = (\<lambda>(r, st).
     if sint r \<ge> 0 \<and> host_supports_dedup st
     then (case copy_inline_ret STAT_SIZE st of
             Some bs \<Rightarrow> (r, st\<lparr>mem := mem_write (mem st) buf bs\<rparr>) | None \<Rightarrow> (r, st))
     else (r, st))"

definition net_fstat :: "platform \<Rightarrow> u32 \<Rightarrow> u32 \<Rightarrow> client \<Rightarrow> (u32 \<times> client) option" where
  "net_fstat p fd buf st =
     map_option (take_inline_stat buf)
       (syscall p (ascii ''DC01'' @ be32 fd @ be32 buf @ be32 (of_nat STAT_SIZE) @ kir0 st) st)"

definition mem_ld32 :: "endian \<Rightarrow> memory \<Rightarrow> u32 \<Rightarrow> u32" where
  "mem_ld32 e m a = ld32 e (m a) (m (a + 1)) (m (a + 2)) (m (a + 3))"

definition net_time :: "platform \<Rightarrow> u32 \<Rightarrow> client \<Rightarrow> (u32 \<times> client) option" where
  "net_time p t st = do {
     (r, st) \<leftarrow> syscall p (ascii ''DC12'' @ be32 t) st;
     Some (r, if t \<noteq> 0 then st\<lparr>mem := mem_write (mem st) t (st32 (endian p) r)\<rparr> else st) }"

definition net_stat :: "platform \<Rightarrow> u32 \<Rightarrow> u32 \<Rightarrow> client \<Rightarrow> (u32 \<times> client) option" where
  "net_stat p pathname buf st = do {
     name \<leftarrow> guest_string (mem st) pathname;
     res \<leftarrow> syscall p (ascii ''DC13'' @ be32 buf @ be32 (of_nat STAT_SIZE) @ name @ kir0 st) st;
     Some (take_inline_stat buf res) }"

text \<open>
  With a null \<open>buf\<close> the two time fields are not written: they keep the bytes the previous
  packet left in \<open>pkt_buf\<close>.
\<close>

definition net_utime :: "platform \<Rightarrow> u32 \<Rightarrow> u32 \<Rightarrow> client \<Rightarrow> (u32 \<times> client) option" where
  "net_utime p filename buf st = do {
     name \<leftarrow> guest_string (mem st) filename;
     let stale = take 8 (drop (ETHER_H_LEN + IP_H_LEN + UDP_H_LEN + 8) (pkt_buf st));
     let times = (if buf \<noteq> 0 then be32 (mem_ld32 (endian p) (mem st) buf) @ be32 (mem_ld32 (endian p) (mem st) (buf + 4)) else stale);
     syscall p (ascii ''DC14'' @ be32 buf @ times @ name) st }"

definition net_opendir :: "platform \<Rightarrow> u32 \<Rightarrow> client \<Rightarrow> (u32 \<times> client) option" where
  "net_opendir p name st = do {
     nm \<leftarrow> guest_string (mem st) name;
     syscall p (ascii ''DC16'' @ nm) st }"

definition net_closedir :: "platform \<Rightarrow> u32 \<Rightarrow> client \<Rightarrow> (u32 \<times> client) option" where
  "net_closedir p dir st = syscall p (ascii ''DC17'' @ be32 dir) st"

text \<open>\<open>readdir\<close> returns the address of the static \<open>our_dir\<close> or a null pointer.\<close>

definition net_readdir :: "platform \<Rightarrow> u32 \<Rightarrow> client \<Rightarrow> (u32 \<times> client) option" where
  "net_readdir p dir st = do {
     (r, st) \<leftarrow> syscall p (ascii ''DC18'' @ be32 dir @ be32 (our_dir_addr p) @ be32 (of_nat DIRENT_SIZE) @ kir0 st) st;
     Some (if r \<noteq> 0
       then (our_dir_addr p,
             if host_supports_dedup st
             then (case copy_inline_ret DIRENT_SIZE st of Some bs \<Rightarrow> st\<lparr>our_dir := bs\<rparr> | None \<Rightarrow> st)
             else st)
       else (0, st)) }"

text \<open>
  The answer is copied from \<open>syscall_data\<close> without comparing with \<open>syscall_data_len\<close>; a return
  value larger than what the packet buffer holds reads past it.
\<close>

definition net_gdbpacket :: "platform \<Rightarrow> u32 \<Rightarrow> u32 \<Rightarrow> u32 \<Rightarrow> client \<Rightarrow> (u32 \<times> client) option" where
  "net_gdbpacket p in_buf size_pack out_buf st =
     (let in_size = drop_bit 16 size_pack; out_size = size_pack AND 0xffff in do {
       (r, st) \<leftarrow> syscall p (ascii ''DC20'' @ be32 in_size @ be32 out_size @ mem_read (mem st) in_buf (unat in_size)) st;
       if r \<le> out_size then
         (if unat r \<le> length (syscall_data st)
          then Some (r, st\<lparr>mem := mem_write (mem st) out_buf (take (unat r) (syscall_data st))\<rparr>) else None)
       else Some (r, st) })"

definition net_rewinddir :: "platform \<Rightarrow> u32 \<Rightarrow> client \<Rightarrow> (u32 \<times> client) option" where
  "net_rewinddir p dir st = syscall p (ascii ''DC21'' @ be32 dir) st"

definition gethostinfo :: "platform \<Rightarrow> u32 \<Rightarrow> u32 \<Rightarrow> client \<Rightarrow> u32 \<times> client" where
  "gethostinfo p ip port st =
     (our_ip st, st\<lparr>mem := mem_write (mem_write (mem st) ip (st32 (endian p) (tool_ip st))) port
                       (st32 (endian p) (ucast (tool_port st)))\<rparr>)"

section \<open>Requests on the wire\<close>

lemma length_make_ether: "length d = 6 \<Longrightarrow> length s = 6 \<Longrightarrow> length (make_ether d s pkt) = 14 + (length pkt - 14)"
  by (simp add: make_ether_def)

lemma length_magics [simp]: "length NET_SEQ_MAGIC = 4" "length NET_INLINE_RET_MAGIC = 4"
  by (simp_all add: NET_SEQ_MAGIC_def NET_INLINE_RET_MAGIC_def)

lemma send_udp_too_long:
  assumes "1492 < length payload" "length payload < 65536" "14 \<le> length (pkt_buf st)"
  shows "send_udp p d s i dp sp payload st = None"
proof -
  let ?ip = "make_ip (endian p) d s (UDP_H_LEN + length payload) 17 i"
  obtain udp where u: "make_udp (endian p) dp sp (length payload) ?ip payload = Some udp" "length udp = 8"
    by (rule make_udp_Some [OF assms(2), of ?ip]) simp_all
  show ?thesis unfolding send_udp_def Let_def u using assms u(2) by (simp add: len_defs)
qed

definition next_seq_after :: "u32 \<Rightarrow> u32" where
  "next_seq_after n = (if n + 1 = 0 then 1 else n + 1)"

lemma next_seq_after: "next_seq_after n \<noteq> 0" "n \<noteq> 0 \<Longrightarrow> next_seq_after n \<noteq> n"
proof -
  show "next_seq_after n \<noteq> 0" by (simp add: next_seq_after_def)
  have "(n :: u32) + 1 \<noteq> n" by simp
  moreover have "n + 1 = 0 \<Longrightarrow> n \<noteq> 1"
  proof
    assume "n + 1 = 0" "n = 1"
    then have "(2 :: u32) = 0" by simp
    then show False by simp
  qed
  ultimately show "n \<noteq> 0 \<Longrightarrow> next_seq_after n \<noteq> n" by (auto simp: next_seq_after_def)
qed

lemma build_send_packet_cases:
  assumes "length (pkt_buf st) = TX_CAPACITY" "length (tool_mac st) = 6" "length (bb_mac p) = 6" "length command < 65000"
  shows "if length command \<le> 1484
    then \<exists>st' f. build_send_packet p command st = Some st' \<and> trace st' = trace st @ [BbStart, Tx f]
      \<and> frame_payload f = command @ NET_SEQ_MAGIC @ be32 (kos_syscall_next_seq st) \<and> take 12 f = tool_mac st @ bb_mac p
      \<and> kos_syscall_save_pkt st' = f \<and> kos_syscall_seq st' = kos_syscall_next_seq st
      \<and> kos_syscall_next_seq st' = next_seq_after (kos_syscall_next_seq st) \<and> length (pkt_buf st') = TX_CAPACITY
      \<and> tool_mac st' = tool_mac st
    else build_send_packet p command st = None"
proof -
  let ?n = "kos_syscall_next_seq st"
  define payload where "payload = command @ NET_SEQ_MAGIC @ be32 ?n"
  define st0 where "st0 = emit BbStart (st\<lparr>kos_syscall_seq := ?n, kos_syscall_next_seq := next_seq_after ?n,
     pkt_buf := make_ether (tool_mac st) (bb_mac p) (pkt_buf st)\<rparr>)"
  define f where "f = udp_frame p (tool_ip st) (our_ip st) 0 (tool_port st) (kosload_syscall_port st) payload (pkt_buf st0)"
  have lp: "length payload = length command + 8" by (simp add: payload_def)
  have lb: "length (pkt_buf st0) = TX_CAPACITY" using assms(1-3) by (simp add: st0_def length_make_ether len_defs)
  then have b14: "14 \<le> length (pkt_buf st0)" by (simp add: len_defs)
  have bsp: "build_send_packet p command st = Option.bind
      (send_udp p (tool_ip st) (our_ip st) 0 (tool_port st) (kosload_syscall_port st) payload st0)
      (\<lambda>st. Some (st\<lparr>kos_syscall_save_pkt := (if 42 + length payload \<le> KOS_SYSCALL_SAVE_MAX then take (42 + length payload) (pkt_buf st) else [])\<rparr>))"
    unfolding build_send_packet_def Let_def by (simp add: st0_def payload_def next_seq_after_def len_defs cong: if_cong)
  show ?thesis
  proof (cases "length command \<le> 1484")
    case True
    then have l: "length payload \<le> 1492" "length payload < 65536" using lp by simp_all
    note uf = udp_frame [OF l(2) b14]
    have lf: "length f = 42 + length payload" unfolding f_def by (rule uf(1))
    let ?st' = "(sent f st0)\<lparr>kos_syscall_save_pkt := f\<rparr>"
    have "build_send_packet p command st = Some ?st'"
      unfolding bsp send_udp_eq [OF l(1) b14] f_def [symmetric] using l lf
      by (simp add: KOS_SYSCALL_SAVE_MAX_def)
    moreover have "frame_payload f = payload" unfolding f_def by (rule uf(2))
    moreover have "take 12 f = tool_mac st @ bb_mac p"
    proof -
      have "take 14 f = take 14 (pkt_buf st0)" unfolding f_def by (rule uf(3))
      then have "take 12 (take 14 f) = take 12 (take 14 (pkt_buf st0))" by simp
      then show ?thesis using assms(2,3) by (simp add: st0_def make_ether_def)
    qed
    moreover have "length (pkt_buf ?st') = TX_CAPACITY" using lf lb l by (simp add: len_defs)
    ultimately show ?thesis using True
      by (simp add: payload_def) (simp add: st0_def)
  next
    case False
    then have "send_udp p (tool_ip st) (our_ip st) 0 (tool_port st) (kosload_syscall_port st) payload st0 = None"
      using lp assms(4) b14 by (intro send_udp_too_long) simp_all
    then show ?thesis using False by (simp add: bsp)
  qed
qed

section \<open>Waiting\<close>

text \<open>An adapter on which nothing arrives: its loop returns when the deadline is reached.\<close>

definition silent :: "platform \<Rightarrow> bool" where
  "silent p = (\<forall>st. bb_loop p st = st\<lparr>ticks := loop_deadline_ticks st\<rparr>)"

lemma wait_retries_silent:
  assumes "silent p" "kos_syscall_save_pkt st \<noteq> []" "length (kos_syscall_save_pkt st) \<le> length (pkt_buf st)"
  shows "syscall_retval (wait_retries p t n st) = - 1 \<and> loop_deadline_ticks (wait_retries p t n st) = 0
    \<and> trace (wait_retries p t n st) = trace st @ replicate n (Tx (kos_syscall_save_pkt st))
    \<and> ticks (wait_retries p t n st) = ticks st + of_nat (Suc n) * t"
  using assms(2,3)
proof (induction n arbitrary: st)
  case 0
  then show ?case using assms(1) by (subst (1 2 3 4) wait_retries.simps) (simp add: silent_def Let_def)
next
  case (Suc n)
  let ?pkt = "kos_syscall_save_pkt st"
  let ?s = "(bb_loop p (st\<lparr>escape_loop := False, loop_deadline_ticks := ticks st + t\<rparr>))\<lparr>loop_deadline_ticks := 0\<rparr>"
  let ?st1 = "emit (Tx ?pkt) (?s\<lparr>pkt_buf := ?pkt @ drop (length ?pkt) (pkt_buf ?s)\<rparr>)"
  have w: "wait_retries p t (Suc n) st = wait_retries p t n ?st1"
    using assms(1) Suc.prems by (subst wait_retries.simps) (simp add: silent_def Let_def)
  have s: "kos_syscall_save_pkt ?st1 = ?pkt" "trace ?st1 = trace st @ [Tx ?pkt]" "ticks ?st1 = ticks st + t"
    "length (pkt_buf ?st1) = length (pkt_buf st)"
    using assms(1) Suc.prems by (simp_all add: silent_def)
  have "kos_syscall_save_pkt ?st1 \<noteq> []" "length (kos_syscall_save_pkt ?st1) \<le> length (pkt_buf ?st1)"
    using Suc.prems unfolding s by simp_all
  from Suc.IH [OF this] show ?case unfolding w s by (simp add: algebra_simps)
qed

section \<open>Properties\<close>

text \<open>
  A request goes out as one frame addressed to the tool, carrying the command, the magic and the next
  sequence number, which is never zero and differs from the next one; the saved copy for retransmission is the very frame that was
  sent. A command of more than 1484 bytes, which a long path name gives, runs past the transmit buffer.
\<close>
theorem build_send_packet_frame:
  assumes "length (pkt_buf st) = TX_CAPACITY" "length (tool_mac st) = 6" "length (bb_mac p) = 6" "length command < 65000"
    and "kos_syscall_next_seq st \<noteq> 0"
  shows "if length command \<le> 1484
    then \<exists>st' f. build_send_packet p command st = Some st' \<and> new_frames st st' = [f]
      \<and> take 12 f = tool_mac st @ bb_mac p \<and> kos_syscall_save_pkt st' = f
      \<and> frame_payload f = command @ NET_SEQ_MAGIC @ be32 (kos_syscall_seq st')
      \<and> kos_syscall_seq st' = kos_syscall_next_seq st \<and> kos_syscall_seq st' \<noteq> 0
      \<and> kos_syscall_next_seq st' \<noteq> 0 \<and> kos_syscall_next_seq st' \<noteq> kos_syscall_seq st'
    else build_send_packet p command st = None"
proof (cases "length command \<le> 1484")
  case True
  with build_send_packet_cases [OF assms(1-4)] obtain st' f where
    r: "build_send_packet p command st = Some st'" "trace st' = trace st @ [BbStart, Tx f]"
      "frame_payload f = command @ NET_SEQ_MAGIC @ be32 (kos_syscall_next_seq st)" "take 12 f = tool_mac st @ bb_mac p"
      "kos_syscall_save_pkt st' = f" "kos_syscall_seq st' = kos_syscall_next_seq st"
      "kos_syscall_next_seq st' = next_seq_after (kos_syscall_next_seq st)" by auto
  have "new_frames st st' = [f]" using new_frames_append [OF r(2)] by simp
  with True r next_seq_after assms(5) show ?thesis by auto
next
  case False
  with build_send_packet_cases [OF assms(1-4)] show ?thesis by simp
qed

theorem build_send_packet_frame_witness:
  "(\<exists>st' f. build_send_packet example_platform (ascii ''DC05'' @ be32 3) example_client = Some st'
      \<and> frame_payload f = ascii ''DC05'' @ be32 3 @ NET_SEQ_MAGIC @ be32 1 \<and> kos_syscall_save_pkt st' = f)
    \<and> build_send_packet example_platform (replicate 1485 0) example_client = None"
proof -
  have pre: "length (pkt_buf example_client) = TX_CAPACITY" "length (tool_mac example_client) = 6"
    "length (bb_mac example_platform) = 6" "kos_syscall_next_seq example_client = 1"
    by (simp_all add: example_defs)
  show ?thesis
    using build_send_packet_frame [OF pre(1-3), of "ascii ''DC05'' @ be32 3"]
      build_send_packet_frame [OF pre(1-3), of "replicate 1485 0"] pre(4) by auto
qed

text \<open>
  C33. On a lossy adapter with a 3.0.0 host and a working timer, a request that is never answered is sent again
  exactly six times, byte for byte, each time after one timeout; the call then returns -1
  after seven timeouts, and no deadline is left armed.
\<close>
theorem unanswered_request_gives_up:
  assumes "bb_lossy p" "host_supports_dedup st" "has_get_ticks p" "ticks_per_second p \<noteq> 0" "silent p"
    and "kos_syscall_save_pkt st \<noteq> []" "length (kos_syscall_save_pkt st) \<le> length (pkt_buf st)"
    and "t = ucast (ms_to_ticks (ticks_per_second p) 600)" "t \<noteq> 0"
  shows "let st' = kos_syscall_wait_for_retval p st in syscall_retval st' = - 1 \<and> loop_deadline_ticks st' = 0
    \<and> trace st' = trace st @ replicate 6 (Tx (kos_syscall_save_pkt st)) \<and> ticks st' = ticks st + 7 * t"
proof -
  have "kos_syscall_wait_for_retval p st = wait_retries p t 6 (st\<lparr>kos_syscall_timeout_ticks := t\<rparr>)"
    unfolding kos_syscall_wait_for_retval_def using assms
    by (simp add: KOS_SYSCALL_RETRY_MS_def KOS_SYSCALL_MAX_RETRIES_def Let_def)
  with wait_retries_silent [OF assms(5), of "st\<lparr>kos_syscall_timeout_ticks := t\<rparr>" t 6] assms(6,7)
  show ?thesis by (simp add: Let_def)
qed

theorem unanswered_request_gives_up_witness:
  "let p = example_platform\<lparr>bb_loop := (\<lambda>st. st\<lparr>ticks := loop_deadline_ticks st\<rparr>)\<rparr>;
       st = example_client\<lparr>kos_syscall_save_pkt := [1, 2, 3]\<rparr>;
       st' = kos_syscall_wait_for_retval p st
   in syscall_retval st' = - 1 \<and> trace st' = replicate 6 (Tx [1, 2, 3]) \<and> ticks st' = 4200000"
proof -
  let ?p = "example_platform\<lparr>bb_loop := (\<lambda>st. st\<lparr>ticks := loop_deadline_ticks st\<rparr>)\<rparr>"
  let ?st = "example_client\<lparr>kos_syscall_save_pkt := [1, 2, 3]\<rparr>"
  have "ms_to_ticks 1000000 600 = 600000" by (simp add: ms_to_ticks_def UDIV_CONST_def UDIV_RECIP_def)
  then have "(600000 :: u64) = ucast (ms_to_ticks (ticks_per_second ?p) 600)" by (simp add: example_defs)
  moreover have "bb_lossy ?p" "host_supports_dedup ?st" "has_get_ticks ?p" "ticks_per_second ?p \<noteq> 0" "silent ?p"
    "kos_syscall_save_pkt ?st \<noteq> []" "length (kos_syscall_save_pkt ?st) \<le> length (pkt_buf ?st)" "(600000 :: u64) \<noteq> 0"
    "trace ?st = []" "ticks ?st = 0" "kos_syscall_save_pkt ?st = [1, 2, 3]"
    by (simp_all add: example_defs host_supports_dedup_def silent_def)
  ultimately show ?thesis using unanswered_request_gives_up [of ?p ?st 600000] by (simp add: Let_def)
qed

end
