(* ===== verification/Commands.thy ===== *)
theory Commands
  imports Net_Syscalls
begin

text \<open>
  \<^verbatim>\<open>client/common/core/commands.c\<close>: the handlers of the network commands, one definition
  each, over the client state. A handler takes the headers of the datagram and the
  command; \<open>cmd_data\<close> is what the receive buffer holds from \<open>command->data\<close> on, which can be
  longer than the datagram. The received-chunk bitmap of \<open>bin_info\<close> is the byte list
  \<open>bin_map\<close>.
\<close>

section \<open>The received-chunk bitmap\<close>

definition BIN_INFO_MAP_ENTRIES :: "platform \<Rightarrow> nat" where
  "BIN_INFO_MAP_ENTRIES p = (MAX_RAM_BYTES p + 1439) div 1440"

definition BIN_INFO_MAP_BYTES :: "platform \<Rightarrow> nat" where
  "BIN_INFO_MAP_BYTES p = (BIN_INFO_MAP_ENTRIES p + 63) div 64 * 8"

definition map_clear_all :: "platform \<Rightarrow> client \<Rightarrow> client" where
  "map_clear_all p st = st\<lparr>bin_map := replicate (BIN_INFO_MAP_BYTES p) 0\<rparr>"

definition map_set :: "nat \<Rightarrow> client \<Rightarrow> client" where
  "map_set index st = st\<lparr>bin_map := (bin_map st)[index div 8 := bin_map st ! (index div 8) OR push_bit (index mod 8) 1]\<rparr>"

definition map_test :: "client \<Rightarrow> nat \<Rightarrow> bool" where
  "map_test st index = (bin_map st ! (index div 8) AND push_bit (index mod 8) 1 \<noteq> 0)"

section \<open>Handlers\<close>

definition cmd_reboot :: "client \<Rightarrow> client" where
  "cmd_reboot st = emit Reboot (st\<lparr>booted := False, running := False\<rparr>)"

text \<open>The answer that echoes a command, with a new address, size and data.\<close>

definition reply :: "platform \<Rightarrow> headers \<Rightarrow> u32 \<Rightarrow> u16 \<Rightarrow> command \<Rightarrow> bytes \<Rightarrow> client \<Rightarrow> client option" where
  "reply p h src_ip sport c payload st =
     send_udp p (ip_src h) src_ip (ip_packet_id h) (udp_src h) sport (command_bytes c @ payload) st"

definition store_argv :: "headers \<Rightarrow> command \<Rightarrow> info \<Rightarrow> info option" where
  "store_argv h c i =
     (let udp_payload = ucast (udp_length h) - 8 :: u32;
          data_len = unat (if udp_payload > 12 then udp_payload - 12 else 0);
          i = i\<lparr>argc := 0, argv_data := (argv_data i)[0 := 0]\<rparr>
      in if data_len \<ge> 5 then
           (if length (cmd_data c) < 4 then None
            else let prog_argc = rd32 (cmd_data c) 0;
                     argv_data_len = min (data_len - 4) KOSLOAD_MAX_ARGV_DATA
                 in if prog_argc > 0 \<and> argv_data_len > 0 then
                      (if length (cmd_data c) < 4 + argv_data_len then None
                       else let arg = take argv_data_len (drop 4 (cmd_data c)) @ drop argv_data_len (argv_data i)
                            in Some (i\<lparr>argc := prog_argc, argv_data := arg[argv_data_len - 1 := 0]\<rparr>))
                    else Some i)
         else Some i)"

definition cmd_execute :: "platform \<Rightarrow> headers \<Rightarrow> command \<Rightarrow> client \<Rightarrow> client option" where
  "cmd_execute p h c st =
     (if running st then Some st
      else do {
        let st = emit BbStop st;
        let st = st\<lparr>tool_ip := ip_src h, tool_port := udp_src h, tool_mac := eth_src h, our_ip := ip_dest h\<rparr>;
        let st = st\<lparr>kosload_info := (kosload_info st)\<lparr>
                   console_ip := be32 (our_ip st), console_port := be16 (kosload_syscall_port st),
                   host_ip := be32 (tool_ip st), host_port := be16 (tool_port st)\<rparr>\<rparr>;
        st \<leftarrow> reply p h (our_ip st) (udp_dest h) c [] st;
        i \<leftarrow> store_argv h c (kosload_info st);
        let st = st\<lparr>kosload_info := i\<rparr>;
        let fw_update = (cmd_size c AND 4 \<noteq> 0);
        let st = (if \<not> booted st then disp_info st
                  else disp_status (if fw_update then ''updating firmware...'' else ''executing...'') st);
        let st = (if \<not> fw_update then
                    (let st = emit (SetConsole (cmd_size c AND 1 \<noteq> 0)) st in
                     if cmd_size c AND 2 \<noteq> 0 \<and> has_cdfs_redir p then emit CdfsRedirEnable st else st)
                  else if has_fw_update_prepare p then emit FwUpdatePrepare st else st);
        let st = st\<lparr>running := True\<rparr>;
        let st = run_program p (cmd_address c) (emit (Execute (cmd_address c)) st);
        let st = emit BbStart (emit BbInit (emit BbStop (emit RestartTimer st)));
        Some (emit ScreensaverReset (disp_status ''idle...'' (disp_info (st\<lparr>running := False\<rparr>))))
      })"

text \<open>The message and the exit notification of a load that does not fit.\<close>

definition load_refused :: "platform \<Rightarrow> string \<Rightarrow> nat \<Rightarrow> client \<Rightarrow> client option" where
  "load_refused p msg n st = do {
     (_, st) \<leftarrow> net_write p 1 (rodata p msg) (\<lambda>k. take k (ascii msg @ [13, 10, 0])) (of_nat n) st;
     st \<leftarrow> progexit p (- 1) st;
     Some (emit BbStart st) }"

definition cmd_loadbin :: "platform \<Rightarrow> headers \<Rightarrow> command \<Rightarrow> client \<Rightarrow> client option" where
  "cmd_loadbin p h c st =
     (let st = net_bump_syscall_deadline p st;
          st = st\<lparr>load_address := cmd_address c, load_size := cmd_size c\<rparr>;
          max_size = min (unat (detect_ram_size p)) (MAX_RAM_BYTES p)
      in if DCTOOL_MAJOR st < 2 \<and> unat (load_size st) > BIN_INFO_MAP_ENTRIES p * 1024
         then load_refused p ''ERROR: Size >11656KB (legacy mode)'' 37 st
         else if \<not> DCTOOL_MAJOR st < 2 \<and> unat (load_size st) > max_size
         then load_refused p ''ERROR: Size exceeds RAM'' 25 st
         else do {
           let st = map_clear_all p st;
           let st = st\<lparr>our_ip := ip_dest h\<rparr>;
           let cacheable_check = drop_bit 29 (load_address st);
           let st = st\<lparr>cached_dest := (cacheable_check \<noteq> 5 \<and> cacheable_check \<noteq> 7)\<rparr>;
           let st = st\<lparr>payload1024 := (DCTOOL_MAJOR st < 2)\<rparr>;
           st \<leftarrow> reply p h (our_ip st) (udp_dest h) c [] st;
           Some (if \<not> running st
                 then disp_status ''receiving data...'' (if \<not> booted st then disp_info st else st)
                 else st)
         })"

definition cmd_partbin :: "platform \<Rightarrow> command \<Rightarrow> client \<Rightarrow> client option" where
  "cmd_partbin p c st =
     (let addr = cmd_address c; sz = cmd_size c;
          st = net_bump_syscall_deadline p st
      in if unat sz > length (cmd_data c) then None
         else let st = st\<lparr>mem := mem_write (mem st) addr (take (unat sz) (cmd_data c))\<rparr>;
                  st = (if cached_dest st then emit (CachePurge addr ((sz + 31) div 32 + 2)) st else st);
                  index = (if payload1024 st then (addr - load_address st) div 1024
                           else UDIV_CONST (addr - load_address st) 1440)
              in Some (if sint index \<ge> 0 \<and> unat index < BIN_INFO_MAP_ENTRIES p then map_set (unat index) st else st))"

text \<open>The scan of \<open>cmd_donebin\<close> for the first chunk whose bit is clear.\<close>

fun scan_map :: "client \<Rightarrow> nat \<Rightarrow> nat \<Rightarrow> nat option" where
  "scan_map st i 0 = Some i"
| "scan_map st i (Suc left) =
     (if i div 8 \<ge> length (bin_map st) then None
      else if \<not> map_test st i then Some i else scan_map st (i + 1) left)"

definition cmd_donebin :: "platform \<Rightarrow> headers \<Rightarrow> command \<Rightarrow> client \<Rightarrow> client option" where
  "cmd_donebin p h c st =
     (let st = net_bump_syscall_deadline p st;
          legacy = DCTOOL_MAJOR st < 2;
          map_index_verify = (if legacy then (load_size st + 1023) div 1024 else UDIV_CONST (load_size st + 1439) 1440);
          payload_size = (if legacy then 1024 else 1440 :: u32)
      in do {
        n \<leftarrow> scan_map st 0 (unat map_index_verify);
        let i = (of_nat n :: u32);
        let resp = (if i = map_index_verify then c\<lparr>cmd_address := 0, cmd_size := 0\<rparr>
                    else c\<lparr>cmd_address := load_address st + i * payload_size,
                           cmd_size := min (load_size st - i * payload_size) payload_size\<rparr>);
        st \<leftarrow> reply p h (ip_dest h) (udp_dest h) resp [] st;
        Some (if \<not> running st then
                (let st = (if \<not> booted st then disp_info st else st) in
                 disp_status (if i = map_index_verify then ''idle...'' else ''receiving data...'') st)
              else st)
      })"

definition NET_CMD_SENDBIN :: bytes where "NET_CMD_SENDBIN = ascii ''SBIN''"
definition NET_CMD_DONEBIN :: bytes where "NET_CMD_DONEBIN = ascii ''DBIN''"

fun send_chunks :: "platform \<Rightarrow> headers \<Rightarrow> u32 \<Rightarrow> nat \<Rightarrow> u32 \<Rightarrow> u32 \<Rightarrow> client \<Rightarrow> client option" where
  "send_chunks p h payload_size 0 addr bytes_left st = Some st"
| "send_chunks p h payload_size (Suc n) addr bytes_left st =
     (let bytes_thistime = (if bytes_left \<ge> payload_size then payload_size else bytes_left);
          c = \<lparr>cmd_id = NET_CMD_SENDBIN, cmd_address = addr, cmd_size = bytes_thistime, cmd_data = []\<rparr>
      in do {
        st \<leftarrow> reply p h (our_ip st) (udp_dest h) c (mem_read (mem st) addr (unat bytes_thistime)) st;
        send_chunks p h payload_size n (addr + bytes_thistime) (bytes_left - bytes_thistime) st
      })"

definition cmd_sendbinq :: "platform \<Rightarrow> headers \<Rightarrow> command \<Rightarrow> client \<Rightarrow> client option" where
  "cmd_sendbinq p h c st =
     (let st = net_bump_syscall_deadline p st;
          st = st\<lparr>our_ip := ip_dest h\<rparr>;
          bytes_left = cmd_size c;
          legacy = DCTOOL_MAJOR st < 2;
          payload_size = (if legacy then 1024 else 1440);
          numpackets = (if legacy then (bytes_left + 1023) div 1024 else UDIV_CONST (bytes_left + 1439) 1440)
      in do {
        st \<leftarrow> send_chunks p h payload_size (unat numpackets) (cmd_address c) bytes_left st;
        reply p h (our_ip st) (udp_dest h)
          \<lparr>cmd_id = NET_CMD_DONEBIN, cmd_address = 0, cmd_size = 0, cmd_data = []\<rparr> [] st
      })"

definition cmd_sendbin :: "platform \<Rightarrow> headers \<Rightarrow> command \<Rightarrow> client \<Rightarrow> client option" where
  "cmd_sendbin p h c st =
     (let st = (if \<not> running st
                then disp_status ''sending data...'' (if \<not> booted st then disp_info st else st) else st)
      in do {
        st \<leftarrow> cmd_sendbinq p h c st;
        Some (if \<not> running st then disp_status ''idle...'' st else st)
      })"

definition cmd_capabilities :: "platform \<Rightarrow> headers \<Rightarrow> command \<Rightarrow> client \<Rightarrow> client option" where
  "cmd_capabilities p h c st =
     (let st = st\<lparr>kosload_info := (kosload_info st)\<lparr>host_capabilities := cmd_address c\<rparr>\<rparr>
      in reply p h (our_ip st) (kosload_syscall_port st)
           (c\<lparr>cmd_address := capabilities (kosload_info st), cmd_size := 0\<rparr>) [] st)"

definition cmd_version :: "platform \<Rightarrow> headers \<Rightarrow> command \<Rightarrow> client \<Rightarrow> client option" where
  "cmd_version p h c st =
     (let st = st\<lparr>tool_version := cmd_address c\<rparr>;
          st = st\<lparr>kosload_syscall_port := (if DCTOOL_MAJOR st \<ge> 2 then udp_dest h else 31313)\<rparr>;
          text = loader_string p @ bb_name p @ [0]
      in reply p h (our_ip st) (kosload_syscall_port st)
           (c\<lparr>cmd_size := of_nat (length text), cmd_address := installed_adapter p\<rparr>) text st)"

datatype trailer = NoTrailer | Stale | TrailerOk

definition check_trailer :: "client \<Rightarrow> nat \<Rightarrow> command \<Rightarrow> trailer option" where
  "check_trailer st udp_payload_len c =
     (if tool_version st \<ge> 0x00030000 \<and> udp_payload_len \<ge> COMMAND_LEN + NET_SEQ_TRAILER_LEN then
        (if udp_payload_len > COMMAND_LEN + length (cmd_data c) then None
         else let t = drop (udp_payload_len - NET_SEQ_TRAILER_LEN) (command_bytes c @ cmd_data c) in
              Some (if take 4 t = NET_SEQ_MAGIC
                    then (if rd32 t 4 \<noteq> kos_syscall_seq st then Stale else TrailerOk)
                    else NoTrailer))
      else Some NoTrailer)"

definition cmd_retval :: "platform \<Rightarrow> headers \<Rightarrow> command \<Rightarrow> client \<Rightarrow> client option" where
  "cmd_retval p h c st =
     (if \<not> running st then Some st
      else if unat (udp_length h) < UDP_H_LEN then Some st
      else let udp_payload_len = unat (udp_length h) - UDP_H_LEN
           in do {
             tr \<leftarrow> check_trailer st udp_payload_len c;
             if tr = Stale then Some st
             else do {
               st \<leftarrow> reply p h (ip_dest h) (udp_dest h) c [] (emit BbStop st);
               let data_len = (if udp_payload_len > COMMAND_LEN then udp_payload_len - COMMAND_LEN else 0);
               let data_len = (if tr = TrailerOk \<and> data_len \<ge> NET_SEQ_TRAILER_LEN
                               then data_len - NET_SEQ_TRAILER_LEN else data_len);
               Some (st\<lparr>syscall_retval := cmd_address c, syscall_data := cmd_data c,
                        syscall_data_len := of_nat data_len, escape_loop := True\<rparr>)
             }
           })"

text \<open>\<open>cmd_maple\<close> repeats the bus command while the device answers \<open>MAPLE_RESPONSE_AGAIN\<close>.\<close>

partial_function (option) maple_retry :: "platform \<Rightarrow> bytes \<Rightarrow> nat \<Rightarrow> bytes option" where
  "maple_retry p args n =
     (let res = maple_docmd p n args in
      if res ! 0 = - 4 then maple_retry p args (n + 1) else Some res)"

declare maple_retry.simps [code]

definition cmd_maple :: "platform \<Rightarrow> headers \<Rightarrow> command \<Rightarrow> client \<Rightarrow> client option" where
  "cmd_maple p h c st = do {
     res \<leftarrow> maple_retry p (cmd_data c) 0;
     let i = (if sint (res ! 0) < 0 then 4 else (unat (res ! 3) + 1) * 4);
     if length res < i then None
     else reply p h (ip_dest h) (udp_dest h) (c\<lparr>cmd_size := of_nat i\<rparr>) (take i res) st }"

definition cstr :: "string \<Rightarrow> bytes" where
  "cstr s = ascii s @ [0]"

definition invalid_mode :: "u8 \<Rightarrow> bool" where
  "invalid_mode m = (m = 0 \<or> m > 0x29)"

text \<open>The action and the answer of a performance-counter command.\<close>

definition pmcr_answer :: "platform \<Rightarrow> bytes \<Rightarrow> event list \<times> bytes" where
  "pmcr_answer p d =
     (let f = d ! 0; ch = d ! 1;
          mode_err = cstr ''PMCR modes: 0x1-0x29.''; count_err = cstr ''PMCR count: 0 or 1 only.'';
          ok = cstr ''OK''
      in if ch = 0 \<or> ch > 3 then ([], cstr ''PMCR: chan 1, 2, or 3 (both) only.'')
         else if f = 0x49 then
           (if invalid_mode (d ! 2) then ([], mode_err) else if d ! 3 > 1 then ([], count_err)
            else ([PmcrInit ch (d ! 2) (d ! 3)], ok))
         else if f = 0x45 then
           (if invalid_mode (d ! 2) then ([], mode_err) else if d ! 3 > 1 then ([], count_err)
            else if d ! 4 > 1 then ([], cstr ''PMCR reset: 0 or 1 only.'')
            else ([PmcrEnable ch (d ! 2) (d ! 3) (d ! 4)], ok))
         else if f = 0x42 then
           (if invalid_mode (d ! 2) then ([], mode_err) else if d ! 3 > 1 then ([], count_err)
            else ([PmcrRestart ch (d ! 2) (d ! 3)], ok))
         else if f = 0x52 then
           (if ch > 2 then ([], cstr ''PMCR: chan 1 or 2 only.'') else ([PmcrRead ch], take 8 (pmcr_counter p ch)))
         else if f = 0x47 then
           (if ch > 2 then ([], cstr ''PMCR: chan 1 or 2 only.'') else ([PmcrGetConfig ch], take 2 (pmcr_config p ch)))
         else if f = 0x53 then ([PmcrStop ch], ok)
         else if f = 0x44 then ([PmcrDisable ch], ok)
         else ([], cstr ''PMCR: I, E, B, R, G, S, or D only.''))"

definition cmd_pmcr :: "platform \<Rightarrow> headers \<Rightarrow> command \<Rightarrow> client \<Rightarrow> client option" where
  "cmd_pmcr p h c st =
     (if length (cmd_data c) < 5 then None
      else let (evs, msg) = pmcr_answer p (cmd_data c) in
           reply p h (ip_dest h) (udp_dest h) (c\<lparr>cmd_size := of_nat (length msg)\<rparr>) msg
             (st\<lparr>trace := trace st @ evs\<rparr>))"

definition cmd_setrtc :: "platform \<Rightarrow> headers \<Rightarrow> command \<Rightarrow> client \<Rightarrow> client option" where
  "cmd_setrtc p h c st =
     reply p h (ip_dest h) (udp_dest h) c [] (emit (SetRtc (cmd_address c)) st)"

section \<open>The bitmap\<close>

lemma map_test_bit: "map_test st i = bit (bin_map st ! (i div 8)) (i mod 8)"
  unfolding map_test_def by (rule bit_iff_and_push_bit_not_eq_0 [symmetric])

lemma length_map_set [simp]: "length (bin_map (map_set i st)) = length (bin_map st)"
  by (simp add: map_set_def)

lemma map_test_map_set:
  assumes "i div 8 < length (bin_map st)"
  shows "map_test (map_set i st) j \<longleftrightarrow> j = i \<or> map_test st j"
proof (cases "j div 8 = i div 8")
  case True
  have "j mod 8 = i mod 8 \<longleftrightarrow> j = i" using True by (metis div_mult_mod_eq)
  moreover have "bit (push_bit (i mod 8) 1 :: u8) (j mod 8) \<longleftrightarrow> j mod 8 = i mod 8"
    by (auto simp: bit_simps)
  ultimately show ?thesis using True assms by (auto simp: map_test_bit map_set_def bit_or_iff)
next
  case False
  then show ?thesis using assms by (auto simp: map_test_bit map_set_def)
qed

lemma map_index_in_bounds: "i < BIN_INFO_MAP_ENTRIES p \<Longrightarrow> i div 8 < BIN_INFO_MAP_BYTES p"
  unfolding BIN_INFO_MAP_BYTES_def by linarith

lemma map_test_clear: "i < BIN_INFO_MAP_ENTRIES p \<Longrightarrow> \<not> map_test (map_clear_all p st) i"
  by (simp add: map_test_bit map_clear_all_def map_index_in_bounds)

lemma map_set_simps [simp]:
  "load_address (map_set i st) = load_address st" "load_size (map_set i st) = load_size st"
  "payload1024 (map_set i st) = payload1024 st" "tool_version (map_set i st) = tool_version st"
  "mem (map_set i st) = mem st" "pkt_buf (map_set i st) = pkt_buf st" "trace (map_set i st) = trace st"
  by (simp_all add: map_set_def)

lemma bump_simps [simp]:
  "load_address (net_bump_syscall_deadline p st) = load_address st" "load_size (net_bump_syscall_deadline p st) = load_size st"
  "payload1024 (net_bump_syscall_deadline p st) = payload1024 st" "tool_version (net_bump_syscall_deadline p st) = tool_version st"
  "mem (net_bump_syscall_deadline p st) = mem st" "pkt_buf (net_bump_syscall_deadline p st) = pkt_buf st"
  "trace (net_bump_syscall_deadline p st) = trace st" "bin_map (net_bump_syscall_deadline p st) = bin_map st"
  "our_ip (net_bump_syscall_deadline p st) = our_ip st" "running (net_bump_syscall_deadline p st) = running st"
  "cached_dest (net_bump_syscall_deadline p st) = cached_dest st" "booted (net_bump_syscall_deadline p st) = booted st"
  "DCTOOL_MAJOR (net_bump_syscall_deadline p st) = DCTOOL_MAJOR st"
  "map_test (net_bump_syscall_deadline p st) = map_test st"
  by (simp_all add: net_bump_syscall_deadline_def DCTOOL_MAJOR_def map_test_def fun_eq_iff)

lemma scan_map_finds:
  assumes "\<And>j. j < i + n \<Longrightarrow> j div 8 < length (bin_map st)"
  shows "\<exists>k. scan_map st i n = Some k \<and> i \<le> k \<and> k \<le> i + n \<and> (\<forall>j. i \<le> j \<and> j < k \<longrightarrow> map_test st j)
     \<and> (k < i + n \<longrightarrow> \<not> map_test st k)"
  using assms
proof (induction st i n rule: scan_map.induct)
  case (2 st i left)
  show ?case
  proof (cases "map_test st i")
    case True
    have "i div 8 < length (bin_map st)" using "2.prems" [of i] by simp
    moreover obtain k where k: "scan_map st (i + 1) left = Some k" "i + 1 \<le> k" "k \<le> i + 1 + left"
        "\<forall>j. i + 1 \<le> j \<and> j < k \<longrightarrow> map_test st j" "k < i + 1 + left \<longrightarrow> \<not> map_test st k"
      using "2.IH" "2.prems" True calculation by auto
    moreover have "map_test st j" if "i \<le> j" "j < k" for j using k(4) True that by (cases "j = i") auto
    ultimately show ?thesis using True by auto
  next
    case False
    have "i div 8 < length (bin_map st)" using "2.prems" [of i] by simp
    with False show ?thesis by auto
  qed
qed auto

section \<open>Uploading an image\<close>

text \<open>
  The host cuts an image into 1440-byte chunks, the last one shorter; \<open>pbin\<close> is the command
  that carries chunk \<open>k\<close>, followed in the receive buffer by whatever an earlier packet left.
\<close>

definition chunk :: "bytes \<Rightarrow> nat \<Rightarrow> bytes" where
  "chunk img k = take 1440 (drop (k * 1440) img)"

definition nchunks :: "bytes \<Rightarrow> nat" where
  "nchunks img = (length img + 1439) div 1440"

definition pbin :: "u32 \<Rightarrow> bytes \<Rightarrow> nat \<Rightarrow> bytes \<Rightarrow> command" where
  "pbin base img k residue = \<lparr>cmd_id = ascii ''PBIN'', cmd_address = base + of_nat (k * 1440),
     cmd_size = of_nat (length (chunk img k)), cmd_data = chunk img k @ residue\<rparr>"

fun run_parts :: "platform \<Rightarrow> command list \<Rightarrow> client \<Rightarrow> client option" where
  "run_parts p [] st = Some st"
| "run_parts p (c # cs) st = Option.bind (cmd_partbin p c st) (run_parts p cs)"

definition upload_inv :: "platform \<Rightarrow> u32 \<Rightarrow> bytes \<Rightarrow> nat set \<Rightarrow> client \<Rightarrow> bool" where
  "upload_inv p base img S st =
     (load_address st = base \<and> load_size st = of_nat (length img) \<and> \<not> payload1024 st \<and> 2 \<le> DCTOOL_MAJOR st
      \<and> length (bin_map st) = BIN_INFO_MAP_BYTES p \<and> 14 \<le> length (pkt_buf st)
      \<and> (\<forall>k<BIN_INFO_MAP_ENTRIES p. map_test st k \<longleftrightarrow> k \<in> S)
      \<and> (\<forall>i<length img. i div 1440 \<in> S \<longrightarrow> mem st (base + of_nat i) = img ! i))"

text \<open>The addresses an image does not occupy.\<close>

definition outside :: "u32 \<Rightarrow> nat \<Rightarrow> u32 \<Rightarrow> bool" where
  "outside base n a = (\<forall>i < n. a \<noteq> base + of_nat i)"

lemma chunk_length: "length (chunk img k) = min 1440 (length img - k * 1440)"
  by (simp add: chunk_def)

lemma chunk_nth: "i < length (chunk img k) \<Longrightarrow> chunk img k ! i = img ! (k * 1440 + i)"
  by (auto simp: chunk_def nth_drop)

lemma nchunks_iff: "k < nchunks img \<longleftrightarrow> k * 1440 < length img"
  unfolding nchunks_def by (rule iffI) linarith+

lemma upload_inv_complete:
  assumes "upload_inv p base img S st" and "{..<nchunks img} \<subseteq> S"
  shows "mem_read (mem st) base (length img) = img"
proof (rule nth_equalityI)
  fix i assume "i < length (mem_read (mem st) base (length img))"
  then have i: "i < length img" by simp
  then have "i div 1440 < nchunks img" unfolding nchunks_iff by (metis div_times_less_eq_dividend le_less_trans)
  with assms i have "mem st (base + of_nat i) = img ! i" by (auto simp: upload_inv_def)
  with i show "mem_read (mem st) base (length img) ! i = img ! i" by (simp add: mem_read_def)
qed simp

lemma of_nat_offset_inj:
  "i < 4294967296 \<Longrightarrow> j < 4294967296 \<Longrightarrow> (base :: u32) + of_nat i = base + of_nat j \<Longrightarrow> i = j"
  by (simp add: of_nat32_inj)

lemma partbin_index:
  assumes "k * 1440 < 4294967296"
  shows "UDIV_CONST (of_nat (k * 1440)) 1440 = of_nat k" and "unat (of_nat k :: u32) = k" and "0 \<le> sint (of_nat k :: u32)"
proof -
  have k: "k < 2982617" using assms by linarith
  show u: "unat (of_nat k :: u32) = k" using k by (simp add: unat_of_nat_lt)
  have "unat (UDIV_CONST (of_nat (k * 1440)) 1440) = k"
    by (rule UDIV_CONST_multiple) (simp, subst unat_of_nat32 [OF assms], simp)
  then show "UDIV_CONST (of_nat (k * 1440)) 1440 = of_nat k" by (rule unat_eq_of_nat)
  have "sint (of_nat k :: u32) = int k" using k by (simp add: signed_of_nat signed_take_bit_int_eq_self)
  then show "0 \<le> sint (of_nat k :: u32)" by simp
qed

lemma partbin_step:
  assumes inv: "upload_inv p base img S st" and k: "k < nchunks img"
    and fits: "length img \<le> MAX_RAM_BYTES p" "MAX_RAM_BYTES p < 4294967296"
  shows "\<exists>st'. cmd_partbin p (pbin base img k residue) st = Some st' \<and> upload_inv p base img (insert k S) st'
    \<and> (\<exists>evs. trace st' = trace st @ evs \<and> tx_frames evs = [])
    \<and> (\<forall>a. outside base (length img) a \<longrightarrow> mem st' a = mem st a)"
proof -
  let ?n = "length (chunk img k)" and ?a = "base + of_nat (k * 1440)"
  have k1: "k * 1440 < length img" using k by (simp add: nchunks_iff)
  then have k2: "k * 1440 < 4294967296" and ent: "k < BIN_INFO_MAP_ENTRIES p"
    using fits unfolding BIN_INFO_MAP_ENTRIES_def by linarith+
  have n: "unat (of_nat ?n :: u32) = ?n" by (rule unat_of_nat32) (simp add: chunk_length)
  have la: "load_address st = base" and np: "\<not> payload1024 st" using inv by (simp_all add: upload_inv_def)
  define st1 where "st1 = (net_bump_syscall_deadline p st)\<lparr>mem := mem_write (mem st) ?a (chunk img k)\<rparr>"
  define st2 where "st2 = (if cached_dest st then emit (CachePurge ?a ((of_nat ?n + 31) div 32 + 2)) st1 else st1)"
  have s2: "bin_map st2 = bin_map st" "mem st2 = mem_write (mem st) ?a (chunk img k)" "load_address st2 = base"
    "load_size st2 = load_size st" "\<not> payload1024 st2" "tool_version st2 = tool_version st" "pkt_buf st2 = pkt_buf st"
    by (simp_all add: st2_def st1_def la np)
  have step: "cmd_partbin p (pbin base img k residue) st = Some (map_set k st2)"
    unfolding cmd_partbin_def pbin_def Let_def
    using partbin_index [OF k2] ent la np
    by (simp add: n st1_def st2_def del: of_nat_mult)
  have mem: "mem_write (mem st) ?a (chunk img k) (base + of_nat i) = img ! i"
    if i: "i < length img" "i div 1440 \<in> insert k S" for i
  proof (cases "i div 1440 = k")
    case True
    define j where "j = i - k * 1440"
    have ij: "i = k * 1440 + j" "j < 1440" using True unfolding j_def by linarith+
    have jl: "j < ?n" using ij i(1) by (simp add: chunk_length)
    have e: "base + of_nat i = ?a + of_nat j" by (simp add: ij(1) add.assoc)
    have "mem_write (mem st) ?a (chunk img k) (?a + of_nat j) = chunk img k ! j"
      by (rule mem_write_same [OF jl]) (simp add: chunk_length)
    with chunk_nth [OF jl] show ?thesis by (simp only: e ij(1) [symmetric])
  next
    case False
    have "base + of_nat i \<noteq> ?a + of_nat j" if "j < ?n" for j
    proof
      assume "base + of_nat i = ?a + of_nat j"
      then have "base + of_nat i = base + of_nat (k * 1440 + j)" by (simp add: add.assoc)
      moreover have "k * 1440 + j < 4294967296" using that k1 fits unfolding chunk_length by linarith
      moreover have "i < 4294967296" using i fits by linarith
      ultimately have "i = k * 1440 + j" by (intro of_nat_offset_inj)
      then show False using False that by (simp add: chunk_length)
    qed
    then have "mem_write (mem st) ?a (chunk img k) (base + of_nat i) = mem st (base + of_nat i)"
      by (rule mem_write_other)
    then show ?thesis using inv i False by (auto simp: upload_inv_def)
  qed
  have bm: "k div 8 < length (bin_map st2)" using inv map_index_in_bounds [OF ent] s2(1) by (simp add: upload_inv_def)
  have tests: "map_test (map_set k st2) j \<longleftrightarrow> j \<in> insert k S" if "j < BIN_INFO_MAP_ENTRIES p" for j
    using map_test_map_set [OF bm, of j] inv that s2(1) by (simp add: upload_inv_def map_test_def)
  have "upload_inv p base img (insert k S) (map_set k st2)"
    using inv mem tests s2 unfolding upload_inv_def by (simp add: DCTOOL_MAJOR_def)
  moreover have "trace (map_set k st2) = trace st @ (if cached_dest st then [CachePurge ?a ((of_nat ?n + 31) div 32 + 2)] else [])"
    by (simp add: st2_def st1_def map_set_def)
  then have "\<exists>evs. trace (map_set k st2) = trace st @ evs \<and> tx_frames evs = []" by (cases "cached_dest st") auto
  moreover have "mem (map_set k st2) a = mem st a" if out: "outside base (length img) a" for a
  proof -
    have "a \<noteq> ?a + of_nat j" if "j < ?n" for j
    proof -
      have "k * 1440 + j < length img" using that unfolding chunk_length by linarith
      then have "a \<noteq> base + of_nat (k * 1440 + j)" using out unfolding outside_def by blast
      then show ?thesis by (simp add: add.assoc)
    qed
    then show ?thesis using s2(2) mem_write_other [of "chunk img k" a ?a] by (simp add: map_set_def)
  qed
  ultimately show ?thesis using step by blast
qed

lemma run_parts_inv:
  assumes "upload_inv p base img S st" "\<forall>(k, r) \<in> set ks. k < nchunks img"
    and fits: "length img \<le> MAX_RAM_BYTES p" "MAX_RAM_BYTES p < 4294967296"
  shows "\<exists>st'. run_parts p (map (\<lambda>(k, r). pbin base img k r) ks) st = Some st' \<and> upload_inv p base img (S \<union> fst ` set ks) st'"
  using assms(1,2)
proof (induction ks arbitrary: S st)
  case (Cons kr ks)
  obtain k r where kr: "kr = (k, r)" by (cases kr)
  obtain st1 where "cmd_partbin p (pbin base img k r) st = Some st1" "upload_inv p base img (insert k S) st1"
    using partbin_step [OF Cons.prems(1), of k r] Cons.prems(2) fits kr by auto
  with Cons.IH [of "insert k S" st1] Cons.prems(2) show ?case by (simp add: kr)
qed simp

lemma loadbin_starts_upload:
  assumes ver: "2 \<le> DCTOOL_MAJOR st" and buf: "14 \<le> length (pkt_buf st)"
    and id: "length (cmd_id c) = 4"
    and sz: "cmd_size c = of_nat (length img)" "length img \<le> unat (detect_ram_size p)" "length img \<le> MAX_RAM_BYTES p"
  shows "\<exists>st' f. cmd_loadbin p h c st = Some st' \<and> upload_inv p (cmd_address c) img {} st'
    \<and> new_frames st st' = [f] \<and> frame_payload f = command_bytes c \<and> (\<exists>evs. trace st' = trace st @ evs) \<and> mem st' = mem st"
proof -
  have len: "length img < 4294967296" using sz(2) unat_lt32 [of "detect_ram_size p"] by linarith
  have u: "unat (cmd_size c) = length img" unfolding sz(1) by (rule unat_of_nat32 [OF len])
  have nl: "\<not> DCTOOL_MAJOR st < 2" using ver by simp
  have mn: "\<not> min (unat (detect_ram_size p)) (MAX_RAM_BYTES p) < length img" using sz(2,3) by simp
  define st0 where "st0 = (map_clear_all p ((net_bump_syscall_deadline p st)\<lparr>load_address := cmd_address c, load_size := cmd_size c\<rparr>))
      \<lparr>our_ip := ip_dest h, cached_dest := (drop_bit 29 (cmd_address c) \<noteq> 5 \<and> drop_bit 29 (cmd_address c) \<noteq> 7), payload1024 := False\<rparr>"
  have s0: "load_address st0 = cmd_address c" "load_size st0 = cmd_size c" "\<not> payload1024 st0" "DCTOOL_MAJOR st0 = DCTOOL_MAJOR st"
    "bin_map st0 = replicate (BIN_INFO_MAP_BYTES p) 0" "pkt_buf st0 = pkt_buf st"
    by (simp_all add: st0_def map_clear_all_def DCTOOL_MAJOR_def)
  define f where "f = udp_frame p (ip_src h) (ip_dest h) (ip_packet_id h) (udp_src h) (udp_dest h) (command_bytes c) (pkt_buf st)"
  have lf: "14 \<le> length f" unfolding f_def using udp_frame(1) [OF _ buf, of "command_bytes c"] id by (simp add: command_bytes_def)
  have r: "reply p h (ip_dest h) (udp_dest h) c [] st0 = Some (sent f st0)"
    unfolding reply_def f_def using id buf by (simp add: send_udp_eq command_bytes_def s0)
  define st1 where "st1 = (if \<not> running st then disp_status ''receiving data...''
      (if \<not> booted st then disp_info (sent f st0) else sent f st0) else sent f st0)"
  have "cmd_loadbin p h c st = Some st1"
    unfolding cmd_loadbin_def Let_def st1_def using nl u mn r
    by (simp add: DCTOOL_MAJOR_def st0_def map_clear_all_def)
  moreover have "upload_inv p (cmd_address c) img {} st1"
    using s0 sz(1) ver lf map_test_clear [of _ p st]
    unfolding upload_inv_def by (simp add: st1_def map_test_def map_clear_all_def DCTOOL_MAJOR_def)
  moreover have "trace st1 = trace st @ (Tx f # (if running st then [] else (if booted st then [] else [DispInfo]) @
      [DispStatus ''receiving data...'']))"
    by (simp add: st1_def st0_def map_clear_all_def)
  then have "new_frames st st1 = [f]" "\<exists>evs. trace st1 = trace st @ evs" using new_frames_append by fastforce+
  moreover have "mem st1 = mem st" by (simp add: st1_def st0_def map_clear_all_def)
  moreover have "frame_payload f = command_bytes c"
    unfolding f_def using id buf by (intro udp_frame(2)) (simp_all add: command_bytes_def)
  ultimately show ?thesis by blast
qed

text \<open>The chunk count of \<open>cmd_donebin\<close> is right as long as the reciprocal's surplus does not carry.\<close>

lemma donebin_count:
  assumes "length img \<le> 3626067"
  shows "unat (UDIV_CONST (of_nat (length img) + 1439) 1440) = nchunks img"
proof -
  have "of_nat (length img) + 1439 = (of_nat (length img + 1439) :: u32)" by simp
  moreover have u: "unat (of_nat (length img + 1439) :: u32) = length img + 1439"
    by (rule unat_of_nat32) (use assms in simp)
  moreover have "unat (UDIV_CONST (of_nat (length img + 1439)) 1440) = (length img + 1439) div 1440"
    by (subst UDIV_CONST_exact_below) (use assms in \<open>simp_all only: u, simp_all\<close>)
  ultimately show ?thesis by (simp add: nchunks_def)
qed

definition missing_reply :: "u32 \<Rightarrow> bytes \<Rightarrow> nat set \<Rightarrow> u32 \<times> u32" where
  "missing_reply base img S =
     (if {..<nchunks img} \<subseteq> S then (0, 0)
      else let k = (LEAST k. k \<notin> S) in (base + of_nat (k * 1440), of_nat (length (chunk img k))))"

lemma missing_reply_scan:
  assumes "k \<le> nchunks img" "\<forall>j<k. j \<in> S" "k < nchunks img \<longrightarrow> k \<notin> S"
  shows "missing_reply base img S =
    (if k = nchunks img then (0, 0) else (base + of_nat (k * 1440), of_nat (length (chunk img k))))"
proof (cases "k = nchunks img")
  case True
  with assms(2) show ?thesis by (auto simp: missing_reply_def)
next
  case False
  then have "k \<notin> S" "k < nchunks img" using assms by simp_all
  moreover have "(LEAST k. k \<notin> S) = k"
    by (rule Least_equality) (use \<open>k \<notin> S\<close> assms(2) in \<open>auto simp: not_less [symmetric]\<close>)
  ultimately show ?thesis using False by (auto simp: missing_reply_def Let_def)
qed

lemma donebin_reply:
  assumes inv: "upload_inv p base img S st" and len: "length img \<le> 3626067" and id: "length (cmd_id c) = 4"
    and fits: "length img \<le> MAX_RAM_BYTES p"
  shows "\<exists>st' f. cmd_donebin p h c st = Some st' \<and> new_frames st st' = [f] \<and> mem st' = mem st \<and> upload_inv p base img S st'
    \<and> (\<exists>evs. trace st' = trace st @ evs)
    \<and> frame_payload f = (let (a, s) = missing_reply base img S in cmd_id c @ be32 a @ be32 s)"
proof -
  let ?v = "UDIV_CONST (load_size st + 1439) 1440"
  have v: "unat ?v = nchunks img" using inv donebin_count [OF len] by (simp add: upload_inv_def)
  have nl: "\<not> DCTOOL_MAJOR st < 2" using inv unfolding upload_inv_def not_less by blast
  have nc: "nchunks img \<le> 2519" using len unfolding nchunks_def by linarith
  have ent: "nchunks img \<le> BIN_INFO_MAP_ENTRIES p" using fits unfolding nchunks_def BIN_INFO_MAP_ENTRIES_def by (intro div_le_mono) simp
  let ?b = "net_bump_syscall_deadline p st"
  obtain k where k: "scan_map ?b 0 (nchunks img) = Some k" "k \<le> nchunks img"
      "\<forall>j<k. map_test st j" "k < nchunks img \<longrightarrow> \<not> map_test st k"
    using scan_map_finds [of 0 "nchunks img" ?b] ent map_index_in_bounds inv
    by (auto simp: upload_inv_def)
  have m: "missing_reply base img S = (if k = nchunks img then (0, 0) else (base + of_nat (k * 1440), of_nat (length (chunk img k))))"
    using k ent inv by (intro missing_reply_scan) (auto simp: upload_inv_def)
  have iv: "of_nat k = ?v \<longleftrightarrow> k = nchunks img"
  proof -
    have "unat (of_nat k :: u32) = k" using k(2) nc by (intro unat_of_nat32) simp
    then show ?thesis by (simp add: word_unat_eq_iff v)
  qed
  have la: "load_address st = base" "load_size st = of_nat (length img)" using inv by (simp_all add: upload_inv_def)
  have sz: "min (load_size st - of_nat k * 1440) 1440 = of_nat (length (chunk img k))" if "k < nchunks img"
  proof -
    have kl: "k * 1440 < length img" using that by (simp add: nchunks_iff)
    have "load_size st - of_nat k * 1440 = of_nat (length img - k * 1440)" using kl by (simp add: la of_nat_diff)
    moreover have "unat (of_nat (length img - k * 1440) :: u32) = length img - k * 1440"
      using len by (intro unat_of_nat32) simp
    ultimately show ?thesis
      by (simp add: min_def word_le_nat_alt chunk_length split: if_splits)
  qed
  define r where "r = (if k = nchunks img then c\<lparr>cmd_address := 0, cmd_size := 0\<rparr>
      else c\<lparr>cmd_address := base + of_nat k * 1440, cmd_size := min (load_size st - of_nat k * 1440) 1440\<rparr>)"
  have rb: "command_bytes r = (let (a, s) = missing_reply base img S in cmd_id c @ be32 a @ be32 s)"
    using k(2) sz by (simp add: r_def m command_bytes_def)
  have lb: "length (command_bytes r) = 12" using id by (simp add: r_def command_bytes_def)
  define f where "f = udp_frame p (ip_src h) (ip_dest h) (ip_packet_id h) (udp_src h) (udp_dest h) (command_bytes r) (pkt_buf st)"
  have buf: "14 \<le> length (pkt_buf ?b)" using inv by (simp add: upload_inv_def)
  have rp: "reply p h (ip_dest h) (udp_dest h) r [] ?b = Some (sent f ?b)"
    unfolding reply_def f_def using lb send_udp_eq [OF _ buf] by simp
  have fp: "frame_payload f = command_bytes r" unfolding f_def using lb buf by (intro udp_frame(2)) simp_all
  define st1 where "st1 = (if \<not> running st then disp_status (if of_nat k = ?v then ''idle...'' else ''receiving data...'')
      (if \<not> booted st then disp_info (sent f ?b) else sent f ?b) else sent f ?b)"
  have "cmd_donebin p h c st = Some st1"
  proof (cases "k = nchunks img")
    case True
    have "of_nat (nchunks img) = UDIV_CONST (of_nat (length img) + 1439) 1440" using iv True la by simp
    then show ?thesis unfolding cmd_donebin_def Let_def st1_def using nl v k(1) rp la True unfolding r_def by simp
  next
    case False
    have "of_nat k \<noteq> UDIV_CONST (of_nat (length img) + 1439) 1440" using iv False la by simp
    then show ?thesis unfolding cmd_donebin_def Let_def st1_def using nl v k(1) rp la False unfolding r_def by simp
  qed
  moreover have "trace st1 = trace st @ (Tx f # (if running st then [] else (if booted st then [] else [DispInfo]) @
      [DispStatus (if of_nat k = ?v then ''idle...'' else ''receiving data...'')]))"
    by (simp add: st1_def)
  then have "new_frames st st1 = [f]" "\<exists>evs. trace st1 = trace st @ evs" using new_frames_append by fastforce+
  moreover have "mem st1 = mem st" by (simp add: st1_def)
  moreover have "length f = 54" unfolding f_def using lb buf by (subst udp_frame(1)) simp_all
  then have "upload_inv p base img S st1"
    using inv unfolding upload_inv_def by (simp add: st1_def map_test_def DCTOOL_MAJOR_def)
  ultimately show ?thesis using fp rb by auto
qed

section \<open>Downloading memory\<close>

definition sbin_payload :: "memory \<Rightarrow> u32 \<Rightarrow> nat \<Rightarrow> nat \<Rightarrow> bytes" where
  "sbin_payload m a n i = NET_CMD_SENDBIN @ be32 (a + of_nat (i * 1440)) @ be32 (of_nat (min 1440 (n - i * 1440)))
     @ mem_read m (a + of_nat (i * 1440)) (min 1440 (n - i * 1440))"

lemma length_cmd_ids [simp]: "length NET_CMD_SENDBIN = 4" "length NET_CMD_DONEBIN = 4"
  by (simp_all add: NET_CMD_SENDBIN_def NET_CMD_DONEBIN_def)

lemma sbin_payload_Suc: "sbin_payload m a n (Suc i) = sbin_payload m (a + of_nat 1440) (n - 1440) i"
  unfolding sbin_payload_def by (simp add: add.assoc)

lemma reply_sends:
  assumes "length (cmd_id c) = 4" "length payload \<le> 1480" "14 \<le> length (pkt_buf st)"
  obtains f where "reply p h sip sport c payload st = Some (sent f st)" "frame_payload f = command_bytes c @ payload"
    "14 \<le> length f"
proof -
  let ?f = "udp_frame p (ip_src h) sip (ip_packet_id h) (udp_src h) sport (command_bytes c @ payload) (pkt_buf st)"
  have l: "length (command_bytes c @ payload) \<le> 1492" using assms by (simp add: command_bytes_def)
  then have "reply p h sip sport c payload st = Some (sent ?f st)"
    unfolding reply_def using assms(3) by (rule send_udp_eq)
  moreover have "frame_payload ?f = command_bytes c @ payload" "14 \<le> length ?f"
    using udp_frame(1,2) [OF _ assms(3), of "command_bytes c @ payload"] l by simp_all
  ultimately show thesis by (rule that)
qed

lemma send_chunks_frames:
  assumes "14 \<le> length (pkt_buf st)" "unat bl = n" "k = (n + 1439) div 1440"
  shows "\<exists>st' fs. send_chunks p h 1440 k a bl st = Some st' \<and> trace st' = trace st @ map Tx fs
    \<and> map frame_payload fs = map (sbin_payload (mem st) a n) [0..<k]
    \<and> mem st' = mem st \<and> our_ip st' = our_ip st \<and> 14 \<le> length (pkt_buf st')"
  using assms
proof (induction k arbitrary: a bl n st)
  case (Suc k)
  let ?t = "if bl \<ge> 1440 then 1440 else bl"
  have n0: "0 < n" using Suc.prems(3) by (cases n) auto
  have t: "unat ?t = min 1440 n" using Suc.prems(2) by (simp add: word_le_nat_alt)
  then have tn: "?t = of_nat (min 1440 n)" by (rule unat_eq_of_nat)
  let ?c = "\<lparr>cmd_id = NET_CMD_SENDBIN, cmd_address = a, cmd_size = ?t, cmd_data = []\<rparr> :: command"
  obtain f where f: "reply p h (our_ip st) (udp_dest h) ?c (mem_read (mem st) a (unat ?t)) st = Some (sent f st)"
      "frame_payload f = command_bytes ?c @ mem_read (mem st) a (unat ?t)" "14 \<le> length f"
    by (rule reply_sends [of ?c "mem_read (mem st) a (unat ?t)" st p h "our_ip st" "udp_dest h"])
      (use t Suc.prems(1) in simp_all)
  have f0: "frame_payload f = sbin_payload (mem st) a n 0"
    using f(2) t tn by (simp add: sbin_payload_def command_bytes_def)
  have bl: "unat (bl - ?t) = n - 1440" using Suc.prems(2) t by (simp add: unat_sub_if_size word_size)
  have k: "k = (n - 1440 + 1439) div 1440" using Suc.prems(3) n0 by linarith
  have p14: "14 \<le> length (pkt_buf (sent f st))" using f(3) by simp
  obtain st' fs where ih: "send_chunks p h 1440 k (a + ?t) (bl - ?t) (sent f st) = Some st'"
      "trace st' = trace (sent f st) @ map Tx fs" "map frame_payload fs = map (sbin_payload (mem st) (a + ?t) (n - 1440)) [0..<k]"
      "mem st' = mem st" "our_ip st' = our_ip st" "14 \<le> length (pkt_buf st')"
    using Suc.IH [OF p14 bl k, of "a + ?t"] by auto
  have rest: "map (sbin_payload (mem st) (a + ?t) (n - 1440)) [0..<k] = map (\<lambda>i. sbin_payload (mem st) a n (Suc i)) [0..<k]"
  proof (rule map_cong [OF refl])
    fix i assume "i \<in> set [0..<k]"
    then have "0 < k" by auto
    then have "1440 \<le> n" using k by (cases "n - 1440") auto
    then show "sbin_payload (mem st) (a + ?t) (n - 1440) i = sbin_payload (mem st) a n (Suc i)"
      unfolding sbin_payload_Suc tn by simp
  qed
  have "map frame_payload (f # fs) = map (sbin_payload (mem st) a n) [0..<Suc k]"
    using f0 ih(3) rest by (simp add: upt_conv_Cons map_Suc_upt [symmetric] comp_def del: upt_Suc)
  moreover have "send_chunks p h 1440 (Suc k) a bl st = Some st'" using f(1) ih(1) by (simp add: Let_def)
  ultimately show ?case using ih by (intro exI [of _ st'] exI [of _ "f # fs"]) simp
qed (auto intro: exI [of _ "[]"])

lemma sbin_concat:
  "concat (map (\<lambda>i. mem_read m (a + of_nat (i * 1440)) (min 1440 (n - i * 1440))) [0..<k]) = mem_read m a (min n (k * 1440))"
proof (induction k)
  case (Suc k)
  have "min n (Suc k * 1440) = min n (k * 1440) + min 1440 (n - k * 1440)" by simp
  moreover have "min 1440 (n - k * 1440) = 0 \<or> min n (k * 1440) = k * 1440" by linarith
  ultimately show ?case using Suc by (auto simp: mem_read_add simp del: of_nat_mult mult_Suc)
qed simp

section \<open>Arguments of the executed program\<close>

text \<open>
  What \<open>cmd_execute\<close> has to leave in the info block: the argument count of the datagram and the first
  (at most 256) bytes of the argument strings with the last of them forced to zero, or no
  arguments when the datagram carries none.
\<close>

definition argv_spec :: "headers \<Rightarrow> command \<Rightarrow> info \<Rightarrow> bool" where
  "argv_spec h c i =
     (let dl = unat (udp_length h) - 20; n = min (dl - 4) 256 in
      if dl \<ge> 5 \<and> rd32 (cmd_data c) 0 \<noteq> 0
      then argc i = rd32 (cmd_data c) 0 \<and> take (n - 1) (argv_data i) = take (n - 1) (drop 4 (cmd_data c)) \<and> argv_data i ! (n - 1) = 0
      else argc i = 0 \<and> argv_data i ! 0 = 0)"

lemma argv_copy:
  assumes "length old = 256" "0 < n" "n \<le> 256" "n + 4 \<le> length src"
  defines "new \<equiv> (take n (drop 4 src) @ drop n old)[n - 1 := 0]"
  shows "length new = 256" "take (n - 1) new = take (n - 1) (drop 4 src)" "new ! (n - 1) = 0"
proof -
  have l: "length (take n (drop 4 src)) = n" using assms(4) by simp
  show "length new = 256" using l assms(1,3) unfolding new_def length_list_update length_append by simp
  show "take (n - 1) new = take (n - 1) (drop 4 src)"
    unfolding new_def using l by (simp add: take_update_cancel take_append min_def)
  have "n - 1 < length (take n (drop 4 src) @ drop n old)" unfolding length_append l using assms(2) by simp
  then show "new ! (n - 1) = 0" unfolding new_def by (rule nth_list_update_eq)
qed

lemma udp_data_len:
  assumes "8 \<le> unat (udp_length h)"
  shows "unat (if (ucast (udp_length h) - 8 :: u32) > 12 then ucast (udp_length h) - 8 - 12 else 0 :: u32) = unat (udp_length h) - 20"
proof -
  have u: "unat (ucast (udp_length h) :: u32) = unat (udp_length h)" by (simp add: unat_ucast_up)
  then have s: "unat (ucast (udp_length h) - 8 :: u32) = unat (udp_length h) - 8"
    using assms by (subst unat_sub_le) (simp_all add: word_le_nat_alt)
  show ?thesis
  proof (cases "(ucast (udp_length h) - 8 :: u32) > 12")
    case True
    then have "unat (ucast (udp_length h) - 8 - 12 :: u32) = unat (udp_length h) - 8 - 12"
      using s by (subst unat_sub_le) (simp_all add: word_less_nat_alt word_le_nat_alt)
    with True show ?thesis by simp
  next
    case False
    then show ?thesis using s by (simp add: word_less_nat_alt)
  qed
qed

lemma store_argv_spec:
  assumes "8 \<le> unat (udp_length h)" "unat (udp_length h) \<le> 20 + length (cmd_data c)" "length (argv_data i) = 256"
  shows "\<exists>i'. store_argv h c i = Some i' \<and> length (argv_data i') = 256 \<and> argv_spec h c i'"
proof -
  let ?dl = "unat (udp_length h) - 20"
  note dl = udp_data_len [OF assms(1)]
  show ?thesis
  proof (cases "?dl \<ge> 5 \<and> rd32 (cmd_data c) 0 \<noteq> 0")
    case True
    define n where "n = min (?dl - 4) 256"
    have n: "0 < n" "n \<le> 256" "n + 4 \<le> length (cmd_data c)" using True assms(2) unfolding n_def by auto
    have "length ((argv_data i)[0 := 0]) = 256" using assms(3) by simp
    note cp = argv_copy [OF this n]
    have pos: "0 < rd32 (cmd_data c) 0" using True by (simp add: word_neq_0_conv)
    have "store_argv h c i = Some (i\<lparr>argc := rd32 (cmd_data c) 0,
        argv_data := (take n (drop 4 (cmd_data c)) @ drop n ((argv_data i)[0 := 0]))[n - 1 := 0]\<rparr>)"
      unfolding store_argv_def Let_def dl KOSLOAD_MAX_ARGV_DATA_def n_def [symmetric]
      using True n pos by simp
    with cp True show ?thesis unfolding argv_spec_def Let_def n_def [symmetric] by simp
  next
    case False
    have "store_argv h c i = Some (i\<lparr>argc := 0, argv_data := (argv_data i)[0 := 0]\<rparr>)"
      unfolding store_argv_def Let_def dl using False assms(2) by auto
    with False assms(3) show ?thesis unfolding argv_spec_def Let_def by auto
  qed
qed

section \<open>Properties\<close>



text \<open>
  The chunk count of \<open>cmd_donebin\<close> is one too large for some images: with a load size of
  3627360 bytes, which is exactly 2519 chunks, and all 2519 chunk bits set, DONEBIN still names a missing chunk: the
  2520th, with size zero.
\<close>
theorem donebin_phantom_chunk:
  assumes "2 \<le> DCTOOL_MAJOR st" "14 \<le> length (pkt_buf st)" "length (cmd_id c) = 4"
    and "load_size st = 3627360" "length (bin_map st) = BIN_INFO_MAP_BYTES p" "2520 < BIN_INFO_MAP_ENTRIES p"
    and "\<forall>k<2519. map_test st k" "\<not> map_test st 2519"
  shows "\<exists>st' f. cmd_donebin p h c st = Some st' \<and> new_frames st st' = [f]
    \<and> frame_payload f = cmd_id c @ be32 (load_address st + 3627360) @ be32 0"
proof -
  let ?b = "net_bump_syscall_deadline p st"
  have v: "UDIV_CONST (load_size st + 1439) 1440 = 2520"
    unfolding assms(4) by (simp add: UDIV_CONST_def UDIV_RECIP_def)
  have nl: "\<not> DCTOOL_MAJOR st < 2" using assms(1) by (simp only: not_less)
  have "j div 8 < length (bin_map ?b)" if "j < 0 + 2520" for j
    using map_index_in_bounds [of j p] assms(5,6) that by simp
  from scan_map_finds [of 0 2520 ?b, OF this] obtain k where k: "scan_map ?b 0 2520 = Some k" "k \<le> 2520"
      "\<forall>j<k. map_test st j" "k < 2520 \<longrightarrow> \<not> map_test st k" by auto
  have "k = 2519"
  proof (rule ccontr)
    assume "k \<noteq> 2519"
    then consider "k < 2519" | "k = 2520" using k(2) by linarith
    then show False using k(3,4) assms(7,8) by cases auto
  qed
  note k = k(1) [unfolded this]
  let ?r = "c\<lparr>cmd_address := load_address st + 3627360, cmd_size := 0\<rparr>"
  define f where "f = udp_frame p (ip_src h) (ip_dest h) (ip_packet_id h) (udp_src h) (udp_dest h) (command_bytes ?r) (pkt_buf st)"
  have lb: "length (command_bytes ?r) = 12" using assms(3) by (simp add: command_bytes_def)
  have rp: "reply p h (ip_dest h) (udp_dest h) ?r [] ?b = Some (sent f ?b)"
    unfolding reply_def f_def using lb assms(2) send_udp_eq [of "command_bytes ?r" ?b] by simp
  have fp: "frame_payload f = command_bytes ?r" unfolding f_def using lb assms(2) by (intro udp_frame(2)) simp_all
  define st1 where "st1 = (if \<not> running st then disp_status ''receiving data...''
      (if \<not> booted st then disp_info (sent f ?b) else sent f ?b) else sent f ?b)"
  have "cmd_donebin p h c st = Some st1"
    unfolding cmd_donebin_def Let_def st1_def using nl v k rp assms(4) by simp
  moreover have "trace st1 = trace st @ (Tx f # (if running st then [] else (if booted st then [] else [DispInfo]) @
      [DispStatus ''receiving data...'']))"
    by (simp add: st1_def)
  then have "new_frames st st1 = [f]" "\<exists>evs. trace st1 = trace st @ evs" using new_frames_append by fastforce+
  ultimately show ?thesis using fp by (auto simp: command_bytes_def)
qed

theorem donebin_phantom_chunk_witness:
  "\<exists>st st' f. load_size st = 3627360 \<and> (\<forall>k<2519. map_test st k) \<and>
     cmd_donebin example_platform example_headers
       \<lparr>cmd_id = ascii ''DBIN'', cmd_address = 0, cmd_size = 0, cmd_data = []\<rparr> st = Some st'
     \<and> new_frames st st' = [f] \<and> frame_payload f = ascii ''DBIN'' @ be32 (0x8c010000 + 3627360) @ be32 0"
proof -
  define st where "st = example_client\<lparr>load_address := 0x8c010000, load_size := 3627360,
      bin_map := replicate 314 0xff @ [0x7f] @ replicate 1149 0\<rparr>"
  have bits: "map_test st k" if "k < 2519" for k
  proof (cases "k div 8 < 314")
    case True
    have "k mod 8 \<in> {0, 1, 2, 3, 4, 5, 6, 7}" by auto
    then have "bit (0xff :: u8) (k mod 8)" by (auto simp: bit_simps)
    with True show ?thesis by (simp add: map_test_bit st_def nth_append)
  next
    case False
    then have k: "k div 8 = 314" and "k mod 8 < 7" using that div_mult_mod_eq [of k 8] by linarith+
    have "(0x7f :: u8) = mask 7" by (simp add: mask_eq_exp_minus_1)
    then have "bit (0x7f :: u8) (k mod 8)" using \<open>k mod 8 < 7\<close> by (simp only: bit_mask_iff possible_bit_word) simp
    with k show ?thesis by (simp add: map_test_bit st_def nth_append)
  qed
  have "\<not> map_test st 2519" by (simp add: map_test_bit st_def nth_append bit_simps)
  moreover have "2 \<le> DCTOOL_MAJOR st" by (simp add: DCTOOL_MAJOR_def st_def example_defs)
  moreover have "14 \<le> length (pkt_buf st)" "load_size st = 3627360" "load_address st = 0x8c010000"
    "length (bin_map st) = BIN_INFO_MAP_BYTES example_platform" "2520 < BIN_INFO_MAP_ENTRIES example_platform"
    by (simp_all add: st_def example_defs BIN_INFO_MAP_BYTES_def BIN_INFO_MAP_ENTRIES_def)
  moreover have "\<forall>k<2519. map_test st k" using bits by simp
  ultimately show ?thesis
    using donebin_phantom_chunk [of st "\<lparr>cmd_id = ascii ''DBIN'', cmd_address = 0, cmd_size = 0, cmd_data = []\<rparr>"
        example_platform example_headers] by - (rule exI [of _ st], auto)
qed



lemma cmd_retval_cases:
  assumes "running st" "tool_version st \<ge> 0x00030000" "14 \<le> length (pkt_buf st)"
    and "length (cmd_id c) = 4" "cmd_data c = inline @ NET_SEQ_MAGIC @ be32 seq @ residue"
    and "unat (udp_length h) = UDP_H_LEN + COMMAND_LEN + length inline + NET_SEQ_TRAILER_LEN"
  shows "seq \<noteq> kos_syscall_seq st \<Longrightarrow> cmd_retval p h c st = Some st"
    and "seq = kos_syscall_seq st \<Longrightarrow> \<exists>st' f. cmd_retval p h c st = Some st' \<and> new_frames st st' = [f]
       \<and> frame_payload f = command_bytes c \<and> syscall_retval st' = cmd_address c \<and> escape_loop st'
       \<and> take (unat (syscall_data_len st')) (syscall_data st') = inline"
proof -
  let ?u = "COMMAND_LEN + length inline + NET_SEQ_TRAILER_LEN"
  have len: "length inline < 65536" using assms(6) unat_lt16 [of "udp_length h"] by (simp add: len_defs)
  have t: "drop (?u - NET_SEQ_TRAILER_LEN) (command_bytes c @ cmd_data c) = NET_SEQ_MAGIC @ be32 seq @ residue"
    using assms(4,5) by (simp add: command_bytes_def len_defs)
  have magic: "length NET_SEQ_MAGIC = 4" by (simp add: NET_SEQ_MAGIC_def)
  have rd: "rd32 (NET_SEQ_MAGIC @ be32 seq @ residue) 4 = seq" using magic by (rule rd32_at)
  have ct: "check_trailer st ?u c = Some (if seq \<noteq> kos_syscall_seq st then Stale else TrailerOk)"
    unfolding check_trailer_def t Let_def rd using assms(2,5) magic by (simp add: len_defs)
  obtain f where f: "reply p h (ip_dest h) (udp_dest h) c [] (emit BbStop st) = Some (sent f (emit BbStop st))"
      "frame_payload f = command_bytes c @ []"
    by (rule reply_sends [of c "[]" "emit BbStop st" p h "ip_dest h" "udp_dest h"]) (use assms(3,4) in simp_all)
  let ?st' = "(sent f (emit BbStop st))\<lparr>syscall_retval := cmd_address c, syscall_data := cmd_data c,
      syscall_data_len := of_nat (length inline), escape_loop := True\<rparr>"
  have u: "unat (udp_length h) - UDP_H_LEN = ?u" "\<not> unat (udp_length h) < UDP_H_LEN" using assms(6) by simp_all
  have ok: "cmd_retval p h c st = Some ?st'" if "seq = kos_syscall_seq st"
    unfolding cmd_retval_def u Let_def ct using assms(1) that f(1) u(2) by (simp add: len_defs)
  have stale: "cmd_retval p h c st = Some st" if "seq \<noteq> kos_syscall_seq st"
    unfolding cmd_retval_def u Let_def ct using assms(1) that u(2) by simp
  have "new_frames st ?st' = [f]" using new_frames_append [of ?st' st "[BbStop, Tx f]"] by simp
  moreover have "unat (of_nat (length inline) :: u32) = length inline" using len by (intro unat_of_nat32) simp
  ultimately have "\<exists>st' f. cmd_retval p h c st = Some st' \<and> new_frames st st' = [f]
       \<and> frame_payload f = command_bytes c \<and> syscall_retval st' = cmd_address c \<and> escape_loop st'
       \<and> take (unat (syscall_data_len st')) (syscall_data st') = inline" if "seq = kos_syscall_seq st"
    using ok [OF that] f(2) assms(5) by (intro exI [of _ ?st'] exI [of _ f]) simp
  with stale show "seq \<noteq> kos_syscall_seq st \<Longrightarrow> cmd_retval p h c st = Some st"
    and "seq = kos_syscall_seq st \<Longrightarrow> \<exists>st' f. cmd_retval p h c st = Some st' \<and> new_frames st st' = [f]
       \<and> frame_payload f = command_bytes c \<and> syscall_retval st' = cmd_address c \<and> escape_loop st'
       \<and> take (unat (syscall_data_len st')) (syscall_data st') = inline"
    by blast+
qed

text \<open>
  C27. Return values and their sequence numbers. While a program runs and the host is 3.0.0 or later, a RETVAL whose trailer
  carries another request's number changes nothing at all; one that carries the current number is acknowledged, and its value,
  its data and the length of the data without the trailer become the result of the call in flight.
\<close>
theorem retval_sequence_check:
  assumes "running st" "tool_version st \<ge> 0x00030000" "14 \<le> length (pkt_buf st)"
    and "length (cmd_id c) = 4" "cmd_data c = inline @ NET_SEQ_MAGIC @ be32 seq @ residue"
    and "unat (udp_length h) = UDP_H_LEN + COMMAND_LEN + length inline + NET_SEQ_TRAILER_LEN"
  shows "(seq \<noteq> kos_syscall_seq st \<longrightarrow> cmd_retval p h c st = Some st) \<and>
    (seq = kos_syscall_seq st \<longrightarrow> (\<exists>st' f. cmd_retval p h c st = Some st' \<and> new_frames st st' = [f]
       \<and> frame_payload f = command_bytes c \<and> syscall_retval st' = cmd_address c \<and> escape_loop st'
       \<and> take (unat (syscall_data_len st')) (syscall_data st') = inline))"
  using cmd_retval_cases [OF assms] by blast

theorem retval_sequence_check_witness:
  "cmd_retval example_platform (example_headers\<lparr>udp_length := 28\<rparr>)
     \<lparr>cmd_id = ascii ''RETV'', cmd_address = 5, cmd_size = 0, cmd_data = NET_SEQ_MAGIC @ be32 8\<rparr>
     (example_client\<lparr>running := True, kos_syscall_seq := 9\<rparr>) = Some (example_client\<lparr>running := True, kos_syscall_seq := 9\<rparr>)"
  using retval_sequence_check [of "example_client\<lparr>running := True, kos_syscall_seq := 9\<rparr>"
      "\<lparr>cmd_id = ascii ''RETV'', cmd_address = 5, cmd_size = 0, cmd_data = NET_SEQ_MAGIC @ be32 8\<rparr>" "[]" 8 "[]"
      "example_headers\<lparr>udp_length := 28\<rparr>" example_platform]
  by (simp add: example_defs)

text \<open>
  C28. EXECUTE of an idle client. The acknowledgement goes out before the program is entered; the program is entered
  at the given address with \<open>running\<close> set, the host's and the console's addresses recorded and
  the argument strings stored as sent, cut to 256 bytes and zero-terminated; when it returns, the adapter is stopped,
  re-initialised and started in this order and the client is idle again.
\<close>
theorem execute_enters_program:
  assumes "\<not> running st" "14 \<le> length (pkt_buf st)" "length (cmd_id c) = 4" "length (argv_data (kosload_info st)) = 256"
    and "8 \<le> unat (udp_length h)" "unat (udp_length h) \<le> 20 + length (cmd_data c)"
  shows "\<exists>st' stx f evs. cmd_execute p h c st = Some st' \<and> running stx \<and> argv_spec h c (kosload_info stx)
    \<and> tool_ip stx = ip_src h \<and> tool_port stx = udp_src h \<and> our_ip stx = ip_dest h
    \<and> trace stx = trace st @ [BbStop, Tx f] @ evs @ [Execute (cmd_address c)] \<and> tx_frames evs = []
    \<and> frame_payload f = command_bytes c \<and> \<not> running st'
    \<and> trace st' = trace (run_program p (cmd_address c) stx)
        @ [RestartTimer, BbStop, BbInit, BbStart, DispInfo, DispStatus ''idle...'', ScreensaverReset]"
proof -
  define st0 where "st0 = (emit BbStop st)\<lparr>tool_ip := ip_src h, tool_port := udp_src h, tool_mac := eth_src h, our_ip := ip_dest h\<rparr>"
  define st1 where "st1 = st0\<lparr>kosload_info := (kosload_info st0)\<lparr>
                   console_ip := be32 (our_ip st0), console_port := be16 (kosload_syscall_port st0),
                   host_ip := be32 (tool_ip st0), host_port := be16 (tool_port st0)\<rparr>\<rparr>"
  have s1: "14 \<le> length (pkt_buf st1)" "trace st1 = trace st @ [BbStop]" "our_ip st1 = ip_dest h"
    "argv_data (kosload_info st1) = argv_data (kosload_info st)" "tool_ip st1 = ip_src h" "tool_port st1 = udp_src h"
    using assms(2) by (simp_all add: st1_def st0_def)
  obtain f where f: "reply p h (our_ip st1) (udp_dest h) c [] st1 = Some (sent f st1)" "frame_payload f = command_bytes c @ []"
    by (rule reply_sends [of c "[]" st1 p h "our_ip st1" "udp_dest h"]) (use assms(3) s1(1) in simp_all)
  obtain i' where i': "store_argv h c (kosload_info (sent f st1)) = Some i'" "argv_spec h c i'"
    using store_argv_spec [OF assms(5,6), of "kosload_info (sent f st1)"] assms(4) s1(4) by auto
  define fw where "fw = (cmd_size c AND 4 \<noteq> 0)"
  define e1 where "e1 = (if \<not> booted st then [DispInfo] else [DispStatus (if fw then ''updating firmware...'' else ''executing...'')])"
  define e2 where "e2 = (if \<not> fw then SetConsole (cmd_size c AND 1 \<noteq> 0) # (if cmd_size c AND 2 \<noteq> 0 \<and> has_cdfs_redir p then [CdfsRedirEnable] else [])
      else if has_fw_update_prepare p then [FwUpdatePrepare] else [])"
  define sta where "sta = (sent f st1)\<lparr>kosload_info := i'\<rparr>"
  define stb where "stb = (if \<not> booted sta then disp_info sta
      else disp_status (if fw then ''updating firmware...'' else ''executing...'') sta)"
  define stc where "stc = (if \<not> fw then
        (if cmd_size c AND 2 \<noteq> 0 \<and> has_cdfs_redir p then emit CdfsRedirEnable (emit (SetConsole (cmd_size c AND 1 \<noteq> 0)) stb)
         else emit (SetConsole (cmd_size c AND 1 \<noteq> 0)) stb)
      else if has_fw_update_prepare p then emit FwUpdatePrepare stb else stb)"
  define stx where "stx = emit (Execute (cmd_address c)) (stc\<lparr>running := True\<rparr>)"
  define st' where "st' = emit ScreensaverReset (disp_status ''idle...'' (disp_info
      ((emit BbStart (emit BbInit (emit BbStop (emit RestartTimer (run_program p (cmd_address c) stx)))))\<lparr>running := False\<rparr>)))"
  have "cmd_execute p h c st = Some st'"
    unfolding cmd_execute_def Let_def st0_def [symmetric] st1_def [symmetric] fw_def [symmetric]
    using assms(1) f(1) i'(1) by (simp add: st'_def stx_def stc_def stb_def sta_def [symmetric])
  moreover have "booted sta = booted st" by (simp add: sta_def st1_def st0_def)
  then have "trace stx = trace st @ [BbStop, Tx f] @ (e1 @ e2) @ [Execute (cmd_address c)]"
    using s1(2) by (simp add: stx_def stc_def stb_def e1_def e2_def) (simp add: sta_def)
  moreover have "argc (kosload_info stx) = argc i' \<and> argv_data (kosload_info stx) = argv_data i' \<and> tool_ip stx = ip_src h
      \<and> tool_port stx = udp_src h \<and> our_ip stx = ip_dest h \<and> running stx"
    using s1 by (simp add: stx_def stc_def stb_def) (simp add: sta_def)
  moreover have "tx_frames (e1 @ e2) = []" by (simp add: e1_def e2_def)
  moreover have "argv_spec h c i = (argv_spec h c i')" if "argc i = argc i'" "argv_data i = argv_data i'" for i
    using that by (simp add: argv_spec_def)
  ultimately show ?thesis using f(2) i'(2)
    by (intro exI [of _ st'] exI [of _ stx] exI [of _ f] exI [of _ "e1 @ e2"]) (simp add: st'_def)
qed

theorem execute_enters_program_witness:
  "\<exists>st' (stx :: client). cmd_execute example_platform (example_headers\<lparr>udp_length := 27\<rparr>)
      \<lparr>cmd_id = ascii ''EXEC'', cmd_address = 0x8c010000, cmd_size = 1, cmd_data = be32 1 @ [0x61, 0x62, 0x63]\<rparr> example_client = Some st'
    \<and> argc (kosload_info stx) = 1 \<and> argv_data (kosload_info stx) ! 2 = 0 \<and> running stx \<and> \<not> running st'"
proof -
  let ?c = "\<lparr>cmd_id = ascii ''EXEC'', cmd_address = 0x8c010000, cmd_size = 1, cmd_data = be32 1 @ [0x61, 0x62, 0x63]\<rparr>"
  let ?h = "example_headers\<lparr>udp_length := 27\<rparr>"
  have pre: "\<not> running example_client" "14 \<le> length (pkt_buf example_client)" "length (cmd_id ?c) = 4"
    "length (argv_data (kosload_info example_client)) = 256" "8 \<le> unat (udp_length ?h)" "unat (udp_length ?h) \<le> 20 + length (cmd_data ?c)"
    by (simp_all add: example_defs)
  have "rd32 (cmd_data ?c) 0 = 1" using rd32_at [of "[]" 0 1] by simp
  then have spec: "argv_spec ?h ?c i \<Longrightarrow> argc i = 1 \<and> argv_data i ! 2 = 0" for i :: info
    by (simp add: argv_spec_def Let_def)
  obtain st' and stx :: client where "cmd_execute example_platform ?h ?c example_client = Some st'" "argv_spec ?h ?c (kosload_info stx)"
      "running stx" "\<not> running st'"
    using execute_enters_program [OF pre, of example_platform] by blast
  with spec show ?thesis by blast
qed

end
