(* ===== verification/Dhcp.thy ===== *)
theory Dhcp
  imports Client_State
begin

text \<open>
  \<^verbatim>\<open>client/common/network/dhcp.c\<close>: building DHCP messages, scanning their options, the
  handling of replies and the discovery and renewal exchanges. The receive loop
  \<open>bb->loop(0)\<close> is the platform's \<open>bb_loop\<close>; \<open>dhcp_go\<close> repeats exchanges until an
  acknowledgement or a bound, and is a partial function because the loop it waits in is not part of
  this component. The option scanners read the packet buffer from \<open>options\<close> on; a read past it is
  \<open>None\<close>.
\<close>

section \<open>Building messages\<close>

definition DHCP_PKT_LEN :: nat where "DHCP_PKT_LEN = 300"
definition DHCP_H_LEN :: nat where "DHCP_H_LEN = 236"
definition DHCP_MAX_ATTEMPTS :: nat where "DHCP_MAX_ATTEMPTS = 30"
definition DHCP_MAX_NAKS :: nat where "DHCP_MAX_NAKS = 5"

datatype kind = DISCOVER | REQUEST | RENEW

definition msgtype :: "kind \<Rightarrow> u8" where
  "msgtype k = (case k of DISCOVER \<Rightarrow> 1 | REQUEST \<Rightarrow> 3 | RENEW \<Rightarrow> 3)"

definition dhcp_options :: "bytes \<Rightarrow> u8 \<Rightarrow> u32 \<Rightarrow> u32 \<Rightarrow> bytes" where
  "dhcp_options bbmac mt serverid reqip =
     [0x63, 0x82, 0x53, 0x63, 53, 1, mt, 57, 2, 0x05, 0xdc, 12, 9] @ ascii ''dcload-ip''
     @ [61, 7, 1] @ bbmac @ [55, 5, 1, 3, 6, 28, 26]
     @ (if serverid \<noteq> 0 then [54, 4] @ be32 serverid else [])
     @ (if reqip \<noteq> 0 then [50, 4] @ be32 reqip else []) @ [255]"

definition dhcp_header :: "bytes \<Rightarrow> bytes \<Rightarrow> bytes \<Rightarrow> bytes" where
  "dhcp_header xid ciaddr bbmac =
     [1, 1, 6, 0] @ xid @ replicate 4 0 @ ciaddr @ replicate 12 0 @ bbmac @ replicate 10 0 @ replicate 192 0"

text \<open>The message of each kind and the transaction state it leaves.\<close>

definition kos_net_dhcp_fill_options :: "platform \<Rightarrow> kind \<Rightarrow> client \<Rightarrow> bytes \<times> client" where
  "kos_net_dhcp_fill_options p k st =
     (let mac = take 6 (bb_mac p);
          (xid, ciaddr, serverid, reqip, st) = (case k of
             DISCOVER \<Rightarrow> (be32 (ucast (ticks st) XOR 0xDEADBEEF), be32 0, 0, 0, st)
           | REQUEST \<Rightarrow> (st32 (endian p) (dhcpoffer_xid st), be32 0, dhcpoffer_server_ip_from_pkt st, dhcpoffer_ip_from_pkt st, st)
           | RENEW \<Rightarrow>
               (let x = (ucast (ticks st) XOR 0xDEADBEEF) + renewal_increment st;
                    st = st\<lparr>dhcpoffer_xid := x, renewal_increment := renewal_increment st + 0x1000\<rparr>
                in (st32 (endian p) x, be32 (our_ip st), 0, our_ip st, st)));
          msg = dhcp_header xid ciaddr mac @ dhcp_options mac (msgtype k) serverid reqip
      in (msg @ replicate (DHCP_PKT_LEN - length msg) 0, st))"

definition build_send_dhcp_packet :: "platform \<Rightarrow> kind \<Rightarrow> client \<Rightarrow> client option" where
  "build_send_dhcp_packet p k st =
     (let (msg, st) = kos_net_dhcp_fill_options p k st;
          st = (if k = REQUEST then st else emit BbStart st);
          (out_mac, out_ip) = (if k = RENEW then (router_mac st, dhcpoffer_server_ip_from_pkt st)
                               else (replicate 6 0xff, 0xffffffff));
          st = st\<lparr>pkt_buf := make_ether out_mac (bb_mac p) (replicate 342 0 @ drop 342 (pkt_buf st))\<rparr>
      in send_udp p out_ip (our_ip st) 0 67 68 msg st)"

section \<open>Scanning options\<close>

function scan_msg_type :: "bytes \<Rightarrow> nat \<Rightarrow> nat \<Rightarrow> int option" where
  "scan_msg_type opts len i =
     (if i < len then
        (if i \<ge> length opts then None
         else if opts ! i = 53 then
           (if i + 2 < len then (if i + 2 \<ge> length opts then None else Some (uint (opts ! (i + 2)))) else Some (- 1))
         else if opts ! i = 0 then scan_msg_type opts len (i + 1)
         else if opts ! i = 255 then Some (- 1)
         else if i + 1 \<ge> len then Some (- 1)
         else if i + 1 \<ge> length opts then None
         else scan_msg_type opts len (i + unat (opts ! (i + 1)) + 2))
      else Some (- 1))"
  by pat_completeness auto
termination by (relation "measure (\<lambda>(opts, len, i). len - i)") auto

declare scan_msg_type.simps [simp del]

function scan_32bit :: "bytes \<Rightarrow> u8 \<Rightarrow> nat \<Rightarrow> nat \<Rightarrow> u32 option" where
  "scan_32bit opts opt len i =
     (if i < len then
        (if i \<ge> length opts then None
         else if opts ! i = opt then
           (if i + 5 \<ge> len then Some 0
            else if i + 5 \<ge> length opts then None
            else if opts ! (i + 1) < 4 then Some 0
            else Some (get_be32 (opts ! (i + 2)) (opts ! (i + 3)) (opts ! (i + 4)) (opts ! (i + 5))))
         else if opts ! i = 0 then scan_32bit opts opt len (i + 1)
         else if opts ! i = 255 then Some 0
         else if i + 1 \<ge> len then Some 0
         else if i + 1 \<ge> length opts then None
         else scan_32bit opts opt len (i + unat (opts ! (i + 1)) + 2))
      else Some 0)"
  by pat_completeness auto
termination by (relation "measure (\<lambda>(opts, opt, len, i). len - i)") auto

declare scan_32bit.simps [simp del]

definition kos_net_dhcp_get_message_type :: "bytes \<Rightarrow> nat \<Rightarrow> int option" where
  "kos_net_dhcp_get_message_type pkt len = scan_msg_type (drop DHCP_H_LEN pkt) (len - DHCP_H_LEN) 4"

definition kos_net_dhcp_get_32bit :: "bytes \<Rightarrow> u8 \<Rightarrow> nat \<Rightarrow> u32 option" where
  "kos_net_dhcp_get_32bit pkt opt len = scan_32bit (drop DHCP_H_LEN pkt) opt (len - DHCP_H_LEN) 4"

section \<open>Replies\<close>

definition handle_dhcp_reply :: "platform \<Rightarrow> bytes \<Rightarrow> bytes \<Rightarrow> nat \<Rightarrow> client \<Rightarrow> (int \<times> client) option" where
  "handle_dhcp_reply p routersrcmac pkt len st = do {
     msg_type \<leftarrow> kos_net_dhcp_get_message_type pkt len;
     let xid = ld32 (endian p) (pkt ! 4) (pkt ! 5) (pkt ! 6) (pkt ! 7);
     let yiaddr = rd32 pkt 16;
     if msg_type = 2 then do {
       server \<leftarrow> kos_net_dhcp_get_32bit pkt 54 len;
       Some (0, st\<lparr>dhcpoffer_server_ip_from_pkt := server, dhcpoffer_ip_from_pkt := yiaddr, dhcpoffer_xid := xid,
                   router_mac := take 6 routersrcmac\<rparr>)
     }
     else if msg_type = 5 then
       (if xid = dhcpoffer_xid st \<and> (dhcp_renewal st \<or> yiaddr = dhcpoffer_ip_from_pkt st) then do {
          let st = (if dhcp_renewal st then st\<lparr>dhcpoffer_ip_from_pkt := yiaddr\<rparr> else st);
          lease \<leftarrow> kos_net_dhcp_get_32bit pkt 51 len;
          Some (0, st\<lparr>dhcp_lease_time := lease, dhcp_acked := True\<rparr>)
        }
        else Some (- 1, st))
     else if msg_type = 6 then
       (if dhcp_renewal st then Some (0, st\<lparr>dhcp_renewal_nak := True\<rparr>)
        else Some (0, st\<lparr>dhcp_nak_received := True\<rparr>))
     else Some (- 1, st) }"

section \<open>Exchanges\<close>

text \<open>One pass of the loop of \<open>dhcp_go\<close>: \<open>Inl\<close> leaves the loop, \<open>Inr\<close> goes round again.\<close>

definition dhcp_attempt :: "platform \<Rightarrow> nat \<Rightarrow> client \<Rightarrow> (client + nat \<times> client) option" where
  "dhcp_attempt p nak_count st =
     (let st = st\<lparr>dhcp_attempts := dhcp_attempts st + 1\<rparr> in
      if dhcp_attempts st > DHCP_MAX_ATTEMPTS then Some (Inl (st\<lparr>dhcp_nest_counter_maxed := True\<rparr>))
      else do {
        let st = (if timeout_loop st < 0
                  then st\<lparr>timeout_loop := (if dhcp_attempts st \<le> 2 then 3
                            else if dhcp_attempts st > 11 then 30 else 3 * (int (dhcp_attempts st) - 1))\<rparr>
                  else st);
        st \<leftarrow> build_send_dhcp_packet p DISCOVER st;
        let st = bb_loop p st;
        if timeout_loop st < 0 then Some (Inr (nak_count, st))
        else do {
          st \<leftarrow> build_send_dhcp_packet p REQUEST st;
          let st = bb_loop p st;
          if timeout_loop st < 0 then Some (Inr (nak_count, st))
          else if dhcp_nak_received st then
            (let st = st\<lparr>dhcp_nak_received := False\<rparr>; nak_count = nak_count + 1 in
             if nak_count \<ge> DHCP_MAX_NAKS then Some (Inl (st\<lparr>dhcp_nest_counter_maxed := True\<rparr>))
             else Some (Inr (nak_count, st)))
          else Some (Inr (nak_count, st))
        }
      })"

partial_function (option) dhcp_loop :: "platform \<Rightarrow> nat \<Rightarrow> client \<Rightarrow> client option" where
  "dhcp_loop p nak_count st =
     (if dhcp_acked st then Some st
      else do {
        r \<leftarrow> dhcp_attempt p nak_count st;
        case r of Inl st \<Rightarrow> Some st | Inr (n, st) \<Rightarrow> dhcp_loop p n st
      })"

declare dhcp_loop.simps [code]

definition dhcp_go :: "platform \<Rightarrow> client \<Rightarrow> (int \<times> client) option" where
  "dhcp_go p st = do {
     st \<leftarrow> dhcp_loop p 0 (st\<lparr>dhcp_acked := False, dhcp_nak_received := False, dhcp_attempts := 0, timeout_loop := 1\<rparr>);
     let st = st\<lparr>dhcp_attempts := 0, timeout_loop := 0\<rparr>;
     Some (if dhcp_acked st then (0, st\<lparr>our_ip := dhcpoffer_ip_from_pkt st\<rparr>)
           else if dhcp_nest_counter_maxed st then (0, st) else (- 1, st)) }"

definition dhcp_renew :: "platform \<Rightarrow> client \<Rightarrow> (int \<times> client) option" where
  "dhcp_renew p st = do {
     st \<leftarrow> build_send_dhcp_packet p RENEW (st\<lparr>dhcp_acked := False, dhcp_renewal := True, dhcp_renewal_nak := False\<rparr>);
     let st = (bb_loop p st)\<lparr>dhcp_renewal := False\<rparr>;
     Some (if dhcp_renewal_nak st then (- 2, st)
           else if dhcp_acked st then (0, st\<lparr>our_ip := dhcpoffer_ip_from_pkt st\<rparr>) else (- 1, st)) }"

section \<open>Messages and the scanners\<close>

lemma length_6E:
  assumes "length xs = 6" obtains a b c d e f where "xs = [a, b, c, d, e, f]"
  using assms by (auto simp: length_Suc_conv numeral_eq_Suc)

lemma ascii_hostname: "ascii ''dcload-ip'' = [100, 99, 108, 111, 97, 100, 45, 105, 112]"
  by (simp add: ascii_def)

lemma length_dhcp_header: "length xid = 4 \<Longrightarrow> length ci = 4 \<Longrightarrow> length mac = 6 \<Longrightarrow> length (dhcp_header xid ci mac) = 236"
  by (simp add: dhcp_header_def)

lemma scan_options_skip:
  "i < len \<Longrightarrow> i + 1 < len \<Longrightarrow> i + 1 < length opts \<Longrightarrow> opts ! i \<noteq> opt \<Longrightarrow> opts ! i \<noteq> 0 \<Longrightarrow> opts ! i \<noteq> 255 \<Longrightarrow>
   scan_32bit opts opt len i = scan_32bit opts opt len (i + unat (opts ! (i + 1)) + 2)"
  by (subst scan_32bit.simps) simp

lemma scan_options_hit:
  "i + 5 < len \<Longrightarrow> i + 5 < length opts \<Longrightarrow> opts ! i = opt \<Longrightarrow> opts ! (i + 1) = 4 \<Longrightarrow>
   scan_32bit opts opt len i = Some (get_be32 (opts ! (i + 2)) (opts ! (i + 3)) (opts ! (i + 4)) (opts ! (i + 5)))"
  by (subst scan_32bit.simps) simp

lemma dhcp_options_scans:
  assumes "length mac = 6" "len = 64" "opts = dhcp_options mac mt sid rip @ replicate k 0" "length opts = 64"
  shows "scan_msg_type opts len 4 = Some (uint mt)"
    and "sid \<noteq> 0 \<Longrightarrow> scan_32bit opts 54 len 4 = Some sid"
    and "rip \<noteq> 0 \<Longrightarrow> scan_32bit opts 50 len 4 = Some rip"
proof -
  obtain a b c d e f where mac: "mac = [a, b, c, d, e, f]" using assms(1) by (rule length_6E)
  note o = assms(3) [unfolded dhcp_options_def mac ascii_hostname be32_def]
  have nth: "opts ! 4 = 53" "opts ! 5 = 1" "opts ! 6 = mt" "opts ! 7 = 57" "opts ! 8 = 2" "opts ! 11 = 12" "opts ! 12 = 9"
    "opts ! 22 = 61" "opts ! 23 = 7" "opts ! 31 = 55" "opts ! 32 = 5"
    unfolding o by simp_all
  show "scan_msg_type opts len 4 = Some (uint mt)"
    using assms(2,4) nth by (subst scan_msg_type.simps) simp
  have skip: "scan_32bit opts opt len 4 = scan_32bit opts opt len 38" if "opt \<in> {54, 50}" for opt
  proof -
    have "scan_32bit opts opt len 4 = scan_32bit opts opt len 7"
      using that assms(2,4) nth by (subst scan_options_skip) auto
    also have "\<dots> = scan_32bit opts opt len 11" using that assms(2,4) nth by (subst scan_options_skip) auto
    also have "\<dots> = scan_32bit opts opt len 22" using that assms(2,4) nth by (subst scan_options_skip) auto
    also have "\<dots> = scan_32bit opts opt len 31" using that assms(2,4) nth by (subst scan_options_skip) auto
    also have "\<dots> = scan_32bit opts opt len 38" using that assms(2,4) nth by (subst scan_options_skip) auto
    finally show ?thesis .
  qed
  show "scan_32bit opts 54 len 4 = Some sid" if "sid \<noteq> 0"
  proof -
    have n: "opts ! 38 = 54" "opts ! 39 = 4" "opts ! 40 = ucast (drop_bit 24 sid)" "opts ! 41 = ucast (drop_bit 16 sid)"
      "opts ! 42 = ucast (drop_bit 8 sid)" "opts ! 43 = ucast sid"
      unfolding o using that by simp_all
    then show ?thesis using skip [of 54] assms(2,4) by (simp add: scan_options_hit get_be32_be32)
  qed
  show "scan_32bit opts 50 len 4 = Some rip" if "rip \<noteq> 0"
  proof (cases "sid = 0")
    case True
    have n: "opts ! 38 = 50" "opts ! 39 = 4" "opts ! 40 = ucast (drop_bit 24 rip)" "opts ! 41 = ucast (drop_bit 16 rip)"
      "opts ! 42 = ucast (drop_bit 8 rip)" "opts ! 43 = ucast rip"
      unfolding o using that True by simp_all
    then show ?thesis using skip [of 50] assms(2,4) by (simp add: scan_options_hit get_be32_be32)
  next
    case False
    have n: "opts ! 38 = 54" "opts ! 39 = 4" "opts ! 44 = 50" "opts ! 45 = 4" "opts ! 46 = ucast (drop_bit 24 rip)"
      "opts ! 47 = ucast (drop_bit 16 rip)" "opts ! 48 = ucast (drop_bit 8 rip)" "opts ! 49 = ucast rip"
      unfolding o using that False by simp_all
    have "scan_32bit opts 50 len 38 = scan_32bit opts 50 len 44"
      using n assms(2,4) by (subst scan_options_skip) auto
    then show ?thesis using skip [of 50] n assms(2,4) by (simp add: scan_options_hit get_be32_be32)
  qed
qed

lemma scan_msg_type_safe: "len \<le> length opts \<Longrightarrow> scan_msg_type opts len i \<noteq> None"
  by (induction opts len i rule: scan_msg_type.induct) (subst scan_msg_type.simps, auto)

lemma scan_32bit_safe: "len \<le> length opts \<Longrightarrow> scan_32bit opts opt len i \<noteq> None"
  by (induction opts opt len i rule: scan_32bit.induct) (subst scan_32bit.simps, auto)

section \<open>The message of each kind\<close>

definition requested_server :: "kind \<Rightarrow> client \<Rightarrow> u32" where
  "requested_server k st = (case k of REQUEST \<Rightarrow> dhcpoffer_server_ip_from_pkt st | _ \<Rightarrow> 0)"

definition requested_ip :: "kind \<Rightarrow> client \<Rightarrow> u32" where
  "requested_ip k st = (case k of DISCOVER \<Rightarrow> 0 | REQUEST \<Rightarrow> dhcpoffer_ip_from_pkt st | RENEW \<Rightarrow> our_ip st)"

lemma fill_options_shape:
  assumes "length (bb_mac p) = 6"
  obtains xid ci n where "fst (kos_net_dhcp_fill_options p k st) = dhcp_header xid ci (bb_mac p)
      @ dhcp_options (bb_mac p) (msgtype k) (requested_server k st) (requested_ip k st) @ replicate n 0"
    "length xid = 4" "length ci = 4"
    "length (dhcp_options (bb_mac p) (msgtype k) (requested_server k st) (requested_ip k st) @ replicate n 0) = 64"
proof -
  define xid where "xid = (case k of DISCOVER \<Rightarrow> be32 (ucast (ticks st) XOR 0xDEADBEEF)
      | REQUEST \<Rightarrow> st32 (endian p) (dhcpoffer_xid st)
      | RENEW \<Rightarrow> st32 (endian p) ((ucast (ticks st) XOR 0xDEADBEEF) + renewal_increment st))"
  define ci where "ci = (case k of RENEW \<Rightarrow> be32 (our_ip st) | _ \<Rightarrow> be32 0)"
  let ?o = "dhcp_options (bb_mac p) (msgtype k) (requested_server k st) (requested_ip k st)"
  define n where "n = 300 - length (dhcp_header xid ci (bb_mac p) @ ?o)"
  have len: "length xid = 4" "length ci = 4" by (simp_all add: xid_def ci_def split: kind.split)
  have "fst (kos_net_dhcp_fill_options p k st) = dhcp_header xid ci (bb_mac p) @ ?o @ replicate n 0"
    unfolding kos_net_dhcp_fill_options_def n_def xid_def ci_def requested_server_def requested_ip_def DHCP_PKT_LEN_def
    using assms by (cases k) (simp_all add: Let_def)
  moreover have "length ?o \<le> 64" using assms by (simp add: dhcp_options_def)
  then have "length (?o @ replicate n 0) = 64"
    unfolding n_def length_append length_dhcp_header [OF len assms] by simp
  ultimately show thesis using len by (intro that)
qed

section \<open>Discovery ends\<close>

text \<open>
  What discovery needs of the adapter's receive loop: it leaves the attempt counter alone
  and the transmit buffer in place.
\<close>

definition dhcp_adapter :: "platform \<Rightarrow> bool" where
  "dhcp_adapter p = (length (bb_mac p) = 6 \<and>
     (\<forall>st. dhcp_attempts (bb_loop p st) = dhcp_attempts st \<and> (342 \<le> length (pkt_buf st) \<longrightarrow> 342 \<le> length (pkt_buf (bb_loop p st)))))"

lemma build_send_dhcp_packet_eq:
  assumes "length (bb_mac p) = 6" "342 \<le> length (pkt_buf st)" "k = RENEW \<Longrightarrow> length (router_mac st) = 6"
  obtains f x where "build_send_dhcp_packet p k st = Some (sent f
      ((if k = REQUEST then snd (kos_net_dhcp_fill_options p k st) else emit BbStart (snd (kos_net_dhcp_fill_options p k st)))\<lparr>pkt_buf := x\<rparr>))"
    "length f = 342" "length x = length (pkt_buf st)"
proof -
  obtain msg st1 where m: "kos_net_dhcp_fill_options p k st = (msg, st1)" by (cases "kos_net_dhcp_fill_options p k st")
  obtain xid ci n where s: "msg = dhcp_header xid ci (bb_mac p)
      @ dhcp_options (bb_mac p) (msgtype k) (requested_server k st) (requested_ip k st) @ replicate n 0"
    "length xid = 4" "length ci = 4"
    "length (dhcp_options (bb_mac p) (msgtype k) (requested_server k st) (requested_ip k st) @ replicate n 0) = 64"
    using fill_options_shape [OF assms(1), of k st] m by auto
  have len: "length msg = 300" unfolding s(1) length_append [of "dhcp_header _ _ _"] s(4) length_dhcp_header [OF s(2,3) assms(1)] by simp
  have st1: "pkt_buf st1 = pkt_buf st" "router_mac st1 = router_mac st"
    using m unfolding kos_net_dhcp_fill_options_def by (cases k; auto simp: Let_def)+
  define st2 where "st2 = (if k = REQUEST then st1 else emit BbStart st1)"
  define om oi where "om = (if k = RENEW then router_mac st2 else replicate 6 0xff)"
    and "oi = (if k = RENEW then dhcpoffer_server_ip_from_pkt st2 else 0xffffffff)"
  define x where "x = make_ether om (bb_mac p) (replicate 342 0 @ drop 342 (pkt_buf st2))"
  have l2: "pkt_buf st2 = pkt_buf st" "length om = 6" using assms(3) by (simp_all add: st2_def om_def st1)
  then have lx: "length x = length (pkt_buf st)" using assms(1,2) by (simp add: x_def make_ether_def)
  have b: "build_send_dhcp_packet p k st = send_udp p oi (our_ip st2) 0 67 68 msg (st2\<lparr>pkt_buf := x\<rparr>)"
    unfolding build_send_dhcp_packet_def m Let_def prod.case st2_def [symmetric] x_def om_def oi_def by simp
  let ?f = "udp_frame p oi (our_ip st2) 0 67 68 msg x"
  have "build_send_dhcp_packet p k st = Some (sent ?f (st2\<lparr>pkt_buf := x\<rparr>))"
    unfolding b using len lx assms(2) send_udp_eq [of msg "st2\<lparr>pkt_buf := x\<rparr>"] by simp
  moreover have "length ?f = 342" using udp_frame(1) [of msg x] len lx assms(2) by simp
  moreover have "st2 = (if k = REQUEST then snd (kos_net_dhcp_fill_options p k st) else emit BbStart (snd (kos_net_dhcp_fill_options p k st)))"
    by (simp only: st2_def m snd_conv)
  ultimately show thesis using lx that [of ?f x] by simp
qed

lemma build_send_dhcp_packet_ok:
  assumes "length (bb_mac p) = 6" "342 \<le> length (pkt_buf st)" "k \<noteq> RENEW"
  shows "\<exists>st'. build_send_dhcp_packet p k st = Some st' \<and> dhcp_attempts st' = dhcp_attempts st \<and> 342 \<le> length (pkt_buf st')"
proof -
  obtain f x where f: "build_send_dhcp_packet p k st = Some (sent f
      ((if k = REQUEST then snd (kos_net_dhcp_fill_options p k st) else emit BbStart (snd (kos_net_dhcp_fill_options p k st)))\<lparr>pkt_buf := x\<rparr>))"
    "length f = 342" "length x = length (pkt_buf st)"
    by (rule build_send_dhcp_packet_eq [OF assms(1,2), of k]) (use assms(3) in simp_all)
  have fill: "snd (kos_net_dhcp_fill_options p k st) = st"
    using assms(3) unfolding kos_net_dhcp_fill_options_def by (cases k) (auto simp: Let_def)
  show ?thesis using f(2,3) unfolding f(1) fill by simp
qed

lemma dhcp_attempt_ok:
  assumes "dhcp_adapter p" "342 \<le> length (pkt_buf st)"
  shows "\<exists>r. dhcp_attempt p n st = Some r \<and> (case r of Inl st' \<Rightarrow> dhcp_nest_counter_maxed st'
    | Inr (n', st') \<Rightarrow> dhcp_attempts st' = dhcp_attempts st + 1 \<and> dhcp_attempts st < DHCP_MAX_ATTEMPTS \<and> 342 \<le> length (pkt_buf st'))"
proof (cases "dhcp_attempts st + 1 > DHCP_MAX_ATTEMPTS")
  case True
  then show ?thesis by (simp add: dhcp_attempt_def Let_def)
next
  case False
  have mac: "length (bb_mac p) = 6" and loop: "\<And>s. dhcp_attempts (bb_loop p s) = dhcp_attempts s"
    "\<And>s. 342 \<le> length (pkt_buf s) \<Longrightarrow> 342 \<le> length (pkt_buf (bb_loop p s))"
    using assms(1) by (auto simp: dhcp_adapter_def)
  define s0 where "s0 = (if timeout_loop (st\<lparr>dhcp_attempts := dhcp_attempts st + 1\<rparr>) < 0
    then (st\<lparr>dhcp_attempts := dhcp_attempts st + 1\<rparr>)\<lparr>timeout_loop := (if dhcp_attempts (st\<lparr>dhcp_attempts := dhcp_attempts st + 1\<rparr>) \<le> 2 then 3
        else if dhcp_attempts (st\<lparr>dhcp_attempts := dhcp_attempts st + 1\<rparr>) > 11 then 30
        else 3 * (int (dhcp_attempts (st\<lparr>dhcp_attempts := dhcp_attempts st + 1\<rparr>)) - 1))\<rparr>
    else st\<lparr>dhcp_attempts := dhcp_attempts st + 1\<rparr>)"
  have s0: "dhcp_attempts s0 = dhcp_attempts st + 1" "342 \<le> length (pkt_buf s0)" using assms(2) by (simp_all add: s0_def)
  obtain s1 where s1: "build_send_dhcp_packet p DISCOVER s0 = Some s1" "dhcp_attempts s1 = dhcp_attempts st + 1" "342 \<le> length (pkt_buf s1)"
    using build_send_dhcp_packet_ok [OF mac s0(2), of DISCOVER] s0(1) by auto
  obtain s2 where s2: "build_send_dhcp_packet p REQUEST (bb_loop p s1) = Some s2" "dhcp_attempts s2 = dhcp_attempts st + 1" "342 \<le> length (pkt_buf s2)"
    using build_send_dhcp_packet_ok [OF mac loop(2), of s1 REQUEST] s1(2,3) loop(1) by auto
  have l2: "dhcp_attempts (bb_loop p s2) = dhcp_attempts st + 1" "342 \<le> length (pkt_buf (bb_loop p s2))"
    "dhcp_attempts (bb_loop p s1) = dhcp_attempts st + 1" "342 \<le> length (pkt_buf (bb_loop p s1))"
    using s1 s2 loop by simp_all
  show ?thesis unfolding dhcp_attempt_def Let_def s0_def [symmetric] using False s1(1) s2(1) l2 by simp
qed

lemma dhcp_loop_ends:
  assumes "dhcp_adapter p" "342 \<le> length (pkt_buf st)"
  shows "\<exists>st'. dhcp_loop p n st = Some st' \<and> (dhcp_acked st' \<or> dhcp_nest_counter_maxed st')"
  using assms(2)
proof (induction "DHCP_MAX_ATTEMPTS - dhcp_attempts st" arbitrary: st n rule: less_induct)
  case less
  show ?case
  proof (cases "dhcp_acked st")
    case True
    then show ?thesis by (subst dhcp_loop.simps) simp
  next
    case False
    obtain r where r: "dhcp_attempt p n st = Some r" "case r of Inl st' \<Rightarrow> dhcp_nest_counter_maxed st'
      | Inr (n', st') \<Rightarrow> dhcp_attempts st' = dhcp_attempts st + 1 \<and> dhcp_attempts st < DHCP_MAX_ATTEMPTS \<and> 342 \<le> length (pkt_buf st')"
      using dhcp_attempt_ok [OF assms(1) less.prems] by blast
    show ?thesis
    proof (cases r)
      case (Inl st')
      then show ?thesis using False r by (subst dhcp_loop.simps) simp
    next
      case (Inr ns)
      then obtain n' st' where ns: "ns = (n', st')" by (cases ns)
      have "\<exists>st''. dhcp_loop p n' st' = Some st'' \<and> (dhcp_acked st'' \<or> dhcp_nest_counter_maxed st'')"
        using r(2) Inr ns by (intro less.hyps) auto
      then show ?thesis using False r(1) Inr ns by (subst dhcp_loop.simps) simp
    qed
  qed
qed

section \<open>Properties\<close>

text \<open>
  The messages the client builds are well-formed: 300 bytes, and the client's own option scanners read back from them the message
  type, and, where they are set, the server identifier and the requested address.
\<close>
theorem dhcp_message_roundtrip:
  assumes "length (bb_mac p) = 6"
  shows "let m = fst (kos_net_dhcp_fill_options p k st) in length m = 300 \<and> kos_net_dhcp_get_message_type m 300 = Some (uint (msgtype k))
    \<and> (requested_server k st \<noteq> 0 \<longrightarrow> kos_net_dhcp_get_32bit m 54 300 = Some (requested_server k st))
    \<and> (requested_ip k st \<noteq> 0 \<longrightarrow> kos_net_dhcp_get_32bit m 50 300 = Some (requested_ip k st))"
proof -
  define m where "m = fst (kos_net_dhcp_fill_options p k st)"
  obtain xid ci n where s: "m = dhcp_header xid ci (bb_mac p)
      @ dhcp_options (bb_mac p) (msgtype k) (requested_server k st) (requested_ip k st) @ replicate n 0"
    "length xid = 4" "length ci = 4"
    "length (dhcp_options (bb_mac p) (msgtype k) (requested_server k st) (requested_ip k st) @ replicate n 0) = 64"
    unfolding m_def by (rule fill_options_shape [OF assms(1), of k st])
  note lh = length_dhcp_header [OF s(2,3) assms(1)]
  have len: "length m = 300" unfolding s(1) length_append [of "dhcp_header _ _ _"] lh s(4) by simp
  have d: "drop DHCP_H_LEN m = dhcp_options (bb_mac p) (msgtype k) (requested_server k st) (requested_ip k st) @ replicate n 0"
    unfolding s(1) using lh by (simp add: DHCP_H_LEN_def)
  have l: "(300 :: nat) - DHCP_H_LEN = 64" by (simp add: DHCP_H_LEN_def)
  show ?thesis
    unfolding m_def [symmetric] Let_def kos_net_dhcp_get_message_type_def kos_net_dhcp_get_32bit_def l d
    using dhcp_options_scans [OF assms(1) refl refl s(4)] len by blast
qed

theorem dhcp_message_roundtrip_witness:
  "kos_net_dhcp_get_32bit (fst (kos_net_dhcp_fill_options example_platform REQUEST
     (example_client\<lparr>dhcpoffer_ip_from_pkt := 0xc0a80007\<rparr>))) 50 300 = Some 0xc0a80007"
  using dhcp_message_roundtrip [of example_platform REQUEST "example_client\<lparr>dhcpoffer_ip_from_pkt := 0xc0a80007\<rparr>"]
  by (simp add: example_defs requested_ip_def Let_def)





end
