(* ===== verification/Lease.thy ===== *)
theory Lease
  imports Dhcp
begin

text \<open>
  \<^verbatim>\<open>client/common/network/entry.c\<close>: the lease countdown, the polling routine that renews or
  rediscovers, and the number formatting of the status screen. Text drawn on the screen is not
  modelled; the strings are.
\<close>

section \<open>Countdown and polling\<close>

definition dhcp_tick :: "platform \<Rightarrow> client \<Rightarrow> client" where
  "dhcp_tick p st =
     (if lease_display_secs st = 0 then st
      else let delta = ticks st - last_display_tick st in
        if delta < ucast (ticks_per_second p) then st
        else st\<lparr>last_display_tick := ticks st, lease_display_secs := lease_display_secs st - 1\<rparr>)"

definition DHCP_RENEW_RETRY_FLOOR_SECS :: u32 where "DHCP_RENEW_RETRY_FLOOR_SECS = 4"

definition fresh_lease :: "client \<Rightarrow> client" where
  "fresh_lease st = st\<lparr>lease_expiry_rtc := rtc st + dhcp_lease_time st, lease_display_secs := dhcp_lease_time st,
     renew_threshold := dhcp_lease_time st div 2, last_display_tick := ticks st\<rparr>"

definition renew_lost :: "u32 \<Rightarrow> client \<Rightarrow> client" where
  "renew_lost saved_lease_time st =
     (if lease_display_secs st = 0
      then st\<lparr>our_ip := 0, dhcp_lease_time := 0, lease_expiry_rtc := 0, renew_threshold := 0\<rparr>
      else let half = lease_display_secs st div 2;
               thr = (if half > DHCP_RENEW_RETRY_FLOOR_SECS then half else DHCP_RENEW_RETRY_FLOOR_SECS);
               thr = (if thr \<ge> lease_display_secs st then lease_display_secs st - 1 else thr)
           in st\<lparr>dhcp_lease_time := saved_lease_time, renew_threshold := thr, last_display_tick := ticks st\<rparr>)"

definition renew_nak :: "u32 \<Rightarrow> client \<Rightarrow> client" where
  "renew_nak saved_lease_time st =
     (let nak_remaining = (saved_lease_time * 3 + 4) div 8
      in st\<lparr>dont_renew := True, lease_expiry_rtc := rtc st + nak_remaining, lease_display_secs := nak_remaining,
            last_display_tick := ticks st\<rparr>)"

definition poll_renew :: "platform \<Rightarrow> client \<Rightarrow> client option" where
  "poll_renew p st =
     (if dhcp_lease_time st \<noteq> 0 \<and> \<not> dont_renew st \<and> lease_display_secs st \<le> renew_threshold st then do {
        let saved_lease_time = dhcp_lease_time st;
        (renew_result, st) \<leftarrow> dhcp_renew p (st\<lparr>dhcp_lease_time := 0\<rparr>);
        Some (if renew_result = - 2 then renew_nak saved_lease_time st
              else if renew_result = - 1 then renew_lost saved_lease_time st
              else fresh_lease st)
      }
      else Some st)"

definition poll_discover :: "platform \<Rightarrow> client \<Rightarrow> client option" where
  "poll_discover p st =
     (if our_ip st AND 0xff000000 = 0 \<or> (dont_renew st \<and> lease_display_secs st = 0) then do {
        (dhcp_result, st) \<leftarrow> dhcp_go p (st\<lparr>dont_renew := False\<rparr>);
        Some (if dhcp_result = - 1 \<or> dhcp_nest_counter_maxed st
              then st\<lparr>our_ip := 0, dhcp_nest_counter_maxed := False, lease_expiry_rtc := 0, lease_display_secs := 0\<rparr>
              else fresh_lease st)
      }
      else Some st)"

definition dhcp_poll :: "platform \<Rightarrow> client \<Rightarrow> client option" where
  "dhcp_poll p st = do {
     let st = (if \<not> booted st then disp_info st else st);
     st \<leftarrow> poll_renew p st;
     poll_discover p st }"

section \<open>Numbers on the screen\<close>

definition digit :: "u32 \<Rightarrow> u8" where
  "digit d = 48 + ucast d"

definition octet_to_string :: "u32 \<Rightarrow> bytes" where
  "octet_to_string val =
     (if val \<ge> 100 then
        (let rest = UMOD_CONST val 100 in [digit (UDIV_CONST val 100), digit (UDIV_CONST rest 10), digit (UMOD_CONST rest 10)])
      else if val \<ge> 10 then [digit (UDIV_CONST val 10), digit (UMOD_CONST val 10)]
      else [digit val])"

definition ip_to_string :: "u32 \<Rightarrow> bytes" where
  "ip_to_string ip =
     octet_to_string (drop_bit 24 ip AND 0xff) @ [46] @ octet_to_string (drop_bit 16 ip AND 0xff) @ [46]
     @ octet_to_string (drop_bit 8 ip AND 0xff) @ [46] @ octet_to_string (ip AND 0xff) @ [0]"

definition hex_digit :: "u8 \<Rightarrow> u8" where
  "hex_digit d = ascii ''0123456789abcdef'' ! unat d"

definition mac_to_string :: "bytes \<Rightarrow> bytes" where
  "mac_to_string mac = concat (map (\<lambda>i.
     [hex_digit (drop_bit 4 (mac ! i)), hex_digit (mac ! i AND 0xf), if i < 5 then 58 else 0]) [0..<6])"

text \<open>The digits of \<open>uint_to_string_dec\<close>, least significant first, as the loop fills \<open>tmp\<close>.\<close>

function dec_digits :: "u32 \<Rightarrow> bytes" where
  "dec_digits foo = (if foo > 0 then (let q = UDIV_CONST foo 10 in ucast (48 + (foo - q * 10)) # dec_digits q) else [])"
  by pat_completeness auto

definition uint_to_string_dec :: "u32 \<Rightarrow> bytes" where
  "uint_to_string_dec foo = (if foo = 0 then [48, 0] else rev (dec_digits foo) @ [0])"

section \<open>Reading the configured address\<close>

text \<open>
  \<^verbatim>\<open>network_transport.c\<close>: \<open>set_ip_from_string\<close> parses the patchable dotted-quad string into the bytes of
  \<open>our_ip\<close>; more than four fields run past them (\<open>None\<close>).
\<close>

fun parse_ip :: "bytes \<Rightarrow> nat \<Rightarrow> bytes \<Rightarrow> bytes option" where
  "parse_ip [] i ip = None"
| "parse_ip (c # s) i ip =
     (if c = 0 then Some ip
      else if c = 46 then parse_ip s (i + 1) ip
      else if i < 4 then parse_ip s i (ip[i := ip ! i * 10 + (c - 48)]) else None)"

definition set_ip_from_string :: "endian \<Rightarrow> bytes \<Rightarrow> u32 \<Rightarrow> u32 option" where
  "set_ip_from_string e s ip =
     (if st32 e ip ! 3 \<noteq> 0 then Some ip
      else map_option (\<lambda>b. get_be32 (b ! 0) (b ! 1) (b ! 2) (b ! 3)) (parse_ip s 0 (st32 e ip)))"

section \<open>Digits\<close>

lemma UDIV_small: "unat n < 1073741824 \<Longrightarrow> d \<in> {10, 100} \<Longrightarrow> unat (UDIV_CONST n d) = unat n div unat d"
  by (rule UDIV_CONST_exact_below) auto

lemma UMOD_small: "unat n < 1073741824 \<Longrightarrow> d \<in> {10, 100} \<Longrightarrow> unat (UMOD_CONST n d) = unat n mod unat d"
proof -
  assume n: "unat n < 1073741824" and d: "d \<in> {10, 100}"
  have q: "UDIV_CONST n d = n div d" using UDIV_small [OF n d] by (simp add: word_unat_eq_iff unat_div)
  show ?thesis unfolding UMOD_CONST_def q minus_div_mult_eq_mod by (rule unat_mod)
qed

termination dec_digits
proof (relation "measure unat")
  fix foo q :: u32
  assume h: "0 < foo" "q = UDIV_CONST foo 10"
  then have pos: "0 < unat foo" by (simp add: word_less_nat_alt)
  have "unat (UDIV_CONST foo 10) < unat foo"
  proof (cases "unat foo = 1")
    case True
    then show ?thesis using UDIV_small [of foo 10] by simp
  next
    case False
    have "unat (UDIV_CONST foo 10) \<le> unat foo div 10 + 1" using UDIV_CONST_mono_div [of 10 foo] by simp
    then show ?thesis using False pos by linarith
  qed
  with h show "(q, foo) \<in> measure unat" by simp
qed simp

declare dec_digits.simps [simp del]

text \<open>The reference: decimal digits of a natural number, least significant first.\<close>

fun nat_digits :: "nat \<Rightarrow> bytes" where
  "nat_digits n = (if n = 0 then [] else of_nat (48 + n mod 10) # nat_digits (n div 10))"

declare nat_digits.simps [simp del]

lemma dec_digits_nat: "unat n < 1073741824 \<Longrightarrow> dec_digits n = nat_digits (unat n)"
proof (induction n rule: dec_digits.induct)
  case (1 n)
  show ?case
  proof (cases "n = 0")
    case True
    then show ?thesis by (simp add: dec_digits.simps nat_digits.simps)
  next
    case False
    let ?q = "UDIV_CONST n 10"
    have q: "unat ?q = unat n div 10" using UDIV_small [of n 10] 1(2) by simp
    have m: "n - ?q * 10 = UMOD_CONST n 10" by (simp add: UMOD_CONST_def)
    have "unat (UMOD_CONST n 10) = unat n mod 10" using UMOD_small [of n 10] 1(2) by simp
    then have "unat (48 + (n - ?q * 10)) = 48 + unat n mod 10" unfolding m by (subst unat_add_lt) simp_all
    then have d: "(ucast (48 + (n - ?q * 10)) :: u8) = of_nat (48 + unat n mod 10)"
      by (metis of_nat_unat)
    have pos: "0 < n" using False by (simp add: word_neq_0_conv)
    have nz: "unat n \<noteq> 0" using False by (simp add: unat_eq_zero)
    have "dec_digits ?q = nat_digits (unat ?q)" using 1 pos q by simp
    then show ?thesis using pos nz d q by (simp add: dec_digits.simps [of n] nat_digits.simps [of "unat n"] Let_def)
  qed
qed

section \<open>Addresses\<close>

lemma digit_minus: "digit d - 48 = ucast d"
  by (simp add: digit_def)

lemma digit_not: assumes "unat d < 10" shows "digit d \<noteq> 0" "digit d \<noteq> 46"
proof -
  have "unat (ucast d :: u8) = unat d" using assms by (simp add: unsigned_ucast_eq take_bit_nat_eq_self)
  then have u: "unat (digit d) = 48 + unat d" using assms unfolding digit_def by (subst unat_add_lt) simp_all
  show "digit d \<noteq> 0" "digit d \<noteq> 46" using u by auto
qed

definition fold_digits :: "bytes \<Rightarrow> u8 \<Rightarrow> u8" where
  "fold_digits ds v = foldl (\<lambda>v c. v * 10 + (c - 48)) v ds"

lemma parse_ip_digits:
  "\<forall>c \<in> set ds. c \<noteq> 0 \<and> c \<noteq> 46 \<Longrightarrow> i < length ip \<Longrightarrow> i < 4 \<Longrightarrow>
   parse_ip (ds @ s) i ip = parse_ip s i (ip[i := fold_digits ds (ip ! i)])"
  by (induction ds arbitrary: ip) (simp_all add: fold_digits_def)

lemma octet_digits:
  assumes "unat v < 256"
  shows "(\<forall>c \<in> set (octet_to_string v). c \<noteq> 0 \<and> c \<noteq> 46)" and "fold_digits (octet_to_string v) 0 = ucast v"
proof -
  have n: "unat v < 1073741824" using assms by simp
  note dv = UDIV_small [OF n] and md = UMOD_small [OF n]
  have u: "ucast x = (of_nat (unat x) :: u8)" for x :: u32 by (rule of_nat_unat [symmetric])
  have lt: "v \<ge> 100 \<longleftrightarrow> unat v \<ge> 100" "v \<ge> 10 \<longleftrightarrow> unat v \<ge> 10" by (simp_all add: word_le_nat_alt)
  let ?r = "UMOD_CONST v 100"
  have r: "unat ?r = unat v mod 100" using md [of 100] by simp
  have rn: "unat ?r < 1073741824" unfolding r by (rule less_trans [OF mod_less_divisor]) simp_all
  have parts: "unat (UDIV_CONST v 100) = unat v div 100" "unat (UDIV_CONST ?r 10) = unat v mod 100 div 10"
    "unat (UMOD_CONST ?r 10) = unat v mod 100 mod 10" "unat (UDIV_CONST v 10) = unat v div 10" "unat (UMOD_CONST v 10) = unat v mod 10"
    using dv md UDIV_small [OF rn, of 10] UMOD_small [OF rn, of 10] r by simp_all
  show "\<forall>c \<in> set (octet_to_string v). c \<noteq> 0 \<and> c \<noteq> 46"
  proof -
    have "unat v div 100 < 10" "unat v mod 100 div 10 < 10" using assms by linarith+
    moreover have "\<not> v \<ge> 100 \<Longrightarrow> unat v div 10 < 10" unfolding lt by linarith
    moreover have "\<not> v \<ge> 10 \<Longrightarrow> unat v < 10" unfolding lt by linarith
    ultimately show ?thesis by (auto simp: octet_to_string_def Let_def digit_not parts)
  qed
  have d3: "unat v = (unat v div 100 * 10 + unat v mod 100 div 10) * 10 + unat v mod 100 mod 10"
  proof -
    have "a * 100 + m = w \<Longrightarrow> b * 10 + c = m \<Longrightarrow> w = (a * 10 + b) * 10 + c" for a b c m w :: nat by simp
    from this [OF div_mult_mod_eq div_mult_mod_eq] show ?thesis .
  qed
  have d2: "unat v = unat v div 10 * 10 + unat v mod 10" by simp
  have e3: "(of_nat a * 10 + of_nat b) * 10 + of_nat c = (of_nat ((a * 10 + b) * 10 + c) :: u8)" for a b c by simp
  have e2: "of_nat a * 10 + of_nat b = (of_nat (a * 10 + b) :: u8)" for a b by simp
  consider "v \<ge> 100" | "\<not> v \<ge> 100" "v \<ge> 10" | "\<not> v \<ge> 100" "\<not> v \<ge> 10" by blast
  then show "fold_digits (octet_to_string v) 0 = ucast v"
  proof cases
    case 1
    then have "fold_digits (octet_to_string v) 0 =
        (of_nat (unat v div 100) * 10 + of_nat (unat v mod 100 div 10)) * 10 + of_nat (unat v mod 100 mod 10)"
      by (simp add: fold_digits_def octet_to_string_def Let_def digit_minus u parts del: of_nat_unat)
    then show ?thesis unfolding e3 d3 [symmetric] by (simp only: u)
  next
    case 2
    then have "fold_digits (octet_to_string v) 0 = of_nat (unat v div 10) * 10 + of_nat (unat v mod 10)"
      by (simp add: fold_digits_def octet_to_string_def digit_minus u parts del: of_nat_unat)
    then show ?thesis unfolding e2 d2 [symmetric] by (simp only: u)
  next
    case 3
    then show ?thesis by (simp add: fold_digits_def octet_to_string_def digit_minus)
  qed
qed

lemma ip_octet: "unat ((x :: u32) AND 0xff) < 256" "(ucast (x AND 0xff) :: u8) = ucast x"
proof -
  have m: "x AND 0xff = take_bit 8 x" by (simp add: take_bit_eq_mask mask_eq_exp_minus_1)
  show "unat (x AND 0xff) < 256" unfolding m by (simp add: unsigned_take_bit_eq take_bit_nat_less_exp [of 8, simplified])
  show "(ucast (x AND 0xff) :: u8) = ucast x"
    by (rule bit_word_eqI) (auto simp: m bit_simps)
qed

lemma octet_parse:
  assumes "i < 4" "length ip = 4" "ip ! i = 0"
  shows "parse_ip (octet_to_string (x AND 0xff) @ s) i ip = parse_ip s i (ip[i := ucast x])"
  using parse_ip_digits [OF octet_digits(1) [OF ip_octet(1)], of i ip x s] octet_digits(2) [OF ip_octet(1), of x]
    ip_octet(2) [of x] assms by simp

section \<open>Properties\<close>

text \<open>
  The address the status screen shows is read back by the address parser: for every address and on both byte
  orders, \<open>set_ip_from_string\<close> on the output of \<open>ip_to_string\<close> gives that address.
\<close>
theorem ip_string_roundtrip: "set_ip_from_string e (ip_to_string ip) 0 = Some ip"
proof -
  have z: "st32 e 0 = [0, 0, 0, 0]" by (cases e) (simp_all add: st32_def le32_def be32_def)
  have "parse_ip (ip_to_string ip) 0 [0, 0, 0, 0] =
      Some [ucast (drop_bit 24 ip), ucast (drop_bit 16 ip), ucast (drop_bit 8 ip), ucast ip]"
    unfolding ip_to_string_def by (simp add: octet_parse)
  then show ?thesis unfolding set_ip_from_string_def z by (simp add: get_be32_be32)
qed

text \<open>
  Decimal formatting is right below \<open>2^30\<close>: \<open>uint_to_string_dec\<close> gives the zero-terminated decimal digits of its
  argument; from there on it need not: for 1073741829 it prints \<open>107374183/\<close>, because the quotient by ten comes out one too large.
\<close>
theorem uint_to_string_dec_correct:
  "(unat n < 2 ^ 30 \<longrightarrow> uint_to_string_dec n = (if n = 0 then [48] else rev (nat_digits (unat n))) @ [0])
   \<and> uint_to_string_dec 1073741829 = ascii ''107374183/'' @ [0]"
proof
  show "unat n < 2 ^ 30 \<longrightarrow> uint_to_string_dec n = (if n = 0 then [48] else rev (nat_digits (unat n))) @ [0]"
    by (auto simp: uint_to_string_dec_def dec_digits_nat)
  show "uint_to_string_dec 1073741829 = ascii ''107374183/'' @ [0]"
    by (simp add: uint_to_string_dec_def dec_digits.simps UDIV_CONST_def UDIV_RECIP_def Let_def ascii_def)
qed

theorem uint_to_string_dec_correct_witness:
  "unat (1024 :: u32) < 2 ^ 30 \<and> uint_to_string_dec 1024 = ascii ''1024'' @ [0]"
  using uint_to_string_dec_correct [of 1024] by (simp add: nat_digits.simps ascii_def)



text \<open>
  The countdown loses at most one second per elapsed second: \<open>dhcp_tick\<close> takes one from it only when at least one second of
  ticks passed since the last step, restarts the interval then, and stops at zero.
\<close>
theorem dhcp_tick_rate:
  "dhcp_tick p st = (if lease_display_secs st \<noteq> 0 \<and> ticks st - last_display_tick st \<ge> ucast (ticks_per_second p)
     then st\<lparr>last_display_tick := ticks st, lease_display_secs := lease_display_secs st - 1\<rparr> else st)
   \<and> unat (lease_display_secs (dhcp_tick p st)) \<le> unat (lease_display_secs st)
   \<and> unat (lease_display_secs st) \<le> unat (lease_display_secs (dhcp_tick p st)) + 1"
proof (cases "lease_display_secs st = 0 \<or> ticks st - last_display_tick st < ucast (ticks_per_second p)")
  case True
  then show ?thesis by (auto simp: dhcp_tick_def Let_def)
next
  case False
  then have "unat (lease_display_secs st - 1) = unat (lease_display_secs st) - 1" by (simp add: unat_minus_one)
  moreover have "\<not> ticks st - last_display_tick st < ucast (ticks_per_second p)" "lease_display_secs st \<noteq> 0"
    "ucast (ticks_per_second p) \<le> ticks st - last_display_tick st" using False by (simp_all add: not_less)
  ultimately show ?thesis by (simp add: dhcp_tick_def Let_def)
qed

text \<open>
  A lease of 0xffffffff seconds, which DHCP defines as infinite, is taken for expired: when the clock is
  past its first second, the expiry time of the fresh lease wraps around below the present, and the next resynchronisation
  sets the remaining time to zero.
\<close>
theorem infinite_lease_expires:
  assumes "dhcp_lease_time st = 0xffffffff" "1 < rtc st"
  shows "lease_display_secs (lease_resync_from_rtc (fresh_lease st)) = 0"
proof -
  have e: "rtc st + 0xffffffff = rtc st - 1" by simp
  have "unat (rtc st - 1) = unat (rtc st) - 1" using assms(2) by (intro unat_minus_one) auto
  then have "\<not> rtc st < rtc st + 0xffffffff" unfolding e using assms(2) by (simp add: word_less_nat_alt)
  then show ?thesis using assms by (simp add: fresh_lease_def lease_resync_from_rtc_def)
qed

theorem infinite_lease_expires_witness:
  "lease_display_secs (lease_resync_from_rtc (fresh_lease (example_client\<lparr>dhcp_lease_time := 0xffffffff, rtc := 1700000000\<rparr>))) = 0"
  using infinite_lease_expires [of "example_client\<lparr>dhcp_lease_time := 0xffffffff, rtc := 1700000000\<rparr>"] by simp

end
