(* ===== verification/Net.thy ===== *)
theory Net
  imports Commands Dhcp
begin

text \<open>
  \<^verbatim>\<open>client/common/network/net.c\<close>: the receive path of the GameCube and PlayStation 2 clients. \<open>pkt\<close> is the
  1514-byte receive buffer that holds the frame, so the header fields, which end below
  offset 96, are always inside it; what the lengths in the headers claim need not be. The
  handlers of this file answer in place: the frame they transmit is the rewritten buffer. The
  mutual calls of \<open>process_mine\<close> and \<open>process_broadcast\<close> never nest, because the Ethernet type decides
  which part runs; the parts are \<open>process_ip\<close> and \<open>process_arp\<close>.
\<close>

section \<open>Fields\<close>

definition RX_PKT_BUF_SIZE :: nat where "RX_PKT_BUF_SIZE = 1514"

definition put :: "nat \<Rightarrow> bytes \<Rightarrow> bytes \<Rightarrow> bytes" where
  "put off bs pkt = take off pkt @ bs @ drop (off + length bs) pkt"

definition get :: "nat \<Rightarrow> nat \<Rightarrow> bytes \<Rightarrow> bytes" where
  "get off n pkt = take n (drop off pkt)"

definition ip_ihl :: "bytes \<Rightarrow> nat" where
  "ip_ihl pkt = unat (pkt ! 14 AND 0x0f)"

definition l4_off :: "bytes \<Rightarrow> nat" where
  "l4_off pkt = 14 + 4 * ip_ihl pkt"

section \<open>ARP\<close>

definition process_arp :: "platform \<Rightarrow> bytes \<Rightarrow> client \<Rightarrow> client option" where
  "process_arp p pkt st =
     (if get 14 2 pkt \<noteq> be16 1 then Some st
      else if get 16 2 pkt \<noteq> be16 0x0800 then Some st
      else if get 20 2 pkt = be16 1 then
        (if our_ip st = 0 then Some st
         else if get 38 4 pkt = be32 (our_ip st) then
           (let pkt = put 0 (get 6 6 pkt) pkt;
                pkt = put 6 (take 6 (bb_mac p)) pkt;
                pkt = put 20 (be16 2) pkt;
                pkt = put 32 (get 22 10 pkt) pkt;
                pkt = put 22 (take 6 (bb_mac p)) pkt;
                pkt = put 28 (be32 (our_ip st)) pkt
            in Some (emit (Tx (take (ETHER_H_LEN + 28) pkt)) st))
         else Some st)
      else Some st)"

section \<open>ICMP\<close>

definition process_icmp :: "platform \<Rightarrow> bytes \<Rightarrow> client \<Rightarrow> client option" where
  "process_icmp p pkt st =
     (let ic = l4_off pkt in
      if pkt ! ic = 8 then do {
        let ip_length = unat (rd16 pkt 16);
        let count = int (ip_length div 2) - 2 * int (ip_ihl pkt);
        let i = get (ic + 2) 2 pkt;
        let pkt = put (ic + 2) [0, 0] pkt;
        c \<leftarrow> checksum (endian p) (drop ic pkt) count (odd ip_length);
        let pkt = put (ic + 2) (st16 (endian p) c) pkt;
        if i \<noteq> st16 (endian p) c then Some st
        else do {
          let pkt = put ic [0] pkt;
          let pkt = put 0 (get 6 6 pkt) pkt;
          let pkt = put 6 (take 6 (bb_mac p)) pkt;
          let pkt = put 30 (get 26 4 pkt) pkt;
          let pkt = put 26 (be32 (our_ip st)) pkt;
          let pkt = put 24 [0, 0] pkt;
          ci \<leftarrow> checksum (endian p) (drop 14 pkt) (2 * int (ip_ihl pkt)) False;
          let pkt = put 24 (st16 (endian p) ci) pkt;
          let pkt = put (ic + 2) [0, 0] pkt;
          cc \<leftarrow> checksum (endian p) (drop ic pkt) count (odd ip_length);
          let pkt = put (ic + 2) (st16 (endian p) cc) pkt;
          if ETHER_H_LEN + ip_length > length pkt then None
          else Some (emit (Tx (take (ETHER_H_LEN + ip_length) pkt)) st)
        }
      }
      else Some st)"

section \<open>UDP\<close>

text \<open>The checksum test: \<open>False\<close> drops the datagram.\<close>

definition udp_checksum_ok :: "platform \<Rightarrow> bytes \<Rightarrow> bool option" where
  "udp_checksum_ok p pkt =
     (let u = l4_off pkt;
          len = unat (rd16 pkt (u + 4)) - UDP_H_LEN;
          ck = ld16 (endian p) (pkt ! (u + 6)) (pkt ! (u + 7))
      in do {
        i \<leftarrow> (if ck \<noteq> 0
              then checksum_udp (endian p) (pseudo_header (drop 14 pkt) (drop u pkt)) (drop (u + 8) pkt)
                     (int (len div 2)) (odd len)
              else Some 0);
        Some (i = (if ck = 0xffff then 0 else ck)) })"

definition screensaver_wake :: "client \<Rightarrow> client" where
  "screensaver_wake st =
     (if \<not> screensaver_active st then st
      else disp_info (emit ScreensaverWake (st\<lparr>screensaver_active := False\<rparr>)))"

definition parse_headers :: "platform \<Rightarrow> bytes \<Rightarrow> headers" where
  "parse_headers p pkt =
     (let u = l4_off pkt in
      \<lparr>eth_src = get 6 6 pkt, eth_dest = get 0 6 pkt, ip_src = rd32 pkt 26, ip_dest = rd32 pkt 30,
       ip_packet_id = ld16 (endian p) (pkt ! 18) (pkt ! 19),
       udp_src = rd16 pkt u, udp_dest = rd16 pkt (u + 2), udp_length = rd16 pkt (u + 4)\<rparr>)"

definition parse_command :: "bytes \<Rightarrow> command" where
  "parse_command d = \<lparr>cmd_id = take 4 d, cmd_address = rd32 d 4, cmd_size = rd32 d 8, cmd_data = drop 12 d\<rparr>"

definition net_dispatch :: "platform \<Rightarrow> headers \<Rightarrow> command \<Rightarrow> client \<Rightarrow> client option" where
  "net_dispatch p h c st =
     (let id = cmd_id c in
      if id = ascii ''MAPL'' then cmd_maple p h c st
      else if id = ascii ''PMCR'' then cmd_pmcr p h c st
      else if id = ascii ''DBIN'' then cmd_donebin p h c st
      else if id = ascii ''RETV'' then cmd_retval p h c st
      else if id = ascii ''LBIN'' then cmd_loadbin p h c st
      else if id = ascii ''SBIQ'' then cmd_sendbinq p h c st
      else if id = ascii ''SBIN'' then cmd_sendbin p h c st
      else if id = ascii ''EXEC'' then cmd_execute p h c st
      else if id = ascii ''VERS'' then cmd_version p h c st
      else if id = ascii ''CAPS'' then cmd_capabilities p h c st
      else if id = ascii ''SRTC'' then cmd_setrtc p h c st
      else if id = ascii ''RBOT'' then Some (cmd_reboot st)
      else Some st)"

definition process_command :: "platform \<Rightarrow> headers \<Rightarrow> command \<Rightarrow> client \<Rightarrow> client option" where
  "process_command p h c st =
     (let st = (if (udp_dest h = 31313 \<or> udp_dest h = 53535) \<and> eth_dest h = take 6 (bb_mac p) then screensaver_wake st else st)
      in if cmd_id c = ascii ''PBIN'' then do {
           st \<leftarrow> cmd_partbin p c st;
           Some (st\<lparr>pkt_buf := make_ether (eth_src h) (bb_mac p) (pkt_buf st)\<rparr>)
         }
         else net_dispatch p h c (st\<lparr>pkt_buf := make_ether (eth_src h) (bb_mac p) (pkt_buf st)\<rparr>))"

definition process_udp :: "platform \<Rightarrow> bytes \<Rightarrow> client \<Rightarrow> client option" where
  "process_udp p pkt st =
     (let u = l4_off pkt; udp_total = unat (rd16 pkt (u + 4)) in
      if udp_total < UDP_H_LEN then Some st
      else do {
        ok \<leftarrow> udp_checksum_ok p pkt;
        if \<not> ok then Some st
        else let d = drop (u + 8) pkt in
          if d ! 0 = 2 then do {
            (r, st) \<leftarrow> handle_dhcp_reply p (get 6 6 pkt) d (udp_total - UDP_H_LEN) st;
            Some (if r = 0 then st\<lparr>escape_loop := True\<rparr> else st)
          }
          else process_command p (parse_headers p pkt) (parse_command d) st
      })"

section \<open>IP and Ethernet\<close>

definition process_ip :: "platform \<Rightarrow> bytes \<Rightarrow> client \<Rightarrow> client option" where
  "process_ip p pkt st =
     (if rd16 pkt 20 AND 0x3fff \<noteq> 0 then Some st
      else do {
        let i = get 24 2 pkt;
        let pkt = put 24 [0, 0] pkt;
        c \<leftarrow> checksum (endian p) (drop 14 pkt) (2 * int (ip_ihl pkt)) False;
        let pkt = put 24 (st16 (endian p) c) pkt;
        if i \<noteq> st16 (endian p) c then Some st
        else if pkt ! 23 = 17 then process_udp p pkt st
        else if pkt ! 23 = 1 then process_icmp p pkt st
        else Some st
      })"

definition process_mine :: "platform \<Rightarrow> bytes \<Rightarrow> client \<Rightarrow> client option" where
  "process_mine p pkt st =
     (if pkt ! 13 \<noteq> 0 then (if pkt ! 13 = 6 then process_arp p pkt st else Some st)
      else process_ip p pkt st)"

definition process_broadcast :: "platform \<Rightarrow> bytes \<Rightarrow> client \<Rightarrow> client option" where
  "process_broadcast p pkt st =
     (if pkt ! 13 = 0 then process_mine p pkt st
      else if pkt ! 13 \<noteq> 6 then Some st
      else process_arp p pkt st)"

definition process_pkt :: "platform \<Rightarrow> bytes \<Rightarrow> client \<Rightarrow> client option" where
  "process_pkt p pkt st =
     (if pkt ! 12 \<noteq> 8 then Some st
      else if get 0 6 pkt = take 6 (bb_mac p) then process_mine p pkt st
      else if get 0 6 pkt = replicate 6 0xff then process_broadcast p pkt st
      else Some st)"

section \<open>Frames of the transmit path are accepted\<close>

lemma ld16_st16: "ld16 e (st16 e w ! 0) (st16 e w ! 1) = w"
  by (cases e) (simp_all add: ld16_def st16_def be16_def get_be16_be16)

lemma st16_nz: "st16 e w = [st16 e w ! 0, st16 e w ! 1]"
  by (cases e) (simp_all add: st16_def be16_def)

lemma take_drop_nth:
  assumes "take n (drop i pkt) = bs" "length bs = n" "j < n"
  shows "pkt ! (i + j) = bs ! j"
proof -
  have "i + j < length pkt" using assms by auto
  then show ?thesis using assms(3) by (simp add: assms(1) [symmetric])
qed

lemma rd16_get: "get i 2 pkt = be16 w \<Longrightarrow> rd16 pkt i = w"
  using take_drop_nth [of 2 i pkt "be16 w" 0] take_drop_nth [of 2 i pkt "be16 w" 1]
  by (simp add: get_def rd16_def be16_def get_be16_be16)

lemma rd32_get: "get i 4 pkt = be32 w \<Longrightarrow> rd32 pkt i = w"
  using take_drop_nth [of 4 i pkt "be32 w" 0] take_drop_nth [of 4 i pkt "be32 w" 1]
    take_drop_nth [of 4 i pkt "be32 w" 2] take_drop_nth [of 4 i pkt "be32 w" 3]
  by (simp add: get_def rd32_def be32_def get_be32_be32)

lemma ld16_get: "get i 2 pkt = st16 e w \<Longrightarrow> ld16 e (pkt ! i) (pkt ! (i + 1)) = w"
  using take_drop_nth [of 2 i pkt "st16 e w" 0] take_drop_nth [of 2 i pkt "st16 e w" 1] ld16_st16 [of e w]
  by (simp add: get_def)

text \<open>
  A frame laid out the way \<open>make_ether\<close>, \<open>make_ip\<close> and \<open>make_udp\<close> do, with
  anything behind it in the receive buffer.
\<close>

lemma process_ip_frame:
  assumes eth: "length eth = 14" and pl: "length payload < 60000"
    and pkt: "pkt = udp_frame p dip sip pid dport sport payload eth @ residue"
  shows "process_ip p pkt st = process_udp p pkt st" and "l4_off pkt = 34"
    and "udp_checksum_ok p pkt = Some True" and "rd16 pkt 38 = of_nat (length payload + 8)" and "drop 42 pkt = payload @ residue"
    and "get 0 14 pkt = eth" and "rd32 pkt 26 = sip" and "rd32 pkt 30 = dip" and "rd16 pkt 34 = sport" and "rd16 pkt 36 = dport"
    and "ld16 (endian p) (pkt ! 18) (pkt ! 19) = pid"
proof -
  let ?e = "endian p" and ?len = "UDP_H_LEN + length payload"
  obtain ri where ri: "make_ip ?e dip sip ?len 17 pid = ip_pre ?e ?len 17 pid @ st16 ?e ri @ be32 sip @ be32 dip"
      "checksum ?e (ip_pre ?e ?len 17 pid @ [0, 0] @ be32 sip @ be32 dip) 10 False = Some ri" by (rule make_ip_shape)
  let ?ip = "make_ip ?e dip sip ?len 17 pid"
  have ip9: "?ip ! 9 = 17" unfolding ri(1) by (simp add: ip_pre_def nth_append)
  let ?u6 = "be16 sport @ be16 dport @ be16 (of_nat (length payload + 8))"
  obtain ru where ru: "make_udp ?e dport sport (length payload) ?ip payload = Some (?u6 @ st16 ?e (if ru = 0 then 0xffff else ru))"
      "checksum_udp ?e (pseudo_header ?ip ?u6) payload (int (length payload div 2)) (odd (length payload)) = Some ru" "ru \<noteq> 0xffff"
    by (rule make_udp_fields [of ?ip payload ?e dport sport]) (use pl ip9 in simp_all)
  let ?pre = "ip_pre ?e ?len 17 pid" and ?ck = "if ru = 0 then 0xffff else ru"
  have f: "pkt = eth @ ?pre @ st16 ?e ri @ be32 sip @ be32 dip @ ?u6 @ st16 ?e ?ck @ payload @ residue"
    unfolding pkt udp_frame_def Let_def ru(1) unfolding ri(1) using eth by (simp add: ETHER_H_LEN_def)
  have ihl: "ip_ihl pkt = 5" "rd16 pkt 20 = 0x4000" "pkt ! 23 = 17" unfolding f ip_ihl_def rd16_def
    using eth by (simp_all add: nth_append ip_pre_def be16_def get_be16_def)
  show off: "l4_off pkt = 34" using ihl by (simp add: l4_off_def)
  have g: "get 24 2 pkt = st16 ?e ri" unfolding f get_def using eth by simp
  have z: "put 24 [0, 0] pkt = eth @ ?pre @ [0, 0] @ be32 sip @ be32 dip @ ?u6 @ st16 ?e ?ck @ payload @ residue"
    and bk: "put 24 (st16 ?e ri) (put 24 [0, 0] pkt) = pkt"
    unfolding f put_def using eth by simp_all
  have "drop 14 (put 24 [0, 0] pkt) = (?pre @ [0, 0] @ be32 sip @ be32 dip) @ ?u6 @ st16 ?e ?ck @ payload @ residue"
    unfolding z using eth by simp
  then have ck: "checksum ?e (drop 14 (put 24 [0, 0] pkt)) 10 False = Some ri"
    using checksum_append [OF ri(2)] by simp
  have ihl0: "ip_ihl (put 24 [0, 0] pkt) = 5" unfolding z ip_ihl_def using eth by (simp add: nth_append ip_pre_def)
  show "process_ip p pkt st = process_udp p pkt st"
    unfolding process_ip_def Let_def ihl0 using ck g ihl by (simp add: bk)
  show d42: "drop 42 pkt = payload @ residue" "get 0 14 pkt = eth" unfolding f get_def using eth by simp_all
  show "rd16 pkt 38 = of_nat (length payload + 8)" and "rd32 pkt 26 = sip" and "rd32 pkt 30 = dip" and "rd16 pkt 34 = sport"
    and "rd16 pkt 36 = dport"
    by (rule rd16_get rd32_get; simp add: f get_def eth)+
  have "get 18 2 pkt = st16 ?e pid" unfolding f get_def using eth by (simp add: ip_pre_def)
  from ld16_get [OF this] show "ld16 (endian p) (pkt ! 18) (pkt ! 19) = pid" by simp
  have "get 40 2 pkt = st16 ?e ?ck" unfolding f get_def using eth by simp
  from ld16_get [OF this] have ckv: "ld16 ?e (pkt ! 40) (pkt ! 41) = ?ck" by simp
  have ps: "pseudo_header (drop 14 pkt) (drop 34 pkt) = pseudo_header ?ip ?u6"
    unfolding ri(1) f pseudo_header_def using eth by (simp add: nth_append ip_pre_def)
  have l: "rd16 pkt 38 = of_nat (length payload + 8)" by (rule rd16_get) (simp add: f get_def eth)
  have len: "unat (rd16 pkt 38) - UDP_H_LEN = length payload"
    unfolding l using pl by (subst unat_of_nat16) (simp_all add: UDP_H_LEN_def)
  have "ru \<noteq> 0 \<Longrightarrow> ?ck \<noteq> 0xffff" using ru(3) by simp
  then show "udp_checksum_ok p pkt = Some True"
    unfolding udp_checksum_ok_def Let_def off using ckv ps len d42 checksum_udp_append [OF ru(2)] by simp
qed

section \<open>Properties\<close>

text \<open>
  C13. The receive path accepts what the transmit path builds: a frame addressed to this console with a command of at least twelve bytes, whose
  headers come from \<open>make_ip\<close> and \<open>make_udp\<close>, passes the IP and the UDP checksum tests (the 0xffff encoding of zero
  included) and reaches the command dispatcher with the sender's addresses and ports and exactly the payload sent,
  whatever an earlier packet left behind it in the receive buffer.
\<close>
theorem built_frame_reaches_dispatcher:
  assumes "length (bb_mac p) = 6" "length src = 6" "12 \<le> length payload" "length payload < 60000" "payload ! 0 \<noteq> 2"
    and "pkt = udp_frame p dip sip pid dport sport payload (bb_mac p @ src @ [8, 0]) @ residue"
  shows "process_pkt p pkt st = process_command p
      \<lparr>eth_src = src, eth_dest = bb_mac p, ip_src = sip, ip_dest = dip, ip_packet_id = pid,
       udp_src = sport, udp_dest = dport, udp_length = of_nat (length payload + 8)\<rparr>
      \<lparr>cmd_id = take 4 payload, cmd_address = rd32 payload 4, cmd_size = rd32 payload 8, cmd_data = drop 12 payload @ residue\<rparr> st"
proof -
  have eth: "length (bb_mac p @ src @ [8, 0]) = 14" using assms(1,2) by simp
  note fr = process_ip_frame [OF eth assms(4,6)]
  have g: "take 14 pkt = bb_mac p @ src @ [8, 0]" using fr(6) by (simp add: get_def)
  have "take 6 pkt = take 6 (take 14 pkt)" "take 6 (drop 6 pkt) = take 6 (drop 6 (take 14 pkt))" by (simp_all add: drop_take)
  then have e: "get 0 6 pkt = bb_mac p" "get 6 6 pkt = src" unfolding g get_def using assms(1,2) by simp_all
  have "pkt ! 12 = 8" "pkt ! 13 = 0"
    using take_drop_nth [of 14 0 pkt _ 12] take_drop_nth [of 14 0 pkt _ 13] g assms(1,2) by (simp_all add: nth_append)
  then have "process_pkt p pkt st = process_udp p pkt st"
    unfolding process_pkt_def process_mine_def using e(1) assms(1) fr(1) by simp
  also have "\<dots> = process_command p (parse_headers p pkt) (parse_command (drop 42 pkt)) st"
  proof -
    have "unat (rd16 pkt 38) = length payload + 8" unfolding fr(4) using assms(4) by (intro unat_of_nat16) simp
    moreover have "drop 42 pkt ! 0 \<noteq> 2" unfolding fr(5) using assms(3,5) by (cases payload) simp_all
    ultimately show ?thesis unfolding process_udp_def Let_def fr(2) using fr(3) by (simp add: UDP_H_LEN_def)
  qed
  also have "parse_headers p pkt = \<lparr>eth_src = src, eth_dest = bb_mac p, ip_src = sip, ip_dest = dip, ip_packet_id = pid,
       udp_src = sport, udp_dest = dport, udp_length = of_nat (length payload + 8)\<rparr>"
    unfolding parse_headers_def Let_def fr(2) using fr e by simp
  also have "parse_command (drop 42 pkt) =
     \<lparr>cmd_id = take 4 payload, cmd_address = rd32 payload 4, cmd_size = rd32 payload 8, cmd_data = drop 12 payload @ residue\<rparr>"
    unfolding parse_command_def fr(5) rd32_def using assms(3) by (simp add: nth_append)
  finally show ?thesis .
qed

theorem built_frame_reaches_dispatcher_witness:
  "process_pkt example_platform
     (udp_frame example_platform 0xc0a80002 0xc0a80001 7 53535 53535 (ascii ''RBOT'' @ replicate 8 0) (bb_mac example_platform @ [2, 0, 0, 0, 0, 1] @ [8, 0]) @ [])
     example_client =
   process_command example_platform
      \<lparr>eth_src = [2, 0, 0, 0, 0, 1], eth_dest = bb_mac example_platform, ip_src = 0xc0a80001, ip_dest = 0xc0a80002, ip_packet_id = 7,
       udp_src = 53535, udp_dest = 53535, udp_length = 20\<rparr>
      \<lparr>cmd_id = ascii ''RBOT'', cmd_address = rd32 (ascii ''RBOT'' @ replicate 8 0) 4, cmd_size = rd32 (ascii ''RBOT'' @ replicate 8 0) 8, cmd_data = []\<rparr> example_client"
proof -
  let ?pl = "ascii ''RBOT'' @ replicate 8 0"
  have "length (bb_mac example_platform) = 6" "length [2, 0, 0, 0, 0, 1 :: u8] = 6" "12 \<le> length ?pl" "length ?pl < 60000" "?pl ! 0 \<noteq> 2"
    by (simp_all add: example_platform_def ascii_def)
  from built_frame_reaches_dispatcher [OF this refl, where dip = "0xc0a80002" and sip = "0xc0a80001" and pid = 7 and dport = 53535
      and sport = 53535 and residue = "[]" and st = example_client]
  show ?thesis by simp
qed

text \<open>
  The answer to a valid echo request. A ping with a plain 20-byte IP header, whose total length matches and whose ICMP checksum is right, is
  answered by one frame of the same length: Ethernet and IP addresses turned round, type zero, the same payload, and both checksums valid
  under the receiver's test.
\<close>
theorem icmp_echo_reply:
  assumes "length (bb_mac p) = 6" "length d6 = 6" "length s6 = 6" "length pre = 10" "pre ! 0 = 0x45" "length sip = 4" "length dip = 4"
    and "length ipck = 2" "take 2 (drop 2 pre) = be16 (of_nat (24 + length rest))" "length rest < 60000"
    and "checksum (endian p) ([8, code] @ [0, 0] @ rest) (int ((4 + length rest) div 2)) (odd (length rest)) = Some c"
    and "pkt = d6 @ s6 @ [8, 0] @ pre @ ipck @ sip @ dip @ [8, code] @ st16 (endian p) c @ rest @ residue"
  shows "\<exists>ci cc. process_icmp p pkt st = Some (emit (Tx (s6 @ bb_mac p @ [8, 0] @ pre @ ci @ be32 (our_ip st) @ sip @ [0, code] @ cc @ rest)) st)
    \<and> checksum (endian p) (pre @ ci @ be32 (our_ip st) @ sip) 10 False = Some 0
    \<and> checksum (endian p) ([0, code] @ cc @ rest) (int ((4 + length rest) div 2)) (odd (length rest)) = Some 0"
proof -
  let ?e = "endian p" and ?n = "int ((4 + length rest) div 2)" and ?o = "odd (length rest)"
  obtain ri where ri: "checksum ?e (pre @ [0, 0] @ be32 (our_ip st) @ sip) 10 False = Some ri"
    by (rule checksum_sum [of "pre @ [0, 0] @ be32 (our_ip st) @ sip" 10 False ?e]) (use assms in simp_all)
  obtain rc where rc: "checksum ?e ([0, code] @ [0, 0] @ rest) ?n ?o = Some rc"
    by (rule checksum_sum [of "[0, code] @ [0, 0] @ rest" ?n ?o ?e]) (use assms(10) in simp_all)
  have ihl: "ip_ihl pkt = 5" and il: "rd16 pkt 16 = of_nat (24 + length rest)"
  proof -
    show "ip_ihl pkt = 5" unfolding ip_ihl_def assms(12) using assms(2-5) by (simp add: nth_append)
    show "rd16 pkt 16 = of_nat (24 + length rest)"
      by (rule rd16_get) (use assms(2-4,9) in \<open>simp add: get_def assms(12)\<close>)
  qed
  have ul: "unat (rd16 pkt 16) = 24 + length rest" unfolding il using assms(10) by (intro unat_of_nat16) simp
  have off: "l4_off pkt = 34" by (simp add: l4_off_def ihl)
  have cnt: "int ((24 + length rest) div 2) - 2 * int 5 = ?n" by simp
  have odd: "odd (24 + length rest) = ?o" by simp
  let ?mid = "d6 @ s6 @ [8, 0] @ pre @ ipck @ sip @ dip"
  have p1: "put 36 [0, 0] pkt = ?mid @ [8, code] @ [0, 0] @ rest @ residue"
    and i0: "get 36 2 pkt = st16 ?e c" and t0: "pkt ! 34 = 8"
    unfolding assms(12) put_def get_def using assms(2-8) by (simp_all add: nth_append)
  have c1: "checksum ?e (drop 34 (put 36 [0, 0] pkt)) ?n ?o = Some c"
    unfolding p1 using checksum_append [OF assms(11), of residue] assms(2-8) by simp
  obtain P1 where P1: "put 36 [0, 0] pkt = P1" "P1 = ?mid @ [8, code] @ [0, 0] @ rest @ residue" using p1 by blast
  let ?tail = "st16 ?e c @ rest @ residue"
  obtain K1 where K1: "put 36 (st16 ?e c) P1 = K1" "K1 = ?mid @ [8, code] @ ?tail"
    unfolding P1(2) put_def using assms(1-8) by simp
  obtain K2 where K2: "put 34 [0] K1 = K2" "K2 = d6 @ s6 @ [8, 0] @ pre @ ipck @ sip @ dip @ [0, code] @ ?tail"
    unfolding K1(2) put_def using assms(1-8) by simp
  have g2: "get 6 6 K2 = s6" unfolding K2(2) get_def using assms(1-8) by simp
  obtain K3 where K3: "put 0 s6 K2 = K3" "K3 = s6 @ s6 @ [8, 0] @ pre @ ipck @ sip @ dip @ [0, code] @ ?tail"
    unfolding K2(2) put_def using assms(1-8) by simp
  obtain K4 where K4: "put 6 (take 6 (bb_mac p)) K3 = K4" "K4 = s6 @ bb_mac p @ [8, 0] @ pre @ ipck @ sip @ dip @ [0, code] @ ?tail"
    unfolding K3(2) put_def using assms(1-8) by simp
  have g4: "get 26 4 K4 = sip" unfolding K4(2) get_def using assms(1-8) by simp
  obtain K5 where K5: "put 30 sip K4 = K5" "K5 = s6 @ bb_mac p @ [8, 0] @ pre @ ipck @ sip @ sip @ [0, code] @ ?tail"
    unfolding K4(2) put_def using assms(1-8) by simp
  obtain K6 where K6: "put 26 (be32 (our_ip st)) K5 = K6" "K6 = s6 @ bb_mac p @ [8, 0] @ pre @ ipck @ be32 (our_ip st) @ sip @ [0, code] @ ?tail"
    unfolding K5(2) put_def using assms(1-8) by simp
  obtain q where p2: "put 24 [0, 0] K6 = q" and q: "q = s6 @ bb_mac p @ [8, 0] @ pre @ [0, 0] @ be32 (our_ip st) @ sip @ [0, code] @ ?tail"
    unfolding K6(2) put_def using assms(1-8) by simp
  have ihq: "ip_ihl q = 5" unfolding q ip_ihl_def using assms(1-5) by (simp add: nth_append)
  have c2: "checksum ?e (drop 14 q) 10 False = Some ri"
    unfolding q using checksum_append [OF ri, of "[0, code] @ ?tail"] assms(1-4) by simp
  obtain K7 where K7: "put 24 (st16 ?e ri) q = K7" "K7 = s6 @ bb_mac p @ [8, 0] @ pre @ st16 ?e ri @ be32 (our_ip st) @ sip @ [0, code] @ ?tail"
    unfolding q put_def using assms(1-8) by simp
  obtain K8 where K8: "put 36 [0, 0] K7 = K8" "K8 = s6 @ bb_mac p @ [8, 0] @ pre @ st16 ?e ri @ be32 (our_ip st) @ sip @ [0, code] @ [0, 0] @ rest @ residue"
    unfolding K7(2) put_def using assms(1-8) by simp
  have c3: "checksum ?e (drop 34 K8) ?n ?o = Some rc"
    unfolding K8(2) using checksum_append [OF rc, of residue] assms(1-8) by simp
  obtain K9 where K9: "put 36 (st16 ?e rc) K8 = K9" "K9 = s6 @ bb_mac p @ [8, 0] @ pre @ st16 ?e ri @ be32 (our_ip st) @ sip @ [0, code] @ st16 ?e rc @ rest @ residue"
    unfolding K8(2) put_def using assms(1-8) by simp
  let ?r = "s6 @ bb_mac p @ [8, 0] @ pre @ st16 ?e ri @ be32 (our_ip st) @ sip @ [0, code] @ st16 ?e rc @ rest"
  have K9r: "K9 = ?r @ residue" unfolding K9(2) by simp
  have lr: "length ?r = ETHER_H_LEN + (24 + length rest)" using assms(1-8) by (simp add: ETHER_H_LEN_def)
  have l9: "\<not> length K9 < ETHER_H_LEN + (24 + length rest)" "take (ETHER_H_LEN + (24 + length rest)) K9 = ?r"
  proof -
    have "\<not> length (xs @ ys) < length xs" "take (length xs) (xs @ ys) = xs" for xs ys :: bytes by simp_all
    from this [of ?r residue] show "\<not> length K9 < ETHER_H_LEN + (24 + length rest)" "take (ETHER_H_LEN + (24 + length rest)) K9 = ?r"
      unfolding K9r lr [symmetric] .
  qed
  have ten: "2 * int 5 = 10" "(34 :: nat) + 2 = 36" by simp_all
  have "process_icmp p pkt st = Some (emit (Tx ?r) st)"
    unfolding process_icmp_def off ul ihl odd cnt
    by (simp only: Let_def cnt [unfolded ten] odd t0 i0 refl if_True if_False simp_thms P1(1) K1(1) c1 [unfolded P1(1)] K2(1) g2 K3(1) K4(1) g4 K5(1) K6(1)
        p2 ihq ten c2 K7(1) K8(1) c3 K9(1) l9 Option.bind.simps)
  moreover have "checksum ?e (pre @ st16 ?e ri @ be32 (our_ip st) @ sip) 10 False = Some 0"
    by (rule checksum_verifies [OF _ _ _ _ ri]) (use assms in simp_all)
  moreover have "checksum ?e ([0, code] @ st16 ?e rc @ rest) ?n ?o = Some 0"
    by (rule checksum_verifies [OF _ _ _ _ rc]) (use assms(10) in simp_all)
  ultimately show ?thesis by blast
qed

theorem icmp_echo_reply_witness:
  "\<exists>c ci cc. process_icmp example_platform (replicate 6 1 @ replicate 6 2 @ [8, 0] @ ip_pre LE 4 1 7 @ [0, 0] @ be32 0xc0a80001 @ be32 0xc0a80002
       @ [8, 0] @ st16 LE c @ []) example_client
     = Some (emit (Tx (replicate 6 2 @ bb_mac example_platform @ [8, 0] @ ip_pre LE 4 1 7 @ ci @ be32 0 @ be32 0xc0a80001 @ [0, 0] @ cc)) example_client)"
proof -
  obtain c where c: "checksum LE ([8, 0] @ [0, 0] @ []) 2 False = Some c"
    by (rule checksum_sum [of "[8, 0] @ [0, 0] @ []" 2 False LE]) simp_all
  have e: "endian example_platform = LE" "our_ip example_client = 0" by (simp_all add: example_defs)
  have "length (bb_mac example_platform) = 6" "length (ip_pre LE 4 1 7) = 10" "ip_pre LE 4 1 7 ! 0 = 0x45"
    "take 2 (drop 2 (ip_pre LE 4 1 7)) = be16 24"
    by (simp_all add: example_platform_def ip_pre_def)
  then show ?thesis
    using icmp_echo_reply [of example_platform "replicate 6 1" "replicate 6 2" "ip_pre LE 4 1 7" "be32 0xc0a80001" "be32 0xc0a80002" "[0, 0]" "[]" 0 c
        _ "[]" example_client, OF _ _ _ _ _ _ _ _ _ _ _ refl] c e
    by auto
qed

text \<open>
  The total length of an echo request is not checked against its header length: when it is smaller, the word count passed to
  \<open>checksum\<close> is negative, and its loop runs through memory instead of the packet.
\<close>
theorem icmp_short_length_undefined:
  assumes "pkt ! (14 + 4 * ip_ihl pkt) = 8" "unat (rd16 pkt 16) div 2 < 2 * ip_ihl pkt"
  shows "process_icmp p pkt st = None"
  using assms by (simp add: process_icmp_def l4_off_def checksum_def Let_def)

theorem icmp_short_length_undefined_witness:
  "process_icmp example_platform (replicate 14 0 @ [0x45, 0] @ be16 18 @ replicate 16 0 @ [8] @ replicate 1479 0) example_client = None"
  by (rule icmp_short_length_undefined) (simp_all add: ip_ihl_def rd16_def be16_def get_be16_def nth_append)

end
