(* ===== verification/Dedup.thy ===== *)
theory Dedup
  imports Client_State
begin

text \<open>
  \<^verbatim>\<open>host/src/dedup.c\<close> and the network console loop of \<^verbatim>\<open>host/src/console.c\<close>: the host's
  single-slot reply cache and the loop that replays, drops or serves a request. The
  static \<open>state\<close> is the record \<open>dedup\<close>, its packet slots a list of \<open>DEDUP_MAX_PACKETS\<close> byte lists. The
  syscall handlers themselves are an argument \<open>exec\<close> of the loop: what they do to the host and the commands they
  send, each with the outcome of the socket call. The contract of a reply cache is the locale \<open>reply_cache\<close>.
\<close>

section \<open>dedup.c\<close>

definition DEDUP_WINDOW_USEC :: u64 where "DEDUP_WINDOW_USEC = 3000000"
definition DEDUP_MAX_PACKETS :: nat where "DEDUP_MAX_PACKETS = 64"
definition DEDUP_MAX_PKT_BYTES :: nat where "DEDUP_MAX_PKT_BYTES = 2048"

record dedup =
  dd_seq :: u32
  captured_at_us :: u64
  packets :: "bytes list"
  packet_count :: nat
  dd_valid :: bool
  capturing :: bool
  capture_seq :: u32
  capture_count :: nat

definition dedup_init :: dedup where
  "dedup_init = \<lparr>dd_seq = 0, captured_at_us = 0, packets = replicate DEDUP_MAX_PACKETS [], packet_count = 0,
     dd_valid = False, capturing = False, capture_seq = 0, capture_count = 0\<rparr>"

definition dedup_extract_seq :: "bytes \<Rightarrow> u32 option" where
  "dedup_extract_seq buf =
     (if length buf < NET_SEQ_TRAILER_LEN then None
      else let trailer = drop (length buf - NET_SEQ_TRAILER_LEN) buf in
        if take 4 trailer \<noteq> NET_SEQ_MAGIC then None else Some (rd32 trailer 4))"

definition dedup_try_replay :: "u32 \<Rightarrow> u64 \<Rightarrow> dedup \<Rightarrow> bytes list option" where
  "dedup_try_replay seq now_us s =
     (if \<not> dd_valid s \<or> seq \<noteq> dd_seq s then None
      else if now_us - captured_at_us s > DEDUP_WINDOW_USEC then None
      else Some (take (packet_count s) (packets s)))"

definition dedup_is_stale :: "u32 \<Rightarrow> dedup \<Rightarrow> bool" where
  "dedup_is_stale seq s = (dd_valid s \<and> sint (seq - dd_seq s) \<le> 0)"

definition dedup_begin_capture :: "u32 \<Rightarrow> u64 \<Rightarrow> dedup \<Rightarrow> dedup" where
  "dedup_begin_capture seq now_us s = s\<lparr>capturing := True, capture_seq := seq, capture_count := 0, captured_at_us := now_us\<rparr>"

definition dedup_capture_pkt :: "bytes \<Rightarrow> dedup \<Rightarrow> dedup" where
  "dedup_capture_pkt buf s =
     (if \<not> capturing s \<or> buf = [] then s
      else if capture_count s \<ge> DEDUP_MAX_PACKETS then s
      else if length buf > DEDUP_MAX_PKT_BYTES then s
      else s\<lparr>packets := (packets s)[capture_count s := buf], capture_count := capture_count s + 1\<rparr>)"

definition dedup_end_capture :: "dedup \<Rightarrow> dedup" where
  "dedup_end_capture s =
     (if \<not> capturing s then s
      else s\<lparr>dd_seq := capture_seq s, packet_count := capture_count s, dd_valid := True, capturing := False\<rparr>)"

definition dedup_current_seq :: "dedup \<Rightarrow> u32" where
  "dedup_current_seq s = capture_seq s"

definition dedup_is_capturing :: "dedup \<Rightarrow> bool" where
  "dedup_is_capturing s = capturing s"

section \<open>The console loop\<close>

text \<open>A command a handler sends: its id, address, size and data, and whether the socket accepted it.\<close>

record outgoing =
  o_cmd :: bytes
  o_addr :: u32
  o_size :: u32
  o_data :: bytes
  o_ok :: bool

definition net_send_cmd :: "outgoing \<Rightarrow> dedup \<Rightarrow> bytes \<times> dedup" where
  "net_send_cmd out s =
     (let payload = take (2048 - 12 - NET_SEQ_TRAILER_LEN) (o_data out);
          buf = o_cmd out @ be32 (o_addr out) @ be32 (o_size out) @ payload;
          buf = (if dedup_is_capturing s \<and> o_cmd out = ascii ''RETV''
                 then buf @ NET_SEQ_MAGIC @ be32 (dedup_current_seq s) else buf)
      in (buf, if o_ok out then dedup_capture_pkt buf s else s))"

fun send_all :: "outgoing list \<Rightarrow> dedup \<Rightarrow> bytes list \<times> dedup" where
  "send_all [] s = ([], s)"
| "send_all (out # outs) s =
     (let (b, s) = net_send_cmd out s; (bs, s) = send_all outs s in (b # bs, s))"

definition net_has_inline_ret_request :: "bytes \<Rightarrow> nat \<Rightarrow> bool" where
  "net_has_inline_ret_request pkt magic_offset =
     (length pkt \<ge> magic_offset + 4 \<and> take 4 (drop magic_offset pkt) = NET_INLINE_RET_MAGIC)"

definition NET_INLINE_RET_MAX :: nat where "NET_INLINE_RET_MAX = 512"

definition net_send_ret_inline :: "u32 \<Rightarrow> bytes \<Rightarrow> bool \<Rightarrow> outgoing option" where
  "net_send_ret_inline ret dat sock_ok =
     (if length dat > NET_INLINE_RET_MAX then None
      else Some \<lparr>o_cmd = ascii ''RETV'', o_addr = ret, o_size = of_nat (4 + length dat),
                 o_data = NET_INLINE_RET_MAGIC @ dat, o_ok = sock_ok\<rparr>)"

datatype action = Ignored | Replayed "bytes list" | Dropped | Served bytes "bytes list" | Exited "u32 option"

type_synonym 'w handlers = "bytes \<Rightarrow> 'w \<Rightarrow> 'w \<times> outgoing list"

text \<open>
  One turn of the loop: the datagram \<open>buffer\<close> arrives at time \<open>now\<close>. \<open>Served\<close> names the
  request that was run and the datagrams sent for it; the status of \<open>Exited\<close> is \<open>None\<close> when the
  request is too short to carry one (the code then reads what an earlier datagram left in the buffer).
\<close>

definition is_exit :: "bytes \<Rightarrow> bool" where
  "is_exit buf = (take 4 buf = ascii ''DC00'' \<or> take 4 buf = ascii ''DC22'')"

definition serve :: "'w handlers \<Rightarrow> bytes \<Rightarrow> bool \<Rightarrow> dedup \<Rightarrow> 'w \<Rightarrow> action \<times> dedup \<times> 'w" where
  "serve exec req dedup_active s w =
     (if is_exit req then (Exited (if length req < 8 then None else Some (rd32 req 4)), s, w)
      else let (w', outs) = exec req w;
               (sent, s) = send_all outs s
           in (Served req sent, if dedup_active then dedup_end_capture s else s, w'))"

definition console_recv :: "'w handlers \<Rightarrow> u64 \<Rightarrow> bytes \<Rightarrow> dedup \<Rightarrow> 'w \<Rightarrow> action \<times> dedup \<times> 'w" where
  "console_recv exec now buffer s w =
     (if length buffer < 4 then (Ignored, s, w)
      else case dedup_extract_seq buffer of
        Some seq \<Rightarrow>
          (let req = take (length buffer - NET_SEQ_TRAILER_LEN) buffer in
           case dedup_try_replay seq now s of
             Some pkts \<Rightarrow> (Replayed pkts, s, w)
           | None \<Rightarrow> if dedup_is_stale seq s then (Dropped, s, w)
                     else serve exec req True (dedup_begin_capture seq now s) w)
      | None \<Rightarrow> serve exec buffer False s w)"

fun console_run :: "'w handlers \<Rightarrow> (u64 \<times> bytes) list \<Rightarrow> dedup \<Rightarrow> 'w \<Rightarrow> action list" where
  "console_run exec [] s w = []"
| "console_run exec ((now, buf) # rest) s w =
     (let (a, s, w) = console_recv exec now buf s w in
      a # (case a of Exited _ \<Rightarrow> [] | _ \<Rightarrow> console_run exec rest s w))"

section \<open>High-water logs\<close>

text \<open>
  What the loop relies on: a step that serves a keyed event only does so above the highest key served so far, and
  makes that key the new highest one. \<open>outcomes\<close> says which events of a sequence are served.
\<close>

fun outcomes :: "('e \<Rightarrow> 's \<Rightarrow> bool \<times> 's) \<Rightarrow> 'e list \<Rightarrow> 's \<Rightarrow> bool list" where
  "outcomes step [] s = []"
| "outcomes step (e # es) s = (let (b, s') = step e s in b # outcomes step es s')"

locale high_water =
  fixes step :: "'e \<Rightarrow> 's \<Rightarrow> bool \<times> 's"
    and key :: "'e \<Rightarrow> ('k :: linorder) option"
    and good :: "'k \<Rightarrow> bool"
    and high :: "'s \<Rightarrow> 'k option"
    and inv :: "'s \<Rightarrow> bool"
  assumes served: "inv s \<Longrightarrow> step e s = (True, s') \<Longrightarrow> key e = Some k \<Longrightarrow> good k
      \<Longrightarrow> inv s' \<and> high s' = Some k \<and> (\<forall>h. high s = Some h \<longrightarrow> h < k)"
    and other: "inv s \<Longrightarrow> step e s = (b, s') \<Longrightarrow> \<not> b \<or> key e = None \<Longrightarrow> inv s' \<and> high s' = high s"
begin

lemma step_monotone:
  assumes "inv s" and "step e s = (b, s')" and "\<forall>k. key e = Some k \<longrightarrow> good k" and "high s = Some h"
  shows "\<exists>h'. high s' = Some h' \<and> h \<le> h'"
proof (cases "b \<and> key e \<noteq> None")
  case True
  then show ?thesis using served [of s e s'] assms by force
next
  case False
  then show ?thesis using other [of s e b s'] assms by auto
qed

lemma step_inv:
  assumes "inv s" and "step e s = (b, s')" and "\<forall>k. key e = Some k \<longrightarrow> good k"
  shows "inv s'"
  using served [of s e s'] other [of s e b s'] assms by (cases b; cases "key e") auto

lemma served_above_high:
  assumes "inv s" and "high s = Some h" and "\<forall>e \<in> set es. \<forall>k. key e = Some k \<longrightarrow> good k"
    and "j < length es" and "outcomes step es s ! j" and "key (es ! j) = Some k"
  shows "h < k"
  using assms
proof (induction es arbitrary: s h j)
  case (Cons e es)
  obtain b s' where st: "step e s = (b, s')" by fastforce
  show ?case
  proof (cases j)
    case 0
    then show ?thesis using served [of s e s' k] Cons.prems st by simp
  next
    case (Suc i)
    obtain h' where h': "high s' = Some h'" "h \<le> h'" using step_monotone [OF Cons.prems(1) st _ Cons.prems(2)] Cons.prems(3) by auto
    have "h' < k"
    proof (rule Cons.IH)
      show "inv s'" using step_inv [OF Cons.prems(1) st] Cons.prems(3) by auto
    qed (use Suc h' Cons.prems st in auto)
    then show ?thesis using h' by simp
  qed
qed simp

lemma served_increasing:
  assumes "inv s" and "\<forall>e \<in> set es. \<forall>k. key e = Some k \<longrightarrow> good k"
    and "i < j" and "j < length es" and "outcomes step es s ! i" and "outcomes step es s ! j"
    and "key (es ! i) = Some k" and "key (es ! j) = Some k'"
  shows "k < k'"
  using assms
proof (induction es arbitrary: s i j)
  case (Cons e es)
  obtain b s' where st: "step e s = (b, s')" by fastforce
  obtain j' where j: "j = Suc j'" using Cons.prems(3) by (cases j) auto
  have i': "inv s'" using step_inv [OF Cons.prems(1) st] Cons.prems(2) by auto
  show ?case
  proof (cases i)
    case 0
    then have "high s' = Some k" using served [of s e s' k] Cons.prems st by auto
    then show ?thesis using served_above_high [OF i', of k es j' k'] Cons.prems st j by auto
  next
    case (Suc i')
    then show ?thesis using Cons.IH [OF \<open>inv s'\<close>, of i' j'] Cons.prems st j by auto
  qed
qed simp

end

section \<open>The console loop is a high-water log\<close>

definition dedup_high :: "dedup \<Rightarrow> u32 option" where
  "dedup_high s = (if dd_valid s then Some (dd_seq s) else None)"

definition is_served :: "action \<Rightarrow> bool" where
  "is_served a = (case a of Served _ _ \<Rightarrow> True | _ \<Rightarrow> False)"

definition console_step :: "'w handlers \<Rightarrow> u64 \<times> bytes \<Rightarrow> dedup \<times> 'w \<Rightarrow> bool \<times> dedup \<times> 'w" where
  "console_step exec e sw = (let (a, s, w) = console_recv exec (fst e) (snd e) (fst sw) (snd sw) in (is_served a, s, w))"

lemma sint_diff_small:
  fixes q h :: u32
  assumes "q < 2147483648" and "h < 2147483648"
  shows "sint (q - h) = uint q - uint h"
proof -
  have b: "uint q < 2147483648" "uint h < 2147483648" using assms by (simp_all add: word_less_def)
  have d: "- 2147483648 \<le> uint q - uint h" "uint q - uint h < 2147483648"
    using b uint_nonnegative [of q] uint_nonnegative [of h] by linarith+
  have "q - h = of_int (uint q - uint h)" by simp
  moreover have "sint (of_int (uint q - uint h) :: u32) = signed_take_bit 31 (uint q - uint h)"
    by (simp only: sint_sbintrunc') simp
  moreover have "signed_take_bit 31 (uint q - uint h) = uint q - uint h"
    by (rule signed_take_bit_int_eq_self) (use d in simp_all)
  ultimately show ?thesis by simp
qed

lemma dedup_capture_pkt_keeps [simp]:
  "dd_seq (dedup_capture_pkt b s) = dd_seq s" "dd_valid (dedup_capture_pkt b s) = dd_valid s"
  "capture_seq (dedup_capture_pkt b s) = capture_seq s" "capturing (dedup_capture_pkt b s) = capturing s"
  "packet_count (dedup_capture_pkt b s) = packet_count s" "captured_at_us (dedup_capture_pkt b s) = captured_at_us s"
  "length (packets (dedup_capture_pkt b s)) = length (packets s)"
  by (simp_all add: dedup_capture_pkt_def)

lemma send_all_keeps:
  "send_all outs s = (bs, s') \<Longrightarrow> dd_seq s' = dd_seq s \<and> dd_valid s' = dd_valid s \<and> capture_seq s' = capture_seq s
     \<and> capturing s' = capturing s \<and> captured_at_us s' = captured_at_us s \<and> length (packets s') = length (packets s)"
proof (induction outs arbitrary: s bs s')
  case (Cons out outs)
  obtain b t where o1: "net_send_cmd out s = (b, t)" by fastforce
  obtain cs t' where o2: "send_all outs t = (cs, t')" by fastforce
  have "dd_seq t = dd_seq s \<and> dd_valid t = dd_valid s \<and> capture_seq t = capture_seq s
     \<and> capturing t = capturing s \<and> captured_at_us t = captured_at_us s \<and> length (packets t) = length (packets s)"
    using o1 by (auto simp: net_send_cmd_def Let_def split: if_splits)
  then show ?case using Cons.IH [OF o2] Cons.prems o1 o2 by auto
qed simp

text \<open>What one turn of the loop does to the highest sequence number.\<close>

lemma serve_high:
  assumes "serve exec req active s w = (a, s', w')"
  shows "dedup_high s' = (if is_served a \<and> active \<and> capturing s then Some (capture_seq s) else dedup_high s)"
proof (cases "is_exit req")
  case True
  then show ?thesis using assms by (auto simp: serve_def is_served_def)
next
  case False
  obtain w1 outs where e: "exec req w = (w1, outs)" by fastforce
  obtain bs t where sa: "send_all outs s = (bs, t)" by fastforce
  show ?thesis using assms False e sa send_all_keeps [OF sa]
    by (cases active) (auto simp: serve_def is_served_def dedup_high_def dedup_end_capture_def)
qed

lemma console_recv_high:
  assumes "console_recv exec now buf s w = (a, s', w')"
  shows "is_served a \<Longrightarrow> dedup_extract_seq buf = Some q \<Longrightarrow>
           dedup_high s' = Some q \<and> (\<forall>h. dedup_high s = Some h \<longrightarrow> \<not> sint (q - h) \<le> 0)"
    and "\<not> is_served a \<or> dedup_extract_seq buf = None \<Longrightarrow> dedup_high s' = dedup_high s"
proof -
  assume "is_served a" and "dedup_extract_seq buf = Some q"
  then show "dedup_high s' = Some q \<and> (\<forall>h. dedup_high s = Some h \<longrightarrow> \<not> sint (q - h) \<le> 0)"
    using assms serve_high [of exec "take (length buf - NET_SEQ_TRAILER_LEN) buf" True "dedup_begin_capture q now s" w a s' w']
    by (auto simp: console_recv_def is_served_def dedup_begin_capture_def dedup_is_stale_def dedup_high_def
        split: if_splits option.splits)
next
  assume n: "\<not> is_served a \<or> dedup_extract_seq buf = None"
  show "dedup_high s' = dedup_high s"
  proof (cases "dedup_extract_seq buf")
    case None
    then show ?thesis using assms serve_high [of exec buf False s w a s' w'] by (auto simp: console_recv_def split: if_splits)
  next
    case (Some q)
    then show ?thesis using assms n serve_high [of exec "take (length buf - NET_SEQ_TRAILER_LEN) buf" True "dedup_begin_capture q now s" w a s' w']
      by (auto simp: console_recv_def dedup_begin_capture_def dedup_high_def split: if_splits option.splits)
  qed
qed

interpretation con: high_water "console_step exec" "\<lambda>e. dedup_extract_seq (snd e)" "\<lambda>q. q < 2147483648"
  "\<lambda>sw. dedup_high (fst sw)" "\<lambda>sw. \<forall>h. dedup_high (fst sw) = Some h \<longrightarrow> h < 2147483648" for exec :: "'w handlers"
proof
  fix sw sw' :: "dedup \<times> 'w" and e q b
  assume i: "\<forall>h. dedup_high (fst sw) = Some h \<longrightarrow> h < 2147483648"
  obtain a s' w' where r: "console_recv exec (fst e) (snd e) (fst sw) (snd sw) = (a, s', w')" by (metis prod_cases3)
  {
    assume "console_step exec e sw = (True, sw')" and k: "dedup_extract_seq (snd e) = Some q" and g: "q < 2147483648"
    then have sv: "is_served a" and s': "sw' = (s', w')" using r by (auto simp: console_step_def)
    note h = console_recv_high(1) [OF r sv k]
    show "(\<forall>h. dedup_high (fst sw') = Some h \<longrightarrow> h < 2147483648) \<and> dedup_high (fst sw') = Some q
        \<and> (\<forall>h. dedup_high (fst sw) = Some h \<longrightarrow> h < q)"
      using h i g s' sint_diff_small [OF g] by (auto simp: word_less_def)
  next
    assume "console_step exec e sw = (b, sw')" and n: "\<not> b \<or> dedup_extract_seq (snd e) = None"
    then have "\<not> is_served a \<or> dedup_extract_seq (snd e) = None" and s': "sw' = (s', w')" using r by (auto simp: console_step_def)
    from console_recv_high(2) [OF r this(1)] s'
    show "(\<forall>h. dedup_high (fst sw') = Some h \<longrightarrow> h < 2147483648) \<and> dedup_high (fst sw') = dedup_high (fst sw)"
      using i by simp
  }
qed

lemma console_run_outcomes:
  "i < length (console_run exec evs s w) \<Longrightarrow>
     i < length evs \<and> is_served (console_run exec evs s w ! i) = outcomes (console_step exec) evs (s, w) ! i"
proof (induction evs arbitrary: s w i)
  case (Cons e evs)
  obtain now buf where e: "e = (now, buf)" by fastforce
  obtain a s' w' where r: "console_recv exec now buf s w = (a, s', w')" by (metis prod_cases3)
  show ?case
  proof (cases i)
    case 0
    then show ?thesis using r e by (simp add: console_step_def)
  next
    case (Suc j)
    with Cons.prems r e have j: "j < length (console_run exec evs s' w')" by (auto split: action.splits)
    have "console_run exec (e # evs) s w ! i = console_run exec evs s' w' ! j"
      using Suc Cons.prems r e by (auto split: action.splits)
    then show ?thesis using Cons.IH [OF j] Suc r e by (simp add: console_step_def)
  qed
qed simp

section \<open>What a capture holds\<close>

definition sendable :: "outgoing \<Rightarrow> bool" where
  "sendable out = (length (o_cmd out) = 4 \<and> o_ok out)"

lemma net_send_cmd_length:
  assumes "length (o_cmd out) = 4"
  shows "12 \<le> length (fst (net_send_cmd out s)) \<and> length (fst (net_send_cmd out s)) \<le> DEDUP_MAX_PKT_BYTES"
  using assms
  by (auto simp: net_send_cmd_def Let_def DEDUP_MAX_PKT_BYTES_def NET_SEQ_TRAILER_LEN_def NET_SEQ_MAGIC_def ascii_def)

lemma net_send_cmd_captured:
  assumes "sendable out" and "capturing s" and "capture_count s < DEDUP_MAX_PACKETS"
  shows "net_send_cmd out s = (fst (net_send_cmd out s),
    s\<lparr>packets := (packets s)[capture_count s := fst (net_send_cmd out s)], capture_count := capture_count s + 1\<rparr>)"
proof -
  obtain b t where r: "net_send_cmd out s = (b, t)" by fastforce
  have l: "12 \<le> length b" "length b \<le> DEDUP_MAX_PKT_BYTES" using net_send_cmd_length [of out s] assms r by (simp_all add: sendable_def)
  have "t = dedup_capture_pkt b s" using r assms by (auto simp: net_send_cmd_def Let_def sendable_def)
  then show ?thesis using r l assms(2,3) by (auto simp: dedup_capture_pkt_def)
qed

lemma send_all_captured:
  "\<forall>out \<in> set outs. sendable out \<Longrightarrow> capturing s \<Longrightarrow> capture_count s + length outs \<le> DEDUP_MAX_PACKETS
   \<Longrightarrow> length (packets s) = DEDUP_MAX_PACKETS \<Longrightarrow> send_all outs s = (bs, s')
   \<Longrightarrow> length bs = length outs \<and> capture_count s' = capture_count s + length outs
       \<and> take (capture_count s') (packets s') = take (capture_count s) (packets s) @ bs"
proof (induction outs arbitrary: s bs s')
  case (Cons out outs)
  define b where "b = fst (net_send_cmd out s)"
  define t where "t = s\<lparr>packets := (packets s)[capture_count s := b], capture_count := capture_count s + 1\<rparr>"
  have o1: "net_send_cmd out s = (b, t)"
    using net_send_cmd_captured [of out s] Cons.prems by (simp add: b_def t_def)
  obtain cs t' where o2: "send_all outs t = (cs, t')" by fastforce
  have "length cs = length outs \<and> capture_count t' = capture_count t + length outs
       \<and> take (capture_count t') (packets t') = take (capture_count t) (packets t) @ cs"
    by (rule Cons.IH [OF _ _ _ _ o2]) (use Cons.prems in \<open>auto simp: t_def\<close>)
  moreover have "take (capture_count t) (packets t) = take (capture_count s) (packets s) @ [b]"
    using Cons.prems by (simp add: t_def take_Suc_conv_app_nth)
  ultimately show ?case using Cons.prems o1 o2 by (auto simp: t_def)
qed simp

lemma served_request_cached:
  assumes "console_recv exec now buf s w = (Served req bs, s', w')" and "dedup_extract_seq buf = Some q"
    and "length (packets s) = DEDUP_MAX_PACKETS"
    and "\<forall>out \<in> set (snd (exec req w)). sendable out" and "length (snd (exec req w)) \<le> DEDUP_MAX_PACKETS"
  shows "dd_valid s' \<and> dd_seq s' = q \<and> captured_at_us s' = now \<and> take (packet_count s') (packets s') = bs
    \<and> length (packets s') = DEDUP_MAX_PACKETS \<and> \<not> capturing s'"
proof -
  let ?t = "dedup_begin_capture q now s"
  have sv: "serve exec req True ?t w = (Served req bs, s', w')"
    using assms(1,2) by (auto simp: console_recv_def serve_def Let_def split: if_splits option.splits prod.splits)
  obtain w1 outs where e: "exec req w = (w1, outs)" by fastforce
  obtain cs t' where sa: "send_all outs ?t = (cs, t')" by fastforce
  have r: "cs = bs" "s' = dedup_end_capture t'" using sv e sa by (auto simp: serve_def split: if_splits)
  have "take (capture_count t') (packets t') = bs"
    using send_all_captured [of outs ?t cs t'] assms(3-5) e sa r by (auto simp: dedup_begin_capture_def)
  then show ?thesis using r send_all_keeps [OF sa] assms(3)
    by (auto simp: dedup_end_capture_def dedup_begin_capture_def)
qed

text \<open>A handler used by the witnesses: it counts its calls and answers with the count.\<close>

definition counting_handler :: "nat handlers" where
  "counting_handler req n = (n + 1, [\<lparr>o_cmd = ascii ''RETV'', o_addr = of_nat n, o_size = 0, o_data = [], o_ok = True\<rparr>])"

definition trailered :: "bytes \<Rightarrow> u32 \<Rightarrow> bytes" where
  "trailered req q = req @ NET_SEQ_MAGIC @ be32 q"

lemmas dedup_eval = console_recv_def serve_def counting_handler_def trailered_def dedup_extract_seq_def dedup_try_replay_def
  dedup_is_stale_def dedup_begin_capture_def dedup_capture_pkt_def dedup_end_capture_def dedup_current_seq_def dedup_is_capturing_def
  dedup_init_def net_send_cmd_def is_exit_def DEDUP_WINDOW_USEC_def DEDUP_MAX_PACKETS_def DEDUP_MAX_PKT_BYTES_def
  NET_SEQ_TRAILER_LEN_def NET_SEQ_MAGIC_def ascii_def

section \<open>Properties\<close>

text \<open>
  C8. The host runs a request at most once. In any run of the console loop, whatever the handlers
  and whatever datagrams arrive, lost, repeated or reordered, two datagrams that are both served and carry sequence
  numbers below \<open>2\<^sup>3\<^sup>1\<close> carry them in strictly increasing order: no retransmission of a served request,
  and no late copy of an older one, is dispatched again.
\<close>

theorem served_at_most_once:
  fixes exec :: "'w handlers"
  assumes "\<forall>e \<in> set evs. \<forall>q. dedup_extract_seq (snd e) = Some q \<longrightarrow> q < 2147483648"
    and "i < j" and "j < length (console_run exec evs dedup_init w)"
    and "is_served (console_run exec evs dedup_init w ! i)" and "is_served (console_run exec evs dedup_init w ! j)"
    and "dedup_extract_seq (snd (evs ! i)) = Some q" and "dedup_extract_seq (snd (evs ! j)) = Some q'"
  shows "q < q'"
proof (rule con.served_increasing [where exec = exec and s = "(dedup_init, w)"])
  show "\<forall>h. dedup_high (fst (dedup_init, w)) = Some h \<longrightarrow> h < 2147483648" by (simp add: dedup_high_def dedup_init_def)
  show "outcomes (console_step exec) evs (dedup_init, w) ! i" using console_run_outcomes [of i exec evs dedup_init w] assms by simp
  show "outcomes (console_step exec) evs (dedup_init, w) ! j" "j < length evs"
    using console_run_outcomes [of j exec evs dedup_init w] assms by simp_all
qed (use assms in auto)

theorem served_at_most_once_witness:
  "console_run counting_handler [(0, trailered (ascii ''DC03'') 1), (600, trailered (ascii ''DC03'') 1), (900, trailered (ascii ''DC04'') 2)] dedup_init 0
     = [Served (ascii ''DC03'') [ascii ''RETV'' @ be32 0 @ be32 0 @ NET_SEQ_MAGIC @ be32 1],
        Replayed [ascii ''RETV'' @ be32 0 @ be32 0 @ NET_SEQ_MAGIC @ be32 1],
        Served (ascii ''DC04'') [ascii ''RETV'' @ be32 1 @ be32 0 @ NET_SEQ_MAGIC @ be32 2]] \<and> (1 :: u32) < 2"
proof -
  let ?evs = "[(0, trailered (ascii ''DC03'') 1), (600, trailered (ascii ''DC03'') 1), (900, trailered (ascii ''DC04'') 2)]"
  have r: "console_run counting_handler ?evs dedup_init 0
     = [Served (ascii ''DC03'') [ascii ''RETV'' @ be32 0 @ be32 0 @ NET_SEQ_MAGIC @ be32 1],
        Replayed [ascii ''RETV'' @ be32 0 @ be32 0 @ NET_SEQ_MAGIC @ be32 1],
        Served (ascii ''DC04'') [ascii ''RETV'' @ be32 1 @ be32 0 @ NET_SEQ_MAGIC @ be32 2]]"
    by code_simp
  have k: "map (\<lambda>e. dedup_extract_seq (snd e)) ?evs = [Some 1, Some 1, Some 2]" by code_simp
  have "(1 :: u32) < 2"
    by (rule served_at_most_once [where evs = ?evs and i = 0 and j = 2 and w = 0 and exec = counting_handler])
      (use k in \<open>unfold r, auto simp: is_served_def\<close>)
  then show ?thesis using r by simp
qed



text \<open>
  A dispatch that is not completed damages the cached reply. Opening a capture and recording
  its first packet leaves the previous request's sequence number in place, but a retransmission of that request is then
  answered with the new capture's packet in place of its own first one, and within a window restarted by the new
  capture; the comment in \<^verbatim>\<open>dedup_begin_capture\<close> says an aborted dispatch leaves the previous cache intact.
\<close>

theorem aborted_capture_corrupts_cache:
  assumes "dd_valid s" and "length (packets s) = DEDUP_MAX_PACKETS" and "0 < packet_count s"
    and "buf \<noteq> []" and "length buf \<le> DEDUP_MAX_PKT_BYTES" and "now' - now \<le> DEDUP_WINDOW_USEC"
  shows "dedup_try_replay (dd_seq s) now' (dedup_capture_pkt buf (dedup_begin_capture q now s))
           = Some (buf # drop 1 (take (packet_count s) (packets s)))"
proof -
  obtain n where n: "packet_count s = Suc n" using assms(3) by (cases "packet_count s") auto
  obtain p ps where p: "packets s = p # ps" using assms(2) by (cases "packets s") (auto simp: DEDUP_MAX_PACKETS_def)
  show ?thesis using assms n p
    by (simp add: dedup_try_replay_def dedup_capture_pkt_def dedup_begin_capture_def not_less DEDUP_MAX_PACKETS_def)
qed

theorem aborted_capture_corrupts_cache_witness:
  "dedup_try_replay 5 20 (dedup_capture_pkt [9] (dedup_begin_capture 6 10
      (dedup_init\<lparr>dd_valid := True, dd_seq := 5, packet_count := 1, packets := (packets dedup_init)[0 := [7]]\<rparr>))) = Some [[9]]"
proof -
  let ?s = "dedup_init\<lparr>dd_valid := True, dd_seq := 5, packet_count := 1, packets := (packets dedup_init)[0 := [7]]\<rparr>"
  have l: "length (packets ?s) = DEDUP_MAX_PACKETS" by (simp add: dedup_init_def)
  have t: "drop 1 (take (packet_count ?s) (packets ?s)) = []" by simp
  show ?thesis using aborted_capture_corrupts_cache [of ?s "[9]" 20 10 6] l t
    by (simp add: DEDUP_MAX_PKT_BYTES_def DEDUP_WINDOW_USEC_def)
qed

end
