(* ===== verification/Host_Net.thy ===== *)
theory Host_Net
  imports Dedup
begin

text \<open>
  \<^verbatim>\<open>host/src/transport/network.c\<close>: the host side of the UDP protocol. \<open>kostool_context_t\<close> is the record
  \<open>host\<close>, reduced to the fields this file reads and writes. The sockets and the clock are the record
  \<open>sock_ops\<close> of functions on a world \<open>'w\<close>, so that every loop over the clock is a partial function: \<open>None\<close> is a loop that never
  ends, or a read outside a buffer. Receive buffers keep what an earlier datagram left behind a shorter one. The
  statistics kept for \<open>diagnostics_enabled\<close> and the messages printed are left out.
\<close>

section \<open>Sockets, clock and context\<close>

record 'w sock_ops =
  sock_send :: "int \<Rightarrow> bytes \<Rightarrow> 'w \<Rightarrow> bool \<times> 'w"
  sock_recv :: "int \<Rightarrow> 'w \<Rightarrow> bytes option \<times> 'w"
  sock_close :: "int \<Rightarrow> 'w \<Rightarrow> 'w"
  time_usec :: "'w \<Rightarrow> u64 \<times> 'w"
  stack_bytes :: bytes

record 'w host =
  global_socket :: int
  socket_fd :: int
  socket_legacy :: int
  h_adapter :: u32
  legacy_mode :: bool
  force_legacy :: bool
  fast_mode :: bool
  rx_fifo_delay :: u32
  rx_fifo_delay_count :: u32
  remote_version_string :: bytes
  remote_capabilities :: u32
  kostool_capabilities :: u32
  prog_argc :: u32
  prog_argv_data :: bytes
  h_dedup :: dedup
  world :: 'w

definition NET_PACKET_TIMEOUT_USEC :: u64 where "NET_PACKET_TIMEOUT_USEC = 250000"
definition NET_HANDSHAKE_TIMEOUT_USEC :: u64 where "NET_HANDSHAKE_TIMEOUT_USEC = 10000000"
definition MAX_CMD_RETRIES :: nat where "MAX_CMD_RETRIES = 20"
definition MAX_RECV_REREQUESTS :: nat where "MAX_RECV_REREQUESTS = 10"
definition WII_RECV_FAST_REREQUESTS :: nat where "WII_RECV_FAST_REREQUESTS = 10"
definition WII_RECV_SLOW_REREQUESTS :: nat where "WII_RECV_SLOW_REREQUESTS = 1"
definition WII_RECV_REREQUEST_TIMEOUT_USEC :: u64 where "WII_RECV_REREQUEST_TIMEOUT_USEC = 50000"
definition PACING_MAX_DELAY_USEC :: u32 where "PACING_MAX_DELAY_USEC = 50000"
definition AUTO_FAST_CHUNK_THRESHOLD :: u32 where "AUTO_FAST_CHUNK_THRESHOLD = 50"
definition W5500_UPLOAD_WINDOW_SIZE :: u32 where "W5500_UPLOAD_WINDOW_SIZE = 32768"
definition KOSLOAD_VERSION_ENCODED :: u32 where "KOSLOAD_VERSION_ENCODED = 0x00030100"

definition adapter_is_w5500 :: "u32 \<Rightarrow> bool" where
  "adapter_is_w5500 a = (a = 0x5500 \<or> a = 0x5501)"

definition adapter_is_spi :: "u32 \<Rightarrow> bool" where
  "adapter_is_spi a = (adapter_is_w5500 a \<or> a = 0x2860)"

definition is_wii_loader :: "'w host \<Rightarrow> bool" where
  "is_wii_loader h = (h_adapter h = 0x0E58 \<or> h_adapter h = 0x0E59 \<or> take 12 (remote_version_string h) = ascii ''wii-load-ip '')"

fun strstr :: "bytes \<Rightarrow> bytes \<Rightarrow> bool" where
  "strstr [] pat = (pat = [])"
| "strstr (c # s) pat = (take (length pat) (c # s) = pat \<or> strstr s pat)"

definition is_wii_wifi :: "'w host \<Rightarrow> bool" where
  "is_wii_wifi h = (is_wii_loader h \<and> (h_adapter h = 0x0E59 \<or> \<not> strstr (remote_version_string h) (ascii ''LAN Adapter'')))"

definition is_ps2_loader :: "'w host \<Rightarrow> bool" where
  "is_ps2_loader h = (h_adapter h = 0x0500 \<or> take 12 (remote_version_string h) = ascii ''ps2-load-ip '')"

definition is_xbox_loader :: "'w host \<Rightarrow> bool" where
  "is_xbox_loader h = (h_adapter h = 0x01C3 \<or> take 13 (remote_version_string h) = ascii ''xbox-load-ip '')"

definition recv_data_timeout_usec :: "'w host \<Rightarrow> u64" where
  "recv_data_timeout_usec h = (if is_wii_loader h then WII_RECV_REREQUEST_TIMEOUT_USEC else NET_PACKET_TIMEOUT_USEC)"

definition recv_data_rerequest_timeout_usec :: "'w host \<Rightarrow> nat \<Rightarrow> u64" where
  "recv_data_rerequest_timeout_usec h pass =
     (if is_wii_loader h \<and> pass < WII_RECV_FAST_REREQUESTS then WII_RECV_REREQUEST_TIMEOUT_USEC else NET_PACKET_TIMEOUT_USEC)"

definition recv_data_max_rerequests :: "'w host \<Rightarrow> nat" where
  "recv_data_max_rerequests h =
     (if is_wii_loader h then WII_RECV_FAST_REREQUESTS + WII_RECV_SLOW_REREQUESTS else MAX_RECV_REREQUESTS)"

section \<open>Datagrams\<close>

definition now :: "'w sock_ops \<Rightarrow> 'w host \<Rightarrow> u64 \<times> 'w host" where
  "now ops h = (let (t, w) = time_usec ops (world h) in (t, h\<lparr>world := w\<rparr>))"

definition recv_pkt :: "'w sock_ops \<Rightarrow> 'w host \<Rightarrow> bytes option \<times> 'w host" where
  "recv_pkt ops h = (let (r, w) = sock_recv ops (global_socket h) (world h) in (map_option (take 2048) r, h\<lparr>world := w\<rparr>))"

definition fill :: "bytes \<Rightarrow> bytes \<Rightarrow> bytes" where
  "fill bs buffer = bs @ drop (length bs) buffer"

definition command_ack_matches :: "bytes \<Rightarrow> nat \<Rightarrow> bytes \<Rightarrow> u32 \<Rightarrow> u32 \<Rightarrow> bool" where
  "command_ack_matches buffer rv expected addr sz =
     (if rv < 12 \<or> take 4 buffer \<noteq> expected then False
      else if expected = ascii ''LBIN'' \<or> expected = ascii ''EXEC'' \<or> expected = ascii ''SRTC''
      then rd32 buffer 4 = addr \<and> rd32 buffer 8 = sz
      else True)"

definition send_cmd :: "'w sock_ops \<Rightarrow> bytes \<Rightarrow> u32 \<Rightarrow> u32 \<Rightarrow> bytes \<Rightarrow> 'w host \<Rightarrow> bool \<times> 'w host" where
  "send_cmd ops cmd addr sz dat h =
     (let buf = cmd @ be32 addr @ be32 sz @ take (2048 - 12 - 3) dat;
          wire = (if is_wii_loader h then buf @ replicate ((length buf + 3) div 4 * 4 - length buf) 0 else buf);
          (ok, w) = sock_send ops (global_socket h) wire (world h);
          h = h\<lparr>world := w\<rparr>
      in if \<not> ok then (False, h)
         else (True, if cmd \<noteq> ascii ''SBIQ'' \<and> cmd \<noteq> ascii ''SBIN''
                     then h\<lparr>h_dedup := dedup_capture_pkt wire (h_dedup h)\<rparr> else h))"

partial_function (option) recv_resp_loop ::
  "'w sock_ops \<Rightarrow> u64 \<Rightarrow> u64 \<Rightarrow> bytes \<Rightarrow> 'w host \<Rightarrow> (nat option \<times> bytes \<times> 'w host) option" where
  "recv_resp_loop ops start timeout buffer h =
     (case now ops h of (t, h) \<Rightarrow>
        if t - start < timeout then
          (case recv_pkt ops h of (r, h) \<Rightarrow>
             (case r of None \<Rightarrow> recv_resp_loop ops start timeout buffer h
              | Some bs \<Rightarrow> if bs = [] then recv_resp_loop ops start timeout buffer h
                           else Some (Some (length bs), fill bs buffer, h)))
        else Some (None, buffer, h))"

definition recv_resp :: "'w sock_ops \<Rightarrow> u64 \<Rightarrow> bytes \<Rightarrow> 'w host \<Rightarrow> (nat option \<times> bytes \<times> 'w host) option" where
  "recv_resp ops timeout buffer h = (let (start, h) = now ops h in recv_resp_loop ops start timeout buffer h)"

partial_function (option) drain_loop :: "'w sock_ops \<Rightarrow> u64 \<Rightarrow> u64 \<Rightarrow> 'w host \<Rightarrow> 'w host option" where
  "drain_loop ops start usec h =
     (case now ops h of (t, h) \<Rightarrow>
        if t - start < usec then (case recv_pkt ops h of (_, h) \<Rightarrow> drain_loop ops start usec h) else Some h)"

definition drain_rx_buffer :: "'w sock_ops \<Rightarrow> u64 \<Rightarrow> 'w host \<Rightarrow> 'w host option" where
  "drain_rx_buffer ops usec h = (let (start, h) = now ops h in drain_loop ops start usec h)"

partial_function (option) wait_loop :: "'w sock_ops \<Rightarrow> u64 \<Rightarrow> u64 \<Rightarrow> 'w host \<Rightarrow> 'w host option" where
  "wait_loop ops start usec h =
     (case now ops h of (t, h) \<Rightarrow> if t - start < usec then wait_loop ops start usec h else Some h)"

definition busy_wait :: "'w sock_ops \<Rightarrow> u64 \<Rightarrow> 'w host \<Rightarrow> 'w host option" where
  "busy_wait ops usec h = (let (start, h) = now ops h in wait_loop ops start usec h)"

text \<open>The receive window of one attempt of \<open>send_and_wait\<close>, and its attempts.\<close>

partial_function (option) await_ack ::
  "'w sock_ops \<Rightarrow> bytes \<Rightarrow> u32 \<Rightarrow> u32 \<Rightarrow> u64 \<Rightarrow> bytes \<Rightarrow> 'w host \<Rightarrow> (bool \<times> bytes \<times> 'w host) option" where
  "await_ack ops expected addr sz start buffer h =
     (case now ops h of (t, h) \<Rightarrow>
        if t - start < NET_PACKET_TIMEOUT_USEC then
          (case recv_pkt ops h of (r, h) \<Rightarrow>
             (case r of None \<Rightarrow> await_ack ops expected addr sz start buffer h
              | Some bs \<Rightarrow>
                  if bs = [] then await_ack ops expected addr sz start buffer h
                  else if command_ack_matches (fill bs buffer) (length bs) expected addr sz
                  then Some (True, fill bs buffer, h)
                  else await_ack ops expected addr sz start (fill bs buffer) h))
        else Some (False, buffer, h))"

fun ack_attempts ::
  "'w sock_ops \<Rightarrow> bytes \<Rightarrow> u32 \<Rightarrow> u32 \<Rightarrow> bytes \<Rightarrow> bytes \<Rightarrow> nat \<Rightarrow> bytes \<Rightarrow> 'w host \<Rightarrow> (bool \<times> bytes \<times> 'w host) option" where
  "ack_attempts ops cmd addr sz dat expected 0 buffer h = Some (False, buffer, h)"
| "ack_attempts ops cmd addr sz dat expected (Suc n) buffer h =
     (let (_, h) = send_cmd ops cmd addr sz dat h;
          (start, h) = now ops h
      in do {
        (ok, buffer, h) \<leftarrow> await_ack ops expected addr sz start buffer h;
        if ok then Some (True, buffer, h) else ack_attempts ops cmd addr sz dat expected n buffer h
      })"

definition send_and_wait ::
  "'w sock_ops \<Rightarrow> bytes \<Rightarrow> u32 \<Rightarrow> u32 \<Rightarrow> bytes \<Rightarrow> bytes \<Rightarrow> bytes \<Rightarrow> 'w host \<Rightarrow> (bool \<times> bytes \<times> 'w host) option" where
  "send_and_wait ops cmd addr sz dat buffer expected h = ack_attempts ops cmd addr sz dat expected MAX_CMD_RETRIES buffer h"

section \<open>Version handshake\<close>

definition network_remote_supports_capabilities :: "'w host \<Rightarrow> bool" where
  "network_remote_supports_capabilities h =
     (let v = remote_version_string h in
      take 11 v = ascii ''dc-load-ip '' \<or> take 11 v = ascii ''gc-load-ip '' \<or> take 12 v = ascii ''ps2-load-ip ''
      \<or> take 12 v = ascii ''wii-load-ip '' \<or> take 13 v = ascii ''xbox-load-ip '')"

partial_function (option) caps_window ::
  "'w sock_ops \<Rightarrow> u64 \<Rightarrow> bytes \<Rightarrow> 'w host \<Rightarrow> (u32 option \<times> bytes \<times> 'w host) option" where
  "caps_window ops start buffer h =
     (case now ops h of (t, h) \<Rightarrow>
        if t - start < NET_PACKET_TIMEOUT_USEC then
          (case now ops h of (t, h) \<Rightarrow>
             let remaining = ucast (ucast (NET_PACKET_TIMEOUT_USEC - (t - start)) :: u32) :: u64 in
             if remaining = 0 then Some (None, buffer, h)
             else Option.bind (recv_resp ops remaining buffer h) (\<lambda>(rv, buffer, h).
                    if rv = None then Some (None, buffer, h)
                    else if take 4 buffer \<noteq> ascii ''CAPS'' then caps_window ops start buffer h
                    else Some (Some (rd32 buffer 4), buffer, h)))
        else Some (None, buffer, h))"

fun caps_attempts :: "'w sock_ops \<Rightarrow> nat \<Rightarrow> bytes \<Rightarrow> 'w host \<Rightarrow> (u32 option \<times> 'w host) option" where
  "caps_attempts ops 0 buffer h = Some (None, h)"
| "caps_attempts ops (Suc n) buffer h =
     (let (start, h) = now ops h;
          (_, h) = send_cmd ops (ascii ''CAPS'') (kostool_capabilities h) 0 [] h
      in do {
        (r, buffer, h) \<leftarrow> caps_window ops start buffer h;
        (case r of Some c \<Rightarrow> Some (Some c, h) | None \<Rightarrow> caps_attempts ops n buffer h)
      })"

definition query_capabilities :: "'w sock_ops \<Rightarrow> 'w host \<Rightarrow> 'w host option" where
  "query_capabilities ops h = do {
     (r, h) \<leftarrow> caps_attempts ops 2 (stack_bytes ops) h;
     Some (case r of Some c \<Rightarrow> h\<lparr>remote_capabilities := c\<rparr> | None \<Rightarrow> h) }"

definition make_encoded_version :: "bool \<Rightarrow> u32" where
  "make_encoded_version legacy = (if legacy then 0 else KOSLOAD_VERSION_ENCODED)"

partial_function (option) probe ::
  "'w sock_ops \<Rightarrow> u64 \<Rightarrow> bytes \<Rightarrow> 'w host \<Rightarrow> ((nat \<times> bytes) option \<times> 'w host) option" where
  "probe ops start buffer h =
     (case now ops h of (t, h) \<Rightarrow>
        if t - start < NET_HANDSHAKE_TIMEOUT_USEC then
          (case send_cmd ops (ascii ''VERS'') (make_encoded_version (force_legacy h)) 0 [] h of (_, h) \<Rightarrow>
             Option.bind (recv_resp ops NET_PACKET_TIMEOUT_USEC buffer h) (\<lambda>(rv, buffer, h).
               case rv of
                 None \<Rightarrow> probe ops start buffer h
               | Some n \<Rightarrow>
                   if take 4 buffer = ascii ''VERS'' then Some (Some (n, buffer), h)
                   else probe ops start buffer
                          (h\<lparr>global_socket := (if global_socket h = socket_fd h then socket_legacy h else socket_fd h)\<rparr>)))
        else Some (None, h))"

text \<open>The pacing profile of the adapter that answered.\<close>

definition select_pacing :: "'w host \<Rightarrow> 'w host" where
  "select_pacing h =
     (let paced = (\<lambda>d n. h\<lparr>rx_fifo_delay := d, rx_fifo_delay_count := n\<rparr>);
          paced_unless_fast = (\<lambda>d n. if fast_mode h then h\<lparr>rx_fifo_delay := 0\<rparr> else h\<lparr>rx_fifo_delay := d, rx_fifo_delay_count := n\<rparr>)
      in if adapter_is_w5500 (h_adapter h) then paced 7000 3
         else if adapter_is_spi (h_adapter h) then paced 4901 15
         else if h_adapter h = 0x0100 then paced_unless_fast 1800 10
         else if h_adapter h = 0x00C0 then paced_unless_fast 1250 1
         else if h_adapter h = 0x0015 then paced_unless_fast 1800 10
         else if is_wii_loader h then paced (if is_wii_wifi h then 8000 else 2000) 1
         else if is_xbox_loader h then paced 1000 1
         else if is_ps2_loader h then paced 1200 1
         else h\<lparr>h_adapter := 0x0100, legacy_mode := True, rx_fifo_delay := 4901, rx_fifo_delay_count := 15\<rparr>)"

definition prepare_comms :: "'w sock_ops \<Rightarrow> 'w host \<Rightarrow> (bool \<times> 'w host) option" where
  "prepare_comms ops h =
     (if h_adapter h \<noteq> 0 then Some (True, h)
      else let (start, h) = now ops h;
               h = h\<lparr>global_socket := (if force_legacy h then socket_legacy h else socket_fd h)\<rparr>
           in do {
             (r, h) \<leftarrow> probe ops start (stack_bytes ops) h;
             (case r of
                None \<Rightarrow> Some (False, h)
              | Some (recv_len, buffer) \<Rightarrow> do {
                  let h = (if global_socket h = socket_fd h
                           then h\<lparr>world := sock_close ops (socket_legacy h) (world h), socket_legacy := - 1\<rparr>
                           else h\<lparr>world := sock_close ops (socket_fd h) (world h), socket_fd := - 1\<rparr>);
                  let h = h\<lparr>h_adapter := rd32 buffer 4, remote_capabilities := 0\<rparr>;
                  let h = h\<lparr>remote_version_string :=
                             (if recv_len > 12 then take 127 (takeWhile (\<lambda>b. b \<noteq> 0) (take (recv_len - 12) (drop 12 buffer))) else [])\<rparr>;
                  h \<leftarrow> (if network_remote_supports_capabilities h then query_capabilities ops h else Some h);
                  let h = (if force_legacy h then h\<lparr>legacy_mode := True\<rparr> else h);
                  Some (True, select_pacing h)
                })
           })"

section \<open>Uploads\<close>

definition payload_size :: "'w host \<Rightarrow> u32" where
  "payload_size h = (if legacy_mode h then 1024 else 1440)"

partial_function (option) stream_parts ::
  "'w sock_ops \<Rightarrow> bytes \<Rightarrow> u32 \<Rightarrow> u32 \<Rightarrow> u32 \<Rightarrow> u32 \<Rightarrow> u32 \<Rightarrow> u32 \<Rightarrow> 'w host \<Rightarrow> 'w host option" where
  "stream_parts ops dat dest sz chunk_size fifo_delay offset pacing_count h =
     (if offset < sz then
        (let remaining = sz - offset; send_size = (if remaining \<ge> chunk_size then chunk_size else remaining) in
         case send_cmd ops (ascii ''PBIN'') (dest + offset) send_size (take (unat send_size) (drop (unat offset) dat)) h of (_, h) \<Rightarrow>
           if rx_fifo_delay_count h \<noteq> 0 \<and> pacing_count + 1 \<ge> rx_fifo_delay_count h
           then Option.bind (busy_wait ops (ucast fifo_delay) h)
                  (stream_parts ops dat dest sz chunk_size fifo_delay (offset + chunk_size) 0)
           else stream_parts ops dat dest sz chunk_size fifo_delay (offset + chunk_size) (pacing_count + 1) h)
      else Some h)"

text \<open>
  The recovery loop: \<open>True\<close> is the return value 0. It reads the miss range from the last \<open>DONEBIN\<close> reply in
  \<open>buffer\<close>; the datagram of the retransmission is cut from \<open>dat\<close>, and \<open>None\<close> when that would read outside it.
\<close>

partial_function (option) recover ::
  "'w sock_ops \<Rightarrow> bytes \<Rightarrow> u32 \<Rightarrow> u32 \<Rightarrow> u32 \<Rightarrow> nat \<Rightarrow> bytes \<Rightarrow> 'w host \<Rightarrow> (bool \<times> 'w host) option" where
  "recover ops dat dest sz fifo_delay loadbin_retries buffer h =
     (if rd32 buffer 8 = 0 then Some (True, h)
      else let miss_addr = rd32 buffer 4; miss_size = rd32 buffer 8; miss_off = miss_addr - dest in
        if miss_off + miss_size > sz then Some (True, h)
        else if unat miss_off + min (unat miss_size) 2033 > length dat then None
        else let fifo_delay = (if \<not> fast_mode h \<and> fifo_delay < PACING_MAX_DELAY_USEC
                               then min (fifo_delay * 2) PACING_MAX_DELAY_USEC else fifo_delay) in
          case send_cmd ops (ascii ''PBIN'') miss_addr miss_size (take (unat miss_size) (drop (unat miss_off) dat)) h of (_, h) \<Rightarrow>
            Option.bind (send_and_wait ops (ascii ''DBIN'') 0 0 [] buffer (ascii ''DBIN'') h) (\<lambda>(ok, buffer, h).
              if ok then recover ops dat dest sz fifo_delay loadbin_retries buffer h
              else if loadbin_retries + 1 > 3 then Some (False, h)
              else Option.bind (drain_rx_buffer ops (NET_PACKET_TIMEOUT_USEC * 2) h) (\<lambda>h.
                     Option.bind (send_and_wait ops (ascii ''LBIN'') dest sz [] buffer (ascii ''LBIN'') h) (\<lambda>(ok, buffer, h).
                       Some (ok, h)))))"

definition network_send_data_once :: "'w sock_ops \<Rightarrow> bytes \<Rightarrow> u32 \<Rightarrow> u32 \<Rightarrow> 'w host \<Rightarrow> (bool \<times> 'w host) option" where
  "network_send_data_once ops dat dest sz h =
     (if sz = 0 then Some (False, h)
      else do {
        (ok, buffer, h) \<leftarrow> send_and_wait ops (ascii ''LBIN'') dest sz [] (stack_bytes ops) (ascii ''LBIN'') h;
        if \<not> ok then Some (False, h)
        else do {
          let chunk_size = payload_size h;
          let num_chunks = (sz + chunk_size - 1) div chunk_size;
          let auto_fast = (\<not> adapter_is_spi (h_adapter h) \<and> \<not> is_wii_loader h \<and> \<not> is_ps2_loader h
                           \<and> num_chunks \<le> AUTO_FAST_CHUNK_THRESHOLD);
          let fifo_delay = (if auto_fast then 0 else rx_fifo_delay h);
          h \<leftarrow> stream_parts ops dat dest sz chunk_size fifo_delay 0 0 h;
          h \<leftarrow> (if \<not> fast_mode h \<and> \<not> auto_fast then busy_wait ops (NET_PACKET_TIMEOUT_USEC div 10) h else Some h);
          (ok, buffer, h) \<leftarrow> send_and_wait ops (ascii ''DBIN'') 0 0 [] buffer (ascii ''DBIN'') h;
          if ok then recover ops dat dest sz fifo_delay 0 buffer h
          else do {
            h \<leftarrow> drain_rx_buffer ops (NET_PACKET_TIMEOUT_USEC * 2) h;
            (ok, buffer, h) \<leftarrow> send_and_wait ops (ascii ''LBIN'') dest sz [] buffer (ascii ''LBIN'') h;
            if \<not> ok then Some (False, h)
            else do {
              h \<leftarrow> stream_parts ops dat dest sz chunk_size fifo_delay 0 0 h;
              h \<leftarrow> (if \<not> fast_mode h then busy_wait ops (NET_PACKET_TIMEOUT_USEC div 10) h else Some h);
              (ok, buffer, h) \<leftarrow> send_and_wait ops (ascii ''DBIN'') 0 0 [] buffer (ascii ''DBIN'') h;
              if \<not> ok then Some (False, h) else recover ops dat dest sz fifo_delay 0 buffer h
            }
          }
        }
      })"

partial_function (option) upload_windows ::
  "'w sock_ops \<Rightarrow> bytes \<Rightarrow> u32 \<Rightarrow> u32 \<Rightarrow> u32 \<Rightarrow> 'w host \<Rightarrow> (bool \<times> 'w host) option" where
  "upload_windows ops dat dest sz offset h =
     (if offset < sz then
        (let chunk = (if sz - offset > W5500_UPLOAD_WINDOW_SIZE then W5500_UPLOAD_WINDOW_SIZE else sz - offset) in
         Option.bind (network_send_data_once ops (take (unat chunk) (drop (unat offset) dat)) (dest + offset) chunk h) (\<lambda>(ok, h).
           if \<not> ok then Some (False, h) else upload_windows ops dat dest sz (offset + chunk) h))
      else Some (True, h))"

definition network_send_data :: "'w sock_ops \<Rightarrow> bytes \<Rightarrow> u32 \<Rightarrow> u32 \<Rightarrow> 'w host \<Rightarrow> (bool \<times> 'w host) option" where
  "network_send_data ops dat dest sz h =
     (if sz = 0 then Some (False, h)
      else do {
        (ok, h) \<leftarrow> prepare_comms ops h;
        if \<not> ok then Some (False, h)
        else if \<not> adapter_is_w5500 (h_adapter h) \<or> sz \<le> W5500_UPLOAD_WINDOW_SIZE then network_send_data_once ops dat dest sz h
        else do {
          let saved_fifo_delay = rx_fifo_delay h;
          (ok, h) \<leftarrow> upload_windows ops dat dest sz 0 (h\<lparr>rx_fifo_delay := 9000\<rparr>);
          Some (ok, h\<lparr>rx_fifo_delay := saved_fifo_delay\<rparr>)
        }
      })"

section \<open>Downloads\<close>

partial_function (option) poll_recv :: "'w sock_ops \<Rightarrow> u64 \<Rightarrow> u64 \<Rightarrow> 'w host \<Rightarrow> (bytes option \<times> 'w host) option" where
  "poll_recv ops start timeout h =
     (case recv_pkt ops h of (r, h) \<Rightarrow>
        (case r of Some bs \<Rightarrow> Some (Some bs, h)
         | None \<Rightarrow> (case now ops h of (t, h) \<Rightarrow> if t - start < timeout then poll_recv ops start timeout h else Some (None, h))))"

text \<open>A \<open>SENDBIN\<close> datagram: \<open>None\<close> when it is outside the transfer, else the map and the data with the chunk stored.\<close>

definition store_chunk :: "u32 \<Rightarrow> u32 \<Rightarrow> u32 \<Rightarrow> u32 \<Rightarrow> bytes \<Rightarrow> bool list \<times> bytes \<Rightarrow> (bool list \<times> bytes) option" where
  "store_chunk src sz chunk_size num_chunks buffer md =
     (let pkt_addr = rd32 buffer 4; pkt_size = rd32 buffer 8; idx = (pkt_addr - src) div chunk_size;
          off = unat (pkt_addr - src); n = unat pkt_size; (mp, dat) = md
      in if pkt_addr < src \<or> pkt_addr \<ge> src + sz \<or> pkt_size > chunk_size \<or> pkt_size > src + sz - pkt_addr \<or> idx \<ge> num_chunks
         then None
         else Some (mp[unat idx := True], take off dat @ take n (drop 12 buffer) @ drop (off + n) dat))"

text \<open>What a datagram of the stream does: whether it counts as a packet, and the map and data after it.\<close>

definition stream_pkt :: "u32 \<Rightarrow> u32 \<Rightarrow> u32 \<Rightarrow> u32 \<Rightarrow> bytes \<Rightarrow> bool list \<times> bytes \<Rightarrow> int \<times> bool list \<times> bytes" where
  "stream_pkt src sz chunk_size num_chunks buffer md =
     (if take 4 buffer = ascii ''SBIN''
      then (case store_chunk src sz chunk_size num_chunks buffer md of None \<Rightarrow> (0, md) | Some md \<Rightarrow> (1, md))
      else if take 4 buffer \<noteq> ascii ''DBIN'' then (0, md) else (1, md))"

partial_function (option) recv_stream ::
  "'w sock_ops \<Rightarrow> u32 \<Rightarrow> u32 \<Rightarrow> u32 \<Rightarrow> u32 \<Rightarrow> u64 \<Rightarrow> int \<Rightarrow> u64 \<Rightarrow> bool list \<times> bytes \<Rightarrow> bytes \<Rightarrow> 'w host
     \<Rightarrow> ((bool list \<times> bytes) \<times> bytes \<times> 'w host) option" where
  "recv_stream ops src sz chunk_size num_chunks timeout npackets start md buffer h =
     (case now ops h of (t, h) \<Rightarrow>
        if t - start < timeout \<and> npackets < sint (num_chunks + 1) then
          Option.bind (poll_recv ops start timeout h) (\<lambda>(r, h).
            case r of
              None \<Rightarrow> recv_stream ops src sz chunk_size num_chunks timeout npackets start md (replicate 2048 0) h
            | Some bs \<Rightarrow>
                if bs = [] then recv_stream ops src sz chunk_size num_chunks timeout npackets start md (replicate 2048 0) h
                else (case now ops h of (start, h) \<Rightarrow>
                  case stream_pkt src sz chunk_size num_chunks (fill bs (replicate 2048 0)) md of (n, md) \<Rightarrow>
                    recv_stream ops src sz chunk_size num_chunks timeout (npackets + n) start md (fill bs (replicate 2048 0)) h))
        else Some (md, buffer, h))"

text \<open>
  One pass for chunk \<open>c\<close>: \<open>pass_pkt\<close> stores a datagram's chunk; the pass ends when the chunk is there
  after a datagram of the transfer, or at the deadline.
\<close>

definition pass_pkt :: "u32 \<Rightarrow> u32 \<Rightarrow> u32 \<Rightarrow> u32 \<Rightarrow> nat \<Rightarrow> bytes \<Rightarrow> bool list \<times> bytes \<Rightarrow> bool \<times> bool list \<times> bytes" where
  "pass_pkt src sz chunk_size num_chunks c buffer md =
     (if take 4 buffer = ascii ''SBIN''
      then (case store_chunk src sz chunk_size num_chunks buffer md of None \<Rightarrow> (False, md) | Some md \<Rightarrow> (fst md ! c, md))
      else if take 4 buffer = ascii ''DBIN'' then (fst md ! c, md) else (False, md))"

partial_function (option) rerequest_pass ::
  "'w sock_ops \<Rightarrow> u32 \<Rightarrow> u32 \<Rightarrow> u32 \<Rightarrow> u32 \<Rightarrow> nat \<Rightarrow> u64 \<Rightarrow> u64 \<Rightarrow> bool list \<times> bytes \<Rightarrow> bytes \<Rightarrow> 'w host
     \<Rightarrow> ((bool list \<times> bytes) \<times> bytes \<times> 'w host) option" where
  "rerequest_pass ops src sz chunk_size num_chunks c start timeout md buffer h =
     (case now ops h of (t, h) \<Rightarrow>
        if t - start < timeout then
          Option.bind (poll_recv ops start timeout h) (\<lambda>(r, h).
            case r of
              None \<Rightarrow> Some (md, buffer, h)
            | Some bs \<Rightarrow>
                if bs = [] then Some (md, buffer, h)
                else (case pass_pkt src sz chunk_size num_chunks c (fill bs buffer) md of (stop, md) \<Rightarrow>
                  if stop then Some (md, fill bs buffer, h)
                  else rerequest_pass ops src sz chunk_size num_chunks c start timeout md (fill bs buffer) h))
        else Some (md, buffer, h))"

text \<open>The loop over missing chunks, which starts over at chunk 0 after each pass; \<open>True\<close> when no chunk is left.\<close>

partial_function (option) rerequest ::
  "'w sock_ops \<Rightarrow> u32 \<Rightarrow> u32 \<Rightarrow> u32 \<Rightarrow> u32 \<Rightarrow> nat \<Rightarrow> nat \<Rightarrow> nat \<Rightarrow> bool list \<times> bytes \<Rightarrow> bytes \<Rightarrow> 'w host
     \<Rightarrow> (bool \<times> bytes \<times> 'w host) option" where
  "rerequest ops src sz chunk_size num_chunks c passes stalled md buffer h =
     (if c \<ge> unat num_chunks then Some (True, snd md, h)
      else if fst md ! c then rerequest ops src sz chunk_size num_chunks (c + 1) passes stalled md buffer h
      else let off = of_nat c * chunk_size;
               req_size = (if sz - off \<ge> chunk_size then chunk_size else sz - off);
               pass_timeout = recv_data_rerequest_timeout_usec h passes in
        case send_cmd ops (ascii ''SBIQ'') (src + off) req_size [] h of (_, h) \<Rightarrow>
        case now ops h of (start, h) \<Rightarrow>
          Option.bind (rerequest_pass ops src sz chunk_size num_chunks c start pass_timeout md buffer h) (\<lambda>(md, buffer, h).
            let passes = passes + 1; stalled = (if fst md ! c then 0 else stalled + 1) in
            if stalled \<ge> recv_data_max_rerequests h \<or> passes \<ge> unat num_chunks + recv_data_max_rerequests h
            then Some (False, snd md, h)
            else rerequest ops src sz chunk_size num_chunks 0 passes stalled md buffer h))"

definition network_recv_data :: "'w sock_ops \<Rightarrow> bytes \<Rightarrow> u32 \<Rightarrow> u32 \<Rightarrow> bool \<Rightarrow> 'w host \<Rightarrow> (bool \<times> bytes \<times> 'w host) option" where
  "network_recv_data ops dat src sz quiet h = do {
     (ok, h) \<leftarrow> prepare_comms ops h;
     if \<not> ok then Some (False, dat, h)
     else do {
       let chunk_size = payload_size h;
       let num_chunks = (sz + chunk_size - 1) div chunk_size;
       let (_, h) = send_cmd ops (if quiet then ascii ''SBIQ'' else ascii ''SBIN'') src sz [] h;
       let (start, h) = now ops h;
       (md, buffer, h) \<leftarrow> recv_stream ops src sz chunk_size num_chunks (recv_data_timeout_usec h) 0 start
          (replicate (unat num_chunks) False, dat) (stack_bytes ops) h;
       rerequest ops src sz chunk_size num_chunks 0 0 0 md buffer h
     } }"

section \<open>Other commands\<close>

text \<open>The argument blob of \<open>EXECUTE\<close>: \<open>argc\<close> strings, each with its zero; \<open>None\<close> past the 256-byte array.\<close>

fun argv_length :: "nat \<Rightarrow> bytes \<Rightarrow> nat option" where
  "argv_length 0 s = Some 0"
| "argv_length (Suc n) s =
     (let l = length (takeWhile (\<lambda>b. b \<noteq> 0) s) in
      if l \<ge> length s then None else map_option (\<lambda>m. l + 1 + m) (argv_length n (drop (l + 1) s)))"

definition network_execute :: "'w sock_ops \<Rightarrow> u32 \<Rightarrow> bool \<Rightarrow> bool \<Rightarrow> 'w host \<Rightarrow> (bool \<times> 'w host) option" where
  "network_execute ops addr console_enabled cdfs_redir h = do {
     (ok, h) \<leftarrow> prepare_comms ops h;
     if \<not> ok then Some (False, h)
     else do {
       let send_argv = (prog_argc h > 0 \<and> remote_capabilities h AND 32 \<noteq> 0);
       let flags = (if cdfs_redir then 2 else 0) OR (if console_enabled then 1 else 0);
       exec_data \<leftarrow> (if send_argv
          then map_option (\<lambda>n. be32 (prog_argc h) @ take n (prog_argv_data h)) (argv_length (unat (prog_argc h)) (prog_argv_data h))
          else Some []);
       (ok, buffer, h) \<leftarrow> send_and_wait ops (ascii ''EXEC'') addr flags exec_data (stack_bytes ops) (ascii ''EXEC'') h;
       Some (ok, h)
     } }"

definition network_reset :: "'w sock_ops \<Rightarrow> 'w host \<Rightarrow> (bool \<times> 'w host) option" where
  "network_reset ops h = do {
     (_, h) \<leftarrow> prepare_comms ops h;
     Some (send_cmd ops (ascii ''RBOT'') 0 0 [] h) }"

text \<open>\<open>network_maple\<close> and \<open>network_pmcr\<close> differ in the command only. The copy reads the 2048-byte buffer from 12 on.\<close>

definition passthrough :: "bytes \<Rightarrow> 'w sock_ops \<Rightarrow> bytes \<Rightarrow> nat \<Rightarrow> 'w host \<Rightarrow> (bytes option \<times> 'w host) option" where
  "passthrough cid ops cmd resp_size h = do {
     (_, h) \<leftarrow> prepare_comms ops h;
     let (_, h) = send_cmd ops cid 0 0 cmd h;
     (rv, buffer, h) \<leftarrow> recv_resp ops NET_PACKET_TIMEOUT_USEC (stack_bytes ops) h;
     if rv = None then Some (None, h)
     else let n = min (unat (rd32 buffer 8)) resp_size in
       if 12 + n > length buffer then None else Some (Some (take n (drop 12 buffer)), h) }"

definition network_maple :: "'w sock_ops \<Rightarrow> bytes \<Rightarrow> nat \<Rightarrow> 'w host \<Rightarrow> (bytes option \<times> 'w host) option" where
  "network_maple = passthrough (ascii ''MAPL'')"

definition network_pmcr :: "'w sock_ops \<Rightarrow> bytes \<Rightarrow> nat \<Rightarrow> 'w host \<Rightarrow> (bytes option \<times> 'w host) option" where
  "network_pmcr = passthrough (ascii ''PMCR'')"

definition network_set_rtc :: "'w sock_ops \<Rightarrow> u32 \<Rightarrow> 'w host \<Rightarrow> (bool \<times> 'w host) option" where
  "network_set_rtc ops timestamp h = do {
     (_, h) \<leftarrow> prepare_comms ops h;
     (ok, buffer, h) \<leftarrow> send_and_wait ops (ascii ''SRTC'') timestamp 0 [] (stack_bytes ops) (ascii ''SRTC'') h;
     Some (ok, h) }"

end
