(* ===== verification/Link.thy ===== *)
theory Link
  imports Net Host_Net
begin

text \<open>
  Host and console together. The world of the host's transport is here a console, the client
  model of \<open>Commands\<close> and \<open>Net\<close>, reached over a link: every datagram the host sends is parsed and
  dispatched by the console and every datagram the console transmits waits in the host's receive queue. The link may lose
  datagrams that carry data (\<open>PARTBIN\<close>), as the list \<open>lost\<close> says; the clock advances by a microsecond
  at every reading.
\<close>

section \<open>The link\<close>

record link =
  cl :: client
  rxq :: "bytes list"
  clk :: u64
  lost :: "bool list"
  crashed :: bool

text \<open>The header of a datagram carries its length.\<close>

definition with_length :: "bytes \<Rightarrow> headers \<Rightarrow> headers" where
  "with_length b hh = hh\<lparr>udp_length := of_nat (UDP_H_LEN + length b)\<rparr>"

definition deliver :: "platform \<Rightarrow> headers \<Rightarrow> bytes \<Rightarrow> bytes \<Rightarrow> link \<Rightarrow> link" where
  "deliver p hh residue b w =
     (case process_command p (with_length b hh) (parse_command (b @ residue)) (cl w) of
        None \<Rightarrow> w\<lparr>crashed := True\<rparr>
      | Some st \<Rightarrow> w\<lparr>cl := st, rxq := rxq w @ map frame_payload (new_frames (cl w) st)\<rparr>)"

definition link_send :: "platform \<Rightarrow> headers \<Rightarrow> bytes \<Rightarrow> bytes \<Rightarrow> link \<Rightarrow> link" where
  "link_send p hh residue b w =
     (if take 4 b = ascii ''PBIN'' then
        (case lost w of [] \<Rightarrow> deliver p hh residue b w
         | l # ls \<Rightarrow> if l then w\<lparr>lost := ls\<rparr> else deliver p hh residue b (w\<lparr>lost := ls\<rparr>))
      else deliver p hh residue b w)"

definition link_recv :: "link \<Rightarrow> bytes option \<times> link" where
  "link_recv w = (case rxq w of [] \<Rightarrow> (None, w) | b # bs \<Rightarrow> (Some b, w\<lparr>rxq := bs\<rparr>))"

text \<open>The operations of a link whose sending side is \<open>snd_fn\<close>.\<close>

definition link_ops :: "(bytes \<Rightarrow> link \<Rightarrow> link) \<Rightarrow> link sock_ops" where
  "link_ops snd_fn =
     \<lparr>sock_send = (\<lambda>s b w. (True, snd_fn b w)), sock_recv = (\<lambda>s. link_recv), sock_close = (\<lambda>s w. w),
      time_usec = (\<lambda>w. (clk w, w\<lparr>clk := clk w + 1\<rparr>)), stack_bytes = replicate 2048 0\<rparr>"

section \<open>The host on a link\<close>

definition hst :: "link host \<Rightarrow> dedup \<Rightarrow> link \<Rightarrow> link host" where
  "hst h d w = h\<lparr>h_dedup := d, world := w\<rparr>"

lemma hst_simps [simp]:
  "world (hst h d w) = w" "h_dedup (hst h d w) = d" "hst (hst h d w) d' w' = hst h d' w'"
  "(hst h d w)\<lparr>world := w'\<rparr> = hst h d w'" "(hst h d w)\<lparr>h_dedup := d'\<rparr> = hst h d' w"
  "fast_mode (hst h d w) = fast_mode h" "legacy_mode (hst h d w) = legacy_mode h" "h_adapter (hst h d w) = h_adapter h"
  "rx_fifo_delay (hst h d w) = rx_fifo_delay h" "rx_fifo_delay_count (hst h d w) = rx_fifo_delay_count h"
  "global_socket (hst h d w) = global_socket h" "remote_version_string (hst h d w) = remote_version_string h"
  by (simp_all add: hst_def)

lemma is_wii_loader_hst [simp]: "is_wii_loader (hst h d w) = is_wii_loader h"
  by (simp add: is_wii_loader_def)

lemma is_ps2_loader_hst [simp]: "is_ps2_loader (hst h d w) = is_ps2_loader h"
  by (simp add: is_ps2_loader_def)

lemma payload_size_hst [simp]: "payload_size (hst h d w) = payload_size h"
  by (simp add: payload_size_def)

lemma now_link [simp]: "now (link_ops f) (hst h d w) = (clk w, hst h d (w\<lparr>clk := clk w + 1\<rparr>))"
  by (simp add: now_def link_ops_def)

lemma recv_link [simp]:
  "recv_pkt (link_ops f) (hst h d w) = (case rxq w of [] \<Rightarrow> (None, hst h d w) | b # bs \<Rightarrow> (Some (take 2048 b), hst h d (w\<lparr>rxq := bs\<rparr>)))"
  by (simp add: recv_pkt_def link_ops_def link_recv_def split: list.splits)

definition wire :: "bool \<Rightarrow> bytes \<Rightarrow> bytes" where
  "wire wii buf = (if wii then buf @ replicate ((length buf + 3) div 4 * 4 - length buf) 0 else buf)"

lemma send_cmd_link:
  "\<exists>d'. send_cmd (link_ops f) cmd a s dat (hst h d w)
     = (True, hst h d' (f (wire (is_wii_loader h) (cmd @ be32 a @ be32 s @ take 2033 dat)) w))"
  by (auto simp: send_cmd_def link_ops_def wire_def Let_def)

lemma wire_append: "\<exists>pad. wire wii buf = buf @ pad"
  by (simp add: wire_def)

lemma wire_12: "length buf = 12 \<Longrightarrow> wire wii buf = buf"
  by (simp add: wire_def)

text \<open>Waiting ends: the clock passes the deadline, and nothing else changes.\<close>

lemma clk_step:
  fixes t start usec :: u64
  assumes "t - start < usec"
  shows "unat usec - unat (t + 1 - start) < unat usec - unat (t - start)"
proof -
  have lt: "unat (t - start) < unat usec" using assms by (simp add: word_less_nat_alt)
  then have "unat (t - start) + 1 < 2 ^ 64" using unsigned_less [where ?'a = nat, of usec] by simp
  then have n: "unat (t - start + 1) = unat (t - start) + 1" by (simp add: unat_word_ariths)
  have "t + 1 - start = t - start + 1" by simp
  with n have "unat (t + 1 - start) = unat (t - start) + 1" by (simp only:)
  then show ?thesis using lt by simp
qed

lemma wait_loop_link: "\<exists>c. wait_loop (link_ops f) start usec (hst h d w) = Some (hst h d (w\<lparr>clk := c\<rparr>))"
proof (induction "unat usec - unat (clk w - start)" arbitrary: w rule: less_induct)
  case less
  show ?case
  proof (cases "clk w - start < usec")
    case True
    from less [of "w\<lparr>clk := clk w + 1\<rparr>"] clk_step [OF True] show ?thesis using True by (subst wait_loop.simps) auto
  next
    case False
    then show ?thesis by (subst wait_loop.simps) auto
  qed
qed

lemma drain_loop_link:
  "\<exists>c q. drain_loop (link_ops f) start usec (hst h d w) = Some (hst h d (w\<lparr>clk := c, rxq := q\<rparr>)) \<and> (rxq w = [] \<longrightarrow> q = [])"
proof (induction "unat usec - unat (clk w - start)" arbitrary: w rule: less_induct)
  case less
  show ?case
  proof (cases "clk w - start < usec")
    case True
    have "\<exists>c q. drain_loop (link_ops f) start usec (hst h d (w\<lparr>clk := clk w + 1, rxq := tl (rxq w)\<rparr>))
        = Some (hst h d (w\<lparr>clk := c, rxq := q\<rparr>)) \<and> (rxq w = [] \<longrightarrow> q = [])"
      using less [of "w\<lparr>clk := clk w + 1, rxq := tl (rxq w)\<rparr>"] clk_step [OF True] by fastforce
    moreover have e: "w\<lparr>clk := c, rxq := []\<rparr> = w\<lparr>clk := c\<rparr>" if "rxq w = []" for c using that by (cases w) simp
    ultimately show ?thesis using True by (subst drain_loop.simps) (cases "rxq w"; simp add: e)
  next
    case False
    then show ?thesis by (subst drain_loop.simps) (auto intro!: exI [of _ "rxq w"] exI [of _ "clk w + 1"])
  qed
qed

lemma await_ack_silent:
  "rxq w = [] \<Longrightarrow> \<exists>c. await_ack (link_ops f) e a s start buffer (hst h d w) = Some (False, buffer, hst h d (w\<lparr>clk := c\<rparr>))"
proof (induction "unat NET_PACKET_TIMEOUT_USEC - unat (clk w - start)" arbitrary: w rule: less_induct)
  case less
  show ?case
  proof (cases "clk w - start < NET_PACKET_TIMEOUT_USEC")
    case True
    from less.hyps [of "w\<lparr>clk := clk w + 1\<rparr>"] clk_step [OF True] less.prems
    show ?thesis using True by (subst await_ack.simps) auto
  next
    case False
    then show ?thesis by (subst await_ack.simps) auto
  qed
qed

lemma busy_wait_link: "\<exists>c. busy_wait (link_ops f) usec (hst h d w) = Some (hst h d (w\<lparr>clk := c\<rparr>))"
proof -
  obtain c where "wait_loop (link_ops f) (clk w) usec (hst h d (w\<lparr>clk := clk w + 1\<rparr>)) = Some (hst h d (w\<lparr>clk := clk w + 1, clk := c\<rparr>))"
    using wait_loop_link by blast
  then show ?thesis by (auto simp: busy_wait_def)
qed

text \<open>A link whose sending side does not read the clock, and a command it never answers.\<close>

definition clockless :: "(bytes \<Rightarrow> link \<Rightarrow> link) \<Rightarrow> bool" where
  "clockless f = (\<forall>b w c. f b (w\<lparr>clk := c\<rparr>) = (f b w)\<lparr>clk := c\<rparr>)"

lemma ack_attempts_silent:
  assumes "clockless f"
    and "\<And>j. j \<le> n \<Longrightarrow> rxq (((f (wire (is_wii_loader h) (cmd @ be32 a @ be32 s @ take 2033 dat))) ^^ j) w) = []"
  shows "\<exists>d' c. ack_attempts (link_ops f) cmd a s dat e n buffer (hst h d w)
    = Some (False, buffer, hst h d' ((((f (wire (is_wii_loader h) (cmd @ be32 a @ be32 s @ take 2033 dat))) ^^ n) w)\<lparr>clk := c\<rparr>))"
  using assms(2)
proof (induction n arbitrary: w d)
  case 0
  show ?case by (auto intro!: exI [of _ d] exI [of _ "clk w"])
next
  case (Suc n)
  let ?g = "f (wire (is_wii_loader h) (cmd @ be32 a @ be32 s @ take 2033 dat))"
  obtain d1 where 1: "send_cmd (link_ops f) cmd a s dat (hst h d w) = (True, hst h d1 (?g w))" using send_cmd_link by blast
  have r: "rxq (?g w) = []" using Suc.prems [of 1] by simp
  obtain c where 2: "await_ack (link_ops f) e a s (clk (?g w)) buffer (hst h d1 ((?g w)\<lparr>clk := clk (?g w) + 1\<rparr>))
      = Some (False, buffer, hst h d1 ((?g w)\<lparr>clk := c\<rparr>))"
    using await_ack_silent [of "(?g w)\<lparr>clk := clk (?g w) + 1\<rparr>"] r by fastforce
  have it: "(?g ^^ j) (v\<lparr>clk := c\<rparr>) = ((?g ^^ j) v)\<lparr>clk := c\<rparr>" for j v c
    using assms(1) by (induction j) (simp_all add: clockless_def)
  have "rxq ((?g ^^ j) ((?g w)\<lparr>clk := c\<rparr>)) = []" if "j \<le> n" for j
    using Suc.prems [of "Suc j"] that by (simp add: it funpow_swap1)
  from Suc.IH [OF this, of d1] 1 2 show ?case by (simp add: it funpow_swap1)
qed

lemma link_send_clockless: "clockless (link_send p hh r)"
  by (auto simp: clockless_def link_send_def deliver_def split: list.splits option.splits)

lemma send_and_wait_ignored:
  assumes "clockless f" and "f (cmd @ be32 a @ be32 s) w = w" and "rxq w = []" and "length cmd = 4"
  shows "\<exists>d' c. send_and_wait (link_ops f) cmd a s [] buffer e (hst h d w) = Some (False, buffer, hst h d' (w\<lparr>clk := c\<rparr>))"
proof -
  have w: "wire (is_wii_loader h) (cmd @ be32 a @ be32 s @ take 2033 []) = cmd @ be32 a @ be32 s" using assms(4) by (simp add: wire_12)
  have "((f (cmd @ be32 a @ be32 s)) ^^ j) w = w" for j using assms(2) by (induction j) simp_all
  then show ?thesis unfolding send_and_wait_def
    using ack_attempts_silent [OF assms(1), of MAX_CMD_RETRIES h cmd a s "[]" w e buffer d] assms(3) unfolding w by simp
qed

text \<open>A command whose answer is the only datagram waiting is acknowledged at the first attempt.\<close>

lemma send_and_wait_link:
  assumes d: "f (cmd @ be32 a @ be32 s) w = w'" "rxq w' = [b]" "length b = 12" "length cmd = 4"
    and m: "command_ack_matches (fill b buffer) 12 expected a s"
  shows "\<exists>d' c. send_and_wait (link_ops f) cmd a s [] buffer expected (hst h d w)
     = Some (True, fill b buffer, hst h d' (w'\<lparr>clk := c, rxq := []\<rparr>))"
proof -
  obtain d' where s: "send_cmd (link_ops f) cmd a s [] (hst h d w) = (True, hst h d' w')"
    using send_cmd_link [of f cmd a s "[]" h d w] d(1,4) by (auto simp: wire_12)
  have t: "take 2048 b = b" "b \<noteq> []" using d(3) by auto
  have "await_ack (link_ops f) expected a s (clk w') buffer (hst h d' (w'\<lparr>clk := clk w' + 1\<rparr>))
      = Some (True, fill b buffer, hst h d' (w'\<lparr>clk := clk w' + 1 + 1, rxq := []\<rparr>))"
    using d(2,3) m t by (subst await_ack.simps) (simp add: NET_PACKET_TIMEOUT_USEC_def)
  then have "ack_attempts (link_ops f) cmd a s [] expected (Suc n) buffer (hst h d w)
      = Some (True, fill b buffer, hst h d' (w'\<lparr>clk := clk w' + 1 + 1, rxq := []\<rparr>))" for n
    using s by simp
  then show ?thesis unfolding send_and_wait_def by (metis MAX_CMD_RETRIES_def numeral_eq_Suc)
qed

section \<open>What each datagram of an upload does\<close>

lemma parse_command_bytes:
  assumes "length i = 4"
  shows "parse_command (i @ be32 a @ be32 s @ rest) = \<lparr>cmd_id = i, cmd_address = a, cmd_size = s, cmd_data = rest\<rparr>"
  using assms by (simp add: parse_command_def rd32_def be32_def nth_append get_be32_be32)

text \<open>
  Before the handler runs, \<open>process_command\<close> may wake the screensaver and writes the Ethernet header of the
  answer; neither touches what an upload relies on, and neither transmits.
\<close>

definition prepared :: "platform \<Rightarrow> headers \<Rightarrow> client \<Rightarrow> client" where
  "prepared p hh st =
     (if (udp_dest hh = 31313 \<or> udp_dest hh = 53535) \<and> eth_dest hh = take 6 (bb_mac p) then screensaver_wake st else st)"

lemma new_frames_trans:
  assumes "trace st1 = trace st @ evs" and "tx_frames evs = []" and "\<exists>x. trace st2 = trace st1 @ x"
  shows "new_frames st st2 = new_frames st1 st2"
  using assms by (auto simp: new_frames_def)

lemma prepared_simps [simp]:
  "mem (prepared p hh st) = mem st" "bin_map (prepared p hh st) = bin_map st" "pkt_buf (prepared p hh st) = pkt_buf st"
  "load_address (prepared p hh st) = load_address st" "load_size (prepared p hh st) = load_size st"
  "payload1024 (prepared p hh st) = payload1024 st" "DCTOOL_MAJOR (prepared p hh st) = DCTOOL_MAJOR st"
  by (simp_all add: prepared_def screensaver_wake_def DCTOOL_MAJOR_def)

lemma prepared_trace: "\<exists>evs. trace (prepared p hh st) = trace st @ evs \<and> tx_frames evs = []"
  by (auto simp: prepared_def screensaver_wake_def)

lemma make_ether_length: "14 \<le> length pkt \<Longrightarrow> length (bb_mac p) = 6 \<Longrightarrow> length (eth_src hh) = 6 \<Longrightarrow> 14 \<le> length (make_ether (eth_src hh) (bb_mac p) pkt)"
  by (simp add: make_ether_def)

lemma upload_inv_cong:
  assumes "upload_inv p base img S st" and "load_address st' = load_address st" "load_size st' = load_size st"
    "payload1024 st' = payload1024 st" "DCTOOL_MAJOR st' = DCTOOL_MAJOR st" "bin_map st' = bin_map st" "mem st' = mem st"
    and "14 \<le> length (pkt_buf st')"
  shows "upload_inv p base img S st'"
  using assms by (simp add: upload_inv_def map_test_def)

definition ready :: "platform \<Rightarrow> headers \<Rightarrow> client \<Rightarrow> client" where
  "ready p hh st = (prepared p hh st)\<lparr>pkt_buf := make_ether (eth_src hh) (bb_mac p) (pkt_buf (prepared p hh st))\<rparr>"

definition addressed :: "platform \<Rightarrow> headers \<Rightarrow> bool" where
  "addressed p hh = (length (bb_mac p) = 6 \<and> length (eth_src hh) = 6)"

lemma addressed_with_length [simp]: "addressed p (with_length b hh) = addressed p hh"
  by (simp add: addressed_def with_length_def)

text \<open>What the exchange of an upload leaves alone: the program's request numbers and the client's settings.\<close>

definition keeps :: "client \<Rightarrow> client \<Rightarrow> bool" where
  "keeps st st' = (running st' = running st \<and> tool_version st' = tool_version st \<and> tool_mac st' = tool_mac st
     \<and> kos_syscall_seq st' = kos_syscall_seq st \<and> kos_syscall_next_seq st' = kos_syscall_next_seq st \<and> our_dir st' = our_dir st
     \<and> (length (pkt_buf st) = TX_CAPACITY \<longrightarrow> length (pkt_buf st') = TX_CAPACITY))"

lemma keeps_refl [simp]: "keeps st st"
  by (simp add: keeps_def)

lemma keeps_trans [trans]: "keeps st st1 \<Longrightarrow> keeps st1 st2 \<Longrightarrow> keeps st st2"
  by (simp add: keeps_def)

lemma keeps_emit [simp]: "keeps st (emit e st') = keeps st st'"
  by (simp add: keeps_def)

lemma keeps_send_udp: "send_udp p d s i dp sp payload st = Some st' \<Longrightarrow> keeps st st'"
  by (auto simp: send_udp_def keeps_def Let_def emit_def split: if_splits bind_splits)

lemma keeps_reply: "reply p h sip sport c payload st = Some st' \<Longrightarrow> keeps st st'"
  by (simp add: reply_def keeps_send_udp)

lemma keeps_bump: "keeps st (net_bump_syscall_deadline p st)"
  by (simp add: keeps_def net_bump_syscall_deadline_def)

lemma keeps_disp [simp]: "keeps st (disp_status msg st') = keeps st st'" "keeps st (disp_info st') = keeps st st'"
  by (simp_all add: disp_status_def disp_info_def Let_def lease_resync_from_rtc_def keeps_def)

lemma keeps_partbin: "cmd_partbin p c st = Some st' \<Longrightarrow> keeps st st'"
  by (auto simp: cmd_partbin_def Let_def net_bump_syscall_deadline_def map_set_def keeps_def split: if_splits)

lemma keeps_donebin: "cmd_donebin p h c st = Some st' \<Longrightarrow> keeps st st'"
  using keeps_bump [of st p]
  by (auto simp: cmd_donebin_def Let_def split: if_splits bind_splits dest!: keeps_reply intro: keeps_trans)

lemma keeps_loadbin:
  assumes "cmd_loadbin p h c st = Some st'" "2 \<le> DCTOOL_MAJOR st" "unat (cmd_size c) \<le> unat (detect_ram_size p)" "unat (cmd_size c) \<le> MAX_RAM_BYTES p"
  shows "keeps st st'"
proof -
  have "DCTOOL_MAJOR (net_bump_syscall_deadline p st) = DCTOOL_MAJOR st" by (simp add: net_bump_syscall_deadline_def DCTOOL_MAJOR_def)
  then show ?thesis using assms
    by (auto simp: cmd_loadbin_def Let_def map_clear_all_def net_bump_syscall_deadline_def keeps_def DCTOOL_MAJOR_def not_less
        split: if_splits bind_splits dest!: keeps_reply)
qed

lemma keeps_ready: "addressed p hh \<Longrightarrow> keeps st (ready p hh st)"
  by (simp add: ready_def prepared_def screensaver_wake_def addressed_def keeps_def make_ether_def disp_info_def lease_resync_from_rtc_def Let_def TX_CAPACITY_def)

lemma ready_facts:
  assumes "addressed p hh" and "14 \<le> length (pkt_buf st)"
  shows "14 \<le> length (pkt_buf (ready p hh st))" and "DCTOOL_MAJOR (ready p hh st) = DCTOOL_MAJOR st"
    and "\<exists>evs. trace (ready p hh st) = trace st @ evs \<and> tx_frames evs = []"
    and "upload_inv p base img S st \<Longrightarrow> upload_inv p base img S (ready p hh st)"
proof -
  show l: "14 \<le> length (pkt_buf (ready p hh st))"
    using assms by (simp add: ready_def addressed_def make_ether_length)
  show d: "DCTOOL_MAJOR (ready p hh st) = DCTOOL_MAJOR st"
    using prepared_simps(7) [of p hh st] by (simp add: ready_def DCTOOL_MAJOR_def)
  show "\<exists>evs. trace (ready p hh st) = trace st @ evs \<and> tx_frames evs = []" using prepared_trace [of p hh st] by (simp add: ready_def)
  show "upload_inv p base img S (ready p hh st)" if "upload_inv p base img S st"
    by (rule upload_inv_cong [OF that _ _ _ d _ _ l]) (simp_all add: ready_def)
qed

lemma process_command_ready:
  assumes "length i = 4" and "i \<noteq> ascii ''PBIN''"
  shows "process_command p hh (parse_command ((i @ be32 a @ be32 s) @ r)) st
    = net_dispatch p hh \<lparr>cmd_id = i, cmd_address = a, cmd_size = s, cmd_data = r\<rparr> (ready p hh st)"
  using parse_command_bytes [OF assms(1), of a s r] assms(2)
  by (simp add: process_command_def prepared_def ready_def Let_def)

lemma deliver_answered:
  assumes "process_command p (with_length b hh) (parse_command (b @ r)) (cl w) = Some st'"
    and "trace st1 = trace (cl w) @ evs" "tx_frames evs = []" "\<exists>evs. trace st' = trace st1 @ evs" "new_frames st1 st' = fs"
  shows "deliver p hh r b w = w\<lparr>cl := st', rxq := rxq w @ map frame_payload fs\<rparr>"
  using assms new_frames_trans [OF assms(2-4)] by (simp add: deliver_def)

lemma unat_of_nat_mod_le: "unat (of_nat n :: u32) \<le> n"
  by (simp add: unsigned_of_nat take_bit_nat_less_eq_self)

lemma deliver_loadbin:
  assumes "addressed p hh" "2 \<le> DCTOOL_MAJOR (cl w)" "14 \<le> length (pkt_buf (cl w))"
    and "length img \<le> unat (detect_ram_size p)" "length img \<le> MAX_RAM_BYTES p"
  shows "\<exists>st'. deliver p hh r (ascii ''LBIN'' @ be32 a @ be32 (of_nat (length img))) w
      = w\<lparr>cl := st', rxq := rxq w @ [ascii ''LBIN'' @ be32 a @ be32 (of_nat (length img))]\<rparr> \<and> upload_inv p a img {} st' \<and> mem st' = mem (cl w) \<and> keeps (cl w) st'"
proof -
  let ?c = "\<lparr>cmd_id = ascii ''LBIN'', cmd_address = a, cmd_size = of_nat (length img), cmd_data = r\<rparr> :: command"
  let ?hh = "with_length (ascii ''LBIN'' @ be32 a @ be32 (of_nat (length img))) hh"
  let ?s = "ready p ?hh (cl w)"
  have ad: "addressed p ?hh" using assms(1) by simp
  note rf = ready_facts [OF ad assms(3)]
  obtain st' f where st': "cmd_loadbin p ?hh ?c ?s = Some st'" "upload_inv p a img {} st'" "new_frames ?s st' = [f]"
      "frame_payload f = command_bytes ?c" "\<exists>evs. trace st' = trace ?s @ evs" "mem st' = mem ?s"
    using loadbin_starts_upload [of ?s ?c img p ?hh] rf(1,2) assms(2,4,5) by (auto simp: ascii_def)
  have "process_command p ?hh (parse_command ((ascii ''LBIN'' @ be32 a @ be32 (of_nat (length img))) @ r)) (cl w) = Some st'"
    by (subst process_command_ready) (use st'(1) in \<open>simp_all add: net_dispatch_def ascii_def\<close>)
  moreover obtain evs where "trace ?s = trace (cl w) @ evs" "tx_frames evs = []" using rf(3) by blast
  ultimately have "deliver p hh r (ascii ''LBIN'' @ be32 a @ be32 (of_nat (length img))) w
      = w\<lparr>cl := st', rxq := rxq w @ map frame_payload [f]\<rparr>"
    using st' by (intro deliver_answered [where ?st1.0 = ?s])
  moreover have "keeps (cl w) st'"
    by (rule keeps_trans [OF keeps_ready [OF ad] keeps_loadbin [OF st'(1)]])
      (use rf(2) assms(2,4,5) le_trans [OF unat_of_nat_mod_le] in simp_all)
  ultimately show ?thesis using st' by (auto simp: command_bytes_def ready_def)
qed

lemma deliver_donebin:
  assumes "addressed p hh" "upload_inv p base img S (cl w)" "length img \<le> 3626067" "length img \<le> MAX_RAM_BYTES p"
  shows "\<exists>st'. deliver p hh r (ascii ''DBIN'' @ be32 0 @ be32 0) w
      = w\<lparr>cl := st', rxq := rxq w @ [ascii ''DBIN'' @ be32 (fst (missing_reply base img S)) @ be32 (snd (missing_reply base img S))]\<rparr>
     \<and> upload_inv p base img S st' \<and> mem st' = mem (cl w) \<and> keeps (cl w) st'"
proof -
  let ?c = "\<lparr>cmd_id = ascii ''DBIN'', cmd_address = 0, cmd_size = 0, cmd_data = r\<rparr> :: command"
  let ?hh = "with_length (ascii ''DBIN'' @ be32 0 @ be32 0) hh"
  let ?s = "ready p ?hh (cl w)"
  have buf: "14 \<le> length (pkt_buf (cl w))" using assms(2) by (simp add: upload_inv_def)
  have ad: "addressed p ?hh" using assms(1) by simp
  note rf = ready_facts [OF ad buf]
  obtain st' f where st': "cmd_donebin p ?hh ?c ?s = Some st'" "upload_inv p base img S st'" "new_frames ?s st' = [f]"
      "frame_payload f = (let (a, s) = missing_reply base img S in ascii ''DBIN'' @ be32 a @ be32 s)" "\<exists>evs. trace st' = trace ?s @ evs" "mem st' = mem ?s"
    using donebin_reply [OF rf(4) [OF assms(2)] assms(3), of ?c ?hh] assms(4) by (auto simp: ascii_def)
  have "process_command p ?hh (parse_command ((ascii ''DBIN'' @ be32 0 @ be32 0) @ r)) (cl w) = Some st'"
    by (subst process_command_ready) (use st'(1) in \<open>simp_all add: net_dispatch_def ascii_def\<close>)
  moreover obtain evs where "trace ?s = trace (cl w) @ evs" "tx_frames evs = []" using rf(3) by blast
  ultimately have "deliver p hh r (ascii ''DBIN'' @ be32 0 @ be32 0) w = w\<lparr>cl := st', rxq := rxq w @ map frame_payload [f]\<rparr>"
    using st' by (intro deliver_answered [where ?st1.0 = ?s])
  moreover have "keeps (cl w) st'" using keeps_ready [OF ad] keeps_donebin [OF st'(1)] by (rule keeps_trans)
  ultimately show ?thesis using st' by (auto simp: split_beta ready_def)
qed

definition part_bytes :: "u32 \<Rightarrow> bytes \<Rightarrow> nat \<Rightarrow> bytes" where
  "part_bytes base img k = ascii ''PBIN'' @ be32 (base + of_nat (k * 1440)) @ be32 (of_nat (length (chunk img k))) @ chunk img k"

lemma deliver_partbin:
  assumes "addressed p hh" "upload_inv p base img S (cl w)" "k < nchunks img"
    and "length img \<le> MAX_RAM_BYTES p" "MAX_RAM_BYTES p < 4294967296"
  shows "\<exists>st'. deliver p hh r (part_bytes base img k @ pad) w = w\<lparr>cl := st'\<rparr> \<and> upload_inv p base img (insert k S) st'
    \<and> (\<forall>a. outside base (length img) a \<longrightarrow> mem st' a = mem (cl w) a) \<and> keeps (cl w) st'"
proof -
  let ?hh = "with_length (part_bytes base img k @ pad) hh"
  let ?s = "prepared p ?hh (cl w)"
  have ad: "addressed p ?hh" using assms(1) by simp
  have buf: "14 \<le> length (pkt_buf (cl w))" using assms(2) by (simp add: upload_inv_def)
  have inv: "upload_inv p base img S ?s" by (rule upload_inv_cong [OF assms(2)]) (use buf in simp_all)
  obtain st' evs where st': "cmd_partbin p (pbin base img k (pad @ r)) ?s = Some st'" "upload_inv p base img (insert k S) st'"
      "trace st' = trace ?s @ evs" "tx_frames evs = []" "\<forall>a. outside base (length img) a \<longrightarrow> mem st' a = mem ?s a"
    using partbin_step [OF inv assms(3-5)] by blast
  have "parse_command ((part_bytes base img k @ pad) @ r) = pbin base img k (pad @ r)"
    using parse_command_bytes [of "ascii ''PBIN''"] by (simp add: part_bytes_def pbin_def ascii_def)
  then have "process_command p ?hh (parse_command ((part_bytes base img k @ pad) @ r)) (cl w)
      = Some (st'\<lparr>pkt_buf := make_ether (eth_src ?hh) (bb_mac p) (pkt_buf st')\<rparr>)"
    using st'(1) by (simp add: process_command_def prepared_def pbin_def Let_def)
  moreover obtain evs0 where "trace ?s = trace (cl w) @ evs0" "tx_frames evs0 = []" using prepared_trace by blast
  ultimately have "deliver p hh r (part_bytes base img k @ pad) w
      = w\<lparr>cl := st'\<lparr>pkt_buf := make_ether (eth_src ?hh) (bb_mac p) (pkt_buf st')\<rparr>, rxq := rxq w @ map frame_payload []\<rparr>"
    using st'(3,4) by (intro deliver_answered [where ?st1.0 = ?s]) (auto simp: new_frames_def)
  moreover have "upload_inv p base img (insert k S) (st'\<lparr>pkt_buf := make_ether (eth_src ?hh) (bb_mac p) (pkt_buf st')\<rparr>)"
    by (rule upload_inv_cong [OF st'(2)])
      (use ad st'(2) make_ether_length [of "pkt_buf st'" p ?hh] in \<open>simp_all add: upload_inv_def addressed_def DCTOOL_MAJOR_def\<close>)
  moreover have "keeps (cl w) (st'\<lparr>pkt_buf := make_ether (eth_src ?hh) (bb_mac p) (pkt_buf st')\<rparr>)"
    using keeps_partbin [OF st'(1)] ad
    by (simp add: prepared_def screensaver_wake_def disp_info_def lease_resync_from_rtc_def Let_def addressed_def keeps_def make_ether_def TX_CAPACITY_def split: if_splits)
  ultimately show ?thesis using st'(5) by auto
qed

section \<open>The upload\<close>

text \<open>
  The state between the datagrams of an upload: nothing waits for the host, the console has not failed and holds
  the chunks \<open>S\<close>, and the memory outside the image and what an upload leaves alone are those of the console \<open>st0\<close> before the upload.
\<close>

definition uploading :: "platform \<Rightarrow> u32 \<Rightarrow> bytes \<Rightarrow> client \<Rightarrow> nat set \<Rightarrow> link \<Rightarrow> bool" where
  "uploading p base img st0 S w = (rxq w = [] \<and> \<not> crashed w \<and> upload_inv p base img S (cl w)
     \<and> (\<forall>a. outside base (length img) a \<longrightarrow> mem (cl w) a = mem st0 a) \<and> keeps st0 (cl w))"

definition uploadable :: "platform \<Rightarrow> headers \<Rightarrow> bytes \<Rightarrow> bool" where
  "uploadable p hh img = (addressed p hh \<and> img \<noteq> [] \<and> length img \<le> 3626067 \<and> length img \<le> MAX_RAM_BYTES p
     \<and> length img \<le> unat (detect_ram_size p) \<and> MAX_RAM_BYTES p < 4294967296)"

lemma uploading_clk [simp]: "uploading p base img st0 S (w\<lparr>clk := c\<rparr>) = uploading p base img st0 S w"
  by (simp add: uploading_def)

lemma send_part_link:
  assumes u: "uploading p base img st0 S w" and ok: "uploadable p hh img" and k: "k < nchunks img"
  shows "\<exists>d' w' S'. send_cmd (link_ops (link_send p hh r)) (ascii ''PBIN'') (base + of_nat (k * 1440)) (of_nat (length (chunk img k))) (chunk img k) (hst h d w)
      = (True, hst h d' w') \<and> uploading p base img st0 S' w' \<and> S \<subseteq> S' \<and> lost w' = tl (lost w)
      \<and> (lost w = [] \<longrightarrow> k \<in> S')"
proof -
  have t: "take 2033 (chunk img k) = chunk img k" by (simp add: chunk_def)
  obtain pad where pad: "wire (is_wii_loader h) (part_bytes base img k) = part_bytes base img k @ pad" using wire_append by blast
  obtain d' where s: "send_cmd (link_ops (link_send p hh r)) (ascii ''PBIN'') (base + of_nat (k * 1440)) (of_nat (length (chunk img k))) (chunk img k) (hst h d w)
      = (True, hst h d' (link_send p hh r (part_bytes base img k @ pad) w))"
    using send_cmd_link [of "link_send p hh r" "ascii ''PBIN''" "base + of_nat (k * 1440)" "of_nat (length (chunk img k))" "chunk img k" h d w] t pad
    by (auto simp: part_bytes_def)
  have id: "take 4 (part_bytes base img k @ pad) = ascii ''PBIN''" by (simp add: part_bytes_def ascii_def)
  have step: "\<exists>st'. deliver p hh r (part_bytes base img k @ pad) v = v\<lparr>cl := st'\<rparr> \<and> upload_inv p base img (insert k S) st'
      \<and> (\<forall>a. outside base (length img) a \<longrightarrow> mem st' a = mem st0 a) \<and> keeps st0 st'" if "cl v = cl w" for v
    using deliver_partbin [of p hh base img S v k r pad] u ok k that by (auto simp: uploading_def uploadable_def intro: keeps_trans)
  have "\<exists>S'. uploading p base img st0 S' (link_send p hh r (part_bytes base img k @ pad) w) \<and> S \<subseteq> S'
      \<and> lost (link_send p hh r (part_bytes base img k @ pad) w) = tl (lost w) \<and> (lost w = [] \<longrightarrow> k \<in> S')"
  proof (cases "lost w")
    case Nil
    then show ?thesis using step [of w] u id by (auto simp: link_send_def uploading_def)
  next
    case (Cons l ls)
    then show ?thesis using step [of "w\<lparr>lost := ls\<rparr>"] u id
      by (cases l) (fastforce simp: link_send_def uploading_def)+
  qed
  with s show ?thesis by blast
qed

lemma send_and_wait_donebin:
  assumes u: "uploading p base img st0 S w" and ok: "uploadable p hh img"
  shows "\<exists>d' w' buffer'. send_and_wait (link_ops (link_send p hh r)) (ascii ''DBIN'') 0 0 [] buffer (ascii ''DBIN'') (hst h d w) = Some (True, buffer', hst h d' w')
     \<and> uploading p base img st0 S w' \<and> lost w' = lost w \<and> rd32 buffer' 4 = fst (missing_reply base img S) \<and> rd32 buffer' 8 = snd (missing_reply base img S)"
proof -
  let ?b = "ascii ''DBIN'' @ be32 (fst (missing_reply base img S)) @ be32 (snd (missing_reply base img S))"
  obtain st' where st': "deliver p hh r (ascii ''DBIN'' @ be32 0 @ be32 0) w = w\<lparr>cl := st', rxq := rxq w @ [?b]\<rparr>" "upload_inv p base img S st'" "mem st' = mem (cl w)" "keeps (cl w) st'"
    using deliver_donebin [of p hh base img S w r] u ok by (auto simp: uploading_def uploadable_def)
  have l: "link_send p hh r (ascii ''DBIN'' @ be32 0 @ be32 0) w = w\<lparr>cl := st', rxq := [?b]\<rparr>"
    using st'(1) u by (simp add: link_send_def ascii_def uploading_def)
  have f: "take 4 (fill ?b buffer) = ascii ''DBIN''" "rd32 (fill ?b buffer) 4 = fst (missing_reply base img S)"
    "rd32 (fill ?b buffer) 8 = snd (missing_reply base img S)"
    by (simp_all add: fill_def ascii_def rd32_def be32_def nth_append get_be32_be32)
  have "command_ack_matches (fill ?b buffer) 12 (ascii ''DBIN'') 0 0" using f(1) by (simp add: command_ack_matches_def ascii_def)
  then obtain d' c where "send_and_wait (link_ops (link_send p hh r)) (ascii ''DBIN'') 0 0 [] buffer (ascii ''DBIN'') (hst h d w)
      = Some (True, fill ?b buffer, hst h d' (w\<lparr>cl := st', rxq := [?b], clk := c, rxq := []\<rparr>))"
    using send_and_wait_link [where f = "link_send p hh r", OF l, of ?b buffer "ascii ''DBIN''" h d] by (auto simp: ascii_def)
  then show ?thesis using f st'(2-4) u by (fastforce simp: uploading_def intro: keeps_trans)
qed

lemma send_and_wait_loadbin:
  assumes w: "rxq w = []" "\<not> crashed w" "2 \<le> DCTOOL_MAJOR (cl w)" "14 \<le> length (pkt_buf (cl w))" and ok: "uploadable p hh img"
  shows "\<exists>d' w' buffer'. send_and_wait (link_ops (link_send p hh r)) (ascii ''LBIN'') base (of_nat (length img)) [] buffer (ascii ''LBIN'') (hst h d w)
      = Some (True, buffer', hst h d' w') \<and> uploading p base img (cl w) {} w' \<and> lost w' = lost w"
proof -
  let ?b = "ascii ''LBIN'' @ be32 base @ be32 (of_nat (length img))"
  obtain st' where st': "deliver p hh r ?b w = w\<lparr>cl := st', rxq := rxq w @ [?b]\<rparr>" "upload_inv p base img {} st'" "mem st' = mem (cl w)" "keeps (cl w) st'"
    using deliver_loadbin [of p hh w img r base] w ok by (auto simp: uploadable_def)
  have l: "link_send p hh r ?b w = w\<lparr>cl := st', rxq := [?b]\<rparr>"
    using st'(1) w by (simp add: link_send_def ascii_def)
  have "command_ack_matches (fill ?b buffer) 12 (ascii ''LBIN'') base (of_nat (length img))"
    by (simp add: command_ack_matches_def fill_def ascii_def rd32_def be32_def nth_append get_be32_be32)
  then obtain d' c where "send_and_wait (link_ops (link_send p hh r)) (ascii ''LBIN'') base (of_nat (length img)) [] buffer (ascii ''LBIN'') (hst h d w)
      = Some (True, fill ?b buffer, hst h d' (w\<lparr>cl := st', rxq := [?b], clk := c, rxq := []\<rparr>))"
    using send_and_wait_link [where f = "link_send p hh r", OF l, of ?b buffer "ascii ''LBIN''" h d] by (auto simp: ascii_def)
  then show ?thesis using st'(2-4) w by (fastforce simp: uploading_def)
qed

lemma chunk_slice: "take (length (chunk img k)) (drop (k * 1440) img) = chunk img k"
  by (cases "1440 \<le> length img - k * 1440") (simp_all add: chunk_def)

lemma chunk_bounds:
  assumes "k < nchunks img" and "length img \<le> 3626067"
  shows "0 < length (chunk img k)" and "length (chunk img k) \<le> 1440" and "k * 1440 + length (chunk img k) \<le> length img"
    and "unat (of_nat (k * 1440) :: u32) = k * 1440" and "unat (of_nat (length (chunk img k)) :: u32) = length (chunk img k)"
    and "unat (of_nat (length img) :: u32) = length img"
proof -
  have k: "k * 1440 < length img" using assms(1) by (simp add: nchunks_iff)
  then show l: "0 < length (chunk img k)" "length (chunk img k) \<le> 1440" "k * 1440 + length (chunk img k) \<le> length img"
    by (auto simp: chunk_length)
  show "unat (of_nat (k * 1440) :: u32) = k * 1440" using k assms(2) by (intro unat_of_nat32) linarith
  show "unat (of_nat (length (chunk img k)) :: u32) = length (chunk img k)" using l(2) by (intro unat_of_nat32) linarith
  show "unat (of_nat (length img) :: u32) = length img" using assms(2) by (intro unat_of_nat32) linarith
qed

lemma stream_send_size:
  assumes "k < nchunks img" and "length img \<le> 3626067"
  shows "(of_nat (k * 1440) :: u32) < of_nat (length img)"
    and "(if (1440 :: u32) \<le> of_nat (length img) - of_nat (k * 1440) then 1440 else of_nat (length img) - of_nat (k * 1440) :: u32)
      = of_nat (length (chunk img k))"
proof -
  note b = chunk_bounds [OF assms]
  have k: "k * 1440 < length img" using assms(1) by (simp add: nchunks_iff)
  show "(of_nat (k * 1440) :: u32) < of_nat (length img)" unfolding word_less_nat_alt b(4,6) by (rule k)
  have "(of_nat (length img) :: u32) - of_nat (k * 1440) = of_nat (length img - k * 1440)" using k by (simp add: of_nat_diff)
  moreover have "unat (of_nat (length img - k * 1440) :: u32) = length img - k * 1440" using assms(2) by (intro unat_of_nat32) linarith
  ultimately show "(if (1440 :: u32) \<le> of_nat (length img) - of_nat (k * 1440) then 1440 else of_nat (length img) - of_nat (k * 1440) :: u32)
      = of_nat (length (chunk img k))"
    by (simp add: word_le_nat_alt chunk_length min_def split: if_splits)
qed

lemma stream_parts_link:
  assumes ok: "uploadable p hh img"
  shows "j \<le> nchunks img \<Longrightarrow> uploading p base img st0 S w \<Longrightarrow>
    \<exists>d' w' S'. stream_parts (link_ops (link_send p hh r)) img base (of_nat (length img)) 1440 fd (of_nat (j * 1440)) pc (hst h d w) = Some (hst h d' w')
      \<and> uploading p base img st0 S' w'"
proof (induction "nchunks img - j" arbitrary: j S w d pc)
  case 0
  have len: "length img \<le> 3626067" using ok by (simp add: uploadable_def)
  have n: "length img \<le> j * 1440" "j * 1440 < 4294967296" using 0 len unfolding nchunks_def by linarith+
  have "\<not> (of_nat (j * 1440) :: u32) < of_nat (length img)"
    unfolding word_less_nat_alt using n len by (subst (1 2) unat_of_nat32) linarith+
  then show ?case using 0 by (subst stream_parts.simps) auto
next
  case (Suc n)
  have j: "j < nchunks img" and len: "length img \<le> 3626067" using Suc(2) ok by (simp_all add: uploadable_def)
  note b = chunk_bounds [OF j len] and z = stream_send_size [OF j len]
  have dat: "take (unat (of_nat (length (chunk img j)) :: u32)) (drop (unat (of_nat (j * 1440) :: u32)) img) = chunk img j"
    unfolding b(4,5) by (rule chunk_slice)
  obtain d1 w1 S1 where s: "send_cmd (link_ops (link_send p hh r)) (ascii ''PBIN'') (base + of_nat (j * 1440)) (of_nat (length (chunk img j))) (chunk img j) (hst h d w)
      = (True, hst h d1 w1)" "uploading p base img st0 S1 w1"
    using send_part_link [OF Suc.prems(2) ok j] by blast
  have nx: "(of_nat (j * 1440) :: u32) + 1440 = of_nat (Suc j * 1440)" by simp
  have IH: "\<exists>d' w' S'. stream_parts (link_ops (link_send p hh r)) img base (of_nat (length img)) 1440 fd (of_nat (Suc j * 1440)) q (hst h e v) = Some (hst h d' w')
      \<and> uploading p base img st0 S' w'" if "uploading p base img st0 S1 v" for e v q
    by (rule Suc.hyps(1)) (use Suc.hyps(2) j that in simp_all)
  obtain c where c: "busy_wait (link_ops (link_send p hh r)) (ucast fd) (hst h d1 w1) = Some (hst h d1 (w1\<lparr>clk := c\<rparr>))" using busy_wait_link by blast
  show ?case
    using IH [of "w1\<lparr>clk := c\<rparr>" 0 d1] IH [of w1 "pc + 1" d1] s(2)
    by (subst stream_parts.simps, unfold Let_def z(2) dat s(1) nx) (simp add: z(1) c del: of_nat_mult)
qed

lemma missing_cases:
  assumes "length img \<le> 3626067"
  obtains "{..<nchunks img} \<subseteq> S" "missing_reply base img S = (0, 0)"
  | k where "k < nchunks img" "k \<notin> S" "missing_reply base img S = (base + of_nat (k * 1440), of_nat (length (chunk img k)))"
proof (cases "{..<nchunks img} \<subseteq> S")
  case True
  then show ?thesis using that(1) by (simp add: missing_reply_def)
next
  case False
  then obtain j where j: "j < nchunks img" "j \<notin> S" by auto
  let ?k = "LEAST k. k \<notin> S"
  have "?k \<notin> S" by (rule LeastI [of "\<lambda>k. k \<notin> S", OF j(2)])
  moreover have "?k \<le> j" by (rule Least_le [of "\<lambda>k. k \<notin> S", OF j(2)])
  ultimately show ?thesis using that(2) [of ?k] False j by (simp add: missing_reply_def Let_def)
qed

text \<open>One round of the recovery loop for a chunk the last answer named.\<close>

lemma recover_missing:
  assumes len: "length img \<le> 3626067" and k: "k < nchunks img"
    and a: "rd32 buffer 4 = base + of_nat (k * 1440)" "rd32 buffer 8 = of_nat (length (chunk img k))"
  shows "\<exists>fd'. recover ops img base (of_nat (length img)) fd n buffer h =
    (case send_cmd ops (ascii ''PBIN'') (base + of_nat (k * 1440)) (of_nat (length (chunk img k))) (chunk img k) h of (_, h) \<Rightarrow>
       Option.bind (send_and_wait ops (ascii ''DBIN'') 0 0 [] buffer (ascii ''DBIN'') h) (\<lambda>(ok, buffer, h).
         if ok then recover ops img base (of_nat (length img)) fd' n buffer h
         else if n + 1 > 3 then Some (False, h)
         else Option.bind (drain_rx_buffer ops (NET_PACKET_TIMEOUT_USEC * 2) h) (\<lambda>h.
                Option.bind (send_and_wait ops (ascii ''LBIN'') base (of_nat (length img)) [] buffer (ascii ''LBIN'') h)
                  (\<lambda>(ok, buffer, h). Some (ok, h)))))"
proof -
  note b = chunk_bounds [OF k len]
  have nz: "(of_nat (length (chunk img k)) :: u32) \<noteq> 0" using b(1,5) by (metis less_irrefl unat_0)
  have off: "base + of_nat (k * 1440) - base = (of_nat (k * 1440) :: u32)" by simp
  have le: "\<not> (of_nat (k * 1440) + of_nat (length (chunk img k)) :: u32) > of_nat (length img)"
    unfolding word_less_nat_alt of_nat_add [symmetric] using b(3,6) len by (subst unat_of_nat32) linarith+
  have inb: "\<not> unat (of_nat (k * 1440) :: u32) + min (unat (of_nat (length (chunk img k)) :: u32)) 2033 > length img"
    unfolding b(4,5) using b(3) by simp
  have dat: "take (unat (of_nat (length (chunk img k)) :: u32)) (drop (unat (of_nat (k * 1440) :: u32)) img) = chunk img k"
    unfolding b(4,5) by (rule chunk_slice)
  show ?thesis
    by (rule exI, subst recover.simps, unfold Let_def a off dat if_not_P [OF nz] if_not_P [OF le] if_not_P [OF inb], rule refl)
qed

lemma recover_link:
  assumes ok: "uploadable p hh img"
  shows "uploading p base img st0 S w \<Longrightarrow> rd32 buffer 4 = fst (missing_reply base img S) \<Longrightarrow> rd32 buffer 8 = snd (missing_reply base img S) \<Longrightarrow>
    \<exists>d' w' S'. recover (link_ops (link_send p hh r)) img base (of_nat (length img)) fd n buffer (hst h d w) = Some (True, hst h d' w')
      \<and> uploading p base img st0 S' w' \<and> {..<nchunks img} \<subseteq> S'"
proof (induction "length (lost w) + card ({..<nchunks img} - S)" arbitrary: S w d fd buffer rule: less_induct)
  case less
  have len: "length img \<le> 3626067" using ok by (simp add: uploadable_def)
  show ?case
  proof (rule missing_cases [OF len, of S base])
    assume "{..<nchunks img} \<subseteq> S" "missing_reply base img S = (0, 0)"
    then show ?thesis using less.prems by (subst recover.simps) auto
  next
    fix k assume k: "k < nchunks img" "k \<notin> S" and m: "missing_reply base img S = (base + of_nat (k * 1440), of_nat (length (chunk img k)))"
    have a: "rd32 buffer 4 = base + of_nat (k * 1440)" "rd32 buffer 8 = of_nat (length (chunk img k))" using less.prems m by simp_all
    obtain d1 w1 S1 where s: "send_cmd (link_ops (link_send p hh r)) (ascii ''PBIN'') (base + of_nat (k * 1440)) (of_nat (length (chunk img k))) (chunk img k) (hst h d w)
        = (True, hst h d1 w1)" "uploading p base img st0 S1 w1" "S \<subseteq> S1" "lost w1 = tl (lost w)" "lost w = [] \<longrightarrow> k \<in> S1"
      using send_part_link [OF less.prems(1) ok k(1)] by blast
    obtain d2 w2 buf2 where t: "send_and_wait (link_ops (link_send p hh r)) (ascii ''DBIN'') 0 0 [] buffer (ascii ''DBIN'') (hst h d1 w1) = Some (True, buf2, hst h d2 w2)"
        "uploading p base img st0 S1 w2" "lost w2 = lost w1" "rd32 buf2 4 = fst (missing_reply base img S1)" "rd32 buf2 8 = snd (missing_reply base img S1)"
      using send_and_wait_donebin [OF s(2) ok] by blast
    have "card ({..<nchunks img} - S1) \<le> card ({..<nchunks img} - S)" by (intro card_mono) (use s(3) in auto)
    moreover have "card ({..<nchunks img} - S1) < card ({..<nchunks img} - S)" if "lost w = []"
      by (rule psubset_card_mono) (use that s(3,5) k in auto)
    ultimately have "length (lost w2) + card ({..<nchunks img} - S1) < length (lost w) + card ({..<nchunks img} - S)"
      using s(4) t(3) by (cases "lost w") auto
    from less.hyps [OF this t(2,4,5)] have IH: "\<exists>d' w' S'. recover (link_ops (link_send p hh r)) img base (of_nat (length img)) fd' n buf2 (hst h d2 w2)
        = Some (True, hst h d' w') \<and> uploading p base img st0 S' w' \<and> {..<nchunks img} \<subseteq> S'" for fd'
      by blast
    show ?thesis using recover_missing [OF len k(1) a, of "link_ops (link_send p hh r)" fd n "hst h d w"] IH s(1) t(1) by auto
  qed
qed

lemma hst_self: "h = hst h (h_dedup h) (world h)"
  by (simp add: hst_def)

text \<open>The exchange after the data has been streamed: \<open>DONEBIN\<close> and the recovery loop complete the image.\<close>

lemma upload_tail_link:
  assumes "uploading p base img st0 S2 w2" and ok: "uploadable p hh img"
  shows "\<exists>h'. (do {
        h \<leftarrow> (if g then busy_wait (link_ops (link_send p hh r)) usec (hst h d2 w2) else Some (hst h d2 w2));
        (ok, buffer, h) \<leftarrow> send_and_wait (link_ops (link_send p hh r)) (ascii ''DBIN'') 0 0 [] b1 (ascii ''DBIN'') h;
        if ok then recover (link_ops (link_send p hh r)) img base (of_nat (length img)) fd 0 buffer h else F buffer h }) = Some (True, h')
      \<and> mem_read (mem (cl (world h'))) base (length img) = img
      \<and> (\<exists>d' w' S'. h' = hst h d' w' \<and> uploading p base img st0 S' w')"
proof -
  let ?ops = "link_ops (link_send p hh r)"
  obtain w3 where w3: "(if g then busy_wait ?ops usec (hst h d2 w2) else Some (hst h d2 w2)) = Some (hst h d2 w3)"
      "uploading p base img st0 S2 w3"
    using busy_wait_link [of "link_send p hh r" usec h d2 w2] assms(1) by (cases g) auto
  obtain d4 w4 b4 where 4: "send_and_wait ?ops (ascii ''DBIN'') 0 0 [] b1 (ascii ''DBIN'') (hst h d2 w3) = Some (True, b4, hst h d4 w4)"
      "uploading p base img st0 S2 w4" "rd32 b4 4 = fst (missing_reply base img S2)" "rd32 b4 8 = snd (missing_reply base img S2)"
    using send_and_wait_donebin [OF w3(2) ok] by blast
  obtain d5 w5 S5 where 5: "recover ?ops img base (of_nat (length img)) fd 0 b4 (hst h d4 w4) = Some (True, hst h d5 w5)"
      "uploading p base img st0 S5 w5" "{..<nchunks img} \<subseteq> S5"
    using recover_link [OF ok 4(2-4)] by blast
  have "mem_read (mem (cl w5)) base (length img) = img" using upload_inv_complete 5(2,3) by (auto simp: uploading_def)
  moreover have "\<exists>d' w' S'. hst h d5 w5 = hst h d' w' \<and> uploading p base img st0 S' w'" using 5(2) by blast
  ultimately show ?thesis using w3(1) 4(1) 5(1) by auto
qed

lemma send_data_once_link:
  fixes h :: "link host"
  assumes "\<not> legacy_mode h" and ok: "uploadable p hh img" and w: "rxq (world h) = []" "\<not> crashed (world h)"
    "2 \<le> DCTOOL_MAJOR (cl (world h))" "14 \<le> length (pkt_buf (cl (world h)))"
  shows "\<exists>h'. network_send_data_once (link_ops (link_send p hh r)) img base (of_nat (length img)) h = Some (True, h')
    \<and> mem_read (mem (cl (world h'))) base (length img) = img
    \<and> (\<exists>d' w' S'. h' = hst h d' w' \<and> uploading p base img (cl (world h)) S' w')"
proof -
  let ?ops = "link_ops (link_send p hh r)" and ?sz = "of_nat (length img) :: u32"
  have len: "length img \<le> 3626067" "img \<noteq> []" using ok by (simp_all add: uploadable_def)
  have u: "unat ?sz = length img" using len by (intro unat_of_nat32) linarith
  then have nz: "?sz \<noteq> 0" using len(2) by (metis length_0_conv unat_0)
  obtain d1 w1 b1 where 1: "send_and_wait ?ops (ascii ''LBIN'') base ?sz [] (stack_bytes ?ops) (ascii ''LBIN'') h = Some (True, b1, hst h d1 w1)"
      "uploading p base img (cl (world h)) {} w1"
    using send_and_wait_loadbin [OF w ok, of r base "stack_bytes ?ops" h "h_dedup h"] hst_self [of h] by auto
  define af where "af = (\<not> adapter_is_spi (h_adapter h) \<and> \<not> is_wii_loader h \<and> \<not> is_ps2_loader h
      \<and> (?sz + 1440 - 1) div 1440 \<le> AUTO_FAST_CHUNK_THRESHOLD)"
  obtain d2 w2 S2 where 2: "stream_parts ?ops img base ?sz 1440 (if af then 0 else rx_fifo_delay h) 0 0 (hst h d1 w1) = Some (hst h d2 w2)"
      "uploading p base img (cl (world h)) S2 w2"
    using stream_parts_link [OF ok, of 0 base "cl (world h)" "{}" w1 r "if af then 0 else rx_fifo_delay h" 0 h d1] 1(2) by auto
  have ps: "payload_size (hst h d1 w1) = 1440" using assms(1) by (simp add: payload_size_def)
  have fm: "fast_mode (hst h d2 w2) = fast_mode h" by simp
  have *: "(\<not> adapter_is_spi (h_adapter (hst h d1 w1)) \<and> \<not> is_wii_loader (hst h d1 w1) \<and> \<not> is_ps2_loader (hst h d1 w1)
      \<and> (?sz + 1440 - 1) div 1440 \<le> AUTO_FAST_CHUNK_THRESHOLD) = af" by (simp add: af_def)
  show ?thesis
    unfolding network_send_data_once_def Let_def if_not_P [OF nz] 1(1) Option.bind.bind_lunit prod.case if_not_P [OF not_not [THEN iffD2, OF TrueI]]
      ps * hst_simps(9) 2(1) fm
    by (rule upload_tail_link [OF 2(2) ok])
qed

lemma network_send_data_link:
  fixes h :: "link host"
  assumes "h_adapter h \<noteq> 0" "\<not> adapter_is_w5500 (h_adapter h) \<or> length img \<le> 32768" "\<not> legacy_mode h"
    and "uploadable p hh img" "rxq (world h) = []" "\<not> crashed (world h)"
    and "2 \<le> DCTOOL_MAJOR (cl (world h))" "14 \<le> length (pkt_buf (cl (world h)))"
  shows "\<exists>h'. network_send_data (link_ops (link_send p hh r)) img base (of_nat (length img)) h = Some (True, h')
    \<and> mem_read (mem (cl (world h'))) base (length img) = img
    \<and> (\<exists>d' w' S'. h' = hst h d' w' \<and> uploading p base img (cl (world h)) S' w')"
proof -
  have len: "length img \<le> 3626067" "img \<noteq> []" using assms(4) by (simp_all add: uploadable_def)
  have u: "unat (of_nat (length img) :: u32) = length img" using len by (intro unat_of_nat32) linarith
  then have "(of_nat (length img) :: u32) \<noteq> 0" using len(2) by (metis length_0_conv unat_0)
  moreover have "\<not> adapter_is_w5500 (h_adapter h) \<or> (of_nat (length img) :: u32) \<le> W5500_UPLOAD_WINDOW_SIZE"
    using assms(2) u by (simp add: word_le_nat_alt W5500_UPLOAD_WINDOW_SIZE_def)
  ultimately show ?thesis using send_data_once_link [OF assms(3-8), of r base] assms(1)
    by (simp add: network_send_data_def prepare_comms_def)
qed

lemma rd32_answer: "rd32 ([0, 0, 0, 0] @ be32 a @ be32 b) 4 = a" "rd32 ([0, 0, 0, 0] @ be32 a @ be32 b) 8 = b"
  by (simp_all add: rd32_def be32_def get_be32_be32)

section \<open>Properties\<close>

text \<open>
  C1. Uploading through a lossy link. The host's \<open>network_send_data\<close> runs against the console's
  own command handlers; any finite number of the datagrams that carry data is lost, in any pattern, first
  transmissions and retransmissions alike. The call returns, reports success, the console's memory then
  holds the image at the load address, and the memory outside the image is unchanged. (A version-2 host with the 1440-byte payload, an image of at most 3626067 bytes that fits the
  console's RAM, and an adapter that does not split the upload into windows.)
\<close>

theorem upload_survives_losses:
  fixes h :: "link host"
  assumes "h_adapter h \<noteq> 0" "\<not> adapter_is_w5500 (h_adapter h) \<or> length img \<le> 32768" "\<not> legacy_mode h"
    and "uploadable p hh img" "rxq (world h) = []" "\<not> crashed (world h)"
    and "2 \<le> DCTOOL_MAJOR (cl (world h))" "14 \<le> length (pkt_buf (cl (world h)))"
  shows "\<exists>h'. network_send_data (link_ops (link_send p hh r)) img base (of_nat (length img)) h = Some (True, h')
    \<and> mem_read (mem (cl (world h'))) base (length img) = img \<and> \<not> crashed (world h')
    \<and> (\<forall>a. outside base (length img) a \<longrightarrow> mem (cl (world h')) a = mem (cl (world h)) a)"
  using network_send_data_link [OF assms, of r base] by (fastforce simp: uploading_def)

definition example_host :: "bool list \<Rightarrow> link host" where
  "example_host ls = \<lparr>global_socket = 3, socket_fd = 3, socket_legacy = - 1, h_adapter = 0x100, legacy_mode = False, force_legacy = False,
     fast_mode = False, rx_fifo_delay = 1800, rx_fifo_delay_count = 10, remote_version_string = ascii ''dc-load-ip 3.1.0'',
     remote_capabilities = 0, kostool_capabilities = 0, prog_argc = 0, prog_argv_data = [], h_dedup = dedup_init,
     world = \<lparr>cl = example_client, rxq = [], clk = 0, lost = ls, crashed = False\<rparr>\<rparr>"

theorem upload_survives_losses_witness:
  "\<exists>h'. network_send_data (link_ops (link_send example_platform example_headers [])) [1, 2, 3] 0x8c010000 3 (example_host [True, False, True]) = Some (True, h')
    \<and> mem_read (mem (cl (world h'))) 0x8c010000 3 = [1, 2, 3]"
proof -
  have "uploadable example_platform example_headers [1, 2, 3]" by (simp add: uploadable_def addressed_def example_defs)
  moreover have "2 \<le> DCTOOL_MAJOR (cl (world (example_host [True, False, True])))"
    by (simp add: example_host_def DCTOOL_MAJOR_def example_defs)
  ultimately show ?thesis
    using upload_survives_losses [of "example_host [True, False, True]" "[1, 2, 3]" example_platform example_headers "[]" "0x8c010000"]
    by (simp add: example_host_def adapter_is_w5500_def example_client_def client_init_def TX_CAPACITY_def) (auto simp: numeral_3_eq_3)
qed

text \<open>
  A command that is never answered is transmitted exactly \<open>MAX_CMD_RETRIES\<close> times and then reported as
  failed: \<open>send_and_wait\<close> always returns, on any link whose sending side does what it likes but never queues an
  answer.
\<close>

theorem unanswered_command_gives_up:
  fixes h :: "link host"
  assumes "clockless f" and "\<forall>b w. rxq (f b w) = rxq w" and "rxq (world h) = []"
  shows "\<exists>h' c. send_and_wait (link_ops f) cmd a s dat buffer e h = Some (False, buffer, h')
    \<and> world h' = (((f (wire (is_wii_loader h) (cmd @ be32 a @ be32 s @ take 2033 dat))) ^^ MAX_CMD_RETRIES) (world h))\<lparr>clk := c\<rparr>"
proof -
  let ?g = "f (wire (is_wii_loader h) (cmd @ be32 a @ be32 s @ take 2033 dat))"
  have "rxq ((?g ^^ j) (world h)) = []" for j using assms(2,3) by (induction j) simp_all
  from ack_attempts_silent [OF assms(1) this, where n = MAX_CMD_RETRIES and e = e and buffer = buffer and d = "h_dedup h"]
  show ?thesis unfolding send_and_wait_def using hst_self [of h] by (metis hst_simps(1))
qed

theorem unanswered_command_gives_up_witness:
  "\<exists>h'. send_and_wait (link_ops (\<lambda>b w. w\<lparr>lost := True # lost w\<rparr>)) (ascii ''DBIN'') 0 0 [] [] (ascii ''DBIN'') (example_host []) = Some (False, [], h')
    \<and> length (lost (world h')) = 20"
proof -
  let ?f = "\<lambda>(b :: bytes) w. w\<lparr>lost := True # lost w\<rparr>"
  have c: "clockless ?f" by (simp add: clockless_def)
  have n: "length (lost (((\<lambda>w :: link. w\<lparr>lost := True # lost w\<rparr>) ^^ n) w)) = n + length (lost w)" for n w
    by (induction n) simp_all
  show ?thesis using unanswered_command_gives_up [OF c, of "example_host []" "ascii ''DBIN''" 0 0 "[]" "[]" "ascii ''DBIN''"] n [of 20]
    by (auto simp: example_host_def MAX_CMD_RETRIES_def)
qed

text \<open>
  C36. The recovery loop can report a successful upload although nothing it sent arrived. The last
  \<open>DONEBIN\<close> answer names a missing chunk; from then on only \<open>LOADBIN\<close> datagrams reach the console. The loop gives up on \<open>DONEBIN\<close>, starts
  over with an accepted \<open>LOADBIN\<close>, leaves the loop and returns success (the comment there says that the
  caller is left to retry): the console's memory is unchanged and the console counts every chunk as missing.
\<close>

theorem recovery_reports_false_success:
  fixes h :: "link host"
  assumes "uploadable p hh img" "uploading p base img st0 S (world h)" "\<not> {..<nchunks img} \<subseteq> S"
    and "rd32 buffer 4 = fst (missing_reply base img S)" "rd32 buffer 8 = snd (missing_reply base img S)"
  shows "\<exists>h'. recover (link_ops (\<lambda>b w. if take 4 b = ascii ''LBIN'' then link_send p hh r b w else w)) img base (of_nat (length img)) fd 0 buffer h
      = Some (True, h') \<and> mem (cl (world h')) = mem (cl (world h)) \<and> upload_inv p base img {} (cl (world h'))"
proof -
  let ?f = "\<lambda>b w. if take 4 b = ascii ''LBIN'' then link_send p hh r b w else w" and ?sz = "of_nat (length img) :: u32"
    and ?n = "\<lambda>k. of_nat (length (chunk img k)) :: u32"
  have len: "length img \<le> 3626067" using assms(1) by (simp add: uploadable_def)
  have u: "uploading p base img st0 S (world h)" by (rule assms(2))
  have cl: "clockless ?f" using link_send_clockless [of p hh r] by (simp add: clockless_def)
  obtain k where k: "k < nchunks img" "missing_reply base img S = (base + of_nat (k * 1440), of_nat (length (chunk img k)))"
    using missing_cases [OF len, of S base] assms(3) by metis
  have a: "rd32 buffer 4 = base + of_nat (k * 1440)" "rd32 buffer 8 = of_nat (length (chunk img k))" using assms(4,5) k by simp_all
  obtain d1 where 1: "send_cmd (link_ops ?f) (ascii ''PBIN'') (base + of_nat (k * 1440)) (?n k) (chunk img k) h = (True, hst h d1 (world h))"
    using send_cmd_link [of ?f "ascii ''PBIN''" "base + of_nat (k * 1440)" "?n k" "chunk img k" h "h_dedup h" "world h"] hst_self [of h]
      wire_append [of "is_wii_loader h" "ascii ''PBIN'' @ be32 (base + of_nat (k * 1440)) @ be32 (?n k) @ take 2033 (chunk img k)"]
    by (auto simp: ascii_def)
  obtain d2 c2 where 2: "send_and_wait (link_ops ?f) (ascii ''DBIN'') 0 0 [] buffer (ascii ''DBIN'') (hst h d1 (world h))
      = Some (False, buffer, hst h d2 ((world h)\<lparr>clk := c2\<rparr>))"
    using send_and_wait_ignored [of ?f "ascii ''DBIN''" 0 0 "world h" buffer "ascii ''DBIN''" h d1] u cl
    by (auto simp: ascii_def uploading_def)
  obtain c3 where 3: "drain_rx_buffer (link_ops ?f) (NET_PACKET_TIMEOUT_USEC * 2) (hst h d2 ((world h)\<lparr>clk := c2\<rparr>))
      = Some (hst h d2 ((world h)\<lparr>clk := c3, rxq := []\<rparr>))"
    using drain_loop_link [of ?f _ "NET_PACKET_TIMEOUT_USEC * 2" h d2 "(world h)\<lparr>clk := c2 + 1\<rparr>"] u
    by (fastforce simp: drain_rx_buffer_def uploading_def)
  let ?w = "(world h)\<lparr>clk := c3, rxq := []\<rparr>" and ?b = "ascii ''LBIN'' @ be32 base @ be32 ?sz"
  obtain st' where st': "deliver p hh r ?b ?w = ?w\<lparr>cl := st', rxq := [?b]\<rparr>" "upload_inv p base img {} st'" "mem st' = mem (cl (world h))"
    using deliver_loadbin [of p hh ?w img r base] u assms(1) by (auto simp: uploadable_def uploading_def upload_inv_def)
  have l: "?f ?b ?w = ?w\<lparr>cl := st', rxq := [?b]\<rparr>" using st'(1) by (simp add: link_send_def ascii_def)
  have "command_ack_matches (fill ?b buffer) 12 (ascii ''LBIN'') base ?sz"
    by (simp add: command_ack_matches_def fill_def ascii_def rd32_def be32_def nth_append get_be32_be32)
  then obtain d4 c4 where 4: "send_and_wait (link_ops ?f) (ascii ''LBIN'') base ?sz [] buffer (ascii ''LBIN'') (hst h d2 ?w)
      = Some (True, fill ?b buffer, hst h d4 (?w\<lparr>cl := st', rxq := [?b], clk := c4, rxq := []\<rparr>))"
    using send_and_wait_link [where f = ?f, OF l, of ?b buffer "ascii ''LBIN''" h d2] by (auto simp: ascii_def)
  show ?thesis using recover_missing [OF len k(1) a, of "link_ops ?f" fd 0 h] 1 2 3 4 st'(2,3) by auto
qed

theorem recovery_reports_false_success_witness:
  "\<exists>h buffer h' fd. recover (link_ops (\<lambda>b w. if take 4 b = ascii ''LBIN'' then link_send example_platform example_headers [] b w else w))
      [1, 2, 3] 0x8c010000 3 fd 0 buffer h = Some (True, h') \<and> mem_read (mem (cl (world h'))) 0x8c010000 3 = [0, 0, 0]"
proof -
  let ?w = "world (example_host [])" and ?img = "[1, 2, 3] :: bytes"
  have ok: "uploadable example_platform example_headers ?img" by (simp add: uploadable_def addressed_def example_defs)
  have "2 \<le> DCTOOL_MAJOR (cl ?w)" by (simp add: example_host_def DCTOOL_MAJOR_def example_defs)
  then obtain st' where st': "upload_inv example_platform 0x8c010000 ?img {} st'" "mem st' = mem (cl ?w)"
    using deliver_loadbin [of example_platform example_headers ?w ?img "[]" "0x8c010000"] ok
    by (auto simp: uploadable_def example_host_def example_client_def client_init_def TX_CAPACITY_def)
  let ?h = "hst (example_host []) dedup_init (?w\<lparr>cl := st'\<rparr>)" and ?m = "missing_reply 0x8c010000 ?img {}"
  have u: "uploading example_platform 0x8c010000 ?img st' {} (world ?h)" using st' by (simp add: uploading_def example_host_def)
  have n: "\<not> {..<nchunks ?img} \<subseteq> {}" by (simp add: nchunks_def lessThan_empty_iff)
  note b = rd32_answer(1) [of "fst ?m" "snd ?m"] rd32_answer(2) [of "fst ?m" "snd ?m"]
  obtain h' where h': "recover (link_ops (\<lambda>b w. if take 4 b = ascii ''LBIN'' then link_send example_platform example_headers [] b w else w))
      ?img 0x8c010000 (of_nat (length ?img)) 0 0 ([0, 0, 0, 0] @ be32 (fst ?m) @ be32 (snd ?m)) ?h = Some (True, h')" "mem (cl (world h')) = mem (cl (world ?h))"
    using recovery_reports_false_success [OF ok u n b, of "[]" 0] by blast
  have "mem_read (mem (cl (world h'))) 0x8c010000 3 = [0, 0, 0]"
    unfolding h'(2) using st'(2) by (simp add: example_host_def example_client_def client_init_def mem_read_def numeral_3_eq_3)
  then show ?thesis using h'(1) by auto
qed

text \<open>
  The check of the miss range wraps around. A \<open>DONEBIN\<close> answer naming an address below the
  load address passes \<open>miss_off + miss_size > size\<close> in 32-bit arithmetic when the sum wraps, and the
  retransmission is then read from outside the image.
\<close>

theorem miss_range_check_wraps:
  assumes "rd32 buffer 4 = dest - 16" "rd32 buffer 8 = 32" "16 \<le> sz" "length dat = unat sz"
  shows "recover ops dat dest sz fd n buffer h = None"
proof -
  have "unat sz < 4294967296" by (rule unat_lt32)
  then have "length dat < 4294967280 + 32" using assms(4) by linarith
  then show ?thesis using assms(1-3) by (subst recover.simps) (simp add: Let_def not_less)
qed

theorem miss_range_check_wraps_witness:
  "recover (link_ops (\<lambda>b w. w)) (replicate 20 7) 0x8c010000 20 0 0 ([0, 0, 0, 0] @ be32 0x8c00fff0 @ be32 32) (example_host []) = None"
proof -
  have "rd32 ([0, 0, 0, 0] @ be32 0x8c00fff0 @ be32 32) 4 = (0x8c010000 - 16 :: u32)" by (subst rd32_answer) simp
  moreover have "rd32 ([0, 0, 0, 0] @ be32 0x8c00fff0 @ be32 32) 8 = 32" by (rule rd32_answer)
  ultimately show ?thesis by (rule miss_range_check_wraps) simp_all
qed

end
