(* ===== verification/Scramble.thy ===== *)
theory Scramble
  imports Kos_Base "HOL-Library.Multiset" "HOL-Library.Monad_Syntax"
begin

text \<open>
  \<^verbatim>\<open>host/src/binary/scramble.c\<close>: the order in which a Dreamcast boot file is stored. The program shuffles an
  index table with a small linear congruential generator, once for every chunk, and copies 32-byte slices to
  the places the table names. \<open>memcpy\<close> is \<open>fetch\<close> followed by \<open>store\<close>; both are \<open>None\<close> outside their
  buffers. The main theorem says that the whole routine only rearranges bytes, in a way fixed by
  the size of the file.
\<close>

definition SCRAMBLE_MAXCHUNK :: nat where "SCRAMBLE_MAXCHUNK = 2048 * 1024"
definition SCRAMBLE_SLICE :: nat where "SCRAMBLE_SLICE = 32"

definition scramble_next :: "u32 \<Rightarrow> u32 \<times> u32" where
  "scramble_next seed = (let seed = (seed * 2109 + 9273) AND 0x7fff in ((seed + 0xc000) AND 0xffff, seed))"

definition fetch :: "bytes \<Rightarrow> nat \<Rightarrow> nat \<Rightarrow> bytes option" where
  "fetch buf off n = (if off + n \<le> length buf then Some (take n (drop off buf)) else None)"

definition store :: "bytes \<Rightarrow> nat \<Rightarrow> bytes \<Rightarrow> bytes option" where
  "store buf off bs = (if off + length bs \<le> length buf then Some (take off buf @ bs @ drop (off + length bs) buf) else None)"

text \<open>One step of the shuffle: the swapped table and the new seed.\<close>

definition shuffle_step :: "nat \<Rightarrow> nat list \<Rightarrow> u32 \<Rightarrow> nat list \<times> u32" where
  "shuffle_step i idx seed =
     (let (r, seed) = scramble_next seed;
          x = unat (drop_bit 16 (r * of_nat i));
          tmp = idx ! i
      in (idx[i := idx ! x, x := tmp], seed))"

fun descramble_slices :: "bytes \<Rightarrow> nat \<Rightarrow> nat \<Rightarrow> nat list \<Rightarrow> u32 \<Rightarrow> nat \<Rightarrow> bytes \<Rightarrow> (u32 \<times> nat \<times> bytes) option" where
  "descramble_slices inp base 0 idx seed src out = Some (seed, src, out)"
| "descramble_slices inp base (Suc i) idx seed src out =
     (if length idx \<le> i then None
      else let (idx, seed) = shuffle_step i idx seed in do {
        bs \<leftarrow> fetch inp src SCRAMBLE_SLICE;
        out \<leftarrow> store out (base + idx ! i * SCRAMBLE_SLICE) bs;
        descramble_slices inp base i idx seed (src + SCRAMBLE_SLICE) out
      })"

function descramble_chunks ::
  "bytes \<Rightarrow> nat \<Rightarrow> u32 \<Rightarrow> nat \<Rightarrow> nat \<Rightarrow> nat \<Rightarrow> bytes \<Rightarrow> (nat \<times> nat \<times> nat \<times> bytes) option" where
  "descramble_chunks inp chunk seed remaining src base out =
     (if chunk < SCRAMBLE_SLICE then Some (remaining, src, base, out)
      else if remaining \<ge> chunk then do {
        (seed, src, out) \<leftarrow> descramble_slices inp base (chunk div SCRAMBLE_SLICE) [0..<chunk div SCRAMBLE_SLICE] seed src out;
        descramble_chunks inp chunk seed (remaining - chunk) src (base + chunk) out
      }
      else descramble_chunks inp (chunk div 2) seed remaining src base out)"
  by pat_completeness auto
termination
  by (relation "measure (\<lambda>(inp, chunk, seed, remaining, src, base, out). remaining + chunk)")
     (auto simp: SCRAMBLE_SLICE_def)

declare descramble_chunks.simps [simp del]

text \<open>The first argument says whether the index table could be allocated.\<close>

definition dc_descramble :: "bool \<Rightarrow> bytes \<Rightarrow> bytes \<Rightarrow> nat \<Rightarrow> (int \<times> bytes) option" where
  "dc_descramble idx_ok inp out sz =
     (if \<not> idx_ok then Some (- 1, out)
      else do {
        (remaining, src, base, out) \<leftarrow> descramble_chunks inp SCRAMBLE_MAXCHUNK (of_nat sz AND 0xffff) sz 0 0 out;
        if remaining \<noteq> 0 then do {
          bs \<leftarrow> fetch inp src remaining;
          out \<leftarrow> store out base bs;
          Some (0, out)
        }
        else Some (0, out)
      })"

section \<open>Writes at a list of places\<close>

definition write_at :: "nat list \<Rightarrow> 'a list \<Rightarrow> 'a list \<Rightarrow> 'a list" where
  "write_at ts bs out = fold (\<lambda>(t, b) out. out[t := b]) (zip ts bs) out"

lemma write_at_simps [simp]:
  "write_at [] bs out = out" "write_at (t # ts) (b # bs) out = write_at ts bs (out[t := b])"
  by (simp_all add: write_at_def)

lemma length_write_at [simp]: "length (write_at ts bs out) = length out"
proof (induction ts arbitrary: bs out)
  case (Cons t ts)
  then show ?case by (cases bs) (simp_all add: write_at_def)
qed simp

lemma write_at_append:
  "length ts = length bs \<Longrightarrow> write_at (ts @ us) (bs @ cs) out = write_at us cs (write_at ts bs out)"
  by (simp add: write_at_def)

lemma write_at_other: "p \<notin> set ts \<Longrightarrow> write_at ts bs out ! p = out ! p"
proof (induction ts arbitrary: bs out)
  case (Cons t ts)
  then show ?case by (cases bs) (simp_all add: write_at_def)
qed simp

lemma write_at_nth:
  "distinct ts \<Longrightarrow> set ts \<subseteq> {..<length out} \<Longrightarrow> length bs = length ts \<Longrightarrow> i < length ts
    \<Longrightarrow> write_at ts bs out ! (ts ! i) = bs ! i"
proof (induction ts arbitrary: bs out i)
  case (Cons t ts)
  then obtain b bs' where "bs = b # bs'" by (cases bs) auto
  with Cons show ?case by (cases i) (simp_all add: write_at_other)
qed simp

lemma write_at_interval:
  "off + length bs \<le> length out \<Longrightarrow> write_at [off..<off + length bs] bs out = take off out @ bs @ drop (off + length bs) out"
proof (induction bs arbitrary: off out)
  case (Cons b bs)
  have "write_at [off..<off + length (b # bs)] (b # bs) out = write_at [Suc off..<Suc off + length bs] bs (out[off := b])"
    by (simp add: upt_conv_Cons del: upt_Suc)
  also have "\<dots> = take (Suc off) (out[off := b]) @ bs @ drop (Suc off + length bs) (out[off := b])"
    using Cons.prems by (intro Cons.IH) simp
  finally show ?case using Cons.prems by (simp add: take_Suc_conv_app_nth)
qed simp

lemma store_write_at:
  "off + length bs \<le> length out \<Longrightarrow> store out off bs = Some (write_at [off..<off + length bs] bs out)"
  by (simp add: store_def write_at_interval)

section \<open>The order of the slices\<close>

text \<open>The places to which the inner loop copies, in the order of the copies, and its seed afterwards.\<close>

fun slice_order :: "nat \<Rightarrow> nat list \<Rightarrow> u32 \<Rightarrow> nat list" where
  "slice_order 0 idx seed = []"
| "slice_order (Suc i) idx seed = (let (idx, seed) = shuffle_step i idx seed in idx ! i # slice_order i idx seed)"

fun seed_after :: "nat \<Rightarrow> u32 \<Rightarrow> u32" where
  "seed_after 0 seed = seed"
| "seed_after (Suc i) seed = seed_after i (snd (scramble_next seed))"

lemma snd_shuffle_step [simp]: "snd (shuffle_step i idx seed) = snd (scramble_next seed)"
  by (simp add: shuffle_step_def split_beta Let_def)

lemma length_shuffle_step [simp]: "length (fst (shuffle_step i idx seed)) = length idx"
  by (simp add: shuffle_step_def split_beta Let_def)

lemma scramble_next_lt: "unat (fst (scramble_next seed)) < 65536"
proof -
  have "fst (scramble_next seed) \<le> 0xffff"
    unfolding scramble_next_def Let_def fst_conv by (rule word_and_le1)
  then have "unat (fst (scramble_next seed)) \<le> unat (0xffff :: u32)" by (simp only: word_le_nat_alt)
  then show ?thesis by simp
qed

lemma shuffle_index_le:
  assumes "i < 65536"
  shows "unat (drop_bit 16 (fst (scramble_next seed) * of_nat i)) \<le> i"
proof -
  let ?r = "fst (scramble_next seed)"
  have r: "unat ?r \<le> 65535" using scramble_next_lt [of seed] by simp
  have u: "unat (of_nat i :: u32) = i" using assms by (simp add: unat_of_nat32)
  have "unat ?r * i \<le> 65535 * 65535" using r assms by (intro mult_mono) simp_all
  then have p: "unat (?r * of_nat i) = unat ?r * i" using u by (simp add: unat_mult_lt)
  have "unat (drop_bit 16 (?r * of_nat i)) = unat ?r * i div 65536"
    by (simp add: drop_bit_eq_div unat_div p)
  also have "\<dots> \<le> 65536 * i div 65536" using r by (intro div_le_mono mult_le_mono) simp_all
  finally show ?thesis by simp
qed

lemma mset_shuffle_step:
  assumes "i < length idx" "i < 65536"
  shows "mset (take (Suc i) (fst (shuffle_step i idx seed))) = mset (take (Suc i) idx)"
proof -
  define x where "x = unat (drop_bit 16 (fst (scramble_next seed) * of_nat i))"
  have x: "x \<le> i" unfolding x_def by (rule shuffle_index_le) fact
  have e: "fst (shuffle_step i idx seed) = idx[i := idx ! x, x := idx ! i]"
    by (simp add: shuffle_step_def split_beta Let_def x_def)
  have "take (Suc i) (idx[i := idx ! x, x := idx ! i])
      = (take (Suc i) idx)[i := take (Suc i) idx ! x, x := take (Suc i) idx ! i]"
    using x assms by (simp add: take_update_swap)
  then show ?thesis using mset_swap [of x "take (Suc i) idx" i] x assms e by simp
qed

lemma mset_slice_order:
  "k \<le> length idx \<Longrightarrow> k \<le> 65536 \<Longrightarrow> mset (slice_order k idx seed) = mset (take k idx)"
proof (induction k arbitrary: idx seed)
  case (Suc i)
  obtain idx' seed' where s: "shuffle_step i idx seed = (idx', seed')" by fastforce
  then have l: "length idx' = length idx" and m: "mset (take (Suc i) idx') = mset (take (Suc i) idx)"
    using length_shuffle_step [of i idx seed] mset_shuffle_step [of i idx seed] Suc.prems by simp_all
  have "mset (slice_order (Suc i) idx seed) = add_mset (idx' ! i) (mset (take i idx'))"
    using Suc l s by simp
  also have "\<dots> = mset (take (Suc i) idx')" using Suc.prems l by (simp add: take_Suc_conv_app_nth)
  finally show ?case using m by simp
qed simp

lemma length_slice_order [simp]: "length (slice_order k idx seed) = k"
  by (induction k arbitrary: idx seed) (simp_all add: split_beta)

section \<open>The places of the bytes\<close>

definition slice_places :: "nat \<Rightarrow> nat list \<Rightarrow> nat list" where
  "slice_places base os = concat (map (\<lambda>t. [base + t * 32..<base + t * 32 + 32]) os)"

lemma length_slice_places [simp]: "length (slice_places base os) = 32 * length os"
  by (induction os) (simp_all add: slice_places_def)

lemma mset_slice_places_cong: "mset os = mset os' \<Longrightarrow> mset (slice_places base os) = mset (slice_places base os')"
  by (simp add: slice_places_def mset_concat flip: sum_mset_sum_list)

lemma slice_places_upt: "slice_places base [0..<n] = [base..<base + 32 * n]"
proof (induction n)
  case (Suc n)
  have "slice_places base [0..<Suc n] = slice_places base [0..<n] @ [base + n * 32..<base + n * 32 + 32]"
    by (simp add: slice_places_def)
  also have "\<dots> = [base..<base + 32 * n] @ [base + 32 * n..<base + 32 * n + 32]" by (simp add: Suc mult.commute)
  also have "\<dots> = [base..<base + 32 * Suc n]" using upt_add_eq_append [of base "base + 32 * n" 32] by (simp add: add_ac)
  finally show ?case .
qed (simp add: slice_places_def)

lemma descramble_slices_write_at:
  assumes "k \<le> length idx" "k \<le> 65536" "src + 32 * k \<le> length inp" "set (take k idx) \<subseteq> {..<n}" "base + 32 * n \<le> length out"
  shows "descramble_slices inp base k idx seed src out
    = Some (seed_after k seed, src + 32 * k, write_at (slice_places base (slice_order k idx seed)) (take (32 * k) (drop src inp)) out)"
  using assms
proof (induction k arbitrary: idx seed src out)
  case 0
  then show ?case by (simp add: slice_places_def)
next
  case (Suc i)
  obtain idx' seed' where s: "shuffle_step i idx seed = (idx', seed')" by fastforce
  then have l: "length idx' = length idx" and m: "mset (take (Suc i) idx') = mset (take (Suc i) idx)"
    and seed': "seed' = snd (scramble_next seed)"
    using length_shuffle_step [of i idx seed] mset_shuffle_step [of i idx seed] snd_shuffle_step [of i idx seed] Suc.prems
    by simp_all
  have "set (take (Suc i) idx') \<subseteq> {..<n}" using mset_eq_setD [OF m] Suc.prems(4) by simp
  then have sub: "set (take i idx') \<subseteq> {..<n}" and t: "idx' ! i < n"
    using Suc.prems(1) l by (simp_all add: take_Suc_conv_app_nth)
  let ?t = "idx' ! i" and ?bs = "take 32 (drop src inp)"
  have b: "length ?bs = 32" using Suc.prems by simp
  have fit: "base + ?t * 32 + 32 \<le> length out" using t Suc.prems(5) by linarith
  have f: "fetch inp src SCRAMBLE_SLICE = Some ?bs" using Suc.prems by (simp add: fetch_def SCRAMBLE_SLICE_def)
  have st: "store out (base + ?t * SCRAMBLE_SLICE) ?bs = Some (write_at [base + ?t * 32..<base + ?t * 32 + 32] ?bs out)"
    using store_write_at [of "base + ?t * 32" ?bs out] fit b by (simp add: SCRAMBLE_SLICE_def)
  have bytes: "take (32 + 32 * i) (drop src inp) = ?bs @ take (32 * i) (drop (src + 32) inp)"
    using take_add [of 32 "32 * i" "drop src inp"] by (simp add: add.commute)
  let ?out = "write_at [base + ?t * 32..<base + ?t * 32 + 32] ?bs out"
  have "descramble_slices inp base (Suc i) idx seed src out = descramble_slices inp base i idx' seed' (src + 32) ?out"
    using Suc.prems(1) s f st by (simp add: SCRAMBLE_SLICE_def)
  also have "\<dots> = Some (seed_after i seed', src + 32 + 32 * i,
      write_at (slice_places base (slice_order i idx' seed')) (take (32 * i) (drop (src + 32) inp)) ?out)"
    using Suc.prems l sub by (intro Suc.IH) simp_all
  also have "write_at (slice_places base (slice_order i idx' seed')) (take (32 * i) (drop (src + 32) inp)) ?out
      = write_at (slice_places base (slice_order (Suc i) idx seed)) (take (32 * Suc i) (drop src inp)) out"
    using s b by (simp add: bytes slice_places_def write_at_append)
  finally show ?case by (simp add: seed' algebra_simps)
qed

text \<open>The places of all bytes of a file, by the structure of the chunk loop.\<close>

function byte_places :: "nat \<Rightarrow> u32 \<Rightarrow> nat \<Rightarrow> nat \<Rightarrow> nat list" where
  "byte_places chunk seed remaining base =
     (if chunk < SCRAMBLE_SLICE then [base..<base + remaining]
      else if remaining \<ge> chunk then
        slice_places base (slice_order (chunk div SCRAMBLE_SLICE) [0..<chunk div SCRAMBLE_SLICE] seed)
          @ byte_places chunk (seed_after (chunk div SCRAMBLE_SLICE) seed) (remaining - chunk) (base + chunk)
      else byte_places (chunk div 2) seed remaining base)"
  by pat_completeness auto
termination
  by (relation "measure (\<lambda>(chunk, seed, remaining, base). remaining + chunk)") (auto simp: SCRAMBLE_SLICE_def)

declare byte_places.simps [simp del]

text \<open>Chunk sizes of the loop: a power of two of slices, at most 65536, or less than a slice.\<close>

definition chunk_size :: "nat \<Rightarrow> bool" where
  "chunk_size c = (c < 32 \<or> (\<exists>k \<le> 16. c = 32 * 2 ^ k))"

lemma chunk_size_half: "chunk_size c \<Longrightarrow> chunk_size (c div 2)"
proof (cases "c < 32")
  case False
  assume "chunk_size c"
  with False obtain k where "k \<le> 16" "c = 32 * 2 ^ k" by (auto simp: chunk_size_def)
  then show ?thesis by (cases k) (auto simp: chunk_size_def)
qed (auto simp: chunk_size_def)

lemma chunk_size_slices:
  assumes "chunk_size c" "\<not> c < SCRAMBLE_SLICE"
  shows "32 * (c div 32) = c" "c div 32 \<le> 65536"
proof -
  obtain k where k: "k \<le> 16" "c = 32 * 2 ^ k" using assms by (auto simp: chunk_size_def SCRAMBLE_SLICE_def)
  then show "32 * (c div 32) = c" by simp
  have "(2::nat) ^ k \<le> 2 ^ 16" using k(1) by (rule power_increasing) simp
  then show "c div 32 \<le> 65536" using k(2) by simp
qed

lemma mset_byte_places:
  "chunk_size chunk \<Longrightarrow> mset (byte_places chunk seed remaining base) = mset [base..<base + remaining]"
proof (induction chunk seed remaining base rule: byte_places.induct)
  case (1 chunk seed remaining base)
  show ?case
  proof (cases "chunk < SCRAMBLE_SLICE \<or> remaining < chunk")
    case True
    then show ?thesis using 1 chunk_size_half by (subst byte_places.simps) (auto simp del: mset_upt)
  next
    case False
    let ?n = "chunk div 32"
    have c: "32 * ?n = chunk" "?n \<le> 65536" using chunk_size_slices 1(3) False by auto
    have "mset (slice_order ?n [0..<?n] seed) = mset [0..<?n]" using c(2) mset_slice_order [of ?n "[0..<?n]" seed] by simp
    then have "mset (slice_places base (slice_order ?n [0..<?n] seed)) = mset [base..<base + chunk]"
      using c(1) by (metis mset_slice_places_cong slice_places_upt)
    moreover have "mset [base..<base + chunk] + mset [base + chunk..<base + remaining] = mset [base..<base + remaining]"
      using upt_add_eq_append [of base "base + chunk" "remaining - chunk"] False by (simp del: mset_upt flip: mset_append)
    ultimately show ?thesis
      using 1 False by (subst byte_places.simps) (simp del: mset_upt add: SCRAMBLE_SLICE_def)
  qed
qed

lemma descramble_chunks_write_at:
  assumes "chunk_size chunk" "base + remaining \<le> length inp" "base + remaining \<le> length out"
  shows "\<exists>r b o'. descramble_chunks inp chunk seed remaining base base out = Some (r, b, b, o') \<and> b + r = base + remaining
    \<and> length o' = length out
    \<and> write_at (byte_places chunk seed remaining base) (take remaining (drop base inp)) out
      = write_at [b..<b + r] (take r (drop b inp)) o'"
  using assms
proof (induction chunk seed remaining base arbitrary: out rule: byte_places.induct)
  case (1 chunk seed remaining base)
  consider "chunk < SCRAMBLE_SLICE" | "\<not> chunk < SCRAMBLE_SLICE" "remaining < chunk"
    | "\<not> chunk < SCRAMBLE_SLICE" "chunk \<le> remaining" by linarith
  then show ?case
  proof cases
    case 1
    then show ?thesis by (simp add: descramble_chunks.simps byte_places.simps)
  next
    case 2
    then show ?thesis using 1(2) [of out] 1(3-) chunk_size_half [of chunk]
      by (simp add: descramble_chunks.simps [of inp chunk] byte_places.simps [of chunk])
  next
    case 3
    let ?n = "chunk div 32" and ?rest = "remaining - chunk"
    let ?ts = "slice_places base (slice_order ?n [0..<?n] seed)"
    define out' where "out' = write_at ?ts (take chunk (drop base inp)) out"
    have c: "32 * ?n = chunk" "?n \<le> 65536" using chunk_size_slices 1(3) 3 by auto
    have "descramble_slices inp base ?n [0..<?n] seed base out = Some (seed_after ?n seed, base + chunk, out')"
      using descramble_slices_write_at [of ?n "[0..<?n]" base inp ?n base out seed] c 3(2) 1(4,5)
      by (simp add: out'_def lessThan_atLeast0)
    then have d: "descramble_chunks inp chunk seed remaining base base out
        = descramble_chunks inp chunk (seed_after ?n seed) ?rest (base + chunk) (base + chunk) out'"
      using 3 by (subst descramble_chunks.simps) (simp add: SCRAMBLE_SLICE_def)
    have bytes: "take remaining (drop base inp) = take chunk (drop base inp) @ take ?rest (drop (base + chunk) inp)"
      using take_add [of chunk ?rest "drop base inp"] 3(2) by (simp add: add.commute)
    have w: "write_at (byte_places chunk seed remaining base) (take remaining (drop base inp)) out
        = write_at (byte_places chunk (seed_after ?n seed) ?rest (base + chunk)) (take ?rest (drop (base + chunk) inp)) out'"
      using 3 c(1) 1(4) by (subst byte_places.simps) (simp add: bytes write_at_append out'_def SCRAMBLE_SLICE_def)
    have "length out' = length out" by (simp add: out'_def)
    then show ?thesis using 1(1) [of out'] 3 1(3-5) d w by (simp add: SCRAMBLE_SLICE_def)
  qed
qed

lemma dc_descramble_write_at:
  assumes "length inp = n" "length out = n"
  shows "dc_descramble True inp out n
    = Some (0, write_at (byte_places SCRAMBLE_MAXCHUNK (of_nat n AND 0xffff) n 0) inp out)"
proof -
  have "SCRAMBLE_MAXCHUNK = 32 * 2 ^ 16" by (simp add: SCRAMBLE_MAXCHUNK_def)
  then have "chunk_size SCRAMBLE_MAXCHUNK" unfolding chunk_size_def by blast
  then obtain r b out' where d: "descramble_chunks inp SCRAMBLE_MAXCHUNK (of_nat n AND 0xffff) n 0 0 out = Some (r, b, b, out')"
    and b: "b + r = n" "length out' = n"
    and w: "write_at (byte_places SCRAMBLE_MAXCHUNK (of_nat n AND 0xffff) n 0) inp out = write_at [b..<b + r] (take r (drop b inp)) out'"
    using descramble_chunks_write_at [of SCRAMBLE_MAXCHUNK 0 n inp out "of_nat n AND 0xffff"] assms by auto
  have "fetch inp b r = Some (take r (drop b inp))" using assms b by (simp add: fetch_def)
  moreover have "store out' b (take r (drop b inp)) = Some (write_at [b..<b + r] (take r (drop b inp)) out')"
    using store_write_at [of b "take r (drop b inp)" out'] assms b by simp
  ultimately show ?thesis using d w by (simp add: dc_descramble_def)
qed

text \<open>
  C16. Descrambling loses nothing. For every file size there is a rearrangement of the byte positions that
  depends on the size alone, such that \<open>dc_descramble\<close> on any file of that size stays inside its buffers, returns 0 and puts every
  byte at its new place; the former contents of the output buffer do not show through, and so two different
  files never descramble to the same program.
\<close>

theorem descramble_rearranges:
  "\<exists>\<pi>. bij_betw \<pi> {..<n} {..<n} \<and>
     (\<forall>inp out. length inp = n \<and> length out = n \<longrightarrow>
        (\<exists>out'. dc_descramble True inp out n = Some (0, out') \<and> length out' = n \<and> (\<forall>i < n. out' ! \<pi> i = inp ! i)))"
proof -
  define ts where "ts = byte_places SCRAMBLE_MAXCHUNK (of_nat n AND 0xffff) n 0"
  have "SCRAMBLE_MAXCHUNK = 32 * 2 ^ 16" by (simp add: SCRAMBLE_MAXCHUNK_def)
  then have "chunk_size SCRAMBLE_MAXCHUNK" unfolding chunk_size_def by blast
  then have m: "mset ts = mset [0..<n]" using mset_byte_places [of SCRAMBLE_MAXCHUNK _ n 0] by (simp add: ts_def)
  have t: "distinct ts" "set ts = {..<n}" "length ts = n"
    using mset_eq_imp_distinct_iff [OF m] mset_eq_setD [OF m] mset_eq_length [OF m] by (simp_all add: lessThan_atLeast0)
  have "bij_betw (\<lambda>i. ts ! i) {..<n} {..<n}" by (rule bij_betw_nth [OF t(1)]) (simp_all only: t)
  moreover have "dc_descramble True inp out n = Some (0, write_at ts inp out)" if "length inp = n" "length out = n" for inp out
    using dc_descramble_write_at [OF that] by (simp add: ts_def)
  moreover have "write_at ts inp out ! (ts ! i) = inp ! i" if "length inp = n" "length out = n" "i < n" for inp out :: bytes and i
    using write_at_nth [of ts out inp i] t that by simp
  ultimately show ?thesis by (intro exI [of _ "\<lambda>i. ts ! i"]) (auto simp del: descramble_slices.simps)
qed

theorem descramble_rearranges_witness:
  "\<exists>\<pi> out'. bij_betw \<pi> {..<100} {..<100} \<and> dc_descramble True (map of_nat [0..<100]) (replicate 100 0) 100 = Some (0, out')
     \<and> (\<forall>i \<in> {..<100}. out' ! \<pi> i = of_nat i)"
proof -
  let ?inp = "map of_nat [0..<100] :: bytes" and ?out = "replicate 100 0 :: bytes"
  obtain \<pi> where p: "bij_betw \<pi> {..<100} {..<100}"
    and d: "\<forall>inp out. length inp = 100 \<and> length out = 100 \<longrightarrow>
      (\<exists>out'. dc_descramble True inp out 100 = Some (0, out') \<and> length out' = 100 \<and> (\<forall>i < 100. out' ! \<pi> i = inp ! i))"
    using descramble_rearranges [of 100] by blast
  have "length ?inp = 100 \<and> length ?out = 100" by simp
  with d obtain out' where o: "dc_descramble True ?inp ?out 100 = Some (0, out')" "\<forall>i < 100. out' ! \<pi> i = ?inp ! i" by blast
  have "out' ! \<pi> i = of_nat i" if "i \<in> {..<100}" for i using o(2) that by (simp del: upt_rec_numeral)
  then show ?thesis using p o(1) by blast
qed

end
