(* ===== verification/Binary.thy ===== *)
theory Binary
  imports Client_State "HOL-Library.Monad_Syntax"
begin

text \<open>
  \<^verbatim>\<open>host/include/kostool/binary.h\<close>: the sections a loader hands to its callback, and the interface of a
  loader. What a loader sees of the operating system is the record \<open>host_env\<close>: the files by name, whether an
  allocation succeeds, and what a local buffer or a fresh block of a given size holds before it is written. A callback works on a state \<open>'s\<close> and is partial, because the upload callback runs the
  transport; \<open>None\<close> of a loader is that, or an access outside a buffer.
\<close>

record binary_section =
  sec_name :: string
  load_addr :: u32
  sec_size :: u32
  sec_data :: bytes

type_synonym 's section_cb = "binary_section \<Rightarrow> 's \<Rightarrow> (int \<times> 's) option"

record host_env =
  files :: "string \<Rightarrow> bytes option"
  malloc_ok :: "nat \<Rightarrow> bool"
  stack_buf :: bytes
  heap_buf :: "nat \<Rightarrow> bytes"

type_synonym 's loader = "host_env \<Rightarrow> string \<Rightarrow> u32 \<Rightarrow> 's section_cb \<Rightarrow> 's \<Rightarrow> (int \<times> u32 \<times> 's) option"

record 's binary_ops =
  ops_name :: string
  ops_probe :: "host_env \<Rightarrow> string \<Rightarrow> bool"
  ops_load :: "'s loader"

text \<open>\<open>tolower\<close> in the C locale.\<close>

definition tolower :: "char \<Rightarrow> char" where
  "tolower c = (if 65 \<le> (of_char c :: nat) \<and> (of_char c :: nat) \<le> 90 then char_of (of_char c + 32 :: nat) else c)"

text \<open>Handing a list of sections to a callback: the first non-zero result ends it.\<close>

fun run_sections :: "'s section_cb \<Rightarrow> binary_section list \<Rightarrow> 's \<Rightarrow> (int \<times> 's) option" where
  "run_sections cb [] s = Some (0, s)"
| "run_sections cb (sec # secs) s =
     Option.bind (cb sec s) (\<lambda>(ret, s). if ret \<noteq> 0 then Some (ret, s) else run_sections cb secs s)"

lemma run_sections_append:
  "run_sections cb (xs @ ys) s
    = Option.bind (run_sections cb xs s) (\<lambda>(ret, s). if ret \<noteq> 0 then Some (ret, s) else run_sections cb ys s)"
proof (induction xs arbitrary: s)
  case (Cons x xs)
  then show ?case by (cases "cb x s") (auto simp: split_beta)
qed simp

text \<open>A callback's result together with the entry address the loader has set.\<close>

definition with_entry :: "u32 \<Rightarrow> (int \<times> 's) option \<Rightarrow> (int \<times> u32 \<times> 's) option" where
  "with_entry e r = map_option (\<lambda>(ret, s). (ret, e, s)) r"

lemma with_entry_Some [simp]: "with_entry e (Some (ret, s)) = Some (ret, e, s)"
  by (simp add: with_entry_def)

lemma with_entry_eq_None [simp]: "with_entry e r = None \<longleftrightarrow> r = None"
  by (simp add: with_entry_def)

text \<open>A file system with one file, and a callback that collects the sections.\<close>

definition one_file :: "bytes \<Rightarrow> host_env" where
  "one_file f = \<lparr>files = (\<lambda>_. Some f), malloc_ok = (\<lambda>_. True), stack_buf = replicate 1024 0, heap_buf = (\<lambda>n. replicate n 0)\<rparr>"

definition collect :: "binary_section list section_cb" where
  "collect sec s = Some (0, s @ [sec])"

end
