(* ===== verification/Srec.thy ===== *)
theory Srec
  imports Binary Scramble
begin

text \<open>
  \<^verbatim>\<open>host/src/binary/srec.c\<close>: the S-record loader. A file is read twice, line by line, into one buffer of 1024
  bytes which keeps what an earlier, longer line left behind the terminator. The first pass finds the address
  range, the second checks the checksums and fills the image. An error the code reports is \<open>Inl\<close>; writing
  outside the image is \<open>None\<close>.
\<close>

section \<open>Digits and lines\<close>

definition hex_nibble :: "u8 \<Rightarrow> int" where
  "hex_nibble c =
     (if 48 \<le> c \<and> c \<le> 57 then uint c - 48
      else if 65 \<le> c \<and> c \<le> 70 then uint c - 65 + 10
      else if 97 \<le> c \<and> c \<le> 102 then uint c - 97 + 10
      else - 1)"

definition hex_byte :: "bytes \<Rightarrow> nat \<Rightarrow> int" where
  "hex_byte s i =
     (let hi = hex_nibble (s ! i) in
      if hi < 0 then - 1
      else let lo = hex_nibble (s ! (i + 1)) in
        if lo < 0 then - 1 else hi * 16 + lo)"

text \<open>\<open>fgets\<close> with room for \<open>n\<close> characters: what it reads, and what is left of the file.\<close>

fun take_line :: "nat \<Rightarrow> bytes \<Rightarrow> bytes \<times> bytes" where
  "take_line 0 f = ([], f)"
| "take_line n [] = ([], [])"
| "take_line (Suc n) (c # f) = (if c = 10 then ([c], f) else let (l, r) = take_line n f in (c # l, r))"

lemma length_take_line: "length (snd (take_line n f)) \<le> length f"
  by (induction n f rule: take_line.induct) (auto simp: split_beta)

lemma take_line_Suc_shorter: "(l, r) = take_line (Suc n) (c # f) \<Longrightarrow> length r < Suc (length f)"
  using length_take_line [of n f] by (auto simp: split_beta split: if_splits)

lemmas take_line_shorter = take_line_Suc_shorter [where n = 1022, simplified]

function fgets_lines :: "bytes \<Rightarrow> bytes list" where
  "fgets_lines [] = []"
| "fgets_lines (c # f) = (case take_line 1023 (c # f) of (l, r) \<Rightarrow> l # fgets_lines r)"
  by pat_completeness auto
termination
  by (relation "measure length") (auto dest: take_line_shorter)

definition fgets_buf :: "bytes \<Rightarrow> bytes \<Rightarrow> bytes" where
  "fgets_buf l line = l @ [0] @ drop (length l + 1) line"

section \<open>Records\<close>

datatype srec_error = CannotOpen | BadCount | BadAddress | NoRecords | NoMemory | BadDigit | BadChecksum

definition rec_type :: "bytes \<Rightarrow> int" where
  "rec_type line = uint (line ! 1) - 48"

fun read_addr :: "bytes \<Rightarrow> nat \<Rightarrow> nat \<Rightarrow> u32 \<Rightarrow> u32 option" where
  "read_addr line off 0 addr = Some addr"
| "read_addr line off (Suc n) addr =
     (let b = hex_byte line off in
      if b < 0 then None else read_addr line (off + 2) n (push_bit 8 addr OR of_int b))"

text \<open>The second pass does not test the digits of an address, and an entry record stops at the first bad one.\<close>

fun read_addr_unchecked :: "bytes \<Rightarrow> nat \<Rightarrow> nat \<Rightarrow> u32 \<Rightarrow> u32" where
  "read_addr_unchecked line off 0 addr = addr"
| "read_addr_unchecked line off (Suc n) addr =
     read_addr_unchecked line (off + 2) n (push_bit 8 addr OR of_int (hex_byte line off))"

fun read_entry :: "bytes \<Rightarrow> nat \<Rightarrow> nat \<Rightarrow> u32 \<Rightarrow> u32" where
  "read_entry line off 0 addr = addr"
| "read_entry line off (Suc n) addr =
     (let b = hex_byte line off in
      if b < 0 then addr else read_entry line (off + 2) n (push_bit 8 addr OR of_int b))"

fun sum_record :: "bytes \<Rightarrow> nat \<Rightarrow> nat \<Rightarrow> u8 \<Rightarrow> u8 option" where
  "sum_record line off 0 csum = Some csum"
| "sum_record line off (Suc n) csum =
     (let b = hex_byte line off in
      if b < 0 then None else sum_record line (off + 2) n (csum + of_int b))"

fun put_data :: "bytes \<Rightarrow> nat \<Rightarrow> nat \<Rightarrow> u32 \<Rightarrow> bytes \<Rightarrow> (srec_error + bytes) option" where
  "put_data line off 0 pos dat = Some (Inr dat)"
| "put_data line off (Suc n) pos dat =
     (let b = hex_byte line off in
      if b < 0 then Some (Inl BadDigit)
      else if unat pos \<ge> length dat then None
      else put_data line (off + 2) n (pos + 1) (dat[unat pos := of_int b]))"

section \<open>Passes\<close>

fun srec_pass1 :: "bytes list \<Rightarrow> bytes \<Rightarrow> u32 \<Rightarrow> u32 \<Rightarrow> srec_error + bytes \<times> u32 \<times> u32" where
  "srec_pass1 [] line addr_min addr_max = Inr (line, addr_min, addr_max)"
| "srec_pass1 (l # ls) line addr_min addr_max =
     (let line = fgets_buf l line in
      if line ! 0 \<noteq> 83 then srec_pass1 ls line addr_min addr_max
      else if rec_type line < 1 \<or> rec_type line > 3 then srec_pass1 ls line addr_min addr_max
      else let byte_count = hex_byte line 2 in
        if byte_count < 0 then Inl BadCount
        else let addr_bytes = nat (rec_type line) + 1 in
          (case read_addr line 4 addr_bytes 0 of None \<Rightarrow> Inl BadAddress
           | Some addr \<Rightarrow>
             let data_bytes = byte_count - int addr_bytes - 1 in
             if data_bytes < 0 then srec_pass1 ls line addr_min addr_max
             else srec_pass1 ls line (if addr < addr_min then addr else addr_min)
                    (if addr + of_int data_bytes > addr_max then addr + of_int data_bytes else addr_max)))"

definition data_line :: "bytes \<Rightarrow> u32 \<Rightarrow> bytes \<Rightarrow> (srec_error + bytes) option" where
  "data_line line addr_min dat =
     (let byte_count = hex_byte line 2;
          addr_bytes = nat (rec_type line) + 1;
          addr = read_addr_unchecked line 4 addr_bytes 0;
          data_bytes = byte_count - int addr_bytes - 1
      in case sum_record line 2 (nat byte_count) 0 of None \<Rightarrow> Some (Inl BadDigit)
         | Some csum \<Rightarrow>
           let cksum = hex_byte line (nat (2 + byte_count * 2)) in
           if cksum < 0 then Some (Inl BadDigit)
           else if csum + of_int cksum \<noteq> 0xff then Some (Inl BadChecksum)
           else put_data line (4 + addr_bytes * 2) (nat data_bytes) (addr - addr_min) dat)"

fun srec_pass2 :: "bytes list \<Rightarrow> bytes \<Rightarrow> u32 \<Rightarrow> bytes \<Rightarrow> u32 \<Rightarrow> ((srec_error + bytes) \<times> u32) option" where
  "srec_pass2 [] line addr_min dat entry = Some (Inr dat, entry)"
| "srec_pass2 (l # ls) line addr_min dat entry =
     (let line = fgets_buf l line; type = rec_type line in
      if line ! 0 \<noteq> 83 then srec_pass2 ls line addr_min dat entry
      else if type \<ge> 1 \<and> type \<le> 3 then
        (case data_line line addr_min dat of None \<Rightarrow> None
         | Some (Inl e) \<Rightarrow> Some (Inl e, entry)
         | Some (Inr dat) \<Rightarrow> srec_pass2 ls line addr_min dat entry)
      else if type \<ge> 7 \<and> type \<le> 9 then srec_pass2 ls line addr_min dat (read_entry line 4 (nat (11 - type)) 0)
      else srec_pass2 ls line addr_min dat entry)"

definition srec_probe :: "host_env \<Rightarrow> string \<Rightarrow> bool" where
  "srec_probe env filename = (case files env filename of Some (c # _) \<Rightarrow> c = 83 | _ \<Rightarrow> False)"

definition srec_image :: "host_env \<Rightarrow> string \<Rightarrow> u32 \<Rightarrow> ((srec_error + u32 \<times> bytes) \<times> u32) option" where
  "srec_image env filename entry =
     (case files env filename of None \<Rightarrow> Some (Inl CannotOpen, entry)
      | Some f \<Rightarrow>
        (case srec_pass1 (fgets_lines f) (stack_buf env) 0xFFFFFFFF 0 of Inl e \<Rightarrow> Some (Inl e, entry)
         | Inr (line, addr_min, addr_max) \<Rightarrow>
           if addr_min > addr_max then Some (Inl NoRecords, entry)
           else let total_size = addr_max - addr_min in
             if \<not> malloc_ok env (unat total_size) then Some (Inl NoMemory, entry)
             else map_option (\<lambda>(r, entry). (map_sum id (\<lambda>dat. (addr_min, dat)) r, entry))
                    (srec_pass2 (fgets_lines f) line addr_min (replicate (unat total_size) 0) entry)))"

definition srec_load :: "'s loader" where
  "srec_load env filename entry cb s =
     (case srec_image env filename entry of None \<Rightarrow> None
      | Some (Inl e, entry) \<Rightarrow> Some (- 1, entry, s)
      | Some (Inr (addr_min, dat), entry) \<Rightarrow>
        with_entry entry (cb \<lparr>sec_name = ''.srec'', load_addr = addr_min, sec_size = of_nat (length dat), sec_data = dat\<rparr> s))"

definition srec_binary_ops :: "'s binary_ops" where
  "srec_binary_ops = \<lparr>ops_name = ''S-Record'', ops_probe = srec_probe, ops_load = srec_load\<rparr>"

declare read_addr.simps (2) [simp del] put_data.simps (2) [simp del]

section \<open>Only the line that was read matters\<close>

lemma take_line_Suc_nonempty: "fst (take_line (Suc n) (c # f)) \<noteq> []"
  by (simp add: split_beta)

lemma fgets_lines_nonempty: "l \<in> set (fgets_lines f) \<Longrightarrow> l \<noteq> []"
proof (induction f rule: fgets_lines.induct)
  case (2 c f)
  obtain l' r where "take_line 1023 (c # f) = (l', r)" by fastforce
  then show ?case using 2 take_line_Suc_nonempty [where n = 1022, simplified, of c f] by auto
qed simp

lemma fgets_buf_nth: "i \<le> length l \<Longrightarrow> fgets_buf l line ! i = (l @ [0]) ! i"
  by (cases "i < length l") (simp_all add: fgets_buf_def nth_append)

lemma hex_nibble_NUL [simp]: "hex_nibble 0 = - 1"
  by (simp add: hex_nibble_def)

lemma hex_byte_buf: "i \<le> length l \<Longrightarrow> hex_byte (fgets_buf l line) i = hex_byte (l @ [0]) i"
  by (cases "i = length l") (auto simp: hex_byte_def fgets_buf_nth nth_append Let_def)

lemma hex_byte_inside: "0 \<le> hex_byte (l @ [0]) i \<Longrightarrow> i \<le> length l \<Longrightarrow> i + 2 \<le> length l"
  by (cases "i < length l"; cases "i + 1 < length l")
     (auto simp: hex_byte_def nth_append Let_def split: if_splits)

lemma read_addr_buf: "off \<le> length l \<Longrightarrow> read_addr (fgets_buf l line) off n a = read_addr (l @ [0]) off n a"
proof (induction n arbitrary: off a)
  case (Suc n)
  then show ?case using hex_byte_inside [of l off] by (simp add: read_addr.simps hex_byte_buf Let_def)
qed simp

lemma read_addr_unchecked_eq: "read_addr line off n a = Some r \<Longrightarrow> read_addr_unchecked line off n a = r"
  by (induction n arbitrary: off a) (auto simp: read_addr.simps Let_def split: if_splits)

lemma rec_type_buf: "l \<noteq> [] \<Longrightarrow> rec_type (fgets_buf l line) = rec_type (l @ [0])"
  by (cases l) (simp_all add: rec_type_def fgets_buf_nth)

section \<open>Memory safety\<close>

text \<open>The address and the number of data bytes a line declares, if the first pass counts it.\<close>

definition data_record :: "bytes \<Rightarrow> (u32 \<times> nat) option" where
  "data_record l =
     (let s = l @ [0]; addr_bytes = nat (rec_type s) + 1; data_bytes = hex_byte s 2 - int addr_bytes - 1 in
      if s ! 0 = 83 \<and> 1 \<le> rec_type s \<and> rec_type s \<le> 3 \<and> 0 \<le> hex_byte s 2 \<and> 0 \<le> data_bytes
      then map_option (\<lambda>a. (a, nat data_bytes)) (read_addr s 4 addr_bytes 0) else None)"

definition is_data_line :: "bytes \<Rightarrow> bool" where
  "is_data_line l = (let s = l @ [0] in s ! 0 = 83 \<and> 1 \<le> rec_type s \<and> rec_type s \<le> 3)"

text \<open>What the first pass has seen of the lines it accepted.\<close>

definition line_seen :: "u32 \<Rightarrow> u32 \<Rightarrow> bytes \<Rightarrow> bool" where
  "line_seen lo hi l = (is_data_line l \<longrightarrow> 0 \<le> hex_byte (l @ [0]) 2
     \<and> (\<exists>a. read_addr (l @ [0]) 4 (nat (rec_type (l @ [0])) + 1) 0 = Some a)
     \<and> (\<forall>a n. data_record l = Some (a, n) \<longrightarrow> lo \<le> a \<and> a + of_nat n \<le> hi))"

lemma pass1_step:
  assumes "l \<noteq> []"
  shows "srec_pass1 (l # ls) line lo hi =
    (if \<not> is_data_line l then srec_pass1 ls (fgets_buf l line) lo hi
     else if hex_byte (l @ [0]) 2 < 0 then Inl BadCount
     else if read_addr (l @ [0]) 4 (nat (rec_type (l @ [0])) + 1) 0 = None then Inl BadAddress
     else case data_record l of None \<Rightarrow> srec_pass1 ls (fgets_buf l line) lo hi
       | Some (a, n) \<Rightarrow> srec_pass1 ls (fgets_buf l line) (min a lo) (max (a + of_nat n) hi))"
proof (cases "is_data_line l")
  case False
  then show ?thesis using assms
    by (auto simp: is_data_line_def Let_def rec_type_buf fgets_buf_nth not_le)
next
  case True
  then have "2 \<le> length l" using assms
    by (cases l; cases "tl l") (auto simp: is_data_line_def rec_type_def Let_def)
  moreover then have "0 \<le> hex_byte (l @ [0]) 2 \<Longrightarrow> 4 \<le> length l" using hex_byte_inside [of l 2] by simp
  ultimately show ?thesis using True assms
    by (auto simp: is_data_line_def data_record_def Let_def rec_type_buf fgets_buf_nth hex_byte_buf read_addr_buf
        min_def max_def not_le not_less of_nat_nat split: option.splits)
qed

declare srec_pass1.simps (2) [simp del]

lemma pass1_range:
  assumes "srec_pass1 ls line lo hi = Inr (line', lo', hi')" "\<forall>l \<in> set ls. l \<noteq> []"
  shows "lo' \<le> lo \<and> hi \<le> hi' \<and> (\<forall>l \<in> set ls. line_seen lo' hi' l)"
  using assms
proof (induction ls arbitrary: line lo hi)
  case (Cons l ls)
  let ?buf = "fgets_buf l line"
  have l: "l \<noteq> []" using Cons.prems(2) by simp
  show ?case
  proof (cases "is_data_line l")
    case False
    then have "srec_pass1 ls ?buf lo hi = Inr (line', lo', hi')" using Cons.prems(1) by (simp add: pass1_step [OF l])
    then show ?thesis using Cons.IH [of ?buf lo hi] Cons.prems(2) False by (simp add: line_seen_def)
  next
    case True
    then obtain y where ok: "\<not> hex_byte (l @ [0]) 2 < 0" "read_addr (l @ [0]) 4 (nat (rec_type (l @ [0])) + 1) 0 = Some y"
      using Cons.prems(1) by (auto simp: pass1_step [OF l] split: if_splits)
    show ?thesis
    proof (cases "data_record l")
      case None
      then have "srec_pass1 ls ?buf lo hi = Inr (line', lo', hi')" using Cons.prems(1) True ok by (simp add: pass1_step [OF l])
      then show ?thesis using Cons.IH [of ?buf lo hi] Cons.prems(2) None ok by (auto simp: line_seen_def)
    next
      case (Some r)
      then obtain a n where r: "data_record l = Some (a, n)" by (cases r) auto
      then have "srec_pass1 ls ?buf (min a lo) (max (a + of_nat n) hi) = Inr (line', lo', hi')"
        using Cons.prems(1) True ok by (simp add: pass1_step [OF l])
      then have "lo' \<le> min a lo \<and> max (a + of_nat n) hi \<le> hi' \<and> (\<forall>l \<in> set ls. line_seen lo' hi' l)"
        using Cons.IH [of ?buf "min a lo" "max (a + of_nat n) hi"] Cons.prems(2) by simp
      then show ?thesis using r ok by (auto simp: line_seen_def)
    qed
  qed
qed simp

lemma put_data_inside:
  "n = 0 \<or> unat pos + n \<le> length dat \<Longrightarrow> length dat < 4294967296 \<Longrightarrow>
    (\<exists>e. put_data line off n pos dat = Some (Inl e)) \<or> (\<exists>dat'. put_data line off n pos dat = Some (Inr dat') \<and> length dat' = length dat)"
proof (induction n arbitrary: off pos dat)
  case (Suc n)
  then have "unat (pos + 1) = unat pos + 1" by (subst unat_add_lt) simp_all
  then show ?case using Suc.IH [of "pos + 1" "dat[unat pos := of_int (hex_byte line off)]" "off + 2"] Suc.prems
    by (simp add: put_data.simps Let_def)
qed simp

lemma data_line_inside:
  assumes "l \<noteq> []" "is_data_line l" "line_seen lo hi l" "\<And>a n. data_record l = Some (a, n) \<Longrightarrow> unat a + n < 4294967296"
    and "lo \<le> hi" "length dat = unat (hi - lo)"
  shows "(\<exists>e. data_line (fgets_buf l line) lo dat = Some (Inl e))
    \<or> (\<exists>dat'. data_line (fgets_buf l line) lo dat = Some (Inr dat') \<and> length dat' = length dat)"
proof -
  let ?s = "l @ [0]" and ?b = "fgets_buf l line"
  let ?ab = "nat (rec_type ?s) + 1"
  obtain a where c: "0 \<le> hex_byte ?s 2" and a: "read_addr ?s 4 ?ab 0 = Some a"
    using assms(2,3) by (auto simp: line_seen_def)
  have l2: "2 \<le> length l" using assms(1,2) by (cases l; cases "tl l") (auto simp: is_data_line_def rec_type_def Let_def)
  then have l4: "4 \<le> length l" using hex_byte_inside [OF c] by simp
  have addr: "read_addr_unchecked ?b 4 ?ab 0 = a"
    using a l4 by (intro read_addr_unchecked_eq) (simp add: read_addr_buf)
  define n where "n = nat (hex_byte ?s 2 - int ?ab - 1)"
  have fit: "n = 0 \<or> unat (a - lo) + n \<le> length dat"
  proof (cases "0 \<le> hex_byte ?s 2 - int ?ab - 1")
    case True
    then have "data_record l = Some (a, n)" using assms(2) c a by (simp add: data_record_def is_data_line_def n_def Let_def)
    then have r: "lo \<le> a" "a + of_nat n \<le> hi" "unat a + n < 4294967296" using assms(2-4) by (auto simp: line_seen_def)
    then have "unat (a + of_nat n) = unat a + n" by (subst unat_add_lt) (simp_all add: unat_of_nat32)
    then show ?thesis using r assms(5,6) by (auto simp: unat_sub word_le_nat_alt)
  next
    case False
    then show ?thesis by (simp add: n_def)
  qed
  have "length dat < 4294967296" using assms(6) by simp
  note put = put_data_inside [OF fit this, of ?b "4 + ?ab * 2"]
  show ?thesis
    unfolding data_line_def rec_type_buf [OF assms(1)] hex_byte_buf [OF l2] Let_def addr n_def [symmetric]
    using put by (auto split: option.splits)
qed

lemma pass2_inside:
  assumes "\<forall>l \<in> set ls. l \<noteq> [] \<and> line_seen lo hi l \<and> (\<forall>a n. data_record l = Some (a, n) \<longrightarrow> unat a + n < 4294967296)"
    and "lo \<le> hi" "length dat = unat (hi - lo)"
  shows "srec_pass2 ls line lo dat entry \<noteq> None"
  using assms(1,3)
proof (induction ls arbitrary: line dat entry)
  case (Cons l ls)
  let ?b = "fgets_buf l line"
  have l: "l \<noteq> []" using Cons.prems(1) by simp
  then have d: "is_data_line l \<longleftrightarrow> ?b ! 0 = 83 \<and> 1 \<le> rec_type ?b \<and> rec_type ?b \<le> 3"
    by (simp add: is_data_line_def Let_def rec_type_buf fgets_buf_nth)
  have IH: "length dat' = unat (hi - lo) \<Longrightarrow> srec_pass2 ls ?b lo dat' e \<noteq> None" for dat' e
    using Cons.IH Cons.prems(1) by simp
  show ?case
  proof (cases "is_data_line l")
    case True
    then consider e where "data_line ?b lo dat = Some (Inl e)"
      | dat' where "data_line ?b lo dat = Some (Inr dat')" "length dat' = length dat"
      using data_line_inside [of l lo hi dat line] Cons.prems l assms(2) by auto
    then show ?thesis using True IH Cons.prems(2) by cases (auto simp: d Let_def)
  next
    case False
    then show ?thesis using IH Cons.prems(2) by (auto simp: d Let_def)
  qed
qed simp

text \<open>
  C17. The S-record loader is memory safe on every file, well formed or not, in which no data record runs
  past the end of the 32-bit address space: whatever the lines contain, it never writes outside the image it
  allocated. The first pass reads the same addresses as the second, because every digit it accepts lies in the line just
  read and not in what an earlier line left in the buffer.
\<close>

theorem srec_load_memory_safe:
  fixes cb :: "'s section_cb"
  assumes "files env filename = Some f"
    and "\<forall>l \<in> set (fgets_lines f). \<forall>a n. data_record l = Some (a, n) \<longrightarrow> unat a + n < 2 ^ 32"
    and "\<forall>sec s. cb sec s \<noteq> None"
  shows "srec_load env filename entry cb s \<noteq> None"
proof -
  let ?ls = "fgets_lines f"
  have "srec_image env filename entry \<noteq> None"
  proof (cases "srec_pass1 ?ls (stack_buf env) 0xFFFFFFFF 0")
    case (Inr r)
    then obtain line lo hi where p: "srec_pass1 ?ls (stack_buf env) 0xFFFFFFFF 0 = Inr (line, lo, hi)" by (cases r) auto
    then have "\<forall>l \<in> set ?ls. line_seen lo hi l" using pass1_range [OF p] fgets_lines_nonempty by blast
    then have "lo \<le> hi \<Longrightarrow> srec_pass2 ?ls line lo (replicate (unat (hi - lo)) 0) entry \<noteq> None"
      using assms(2) fgets_lines_nonempty by (intro pass2_inside [where hi = hi]) simp_all
    then show ?thesis using assms(1) p by (auto simp: srec_image_def Let_def not_less)
  qed (simp add: srec_image_def assms(1))
  then obtain r e where "srec_image env filename entry = Some (r, e)" by auto
  then show ?thesis using assms(3) by (simp add: srec_load_def del: not_None_eq split: sum.splits prod.splits)
qed

section \<open>Writing S-records\<close>

text \<open>The usual form of the format: upper-case digits, the count, the address in \<open>t + 1\<close> bytes, the data, the complement of their sum.\<close>

definition to_hex_digit :: "nat \<Rightarrow> u8" where
  "to_hex_digit n = (if n < 10 then of_nat (48 + n) else of_nat (55 + n))"

definition to_hex :: "u8 \<Rightarrow> bytes" where
  "to_hex b = [to_hex_digit (unat b div 16), to_hex_digit (unat b mod 16)]"

definition record_line :: "nat \<Rightarrow> bytes \<Rightarrow> bytes" where
  "record_line t bs = [83, of_nat (48 + t)] @ concat (map to_hex (bs @ [NOT (sum_list bs)])) @ [10]"

type_synonym srec_record = "nat \<times> u32 \<times> bytes"

fun record_body :: "srec_record \<Rightarrow> bytes" where
  "record_body (t, a, d) = of_nat (length d + t + 2) # drop (3 - t) (be32 a) @ d"

fun record_fmt :: "srec_record \<Rightarrow> bool" where
  "record_fmt (t, a, d) = (1 \<le> t \<and> t \<le> 3 \<and> length d + t + 2 \<le> 255 \<and> unat a < 256 ^ (t + 1))"

fun record_ok :: "srec_record \<Rightarrow> bool" where
  "record_ok (t, a, d) = (record_fmt (t, a, d) \<and> unat a + length d < 2 ^ 32)"

lemma record_ok_fmt: "record_ok r \<Longrightarrow> record_fmt r"
  by (cases r) simp

definition srec_file :: "srec_record list \<Rightarrow> u32 \<Rightarrow> bytes" where
  "srec_file recs e = concat (map (\<lambda>r. record_line (fst r) (record_body r)) recs) @ record_line 7 (5 # be32 e)"

text \<open>The image the records describe: later records overwrite earlier ones, gaps are zero.\<close>

definition image_lo :: "srec_record list \<Rightarrow> u32" where
  "image_lo recs = Min ((\<lambda>(t, a, d). a) ` set recs)"

definition image_hi :: "srec_record list \<Rightarrow> u32" where
  "image_hi recs = Max ((\<lambda>(t, a, d). a + of_nat (length d)) ` set recs)"

fun overlay :: "u32 \<Rightarrow> srec_record \<Rightarrow> bytes \<Rightarrow> bytes" where
  "overlay lo (t, a, d) img = take (unat (a - lo)) img @ d @ drop (unat (a - lo) + length d) img"

definition srec_img :: "srec_record list \<Rightarrow> bytes" where
  "srec_img recs = fold (overlay (image_lo recs)) recs (replicate (unat (image_hi recs - image_lo recs)) 0)"

lemma hex_nibble_to_hex_digit: "n < 16 \<Longrightarrow> hex_nibble (to_hex_digit n) = int n"
proof -
  have "\<forall>n \<in> {..<16}. hex_nibble (to_hex_digit n) = int n" by code_simp
  then show "n < 16 \<Longrightarrow> hex_nibble (to_hex_digit n) = int n" by simp
qed

lemma to_hex_digit_not_newline: "n < 16 \<Longrightarrow> to_hex_digit n \<noteq> 10"
proof -
  have "\<forall>n \<in> {..<16}. to_hex_digit n \<noteq> 10" by code_simp
  then show "n < 16 \<Longrightarrow> to_hex_digit n \<noteq> 10" by simp
qed

lemma length_to_hex [simp]: "length (to_hex b) = 2"
  by (simp add: to_hex_def)

lemma high_nibble [simp]: "unat (b :: u8) div 16 < 16"
  by (rule less_mult_imp_div_less) simp

lemma hex_byte_to_hex:
  fixes b :: u8
  assumes "s ! i = to_hex_digit (unat b div 16)" "s ! (i + 1) = to_hex_digit (unat b mod 16)"
  shows "hex_byte s i = uint b"
proof -
  have "hex_byte s i = int (unat b div 16) * 16 + int (unat b mod 16)"
    unfolding hex_byte_def Let_def assms hex_nibble_to_hex_digit [OF high_nibble] by (simp add: hex_nibble_to_hex_digit)
  also have "\<dots> = int (unat b div 16 * 16 + unat b mod 16)" by (simp only: of_nat_add of_nat_mult of_nat_numeral)
  finally show ?thesis by (simp only: div_mult_mod_eq uint_nat)
qed

lemma length_hexes [simp]: "length (concat (map to_hex bs)) = 2 * length bs"
  by (induction bs) (simp_all add: to_hex_def)

lemma hexes_nth:
  "i < length bs \<Longrightarrow> concat (map to_hex bs) ! (2 * i) = to_hex_digit (unat (bs ! i) div 16)
    \<and> concat (map to_hex bs) ! (2 * i + 1) = to_hex_digit (unat (bs ! i) mod 16)"
proof (induction bs arbitrary: i)
  case (Cons b bs)
  then show ?case by (cases i) (simp_all add: to_hex_def)
qed simp

lemma newline_notin_hexes: "10 \<notin> set (concat (map to_hex bs))"
proof -
  have "10 \<notin> set (to_hex b)" for b :: u8
    using to_hex_digit_not_newline [of "unat b div 16"] to_hex_digit_not_newline [of "unat b mod 16"]
    by (auto simp: to_hex_def)
  then show ?thesis by simp
qed

lemma hex_byte_record_line:
  assumes "i \<le> length bs"
  shows "hex_byte (fgets_buf (record_line t bs) line) (2 + 2 * i) = uint ((bs @ [NOT (sum_list bs)]) ! i)"
proof -
  let ?bs = "bs @ [NOT (sum_list bs)]"
  have "fgets_buf (record_line t bs) line ! (2 + j) = concat (map to_hex ?bs) ! j" if "j < 2 * length ?bs" for j
    using that by (auto simp: fgets_buf_def record_line_def nth_append)
  from this [of "2 * i"] this [of "2 * i + 1"] show ?thesis
    using hexes_nth [of i ?bs] assms by (intro hex_byte_to_hex) simp_all
qed

lemma read_addr_record_line:
  "i + n \<le> length bs \<Longrightarrow> read_addr (fgets_buf (record_line t bs) line) (2 + 2 * i) n acc
    = Some (fold (\<lambda>b acc. push_bit 8 acc OR ucast b) (take n (drop i bs)) acc)"
proof (induction n arbitrary: i acc)
  case (Suc n)
  then have "take (Suc n) (drop i bs) = bs ! i # take n (drop (Suc i) bs)" by (simp add: take_Suc Cons_nth_drop_Suc [symmetric])
  moreover have "hex_byte (fgets_buf (record_line t bs) line) (2 + 2 * i) = uint (bs ! i)"
    using hex_byte_record_line [of i bs t line] Suc.prems by (simp add: nth_append)
  moreover have "2 + 2 * i + 2 = 2 + 2 * Suc i" by simp
  ultimately show ?case using Suc.IH [of "Suc i"] Suc.prems
    by (simp only: read_addr.simps Let_def) simp
qed simp

lemma read_entry_eq: "read_addr line off n a = Some r \<Longrightarrow> read_entry line off n a = r"
  by (induction n arbitrary: off a) (auto simp: read_addr.simps Let_def split: if_splits)

lemma sum_record_line:
  "i + n \<le> length bs \<Longrightarrow> sum_record (fgets_buf (record_line t bs) line) (2 + 2 * i) n c = Some (c + sum_list (take n (drop i bs)))"
proof (induction n arbitrary: i c)
  case (Suc n)
  then have "take (Suc n) (drop i bs) = bs ! i # take n (drop (Suc i) bs)" by (simp add: take_Suc Cons_nth_drop_Suc [symmetric])
  moreover have "hex_byte (fgets_buf (record_line t bs) line) (2 + 2 * i) = uint (bs ! i)"
    using hex_byte_record_line [of i bs t line] Suc.prems by (simp add: nth_append)
  moreover have "2 + 2 * i + 2 = 2 + 2 * Suc i" by simp
  ultimately show ?case using Suc.IH [of "Suc i"] Suc.prems
    by (simp only: sum_record.simps Let_def) (simp add: add.assoc)
qed simp

lemma put_data_record_line:
  "i + n \<le> length bs \<Longrightarrow> unat pos + n \<le> length dat \<Longrightarrow> length dat < 4294967296 \<Longrightarrow>
    put_data (fgets_buf (record_line t bs) line) (2 + 2 * i) n pos dat
    = Some (Inr (take (unat pos) dat @ take n (drop i bs) @ drop (unat pos + n) dat))"
proof (induction n arbitrary: i pos dat)
  case (Suc n)
  then have bs: "take (Suc n) (drop i bs) = bs ! i # take n (drop (Suc i) bs)" by (simp add: take_Suc Cons_nth_drop_Suc [symmetric])
  have h: "hex_byte (fgets_buf (record_line t bs) line) (2 + 2 * i) = uint (bs ! i)"
    using hex_byte_record_line [of i bs t line] Suc.prems by (simp add: nth_append)
  have p: "unat (pos + 1) = Suc (unat pos)" using Suc.prems by (subst unat_add_lt) simp_all
  have "put_data (fgets_buf (record_line t bs) line) (2 + 2 * i) (Suc n) pos dat
      = put_data (fgets_buf (record_line t bs) line) (2 + 2 * Suc i) n (pos + 1) (dat[unat pos := bs ! i])"
    using h Suc.prems by (simp add: put_data.simps Let_def)
  also have "\<dots> = Some (Inr (take (unat pos) dat @ take (Suc n) (drop i bs) @ drop (unat pos + Suc n) dat))"
    using Suc.IH [of "Suc i" "pos + 1" "dat[unat pos := bs ! i]"] Suc.prems
    by (simp add: p bs take_Suc_conv_app_nth)
  finally show ?case .
qed simp

lemma fold_addr_be32: "fold (\<lambda>b acc. push_bit 8 acc OR ucast b) (be32 a) (0 :: u32) = a"
proof -
  have "push_bit 8 (push_bit 8 (push_bit 8 (ucast b0) OR ucast b1) OR ucast b2) OR ucast b3 = get_be32 b0 b1 b2 b3" for b0 b1 b2 b3
    by (simp add: get_be32_def push_bit_or or.assoc)
  then show ?thesis by (simp add: be32_def get_be32_be32)
qed

lemma fold_addr_short:
  assumes "1 \<le> t" "t \<le> 3" "unat a < 256 ^ (t + 1)"
  shows "fold (\<lambda>b acc. push_bit 8 acc OR ucast b) (drop (3 - t) (be32 a)) (0 :: u32) = a"
proof -
  let ?f = "\<lambda>(b :: u8) (acc :: u32). push_bit 8 acc OR ucast b"
  have z: "ucast (drop_bit k a) = (0 :: u8)" if "unat a < 2 ^ k" for k
  proof -
    have "unat (drop_bit k a) = 0" using that unfolding unsigned_drop_bit_eq
      by (simp add: drop_bit_eq_div take_bit_nat_eq_self)
    then have "drop_bit k a = 0" by (simp only: unat_eq_0)
    then show ?thesis by simp
  qed
  consider "t = 1" | "t = 2" | "t = 3" using assms(1,2) by linarith
  then have "take (3 - t) (be32 a) = replicate (3 - t) 0"
  proof cases
    case 1
    have "replicate 2 (0 :: u8) = [0, 0]" by (simp add: numeral_2_eq_2)
    then show ?thesis using 1 assms(3) z [of 24] z [of 16] by (simp add: be32_def)
  next
    case 2
    then show ?thesis using assms(3) z [of 24] by (simp add: be32_def)
  qed simp
  then have "be32 a = replicate (3 - t) 0 @ drop (3 - t) (be32 a)" by (metis append_take_drop_id)
  then have "fold ?f (be32 a) 0 = fold ?f (replicate (3 - t) 0 @ drop (3 - t) (be32 a)) 0" by (rule arg_cong)
  moreover have "fold ?f (replicate m 0) 0 = 0" for m by (induction m) simp_all
  ultimately show ?thesis by (simp add: fold_addr_be32)
qed

section \<open>Reading back what was written\<close>

lemma fgets_lines_line:
  assumes "10 \<notin> set p" "length p < 1023"
  shows "fgets_lines (p @ 10 # f) = (p @ [10]) # fgets_lines f"
proof -
  have "take_line n (p @ 10 # f) = (p @ [10], f)" if "10 \<notin> set p" "length p < n" for n
    using that
  proof (induction p arbitrary: n)
    case Nil
    then show ?case by (cases n) simp_all
  next
    case (Cons c p)
    then show ?case by (cases n) simp_all
  qed
  then have "take_line 1023 (p @ 10 # f) = (p @ [10], f)" using assms by simp
  then show ?thesis by (cases p) simp_all
qed

lemma fgets_lines_record:
  assumes "t < 10" "length bs \<le> 255"
  shows "fgets_lines (record_line t bs @ f) = record_line t bs # fgets_lines f"
proof -
  let ?p = "[83, of_nat (48 + t)] @ concat (map to_hex (bs @ [NOT (sum_list bs)]))"
  have "unat (of_nat (48 + t) :: u8) = 48 + t" using assms(1) by (intro unat_of_nat_lt) simp
  then have "of_nat (48 + t) \<noteq> (10 :: u8)" by (auto simp del: of_nat_add)
  then have "10 \<notin> set ?p" using newline_notin_hexes [of "bs @ [NOT (sum_list bs)]"] by auto
  then show ?thesis using fgets_lines_line [of ?p f] assms(2) by (simp add: record_line_def)
qed

lemma length_record_body: "record_fmt (t, a, d) \<Longrightarrow> length (record_body (t, a, d)) = length d + t + 2"
  by auto

lemma fgets_lines_srec_file:
  assumes "\<forall>r \<in> set recs. record_fmt r"
  shows "fgets_lines (srec_file recs e) = map (\<lambda>r. record_line (fst r) (record_body r)) recs @ [record_line 7 (5 # be32 e)]"
  using assms
proof (induction recs)
  case Nil
  show ?case using fgets_lines_record [of 7 "5 # be32 e" "[]"] by (simp add: srec_file_def)
next
  case (Cons r recs)
  obtain t a d where r: "r = (t, a, d)" by (cases r) auto
  have ok: "record_fmt (t, a, d)" using Cons.prems r by simp
  then have "t < 10" "length (record_body r) \<le> 255" using length_record_body [OF ok] r by auto
  then show ?case using fgets_lines_record [of t "record_body r" "srec_file recs e"] Cons r by (simp add: srec_file_def)
qed

lemma record_line_type:
  assumes "t < 10"
  shows "fgets_buf (record_line t bs) line ! 0 = 83" "rec_type (fgets_buf (record_line t bs) line) = int t"
proof -
  show "fgets_buf (record_line t bs) line ! 0 = 83" by (simp add: fgets_buf_def record_line_def)
  have "unat (of_nat (48 + t) :: u8) = 48 + t" using assms by (intro unat_of_nat_lt) simp
  then show "rec_type (fgets_buf (record_line t bs) line) = int t"
    by (simp add: rec_type_def fgets_buf_def record_line_def uint_nat)
qed

lemma record_fields:
  fixes line :: bytes
  assumes "record_fmt (t, a, d)"
  defines "b \<equiv> fgets_buf (record_line t (record_body (t, a, d))) line"
  shows "hex_byte b 2 = int (length d + t + 2)" "read_addr b 4 (t + 1) 0 = Some a"
    and "sum_record b 2 (length d + t + 2) 0 = Some (sum_list (record_body (t, a, d)))"
    and "hex_byte b (2 + 2 * (length d + t + 2)) = uint (NOT (sum_list (record_body (t, a, d))))"
    and "unat pos + length d \<le> length dat \<Longrightarrow> length dat < 4294967296 \<Longrightarrow>
      put_data b (4 + (t + 1) * 2) (length d) pos dat = Some (Inr (take (unat pos) dat @ d @ drop (unat pos + length d) dat))"
proof -
  let ?bs = "record_body (t, a, d)"
  have l: "length ?bs = length d + t + 2" by (rule length_record_body) fact
  have n: "uint (of_nat (length d + t + 2) :: u8) = int (length d + t + 2)"
    using assms(1) by (simp only: uint_nat) (subst unat_of_nat_lt; simp)
  show "hex_byte b 2 = int (length d + t + 2)"
    using hex_byte_record_line [of 0 ?bs t line] n by (simp add: b_def)
  have "take (t + 1) (drop 1 ?bs) = drop (3 - t) (be32 a)" using assms(1) by simp
  then show "read_addr b 4 (t + 1) 0 = Some a"
    using read_addr_record_line [of 1 "t + 1" ?bs t line 0] l fold_addr_short [of t a] assms(1) by (simp add: b_def)
  show "sum_record b 2 (length d + t + 2) 0 = Some (sum_list ?bs)"
    using sum_record_line [of 0 "length d + t + 2" ?bs t line 0] l by (simp add: b_def)
  show "hex_byte b (2 + 2 * (length d + t + 2)) = uint (NOT (sum_list ?bs))"
    using hex_byte_record_line [of "length ?bs" ?bs t line] unfolding l
    by (simp add: b_def nth_append l del: record_body.simps)
  show "put_data b (4 + (t + 1) * 2) (length d) pos dat = Some (Inr (take (unat pos) dat @ d @ drop (unat pos + length d) dat))"
    if "unat pos + length d \<le> length dat" "length dat < 4294967296"
  proof -
    have "4 + (t + 1) * 2 = 2 + 2 * (t + 2)" by simp
    moreover have "take (length d) (drop (t + 2) ?bs) = d" using assms(1) by simp
    ultimately show ?thesis using put_data_record_line [of "t + 2" "length d" ?bs pos dat t line] l that
      by (simp only: b_def)
  qed
qed

lemma pass1_record:
  assumes "record_fmt (t, a, d)"
  shows "srec_pass1 (record_line t (record_body (t, a, d)) # ls) line lo hi
    = srec_pass1 ls (fgets_buf (record_line t (record_body (t, a, d))) line) (min a lo) (max (a + of_nat (length d)) hi)"
proof -
  have "t < 10" "1 \<le> t" "t \<le> 3" using assms by auto
  then show ?thesis using record_fields(1,2) [OF assms, where line = line]
    by (simp add: srec_pass1.simps Let_def record_line_type min_def max_def not_less del: record_body.simps)
       (auto simp: not_le)
qed

lemma pass1_records:
  assumes "\<forall>r \<in> set recs. record_fmt r"
  shows "\<exists>line'. srec_pass1 (map (\<lambda>r. record_line (fst r) (record_body r)) recs @ ls) line lo hi
    = srec_pass1 ls line' (fold (\<lambda>(t, a, d). min a) recs lo) (fold (\<lambda>(t, a, d). max (a + of_nat (length d))) recs hi)"
  using assms
proof (induction recs arbitrary: line lo hi)
  case (Cons r recs)
  obtain t a d where r: "r = (t, a, d)" by (cases r) auto
  then show ?case using Cons.prems Cons.IH pass1_record [of t a d] by (simp del: record_body.simps record_fmt.simps)
qed auto

lemma data_line_record:
  assumes "record_fmt (t, a, d)"
  shows "data_line (fgets_buf (record_line t (record_body (t, a, d))) line) lo dat
    = put_data (fgets_buf (record_line t (record_body (t, a, d))) line) (4 + (t + 1) * 2) (length d) (a - lo) dat"
proof -
  let ?b = "fgets_buf (record_line t (record_body (t, a, d))) line"
  have t: "t < 10" using assms by auto
  note f = record_fields [OF assms, where line = line]
  have addr: "read_addr_unchecked ?b 4 (t + 1) 0 = a" using f(2) by (rule read_addr_unchecked_eq)
  have n: "nat (int (length d + t + 2) - int (t + 1) - 1) = length d" by simp
  have off: "nat (2 + int (length d + t + 2) * 2) = 2 + 2 * (length d + t + 2)" by simp
  have ck: "x + of_int (uint (NOT x)) = 0xff" "\<not> uint x < 0" for x :: u8 by (simp_all add: not_eq_complement)
  show ?thesis
    unfolding data_line_def Let_def record_line_type(2) [OF t] f(1) nat_int addr n off f(3,4) option.case ck
    by (simp only: simp_thms if_False ck)
qed

lemma pass2_record:
  assumes "record_fmt (t, a, d)" "unat (a - lo) + length d \<le> length dat" "length dat < 4294967296"
  shows "srec_pass2 (record_line t (record_body (t, a, d)) # ls) line lo dat entry
    = srec_pass2 ls (fgets_buf (record_line t (record_body (t, a, d))) line) lo (overlay lo (t, a, d) dat) entry"
proof -
  have "t < 10" "1 \<le> t" "t \<le> 3" using assms(1) by auto
  then show ?thesis using data_line_record [OF assms(1), of line lo dat] record_fields(5) [OF assms, where line = line]
    by (simp add: Let_def record_line_type del: record_body.simps)
qed

lemma length_overlay: "unat (a - lo) + length d \<le> length img \<Longrightarrow> length (overlay lo (t, a, d) img) = length img"
  by simp

lemma length_fold_overlay:
  "\<forall>(t, a, d) \<in> set recs. unat (a - lo) + length d \<le> length img \<Longrightarrow> length (fold (overlay lo) recs img) = length img"
proof (induction recs arbitrary: img)
  case (Cons r recs)
  obtain t a d where r: "r = (t, a, d)" by (cases r) auto
  then have "length (overlay lo r img) = length img" using Cons.prems length_overlay [of a lo d img t] by simp
  then show ?case using Cons by (simp del: overlay.simps)
qed simp

lemma pass2_records:
  assumes "\<forall>r \<in> set recs. record_fmt r" "\<forall>(t, a, d) \<in> set recs. unat (a - lo) + length d \<le> length dat" "length dat < 4294967296"
  shows "\<exists>line'. srec_pass2 (map (\<lambda>r. record_line (fst r) (record_body r)) recs @ ls) line lo dat entry
    = srec_pass2 ls line' lo (fold (overlay lo) recs dat) entry"
  using assms
proof (induction recs arbitrary: line dat)
  case (Cons r recs)
  obtain t a d where r: "r = (t, a, d)" by (cases r) auto
  have ok: "record_fmt (t, a, d)" and fit: "unat (a - lo) + length d \<le> length dat" using Cons.prems(1,2) r by (simp_all del: record_fmt.simps)
  have l: "length (overlay lo (t, a, d) dat) = length dat" using fit by (rule length_overlay)
  then show ?case
    using Cons.IH [of "overlay lo (t, a, d) dat"] Cons.prems pass2_record [OF ok fit Cons.prems(3)] r
    by (simp del: record_body.simps record_fmt.simps overlay.simps)
qed auto

lemma end_line:
  "\<exists>line'. srec_pass1 [record_line 7 (5 # be32 e)] line lo hi = Inr (line', lo, hi)"
  "srec_pass2 [record_line 7 (5 # be32 e)] line lo dat entry = Some (Inr dat, e)"
proof -
  let ?b = "fgets_buf (record_line 7 (5 # be32 e)) line"
  have t: "?b ! 0 = 83" "rec_type ?b = 7" using record_line_type [of 7 "5 # be32 e" line] by simp_all
  show "\<exists>line'. srec_pass1 [record_line 7 (5 # be32 e)] line lo hi = Inr (line', lo, hi)"
    by (simp add: srec_pass1.simps t Let_def)
  have "read_addr ?b 4 4 0 = Some e"
    using read_addr_record_line [of 1 4 "5 # be32 e" 7 line 0] by (simp add: fold_addr_be32)
  then have "read_entry ?b 4 4 0 = e" by (rule read_entry_eq)
  then show "srec_pass2 [record_line 7 (5 # be32 e)] line lo dat entry = Some (Inr dat, e)" by (simp add: t Let_def)
qed

lemma fold_min_image_lo: "recs \<noteq> [] \<Longrightarrow> fold (\<lambda>(t, a, d). min a) recs 0xFFFFFFFF = image_lo recs"
proof -
  assume ne: "recs \<noteq> []"
  have f: "fold (\<lambda>(t, a, d). min a) recs x = fold min (map (\<lambda>(t, a, d). a) recs) x" for x
    by (induction recs arbitrary: x) auto
  have "fold min (map (\<lambda>(t, a, d). a) recs) 0xFFFFFFFF = Min (insert 0xFFFFFFFF ((\<lambda>(t, a, d). a) ` set recs))"
    using Min.set_eq_fold [of "0xFFFFFFFF" "map (\<lambda>(t, a, d). a) recs"] by simp
  also have "\<dots> = Min ((\<lambda>(t, a, d). a) ` set recs)"
  proof -
    have "unat x \<le> 4294967295" for x :: u32 using unat_lt32 [of x] by linarith
    then have "x \<le> 0xFFFFFFFF" for x :: u32 by (simp add: word_le_nat_alt)
    then show ?thesis using ne by (simp add: min_absorb2)
  qed
  finally show ?thesis by (simp add: f image_lo_def)
qed

lemma fold_max_image_hi: "recs \<noteq> [] \<Longrightarrow> fold (\<lambda>(t, a, d). max (a + of_nat (length d))) recs 0 = image_hi recs"
proof -
  assume ne: "recs \<noteq> []"
  have f: "fold (\<lambda>(t, a, d). max (a + of_nat (length d))) recs x = fold max (map (\<lambda>(t, a, d). a + of_nat (length d)) recs) x" for x
    by (induction recs arbitrary: x) auto
  have "fold max (map (\<lambda>(t, a, d). a + of_nat (length d)) recs) 0 = Max (insert 0 ((\<lambda>(t, a, d). a + of_nat (length d)) ` set recs))"
    using Max.set_eq_fold [of 0 "map (\<lambda>(t, a, d). a + of_nat (length d)) recs"] by simp
  also have "\<dots> = Max ((\<lambda>(t, a, d). a + of_nat (length d)) ` set recs)" using ne by (simp add: max_absorb2)
  finally show ?thesis by (simp add: f image_hi_def)
qed

lemma record_in_image:
  assumes "(t, a, d) \<in> set recs" "record_ok (t, a, d)"
  shows "image_lo recs \<le> a" "a \<le> image_hi recs" "unat (a - image_lo recs) + length d \<le> unat (image_hi recs - image_lo recs)"
proof -
  have lo: "image_lo recs \<le> a" unfolding image_lo_def using assms(1) by (intro Min_le) force+
  have hi: "a + of_nat (length d) \<le> image_hi recs" unfolding image_hi_def using assms(1) by (intro Max_ge) force+
  have "unat (a + of_nat (length d)) = unat a + length d"
    using assms(2) by (subst unat_add_lt) (simp_all add: unat_of_nat32)
  then have h: "unat a + length d \<le> unat (image_hi recs)" using hi by (simp add: word_le_nat_alt)
  then show "a \<le> image_hi recs" by (simp add: word_le_nat_alt)
  with lo have "image_lo recs \<le> image_hi recs" by (rule order_trans)
  then show "unat (a - image_lo recs) + length d \<le> unat (image_hi recs - image_lo recs)"
    using lo h by (simp add: unat_sub word_le_nat_alt)
  show "image_lo recs \<le> a" by (rule lo)
qed

text \<open>
  C15. Writing a program as S-records and loading the file gives the program back. For any list of data
  records with 16-, 24- or 32-bit addresses, the loader calls its callback once, with the lowest
  address, the image the records describe (later records win, gaps are zero) and its size, and reports
  the entry address of the end record; its own result is the callback's.
\<close>

theorem srec_roundtrip:
  fixes cb :: "'s section_cb"
  assumes "files env filename = Some (srec_file recs e)" and "recs \<noteq> []" and "\<forall>r \<in> set recs. record_ok r"
    and "malloc_ok env (unat (image_hi recs - image_lo recs))"
  shows "srec_load env filename entry cb s
    = with_entry e (cb \<lparr>sec_name = ''.srec'', load_addr = image_lo recs, sec_size = image_hi recs - image_lo recs, sec_data = srec_img recs\<rparr> s)"
proof -
  let ?ls = "fgets_lines (srec_file recs e)" and ?lo = "image_lo recs" and ?hi = "image_hi recs"
  have fmt: "\<forall>r \<in> set recs. record_fmt r" using assms(3) record_ok_fmt by blast
  have ls: "?ls = map (\<lambda>r. record_line (fst r) (record_body r)) recs @ [record_line 7 (5 # be32 e)]"
    using fmt by (rule fgets_lines_srec_file)
  obtain line1 where "srec_pass1 ?ls (stack_buf env) 0xFFFFFFFF 0 = srec_pass1 [record_line 7 (5 # be32 e)] line1 ?lo ?hi"
    unfolding ls fold_min_image_lo [OF assms(2), symmetric] fold_max_image_hi [OF assms(2), symmetric]
    using pass1_records [OF fmt] by blast
  then obtain line where p1: "srec_pass1 ?ls (stack_buf env) 0xFFFFFFFF 0 = Inr (line, ?lo, ?hi)" using end_line(1) by metis
  have fit: "\<forall>(t, a, d) \<in> set recs. unat (a - ?lo) + length d \<le> length (replicate (unat (?hi - ?lo)) (0 :: u8))"
    using record_in_image(3) assms(3) by fastforce
  have "length (replicate (unat (?hi - ?lo)) (0 :: u8)) < 4294967296" by simp
  from pass2_records [OF fmt fit this]
  have p2: "srec_pass2 ?ls line ?lo (replicate (unat (?hi - ?lo)) 0) entry = Some (Inr (srec_img recs), e)"
    unfolding ls srec_img_def using end_line(2) by metis
  obtain t a d where "(t, a, d) \<in> set recs" using assms(2) by (cases recs) auto
  then have "?lo \<le> ?hi" using record_in_image(1,2) assms(3) order_trans by blast
  then have "srec_image env filename entry = Some (Inr (?lo, srec_img recs), e)"
    using assms(1,4) p1 p2 by (simp add: srec_image_def Let_def)
  moreover have "of_nat (length (srec_img recs)) = ?hi - ?lo" using length_fold_overlay [OF fit] by (simp add: srec_img_def)
  ultimately show ?thesis by (simp add: srec_load_def)
qed

theorem srec_roundtrip_witness:
  "srec_load (one_file (srec_file [(1, 0x10, [0xAB, 0xCD]), (3, 0x14, [1])] 0x12)) ''a'' 0 collect []
     = Some (0, 0x12, [\<lparr>sec_name = ''.srec'', load_addr = 0x10, sec_size = 5, sec_data = [0xAB, 0xCD, 0, 0, 1]\<rparr>])"
proof -
  let ?recs = "[(1, 0x10, [0xAB, 0xCD]), (3, 0x14, [1])] :: srec_record list"
  have i: "image_lo ?recs = 0x10" "image_hi ?recs = 0x15" by (simp_all add: image_lo_def image_hi_def)
  moreover have "replicate 5 0 = [0, 0, 0, 0, 0 :: u8]" by (simp add: numeral_eq_Suc)
  ultimately have "srec_img ?recs = [0xAB, 0xCD, 0, 0, 1]" by (simp add: srec_img_def)
  then show ?thesis using srec_roundtrip [of "one_file (srec_file ?recs 0x12)" "''a''" ?recs "0x12", where cb = collect and entry = 0 and s = "[]"] i
    by (simp add: one_file_def collect_def)
qed

theorem srec_load_memory_safe_witness:
  "srec_load (one_file (srec_file [(1, 0x10, [0xAB, 0xCD])] 0x10)) ''a'' 0 collect [] \<noteq> None"
proof (rule srec_load_memory_safe)
  let ?f = "srec_file [(1, 0x10, [0xAB, 0xCD])] 0x10"
  show "files (one_file ?f) ''a'' = Some ?f" by (simp add: one_file_def)
  have "set (fgets_lines ?f) = {record_line 1 (record_body (1, 0x10, [0xAB, 0xCD])), record_line 7 (5 # be32 0x10)}"
    by (subst fgets_lines_srec_file) simp_all
  moreover have "data_record (record_line 1 (record_body (1, 0x10, [0xAB, 0xCD]))) = Some (0x10, 2)"
    "data_record (record_line 7 (5 # be32 0x10)) = None" by code_simp+
  ultimately show "\<forall>l \<in> set (fgets_lines ?f). \<forall>a n. data_record l = Some (a, n) \<longrightarrow> unat a + n < 2 ^ 32" by simp
  show "\<forall>sec s. collect sec s \<noteq> None" by (simp add: collect_def)
qed

text \<open>
  The condition of memory safety is needed: with a record that runs past the end of the address space the end
  address wraps, the image is too small and the second pass writes outside it.
\<close>

theorem srec_wrapped_record_overruns:
  "srec_load (one_file (srec_file [(3, 0xFFFFFFFF, [1, 2]), (3, 0, [3])] e)) ''a'' 0 collect [] = None"
proof -
  let ?r = "(3, 0xFFFFFFFF, [1, 2]) :: srec_record" and ?q = "(3, 0, [3]) :: srec_record"
  let ?ls = "[record_line 3 (record_body ?r), record_line 3 (record_body ?q), record_line 7 (5 # be32 e)]"
  have ls: "fgets_lines (srec_file [?r, ?q] e) = ?ls"
    by (subst fgets_lines_srec_file) simp_all
  have fmt: "record_fmt ?r" "record_fmt ?q" by simp_all
  have h: "min 0 (min 0xFFFFFFFF 0xFFFFFFFF) = (0 :: u32)"
    "max (0 + of_nat (length [3 :: u8])) (max (0xFFFFFFFF + of_nat (length [1 :: u8, 2])) 0) = (1 :: u32)"
    by (simp_all add: max_def)
  have "\<exists>line. srec_pass1 ?ls (replicate 1024 0) 0xFFFFFFFF 0 = Inr (line, 0, 1)"
    unfolding pass1_record [OF fmt(1)] pass1_record [OF fmt(2)] h by (rule end_line(1))
  then obtain line where p1: "srec_pass1 ?ls (replicate 1024 0) 0xFFFFFFFF 0 = Inr (line, 0, 1)" ..
  let ?b = "fgets_buf (record_line 3 (record_body ?r)) line"
  have "(record_body ?r @ [NOT (sum_list (record_body ?r))]) ! 5 = 1" by (simp add: be32_def)
  then have "hex_byte ?b 12 = 1" using hex_byte_record_line [of 5 "record_body ?r" 3 line] by (simp only:) (simp add: be32_def)
  then have "put_data ?b 12 (Suc (Suc 0)) 0xFFFFFFFF [0] = None" by (simp only: put_data.simps Let_def) simp
  then have "data_line ?b 0 [0] = None" by (simp add: data_line_record [OF fmt(1)] del: record_body.simps)
  then have "srec_pass2 ?ls line 0 [0] 0 = None"
    by (simp add: Let_def record_line_type del: record_body.simps)
  moreover have "replicate (unat (1 - 0 :: u32)) 0 = [0 :: u8]" by simp
  ultimately have "srec_image (one_file (srec_file [?r, ?q] e)) ''a'' 0 = None"
    using ls p1 by (simp only: srec_image_def one_file_def host_env.simps option.case sum.case prod.case Let_def) (simp del: srec_pass2.simps record_body.simps)
  then show ?thesis by (simp only: srec_load_def option.case)
qed

end
