(* ===== verification/Dol.thy ===== *)
theory Dol
  imports Binary
begin

text \<open>
  \<^verbatim>\<open>host/src/binary/dol.c\<close>, the loader of GameCube and Wii executables, and \<^verbatim>\<open>make-dist/tools/elf2dol.c\<close>, the program that
  makes them from ELF files. Reads outside the ELF file are \<open>None\<close> (the program does not test the offsets it
  finds there). The main theorem composes the two: what the one writes the other loads.
\<close>

definition DOL_HEADER_SIZE :: nat where "DOL_HEADER_SIZE = 256"
definition DOL_MAX_TEXT :: nat where "DOL_MAX_TEXT = 7"
definition DOL_MAX_DATA :: nat where "DOL_MAX_DATA = 11"
definition DOL_ALIGN :: u32 where "DOL_ALIGN = 64"

section \<open>The loader\<close>

record dol_header =
  text_offset :: "u32 list"
  data_offset :: "u32 list"
  text_address :: "u32 list"
  data_address :: "u32 list"
  text_size :: "u32 list"
  data_size :: "u32 list"
  bss_address :: u32
  bss_size :: u32
  entry_point :: u32

text \<open>\<open>n\<close> consecutive words of the header, the loop over one of its arrays.\<close>

definition slots :: "bytes \<Rightarrow> nat \<Rightarrow> nat \<Rightarrow> u32 list" where
  "slots raw base n = map (\<lambda>i. rd32 raw (base + i * 4)) [0..<n]"

definition parse_header :: "bytes \<Rightarrow> dol_header" where
  "parse_header raw =
     \<lparr>text_offset = slots raw 0x00 DOL_MAX_TEXT, data_offset = slots raw 0x1C DOL_MAX_DATA,
      text_address = slots raw 0x48 DOL_MAX_TEXT, data_address = slots raw 0x64 DOL_MAX_DATA,
      text_size = slots raw 0x90 DOL_MAX_TEXT, data_size = slots raw 0xAC DOL_MAX_DATA,
      bss_address = rd32 raw 0xD8, bss_size = rd32 raw 0xDC, entry_point = rd32 raw 0xE0\<rparr>"

definition strrchr_dot :: "string \<Rightarrow> string option" where
  "strrchr_dot s = (if CHR ''.'' \<in> set s then Some (CHR ''.'' # rev (takeWhile (\<lambda>c. c \<noteq> CHR ''.'') (rev s))) else None)"

text \<open>The two loops over the sections of a header: \<open>None\<close> rejects the file, otherwise whether there was a section.\<close>

definition probe_sections :: "u32 list \<Rightarrow> u32 list \<Rightarrow> u32 list \<Rightarrow> bool option" where
  "probe_sections offs addrs sizes =
     (if \<exists>(off, addr, sz) \<in> set (zip offs (zip addrs sizes)). sz > 0 \<and> (off < of_nat DOL_HEADER_SIZE \<or> addr < 0x80000000)
      then None else Some (\<exists>sz \<in> set sizes. sz > 0))"

definition dol_probe :: "host_env \<Rightarrow> string \<Rightarrow> bool" where
  "dol_probe env filename =
     (case files env filename of None \<Rightarrow> False
      | Some f \<Rightarrow>
        if length f < DOL_HEADER_SIZE then False
        else let hdr = parse_header (take DOL_HEADER_SIZE f) in
          if entry_point hdr < 0x80000000 \<or> entry_point hdr > 0x817FFFFF then False
          else case probe_sections (text_offset hdr) (text_address hdr) (text_size hdr) of None \<Rightarrow> False
            | Some t \<Rightarrow> (case probe_sections (data_offset hdr) (data_address hdr) (data_size hdr) of None \<Rightarrow> False
              | Some d \<Rightarrow> t \<or> d \<or> (case strrchr_dot filename of None \<Rightarrow> False | Some ext \<Rightarrow> map tolower ext = ''.dol'')))"

definition section_name :: "string \<Rightarrow> nat \<Rightarrow> string" where
  "section_name kind i = kind @ (if i < 10 then [char_of (48 + i)] else [char_of (48 + i div 10), char_of (48 + i mod 10)])"

fun load_sections :: "host_env \<Rightarrow> bytes \<Rightarrow> (string \<times> u32 \<times> u32 \<times> u32) list \<Rightarrow> 's section_cb \<Rightarrow> 's \<Rightarrow> (int \<times> 's) option" where
  "load_sections env f [] cb s = Some (0, s)"
| "load_sections env f ((name, off, addr, sz) # secs) cb s =
     (if sz = 0 then load_sections env f secs cb s
      else if off + sz > of_nat (length f) then Some (- 1, s)
      else if \<not> malloc_ok env (unat sz) then Some (- 1, s)
      else let dat = take (unat sz) (drop (unat off) f) in
        if length dat \<noteq> unat sz then Some (- 1, s)
        else Option.bind (cb \<lparr>sec_name = name, load_addr = addr, sec_size = sz, sec_data = dat\<rparr> s)
               (\<lambda>(ret, s). if ret \<noteq> 0 then Some (ret, s) else load_sections env f secs cb s))"

definition section_table :: "string \<Rightarrow> u32 list \<Rightarrow> u32 list \<Rightarrow> u32 list \<Rightarrow> (string \<times> u32 \<times> u32 \<times> u32) list" where
  "section_table kind offs addrs sizes = zip (map (section_name kind) [0..<length offs]) (zip offs (zip addrs sizes))"

definition dol_load :: "'s loader" where
  "dol_load env filename entry cb s =
     (case files env filename of None \<Rightarrow> Some (- 1, entry, s)
      | Some f \<Rightarrow>
        if length f < DOL_HEADER_SIZE then Some (- 1, entry, s)
        else let hdr = parse_header (take DOL_HEADER_SIZE f) in
          with_entry (entry_point hdr)
            (Option.bind (load_sections env f (section_table ''text'' (text_offset hdr) (text_address hdr) (text_size hdr)) cb s)
               (\<lambda>(ret, s). if ret \<noteq> 0 then Some (ret, s)
                 else load_sections env f (section_table ''data'' (data_offset hdr) (data_address hdr) (data_size hdr)) cb s)))"

definition dol_binary_ops :: "'s binary_ops" where
  "dol_binary_ops = \<lparr>ops_name = ''DOL'', ops_probe = dol_probe, ops_load = dol_load\<rparr>"

section \<open>The converter\<close>

datatype elf_error = ElfNoMemory | NotElf | NotBigEndian32 | TooManyText | TooManyData

record elf32_phdr =
  p_type :: u32
  p_offset :: u32
  p_vaddr :: u32
  p_paddr :: u32
  p_filesz :: u32
  p_memsz :: u32
  p_flags :: u32
  p_align :: u32

definition write32be :: "bytes \<Rightarrow> nat \<Rightarrow> u32 \<Rightarrow> bytes" where
  "write32be buf p val = take p buf @ be32 val @ drop (p + 4) buf"

definition align_up :: "u32 \<Rightarrow> u32 \<Rightarrow> u32" where
  "align_up val align = (val + align - 1) AND NOT (align - 1)"

fun parse_phdrs :: "bytes \<Rightarrow> nat \<Rightarrow> nat \<Rightarrow> nat \<Rightarrow> elf32_phdr list option" where
  "parse_phdrs elf p phentsize 0 = Some []"
| "parse_phdrs elf p phentsize (Suc n) =
     (if p + 32 > length elf then None
      else map_option ((#) \<lparr>p_type = rd32 elf p, p_offset = rd32 elf (p + 4), p_vaddr = rd32 elf (p + 8), p_paddr = rd32 elf (p + 12),
        p_filesz = rd32 elf (p + 16), p_memsz = rd32 elf (p + 20), p_flags = rd32 elf (p + 24), p_align = rd32 elf (p + 28)\<rparr>)
        (parse_phdrs elf (p + phentsize) phentsize n))"

definition is_text :: "elf32_phdr \<Rightarrow> bool" where
  "is_text ph = (p_flags ph AND 1 \<noteq> 0)"

fun classify :: "elf32_phdr list \<Rightarrow> nat \<Rightarrow> nat \<Rightarrow> u32 \<Rightarrow> u32 \<Rightarrow> elf_error + u32 \<times> u32" where
  "classify [] num_text num_data bss_addr bss_end = Inr (bss_addr, bss_end)"
| "classify (ph # phs) num_text num_data bss_addr bss_end =
     (if p_type ph \<noteq> 1 then classify phs num_text num_data bss_addr bss_end
      else if p_filesz ph > 0 \<and> is_text ph \<and> num_text \<ge> DOL_MAX_TEXT then Inl TooManyText
      else if p_filesz ph > 0 \<and> \<not> is_text ph \<and> num_data \<ge> DOL_MAX_DATA then Inl TooManyData
      else let num_text = (if p_filesz ph > 0 \<and> is_text ph then num_text + 1 else num_text);
               num_data = (if p_filesz ph > 0 \<and> \<not> is_text ph then num_data + 1 else num_data);
               seg_bss_addr = p_vaddr ph + p_filesz ph;
               seg_bss_end = p_vaddr ph + p_memsz ph
           in if p_memsz ph > p_filesz ph
              then classify phs num_text num_data (if bss_addr = 0 \<or> seg_bss_addr < bss_addr then seg_bss_addr else bss_addr)
                     (if seg_bss_end > bss_end then seg_bss_end else bss_end)
              else classify phs num_text num_data bss_addr bss_end)"

function pad_loop :: "u32 \<Rightarrow> bytes \<Rightarrow> bytes" where
  "pad_loop file_offset out = (if (of_nat (length out) :: u32) < file_offset then pad_loop file_offset (out @ [0]) else out)"
  by pat_completeness auto
termination
proof (relation "measure (\<lambda>(file_offset, out). unat file_offset - unat (of_nat (length out) :: u32))", simp)
  fix file_offset :: u32 and out :: bytes
  assume "of_nat (length out) < file_offset"
  then have "unat (of_nat (length out) :: u32) + 1 < 4294967296"
    using unat_lt32 [of file_offset] unfolding word_less_nat_alt by linarith
  then have "unat (of_nat (length out) + 1 :: u32) = unat (of_nat (length out) :: u32) + 1"
    by (subst unat_add_lt) simp_all
  then show "((file_offset, out @ [0]), file_offset, out) \<in> measure (\<lambda>(file_offset, out). unat file_offset - unat (of_nat (length out) :: u32))"
    using \<open>of_nat (length out) < file_offset\<close> by (simp add: word_less_nat_alt add.commute)
qed

declare pad_loop.simps [simp del]

text \<open>
  One of the two loops that write segments. The state is the offset in the file, the number of segments of this
  kind, the header and what has been written; \<open>bases\<close> are the places of the three arrays of this kind.
\<close>

fun write_segments ::
  "bytes \<Rightarrow> (elf32_phdr \<Rightarrow> bool) \<Rightarrow> nat \<times> nat \<times> nat \<Rightarrow> elf32_phdr list \<Rightarrow> u32 \<times> nat \<times> bytes \<times> bytes \<Rightarrow> (u32 \<times> nat \<times> bytes \<times> bytes) option" where
  "write_segments elf kind bases [] st = Some st"
| "write_segments elf kind (ob, ab, sb) (ph # phs) (file_offset, num, hdr, out) =
     (if p_type ph \<noteq> 1 \<or> p_filesz ph = 0 \<or> \<not> kind ph then write_segments elf kind (ob, ab, sb) phs (file_offset, num, hdr, out)
      else let file_offset = align_up file_offset DOL_ALIGN;
               out = pad_loop file_offset out
           in if unat (p_offset ph) + unat (p_filesz ph) > length elf then None
              else let out = out @ take (unat (p_filesz ph)) (drop (unat (p_offset ph)) elf);
                       hdr = write32be hdr (ob + num * 4) file_offset;
                       hdr = write32be hdr (ab + num * 4) (p_vaddr ph);
                       hdr = write32be hdr (sb + num * 4) (p_filesz ph)
                   in write_segments elf kind (ob, ab, sb) phs (file_offset + p_filesz ph, num + 1, hdr, out))"

definition elf_phdrs :: "bytes \<Rightarrow> elf32_phdr list option" where
  "elf_phdrs elf = parse_phdrs elf (unat (rd32 elf 28)) (unat (rd16 elf 42)) (unat (rd16 elf 44))"

text \<open>The header fields written last.\<close>

definition finish_header :: "nat \<Rightarrow> nat \<Rightarrow> u32 \<Rightarrow> u32 \<Rightarrow> u32 \<Rightarrow> bytes \<Rightarrow> bytes" where
  "finish_header num_text num_data bss_addr bss_end e_entry hdr =
     (let hdr = (if num_text = 0 then write32be hdr 0x00 (align_up (of_nat DOL_HEADER_SIZE) DOL_ALIGN) else hdr);
          hdr = (if num_data = 0 then write32be hdr 0x1C (align_up (of_nat DOL_HEADER_SIZE) DOL_ALIGN) else hdr);
          hdr = (if bss_end > bss_addr then write32be (write32be hdr 0xD8 bss_addr) 0xDC (bss_end - bss_addr) else hdr)
      in write32be hdr 0xE0 e_entry)"

definition elf2dol :: "(nat \<Rightarrow> bool) \<Rightarrow> bytes \<Rightarrow> (elf_error + bytes) option" where
  "elf2dol alloc elf =
     (if \<not> alloc (length elf) then Some (Inl ElfNoMemory)
      else if length elf < 52 \<or> take 4 elf \<noteq> [0x7f, 0x45, 0x4c, 0x46] then Some (Inl NotElf)
      else if elf ! 4 \<noteq> 1 \<or> elf ! 5 \<noteq> 2 then Some (Inl NotBigEndian32)
      else let e_entry = rd32 elf 24; e_phnum = unat (rd16 elf 44) in
        if \<not> alloc (e_phnum * 32) then Some (Inl ElfNoMemory)
        else Option.bind (elf_phdrs elf) (\<lambda>phs.
          case classify phs 0 0 0 0 of Inl e \<Rightarrow> Some (Inl e)
          | Inr (bss_addr, bss_end) \<Rightarrow>
            Option.bind (write_segments elf is_text (0x00, 0x48, 0x90) phs
              (of_nat DOL_HEADER_SIZE, 0, replicate DOL_HEADER_SIZE 0, replicate DOL_HEADER_SIZE 0)) (\<lambda>(file_offset, num_text, hdr, out).
            Option.bind (write_segments elf (\<lambda>ph. \<not> is_text ph) (0x1C, 0x64, 0xAC) phs (file_offset, 0, hdr, out))
              (\<lambda>(file_offset, num_data, hdr, out).
            Some (Inr (finish_header num_text num_data bss_addr bss_end e_entry hdr @ drop DOL_HEADER_SIZE out))))))"

section \<open>Loading a section table\<close>

definition table_section :: "bytes \<Rightarrow> string \<times> u32 \<times> u32 \<times> u32 \<Rightarrow> binary_section" where
  "table_section f = (\<lambda>(name, off, addr, sz).
     \<lparr>sec_name = name, load_addr = addr, sec_size = sz, sec_data = take (unat sz) (drop (unat off) f)\<rparr>)"

lemma load_sections_run:
  assumes "\<forall>(name, off, addr, sz) \<in> set tab. sz \<noteq> 0 \<longrightarrow> unat off + unat sz \<le> length f \<and> malloc_ok env (unat sz)"
    and "length f < 4294967296"
  shows "load_sections env f tab cb s = run_sections cb (map (table_section f) (filter (\<lambda>(name, off, addr, sz). sz \<noteq> 0) tab)) s"
  using assms(1)
proof (induction tab arbitrary: s)
  case (Cons e tab)
  obtain name off addr sz where e: "e = (name, off, addr, sz)" by (cases e) auto
  have IH: "load_sections env f tab cb s = run_sections cb (map (table_section f) (filter (\<lambda>(name, off, addr, sz). sz \<noteq> 0) tab)) s" for s
    using Cons by simp
  show ?case
  proof (cases "sz = 0")
    case False
    then have fit: "unat off + unat sz \<le> length f" "malloc_ok env (unat sz)" using Cons.prems e by auto
    then have "unat (off + sz) = unat off + unat sz" using assms(2) by (subst unat_add_lt) simp_all
    then have "\<not> off + sz > of_nat (length f)" using fit assms(2) by (simp add: word_less_nat_alt unat_of_nat32)
    then show ?thesis using False fit e IH
      by (cases "cb (table_section f e) s") (auto simp: table_section_def Let_def)
  qed (simp add: e IH)
qed simp

section \<open>Header words\<close>

lemma length_write32be: "p + 4 \<le> length buf \<Longrightarrow> length (write32be buf p v) = length buf"
  by (simp add: write32be_def)

lemma rd32_write32be_same: "p + 4 \<le> length buf \<Longrightarrow> rd32 (write32be buf p v) p = v"
  by (simp add: write32be_def rd32_at)

lemma rd32_write32be_other:
  assumes "p + 4 \<le> length buf" "q + 4 \<le> p \<or> p + 4 \<le> q"
  shows "rd32 (write32be buf p v) q = rd32 buf q"
proof -
  have "write32be buf p v ! j = buf ! j" if "j < p \<or> p + 4 \<le> j" for j
    using that assms(1) by (auto simp: write32be_def nth_append min_def)
  then show ?thesis using assms(2) by (auto simp: rd32_def)
qed

lemma length_slots [simp]: "length (slots buf b n) = n"
  by (simp add: slots_def)

lemma slots_write_same:
  assumes "b + n * 4 \<le> length buf" "k < n"
  shows "slots (write32be buf (b + k * 4) v) b n = (slots buf b n)[k := v]"
proof (rule nth_equalityI)
  fix i assume "i < length (slots (write32be buf (b + k * 4) v) b n)"
  then have i: "i < n" by simp
  have p: "b + k * 4 + 4 \<le> length buf" using assms by simp
  show "slots (write32be buf (b + k * 4) v) b n ! i = (slots buf b n)[k := v] ! i"
  proof (cases "i = k")
    case True
    then show ?thesis using i rd32_write32be_same [OF p] by (simp add: slots_def)
  next
    case False
    then have "b + i * 4 + 4 \<le> b + k * 4 \<or> b + k * 4 + 4 \<le> b + i * 4" by linarith
    then show ?thesis using False i rd32_write32be_other [OF p] by (simp add: slots_def)
  qed
qed simp

lemma slots_write_other:
  assumes "p + 4 \<le> length buf" "b + n * 4 \<le> p \<or> p + 4 \<le> b"
  shows "slots (write32be buf p v) b n = slots buf b n"
proof (rule nth_equalityI)
  fix i assume "i < length (slots (write32be buf p v) b n)"
  then have "b + i * 4 + 4 \<le> p \<or> p + 4 \<le> b + i * 4" using assms(2) by auto
  then show "slots (write32be buf p v) b n ! i = slots buf b n ! i"
    using rd32_write32be_other [OF assms(1)] \<open>i < _\<close> by (simp add: slots_def)
qed simp

section \<open>Offsets\<close>

lemma align_up_64:
  assumes "unat v + 63 < 4294967296"
  shows "unat (align_up v DOL_ALIGN) = (unat v + 63) div 64 * 64"
proof -
  have s: "unat (v + 63) = unat v + 63" using assms by (subst unat_add_lt) simp_all
  have m: "(63 :: u32) = mask 6" by (simp add: mask_eq_exp_minus_1)
  have "align_up v DOL_ALIGN = (v + 63) AND NOT (mask 6)"
    unfolding align_up_def DOL_ALIGN_def m [symmetric] by (simp add: add.commute)
  also have "\<dots> = push_bit 6 (drop_bit 6 (v + 63))"
    by (rule bit_word_eqI) (auto simp: bit_simps)
  also have "\<dots> = (v + 63) div 64 * 64" by (simp add: push_bit_eq_mult drop_bit_eq_div)
  finally have a: "align_up v DOL_ALIGN = (v + 63) div 64 * 64" .
  have d: "unat ((v + 63) div 64) = unat (v + 63) div 64" by (simp add: unat_div)
  have "unat (v + 63) div 64 * 64 \<le> unat (v + 63)" by simp
  then have "unat (v + 63) div 64 * 64 < 4294967296" using unat_lt32 [of "v + 63"] by linarith
  then have "unat (align_up v DOL_ALIGN) = unat (v + 63) div 64 * 64" unfolding a by (subst unat_mult_lt) (simp_all add: d)
  then show ?thesis by (simp add: s)
qed

lemma pad_loop_eq:
  assumes "length out \<le> unat fo"
  shows "pad_loop fo out = out @ replicate (unat fo - length out) 0"
  using assms
proof (induction "unat fo - length out" arbitrary: out)
  case 0
  then have "length out = unat fo" by simp
  then show ?case by (simp add: pad_loop.simps)
next
  case (Suc n)
  then have l: "length out < unat fo" by simp
  then have "length out < 4294967296" using unat_lt32 [of fo] by linarith
  then have "of_nat (length out) < fo" using l by (simp add: word_less_nat_alt unat_of_nat32)
  then have "pad_loop fo out = pad_loop fo (out @ [0])" by (simp add: pad_loop.simps [of fo out])
  also have "\<dots> = out @ [0] @ replicate (unat fo - length (out @ [0])) 0" using Suc l by (subst Suc(1)) simp_all
  also have "\<dots> = out @ replicate (Suc (unat fo - length (out @ [0]))) 0" by simp
  also have "Suc (unat fo - length (out @ [0])) = unat fo - length out" using l by simp
  finally show ?case .
qed

lemma pad_loop_prefix: "\<exists>ext. pad_loop fo out = out @ ext"
proof (induction fo out rule: pad_loop.induct)
  case (1 fo out)
  then show ?case by (subst pad_loop.simps) auto
qed

section \<open>What the converter writes\<close>

definition segs :: "(elf32_phdr \<Rightarrow> bool) \<Rightarrow> elf32_phdr list \<Rightarrow> elf32_phdr list" where
  "segs kind phs = filter (\<lambda>ph. p_type ph = 1 \<and> p_filesz ph \<noteq> 0 \<and> kind ph) phs"

definition seg_data :: "bytes \<Rightarrow> elf32_phdr \<Rightarrow> bytes" where
  "seg_data elf ph = take (unat (p_filesz ph)) (drop (unat (p_offset ph)) elf)"

lemma write_segments_segs:
  "write_segments elf kind bases phs st = write_segments elf kind bases (segs kind phs) st"
proof (induction phs arbitrary: st)
  case (Cons ph phs)
  obtain ob ab sb fo num hdr out where "bases = (ob, ab, sb)" "st = (fo, num, hdr, out)" by (metis prod_cases3 prod_cases4)
  then show ?case using Cons by (simp add: segs_def Let_def)
qed (simp add: segs_def)

lemma write_segments_prefix:
  "write_segments elf kind bases phs (fo, num, hdr, out) = Some (fo', num', hdr', out') \<Longrightarrow> \<exists>ext. out' = out @ ext"
proof (induction phs arbitrary: fo num hdr out)
  case (Cons ph phs)
  obtain ob ab sb where b: "bases = (ob, ab, sb)" by (cases bases)
  obtain ext where p: "pad_loop (align_up fo DOL_ALIGN) out = out @ ext" using pad_loop_prefix by blast
  show ?case using Cons.prems Cons.IH unfolding b by (fastforce simp: Let_def p split: if_splits)
qed simp

lemma classify_limits:
  "classify phs nt nd ba be = Inr r \<Longrightarrow> nt \<le> 7 \<Longrightarrow> nd \<le> 11 \<Longrightarrow>
    nt + length (segs is_text phs) \<le> 7 \<and> nd + length (segs (\<lambda>ph. \<not> is_text ph) phs) \<le> 11"
proof (induction phs arbitrary: nt nd ba be)
  case (Cons ph phs)
  let ?ld = "p_type ph = 1 \<and> p_filesz ph \<noteq> 0"
  let ?nt = "if ?ld \<and> is_text ph then nt + 1 else nt" and ?nd = "if ?ld \<and> \<not> is_text ph then nd + 1 else nd"
  have "(\<exists>ba be. classify phs ?nt ?nd ba be = Inr r) \<and> ?nt \<le> 7 \<and> ?nd \<le> 11"
    using Cons.prems by (auto simp: Let_def DOL_MAX_TEXT_def DOL_MAX_DATA_def word_gt_0 split: if_splits)
  then have "?nt + length (segs is_text phs) \<le> 7 \<and> ?nd + length (segs (\<lambda>ph. \<not> is_text ph) phs) \<le> 11"
    using Cons.IH by blast
  then show ?case by (auto simp: segs_def split: if_splits)
qed (simp add: segs_def)

text \<open>The places of the arrays of one kind of section: disjoint and inside the header.\<close>

definition arrays_ok :: "nat \<times> nat \<times> nat \<Rightarrow> nat \<Rightarrow> bool" where
  "arrays_ok bases n = (case bases of (ob, ab, sb) \<Rightarrow> ob + n * 4 \<le> ab \<and> ab + n * 4 \<le> sb \<and> sb + n * 4 \<le> 256)"

text \<open>What the header arrays and the file hold after the segments \<open>phs\<close> were written at \<open>offs\<close>, from slot \<open>num\<close> on.\<close>

definition placed :: "bytes \<Rightarrow> u32 list \<Rightarrow> elf32_phdr list \<Rightarrow> nat \<Rightarrow> bytes \<Rightarrow> bool" where
  "placed elf offs phs low f = (length offs = length phs \<and>
     (\<forall>(off, ph) \<in> set (zip offs phs). low \<le> unat off \<and> unat off + unat (p_filesz ph) \<le> length f
        \<and> take (unat (p_filesz ph)) (drop (unat off) f) = seg_data elf ph))"

definition put_slots :: "nat \<Rightarrow> 'a list \<Rightarrow> 'a list \<Rightarrow> 'a list" where
  "put_slots num vs xs = take num xs @ vs @ drop (num + length vs) xs"

lemma put_slots_Nil [simp]: "put_slots num [] xs = xs"
  by (simp add: put_slots_def)

lemma put_slots_Cons: "num < length xs \<Longrightarrow> put_slots (Suc num) vs (xs[num := v]) = put_slots num (v # vs) xs"
  by (simp add: put_slots_def take_Suc_conv_app_nth)

lemma write_segments_step:
  fixes out :: bytes
  assumes "p_type ph = 1" "p_filesz ph \<noteq> 0" "kind ph" "unat fo = length out" "length out + 64 \<le> 4294967296"
    and "write_segments elf kind (ob, ab, sb) (ph # phs) (fo, num, hdr, out) = Some r"
  obtains off where "unat off = (length out + 63) div 64 * 64" "length out \<le> unat off"
    and "write_segments elf kind (ob, ab, sb) phs (off + p_filesz ph, num + 1,
       write32be (write32be (write32be hdr (ob + num * 4) off) (ab + num * 4) (p_vaddr ph)) (sb + num * 4) (p_filesz ph),
       out @ replicate (unat off - length out) 0 @ seg_data elf ph) = Some r"
    and "length (seg_data elf ph) = unat (p_filesz ph)"
proof -
  define off where "off = align_up fo DOL_ALIGN"
  have u: "unat off = (length out + 63) div 64 * 64" unfolding off_def using align_up_64 [of fo] assms(4,5) by simp
  have le: "length out \<le> unat off" unfolding u by linarith
  show thesis
    using that [of off] u le assms(1-3,6) pad_loop_eq [OF le]
    by (auto simp: Let_def off_def [symmetric] seg_data_def split: if_splits)
qed

lemma placed_append: "placed elf offs phs low f \<Longrightarrow> placed elf offs phs low (f @ ext)"
  by (auto simp: placed_def)

lemma placed_nth:
  assumes "placed elf offs phs low f" "i < length phs"
  shows "low \<le> unat (offs ! i)" "unat (offs ! i) + unat (p_filesz (phs ! i)) \<le> length f"
    "take (unat (p_filesz (phs ! i))) (drop (unat (offs ! i)) f) = seg_data elf (phs ! i)"
proof -
  have "(offs ! i, phs ! i) \<in> set (zip offs phs)" using assms by (auto simp: placed_def set_zip)
  then show "low \<le> unat (offs ! i)" "unat (offs ! i) + unat (p_filesz (phs ! i)) \<le> length f"
    "take (unat (p_filesz (phs ! i))) (drop (unat (offs ! i)) f) = seg_data elf (phs ! i)"
    using assms(1) by (auto simp: placed_def)
qed

lemma placed_mono: "placed elf offs phs low f \<Longrightarrow> low' \<le> low \<Longrightarrow> placed elf offs phs low' f"
  by (fastforce simp: placed_def)

lemma placed_header:
  assumes "placed elf offs phs 256 f" "length hdr = 256" "256 \<le> length f"
  shows "placed elf offs phs 256 (hdr @ drop 256 f)"
proof -
  have "drop k (hdr @ drop 256 f) = drop k f" if "256 \<le> k" for k using that assms(2) by simp
  moreover have "length (hdr @ drop 256 f) = length f" using assms(2,3) by simp
  ultimately show ?thesis using assms(1) unfolding placed_def by fastforce
qed

lemma write_segments_header:
  assumes "write_segments elf kind (ob, ab, sb) phs (fo, num, hdr, out) = Some (fo', num', hdr', out')"
    and "\<forall>ph \<in> set phs. p_type ph = 1 \<and> p_filesz ph \<noteq> 0 \<and> kind ph"
    and "num + length phs \<le> n" "arrays_ok (ob, ab, sb) n" "length hdr = 256"
  shows "length hdr' = 256"
  using assms(1-3,5)
proof (induction phs arbitrary: fo num hdr out)
  case (Cons ph phs)
  have a: "ob + n * 4 \<le> ab" "ab + n * 4 \<le> sb" "sb + n * 4 \<le> 256" "num < n" using assms(4) Cons.prems(3) by (auto simp: arrays_ok_def)
  let ?hdr = "\<lambda>off. write32be (write32be (write32be hdr (ob + num * 4) off) (ab + num * 4) (p_vaddr ph)) (sb + num * 4) (p_filesz ph)"
  have "length (?hdr off) = 256" for off using a Cons.prems(4) by (simp add: length_write32be)
  then show ?case using Cons.prems Cons.IH [where num = "num + 1" and hdr = "?hdr (align_up fo DOL_ALIGN)"]
    by (auto simp: Let_def split: if_splits)
qed simp

lemma write_segments_placed:
  assumes "write_segments elf kind (ob, ab, sb) phs (fo, num, hdr, out) = Some (fo', num', hdr', out')"
    and "\<forall>ph \<in> set phs. p_type ph = 1 \<and> p_filesz ph \<noteq> 0 \<and> kind ph"
    and "num + length phs \<le> n" "arrays_ok (ob, ab, sb) n" "length hdr = 256"
    and "unat fo = length out" "length out' + 64 \<le> 4294967296"
  shows "num' = num + length phs \<and> unat fo' = length out' \<and> length hdr' = 256
    \<and> (\<forall>b m. (b + m * 4 \<le> ob \<or> ob + n * 4 \<le> b) \<and> (b + m * 4 \<le> ab \<or> ab + n * 4 \<le> b) \<and> (b + m * 4 \<le> sb \<or> sb + n * 4 \<le> b)
         \<longrightarrow> slots hdr' b m = slots hdr b m)
    \<and> (\<exists>offs. placed elf offs phs (length out) out' \<and> slots hdr' ob n = put_slots num offs (slots hdr ob n)
         \<and> slots hdr' ab n = put_slots num (map p_vaddr phs) (slots hdr ab n)
         \<and> slots hdr' sb n = put_slots num (map p_filesz phs) (slots hdr sb n)
         \<and> (phs \<noteq> [] \<longrightarrow> unat (offs ! 0) = (length out + 63) div 64 * 64))"
  using assms
proof (induction phs arbitrary: fo num hdr out)
  case Nil
  then show ?case by (auto simp: placed_def intro!: exI [of _ "[]"])
next
  case (Cons ph phs)
  obtain ext where "out' = out @ ext" using write_segments_prefix [OF Cons.prems(1)] by blast
  then have bound: "length out + 64 \<le> 4294967296" using Cons.prems(7) by simp
  have sel: "p_type ph = 1" "p_filesz ph \<noteq> 0" "kind ph" using Cons.prems(2) by auto
  obtain off where off: "unat off = (length out + 63) div 64 * 64" "length out \<le> unat off"
    and w: "write_segments elf kind (ob, ab, sb) phs (off + p_filesz ph, num + 1,
       write32be (write32be (write32be hdr (ob + num * 4) off) (ab + num * 4) (p_vaddr ph)) (sb + num * 4) (p_filesz ph),
       out @ replicate (unat off - length out) 0 @ seg_data elf ph) = Some (fo', num', hdr', out')"
    and l: "length (seg_data elf ph) = unat (p_filesz ph)"
    using write_segments_step [OF sel Cons.prems(6) bound Cons.prems(1)] by blast
  define hdr1 where "hdr1 = write32be (write32be (write32be hdr (ob + num * 4) off) (ab + num * 4) (p_vaddr ph)) (sb + num * 4) (p_filesz ph)"
  define out1 where "out1 = out @ replicate (unat off - length out) 0 @ seg_data elf ph"
  have o: "length out1 = unat off + unat (p_filesz ph)" using off(2) l by (simp add: out1_def)
  obtain ext1 where e: "out' = out1 @ ext1" using write_segments_prefix [OF w] by (auto simp: out1_def)
  have fo1: "unat (off + p_filesz ph) = length out1" using e o Cons.prems(7) by (subst unat_add_lt) simp_all
  have num: "num < n" using Cons.prems(3) by simp
  have a: "ob + n * 4 \<le> ab" "ab + n * 4 \<le> sb" "sb + n * 4 \<le> 256" using Cons.prems(4) by (auto simp: arrays_ok_def)
  have h1: "length hdr1 = 256" unfolding hdr1_def using a num Cons.prems(5) by (simp add: length_write32be)
  have s1: "slots hdr1 ob n = (slots hdr ob n)[num := off]" "slots hdr1 ab n = (slots hdr ab n)[num := p_vaddr ph]"
    "slots hdr1 sb n = (slots hdr sb n)[num := p_filesz ph]"
    unfolding hdr1_def using a num Cons.prems(5)
    by (simp_all add: slots_write_same slots_write_other length_write32be)
  have u1: "slots hdr1 b m = slots hdr b m"
    if "(b + m * 4 \<le> ob \<or> ob + n * 4 \<le> b) \<and> (b + m * 4 \<le> ab \<or> ab + n * 4 \<le> b) \<and> (b + m * 4 \<le> sb \<or> sb + n * 4 \<le> b)" for b m
    unfolding hdr1_def using a num Cons.prems(5) that by (subst slots_write_other; auto simp: length_write32be)+
  note IH = Cons.IH [OF w [folded hdr1_def out1_def] _ _ Cons.prems(4) h1 fo1 Cons.prems(7)]
  have IH': "num' = num + 1 + length phs \<and> unat fo' = length out' \<and> length hdr' = 256
    \<and> (\<forall>b m. (b + m * 4 \<le> ob \<or> ob + n * 4 \<le> b) \<and> (b + m * 4 \<le> ab \<or> ab + n * 4 \<le> b) \<and> (b + m * 4 \<le> sb \<or> sb + n * 4 \<le> b)
         \<longrightarrow> slots hdr' b m = slots hdr1 b m)
    \<and> (\<exists>offs. placed elf offs phs (length out1) out' \<and> slots hdr' ob n = put_slots (num + 1) offs (slots hdr1 ob n)
         \<and> slots hdr' ab n = put_slots (num + 1) (map p_vaddr phs) (slots hdr1 ab n)
         \<and> slots hdr' sb n = put_slots (num + 1) (map p_filesz phs) (slots hdr1 sb n)
         \<and> (phs \<noteq> [] \<longrightarrow> unat (offs ! 0) = (length out1 + 63) div 64 * 64))"
    using Cons.prems(2,3) by (intro IH) simp_all
  then obtain offs where offs: "placed elf offs phs (length out1) out'"
    "slots hdr' ob n = put_slots num (off # offs) (slots hdr ob n)"
    "slots hdr' ab n = put_slots num (map p_vaddr (ph # phs)) (slots hdr ab n)"
    "slots hdr' sb n = put_slots num (map p_filesz (ph # phs)) (slots hdr sb n)"
    using num by (auto simp: s1 put_slots_Cons)
  have "take (unat (p_filesz ph)) (drop (unat off) out') = seg_data elf ph"
    using off(2) l by (simp add: e out1_def)
  moreover have "placed elf offs phs (length out) out'" using offs(1) off(2) o by (auto intro: placed_mono)
  ultimately have "placed elf (off # offs) (ph # phs) (length out) out'" using off(2) o e l by (simp add: placed_def)
  then have "\<exists>offs. placed elf offs (ph # phs) (length out) out' \<and> slots hdr' ob n = put_slots num offs (slots hdr ob n)
      \<and> slots hdr' ab n = put_slots num (map p_vaddr (ph # phs)) (slots hdr ab n)
      \<and> slots hdr' sb n = put_slots num (map p_filesz (ph # phs)) (slots hdr sb n)
      \<and> (ph # phs \<noteq> [] \<longrightarrow> unat (offs ! 0) = (length out + 63) div 64 * 64)"
    using offs(2-4) off(1) by (intro exI [of _ "off # offs"]) simp
  then show ?case using IH' u1 by (simp del: list.map)
qed

section \<open>What the loader reads\<close>

definition dol_sections :: "string \<Rightarrow> bytes \<Rightarrow> elf32_phdr list \<Rightarrow> binary_section list" where
  "dol_sections kind elf phs = map (\<lambda>(i, ph).
     \<lparr>sec_name = section_name kind i, load_addr = p_vaddr ph, sec_size = p_filesz ph, sec_data = seg_data elf ph\<rparr>)
     (zip [0..<length phs] phs)"

lemma section_table_filter:
  assumes "length offs = n" "length addrs = n" "k \<le> n" "length ss = k" "\<forall>z \<in> set ss. z \<noteq> 0"
  shows "filter (\<lambda>(name, off, addr, sz). sz \<noteq> 0) (section_table kind offs addrs (ss @ replicate (n - k) 0))
    = zip (map (section_name kind) [0..<k]) (zip (take k offs) (zip (take k addrs) ss))"
proof -
  have n: "map (section_name kind) [0..<n] = map (section_name kind) [0..<k] @ map (section_name kind) [k..<n]"
    using assms(3) upt_add_eq_append [of 0 k "n - k"] by simp
  obtain o1 o2 where o: "offs = o1 @ o2" "length o1 = k" using assms(1,3) by (metis append_take_drop_id length_take min.absorb2)
  obtain a1 a2 where a: "addrs = a1 @ a2" "length a1 = k" using assms(2,3) by (metis append_take_drop_id length_take min.absorb2)
  have "section_table kind offs addrs (ss @ replicate (n - k) 0)
      = zip (map (section_name kind) [0..<k]) (zip o1 (zip a1 ss))
        @ zip (map (section_name kind) [k..<n]) (zip o2 (zip a2 (replicate (n - k) 0)))"
    unfolding section_table_def assms(1) n using o a assms(4) by simp
  moreover have "filter (\<lambda>(name, off, addr, sz). sz \<noteq> 0) (zip xs (zip ys (zip zs (replicate m 0)))) = []" for xs :: "string list" and ys zs :: "u32 list" and m
    by (auto simp: filter_empty_conv dest!: set_zip_rightD)
  moreover have "filter (\<lambda>(name, off, addr, sz). sz \<noteq> 0) (zip xs (zip ys (zip zs ss))) = zip xs (zip ys (zip zs ss))" for xs :: "string list" and ys zs :: "u32 list"
    using assms(5) by (auto simp: filter_id_conv dest!: set_zip_rightD)
  ultimately show ?thesis using o a by simp
qed

lemma table_sections_placed:
  assumes "placed elf offs phs low f"
  shows "map (table_section f) (zip (map (section_name kind) [0..<length phs]) (zip offs (zip (map p_vaddr phs) (map p_filesz phs))))
    = dol_sections kind elf phs"
proof (rule nth_equalityI)
  show "length (map (table_section f) (zip (map (section_name kind) [0..<length phs]) (zip offs (zip (map p_vaddr phs) (map p_filesz phs)))))
    = length (dol_sections kind elf phs)" using assms by (simp add: placed_def dol_sections_def)
  fix i assume "i < length (map (table_section f) (zip (map (section_name kind) [0..<length phs]) (zip offs (zip (map p_vaddr phs) (map p_filesz phs)))))"
  then have i: "i < length phs" "i < length offs" by auto
  then have "take (unat (p_filesz (phs ! i))) (drop (unat (offs ! i)) f) = seg_data elf (phs ! i)"
    using placed_nth(3) [OF assms] by simp
  then show "map (table_section f) (zip (map (section_name kind) [0..<length phs]) (zip offs (zip (map p_vaddr phs) (map p_filesz phs)))) ! i
    = dol_sections kind elf phs ! i"
    using i by (simp add: dol_sections_def table_section_def)
qed

text \<open>The header arrays of one kind, after the fix-ups of an empty kind: only the sizes decide which slots count.\<close>

definition arrays_hold :: "bytes \<Rightarrow> nat \<times> nat \<times> nat \<Rightarrow> nat \<Rightarrow> u32 list \<Rightarrow> elf32_phdr list \<Rightarrow> bool" where
  "arrays_hold hdr bases n offs phs = (case bases of (ob, ab, sb) \<Rightarrow> length phs \<le> n \<and> length offs = length phs
     \<and> take (length phs) (slots hdr ob n) = offs \<and> take (length phs) (slots hdr ab n) = map p_vaddr phs
     \<and> slots hdr sb n = map p_filesz phs @ replicate (n - length phs) 0)"

lemma load_sections_arrays:
  assumes "arrays_hold hdr (ob, ab, sb) n offs phs" "placed elf offs phs low f" "\<forall>ph \<in> set phs. p_filesz ph \<noteq> 0"
    and "\<forall>ph \<in> set phs. malloc_ok env (unat (p_filesz ph))" "length f < 4294967296"
  shows "load_sections env f (section_table kind (slots hdr ob n) (slots hdr ab n) (slots hdr sb n)) cb s
    = run_sections cb (dol_sections kind elf phs) s"
proof -
  let ?tab = "section_table kind (slots hdr ob n) (slots hdr ab n) (slots hdr sb n)"
  let ?fit = "zip (map (section_name kind) [0..<length phs]) (zip offs (zip (map p_vaddr phs) (map p_filesz phs)))"
  have filt: "filter (\<lambda>(name, off, addr, sz). sz \<noteq> 0) ?tab = ?fit"
    using section_table_filter [of "slots hdr ob n" n "slots hdr ab n" "length phs" "map p_filesz phs" kind] assms(1,3)
    by (simp add: arrays_hold_def)
  have "unat off + unat sz \<le> length f \<and> malloc_ok env (unat sz)" if mem: "(name, off, addr, sz) \<in> set ?fit" for name off addr sz
  proof -
    have "length offs = length phs" using assms(2) by (simp add: placed_def)
    then obtain i where "i < length phs" "off = offs ! i" "sz = p_filesz (phs ! i)" using mem by (auto simp: in_set_conv_nth)
    then show ?thesis using placed_nth(2) [OF assms(2)] assms(4) by simp
  qed
  then have "\<forall>(name, off, addr, sz) \<in> set ?tab. sz \<noteq> 0 \<longrightarrow> unat off + unat sz \<le> length f \<and> malloc_ok env (unat sz)"
    unfolding filt [symmetric] by auto
  then show ?thesis using load_sections_run [of ?tab f env cb s] assms(5) filt table_sections_placed [OF assms(2), of kind] by simp
qed

lemma probe_sections_arrays:
  assumes "arrays_hold hdr (ob, ab, sb) n offs phs" "placed elf offs phs 256 f" "\<forall>ph \<in> set phs. 0x80000000 \<le> p_vaddr ph"
    and "\<forall>ph \<in> set phs. p_filesz ph \<noteq> 0"
  shows "probe_sections (slots hdr ob n) (slots hdr ab n) (slots hdr sb n) = Some (phs \<noteq> [])"
proof -
  let ?k = "length phs"
  have k: "?k \<le> n" "length offs = ?k" using assms(1) by (auto simp: arrays_hold_def)
  have "\<not> (sz > 0 \<and> (off < of_nat DOL_HEADER_SIZE \<or> addr < 0x80000000))"
    if mem: "(off, addr, sz) \<in> set (zip (slots hdr ob n) (zip (slots hdr ab n) (slots hdr sb n)))" for off addr sz
  proof -
    obtain i where i: "i < n" "off = slots hdr ob n ! i" "addr = slots hdr ab n ! i" "sz = slots hdr sb n ! i"
      using mem by (auto simp: in_set_conv_nth)
    show ?thesis
    proof (cases "i < ?k")
      case True
      then have "off = offs ! i" "addr = p_vaddr (phs ! i)" using assms(1) i nth_take [of i ?k] by (auto simp: arrays_hold_def) (metis nth_map nth_take)
      moreover have "256 \<le> unat (offs ! i)" "0x80000000 \<le> p_vaddr (phs ! i)"
        using placed_nth(1) [OF assms(2)] assms(3) True by simp_all
      ultimately show ?thesis by (auto simp: DOL_HEADER_SIZE_def word_less_nat_alt word_le_nat_alt)
    next
      case False
      then show ?thesis using assms(1) i by (simp add: arrays_hold_def nth_append)
    qed
  qed
  moreover have "(\<exists>sz \<in> set (slots hdr sb n). sz > 0) \<longleftrightarrow> phs \<noteq> []"
    using assms(1,4) by (cases phs) (auto simp: arrays_hold_def word_gt_0)
  ultimately show ?thesis unfolding probe_sections_def by (subst if_not_P) (blast, simp)
qed

section \<open>From ELF to memory\<close>

lemma slots_zero: "b + n * 4 \<le> 256 \<Longrightarrow> slots (replicate 256 0) b n = replicate n 0"
  by (rule nth_equalityI) (simp_all add: slots_def rd32_def get_be32_def)

lemma arrays_hold_start:
  assumes "slots hdr ob n = put_slots 0 offs (slots hdr0 ob n)" "slots hdr ab n = put_slots 0 (map p_vaddr phs) (slots hdr0 ab n)"
    and "slots hdr sb n = put_slots 0 (map p_filesz phs) (replicate n 0)" "length phs \<le> n" "length offs = length phs"
  shows "arrays_hold hdr (ob, ab, sb) n offs phs"
  using assms by (simp add: arrays_hold_def put_slots_def)

lemma arrays_hold_write:
  assumes "arrays_hold hdr (ob, ab, sb) n offs phs" "p + 4 \<le> length hdr" "p + 4 \<le> sb \<or> sb + n * 4 \<le> p"
    and "phs = [] \<or> (p + 4 \<le> ob \<or> ob + n * 4 \<le> p) \<and> (p + 4 \<le> ab \<or> ab + n * 4 \<le> p)"
  shows "arrays_hold (write32be hdr p v) (ob, ab, sb) n offs phs"
proof -
  have sb: "slots (write32be hdr p v) sb n = slots hdr sb n" using assms(2,3) by (intro slots_write_other) auto
  from assms(4) show ?thesis
  proof
    assume "phs = []"
    then show ?thesis using assms(1) sb by (simp add: arrays_hold_def)
  next
    assume d: "(p + 4 \<le> ob \<or> ob + n * 4 \<le> p) \<and> (p + 4 \<le> ab \<or> ab + n * 4 \<le> p)"
    have "slots (write32be hdr p v) ob n = slots hdr ob n" "slots (write32be hdr p v) ab n = slots hdr ab n"
      using assms(2) d by (auto intro!: slots_write_other)
    then show ?thesis using assms(1) sb by (simp add: arrays_hold_def)
  qed
qed

lemma finish_header_arrays:
  fixes ba be e :: u32
  assumes "length hdr = 256" "arrays_hold hdr (0x00, 0x48, 0x90) 7 ot ts" "arrays_hold hdr (0x1C, 0x64, 0xAC) 11 od ds"
  defines "hdr' \<equiv> finish_header (length ts) (length ds) ba be e hdr"
  shows "length hdr' = 256" "arrays_hold hdr' (0x00, 0x48, 0x90) 7 ot ts" "arrays_hold hdr' (0x1C, 0x64, 0xAC) 11 od ds"
    "rd32 hdr' 0xE0 = e"
  unfolding hdr'_def finish_header_def Let_def using assms(1-3)
  by (auto simp: length_write32be rd32_write32be_same intro!: arrays_hold_write)

lemma elf2dol_result:
  assumes "elf2dol alloc elf = Some (Inr dol)" "elf_phdrs elf = Some phs"
  obtains fo nt hdr1 out1 fo' nd hdr2 out2 ba be where
    "classify phs 0 0 0 0 = Inr (ba, be)"
    "write_segments elf is_text (0x00, 0x48, 0x90) (segs is_text phs) (256, 0, replicate 256 0, replicate 256 0) = Some (fo, nt, hdr1, out1)"
    "write_segments elf (\<lambda>ph. \<not> is_text ph) (0x1C, 0x64, 0xAC) (segs (\<lambda>ph. \<not> is_text ph) phs) (fo, 0, hdr1, out1) = Some (fo', nd, hdr2, out2)"
    "dol = finish_header nt nd ba be (rd32 elf 24) hdr2 @ drop 256 out2"
  using assms
  by (auto simp: elf2dol_def Let_def DOL_HEADER_SIZE_def write_segments_segs [of elf _ _ phs]
      bind_eq_Some_conv split: if_splits sum.splits)

lemma elf2dol_placed:
  assumes "elf2dol alloc elf = Some (Inr dol)" "elf_phdrs elf = Some phs" "length dol + 64 \<le> 4294967296"
  defines "ts \<equiv> segs is_text phs" and "ds \<equiv> segs (\<lambda>ph. \<not> is_text ph) phs"
  obtains hdr body ot od where "dol = hdr @ body" "length hdr = 256" "rd32 hdr 0x00 = 256" "rd32 hdr 0xE0 = rd32 elf 24"
    "arrays_hold hdr (0x00, 0x48, 0x90) 7 ot ts" "arrays_hold hdr (0x1C, 0x64, 0xAC) 11 od ds"
    "placed elf ot ts 256 dol" "placed elf od ds 256 dol"
proof -
  obtain fo nt hdr1 out1 fo' nd hdr2 out2 ba be where c: "classify phs 0 0 0 0 = Inr (ba, be)"
    and w1: "write_segments elf is_text (0x00, 0x48, 0x90) ts (256, 0, replicate 256 0, replicate 256 0) = Some (fo, nt, hdr1, out1)"
    and w2: "write_segments elf (\<lambda>ph. \<not> is_text ph) (0x1C, 0x64, 0xAC) ds (fo, 0, hdr1, out1) = Some (fo', nd, hdr2, out2)"
    and dol: "dol = finish_header nt nd ba be (rd32 elf 24) hdr2 @ drop 256 out2"
    by (rule elf2dol_result [OF assms(1,2), folded ts_def ds_def])
  have lim: "length ts \<le> 7" "length ds \<le> 11" using classify_limits [OF c] by (simp_all add: ts_def ds_def)
  have sel: "\<forall>ph \<in> set ts. p_type ph = 1 \<and> p_filesz ph \<noteq> 0 \<and> is_text ph"
    "\<forall>ph \<in> set ds. p_type ph = 1 \<and> p_filesz ph \<noteq> 0 \<and> \<not> is_text ph" by (auto simp: ts_def ds_def segs_def)
  have ok: "arrays_ok (0x00, 0x48, 0x90) 7" "arrays_ok (0x1C, 0x64, 0xAC) 11" by (simp_all add: arrays_ok_def)
  obtain x1 x2 where x: "out1 = replicate 256 0 @ x1" "out2 = out1 @ x2"
    using write_segments_prefix [OF w1] write_segments_prefix [OF w2] by blast
  have h1: "length hdr1 = 256" using lim by (intro write_segments_header [OF w1 sel(1) _ ok(1)]) simp_all
  have h2: "length hdr2 = 256" using lim h1 by (intro write_segments_header [OF w2 sel(2) _ ok(2)]) simp_all
  have "length (finish_header nt nd ba be (rd32 elf 24) hdr2) = 256" using h2 by (simp add: finish_header_def Let_def length_write32be)
  then have len: "length out2 + 64 \<le> 4294967296" "length out1 + 64 \<le> 4294967296" using assms(3) x by (simp_all add: dol)
  have p1: "nt = length ts" "unat fo = length out1" and s1: "\<exists>offs. placed elf offs ts 256 out1 \<and> slots hdr1 0x00 7 = put_slots 0 offs (slots (replicate 256 0) 0x00 7)
      \<and> slots hdr1 0x48 7 = put_slots 0 (map p_vaddr ts) (slots (replicate 256 0) 0x48 7)
      \<and> slots hdr1 0x90 7 = put_slots 0 (map p_filesz ts) (slots (replicate 256 0) 0x90 7)
      \<and> (ts \<noteq> [] \<longrightarrow> unat (offs ! 0) = 256)"
    and u1: "slots hdr1 0xAC 11 = slots (replicate 256 0) 0xAC 11"
    using write_segments_placed [OF w1 sel(1) _ ok(1) _ _ len(2)] lim(1) by simp_all
  have p2: "nd = length ds" and s2: "\<exists>offs. placed elf offs ds (length out1) out2 \<and> slots hdr2 0x1C 11 = put_slots 0 offs (slots hdr1 0x1C 11)
      \<and> slots hdr2 0x64 11 = put_slots 0 (map p_vaddr ds) (slots hdr1 0x64 11)
      \<and> slots hdr2 0xAC 11 = put_slots 0 (map p_filesz ds) (slots hdr1 0xAC 11)
      \<and> (ds \<noteq> [] \<longrightarrow> unat (offs ! 0) = (length out1 + 63) div 64 * 64)"
    and u2: "slots hdr2 0x00 7 = slots hdr1 0x00 7" "slots hdr2 0x48 7 = slots hdr1 0x48 7" "slots hdr2 0x90 7 = slots hdr1 0x90 7"
    using write_segments_placed [OF w2 sel(2) _ ok(2) h1 p1(2) len(1)] lim(2) by simp_all
  obtain ot where ot: "placed elf ot ts 256 out1" and ot': "slots hdr1 0x00 7 = put_slots 0 ot (slots (replicate 256 0) 0x00 7)"
    "slots hdr1 0x48 7 = put_slots 0 (map p_vaddr ts) (slots (replicate 256 0) 0x48 7)"
    "slots hdr1 0x90 7 = put_slots 0 (map p_filesz ts) (replicate 7 0)" and o0: "ts \<noteq> [] \<longrightarrow> unat (ot ! 0) = 256"
    using s1 by (auto simp: slots_zero)
  obtain od where od: "placed elf od ds (length out1) out2" and od': "slots hdr2 0x1C 11 = put_slots 0 od (slots hdr1 0x1C 11)"
    "slots hdr2 0x64 11 = put_slots 0 (map p_vaddr ds) (slots hdr1 0x64 11)"
    "slots hdr2 0xAC 11 = put_slots 0 (map p_filesz ds) (replicate 11 0)"
    using s2 by (auto simp: slots_zero u1)
  have at: "arrays_hold hdr2 (0x00, 0x48, 0x90) 7 ot ts"
    by (rule arrays_hold_start [OF ot' [folded u2] lim(1)]) (use ot in \<open>simp add: placed_def\<close>)
  have ad: "arrays_hold hdr2 (0x1C, 0x64, 0xAC) 11 od ds"
    by (rule arrays_hold_start [OF od' lim(2)]) (use od in \<open>simp add: placed_def\<close>)
  let ?hdr = "finish_header nt nd ba be (rd32 elf 24) hdr2"
  note f = finish_header_arrays [OF h2 at ad, folded p1(1) p2, where ba = ba and be = be and e = "rd32 elf 24"]
  have z: "rd32 ?hdr 0x00 = 256"
  proof (cases "ts = []")
    case True
    then show ?thesis using h2 by (auto simp: p1(1) finish_header_def Let_def rd32_write32be_other rd32_write32be_same length_write32be
        align_up_def DOL_ALIGN_def DOL_HEADER_SIZE_def)
  next
    case False
    then have "slots ?hdr 0x00 7 ! 0 = ot ! 0" using f(2) by (auto simp: arrays_hold_def dest: nth_take [of 0])
    then have "rd32 ?hdr 0x00 = ot ! 0" by (simp add: slots_def)
    then show ?thesis using o0 False by (metis unat_eq_of_nat of_nat_numeral)
  qed
  have "256 \<le> length out1" using x(1) by simp
  then have "placed elf od ds 256 out2" by (rule placed_mono [OF od])
  moreover have "placed elf ot ts 256 out2" unfolding x(2) by (rule placed_append [OF ot])
  moreover have "256 \<le> length out2" using x by simp
  ultimately show thesis using that [OF dol f(1) z f(4,2,3)] placed_header [OF _ f(1)] unfolding dol by blast
qed

lemma elf2dol_first_byte:
  assumes "elf2dol alloc elf = Some (Inr dol)" "elf_phdrs elf = Some phs" "length dol + 64 \<le> 4294967296"
  shows "\<exists>rest. dol = 0 # rest"
proof -
  obtain hdr body where dol: "dol = hdr @ body" "length hdr = 256" "rd32 hdr 0x00 = 256"
    by (rule elf2dol_placed [OF assms])
  have "be32 (rd32 hdr 0) = [hdr ! 0, hdr ! 1, hdr ! 2, hdr ! 3]" by (simp add: rd32_def be32_get_be32 numeral_2_eq_2)
  then have "hdr ! 0 = 0" using dol(3) by (simp add: be32_def)
  then show ?thesis using dol(1,2) by (cases hdr) auto
qed

lemma dol_load_elf2dol:
  fixes cb :: "'s section_cb"
  assumes "elf2dol alloc elf = Some (Inr dol)" and "elf_phdrs elf = Some phs" and "length dol + 64 \<le> 2 ^ 32"
    and "files env filename = Some dol" and "\<forall>ph \<in> set phs. malloc_ok env (unat (p_filesz ph))"
  defines "ts \<equiv> segs is_text phs" and "ds \<equiv> segs (\<lambda>ph. \<not> is_text ph) phs"
  shows "dol_load env filename entry cb s
      = with_entry (rd32 elf 24) (run_sections cb (dol_sections ''text'' elf ts @ dol_sections ''data'' elf ds) s)"
    and "0x80000000 \<le> rd32 elf 24 \<and> rd32 elf 24 \<le> 0x817FFFFF \<and> ts @ ds \<noteq> [] \<and> (\<forall>ph \<in> set (ts @ ds). 0x80000000 \<le> p_vaddr ph)
      \<longrightarrow> dol_probe env filename"
proof -
  have len: "length dol + 64 \<le> 4294967296" using assms(3) by simp
  obtain hdr body ot od where dol: "dol = hdr @ body" "length hdr = 256" and "rd32 hdr 0x00 = 256" and e: "rd32 hdr 0xE0 = rd32 elf 24"
    and t: "arrays_hold hdr (0x00, 0x48, 0x90) 7 ot ts" "placed elf ot ts 256 dol"
    and d: "arrays_hold hdr (0x1C, 0x64, 0xAC) 11 od ds" "placed elf od ds 256 dol"
    by (rule elf2dol_placed [OF assms(1,2) len, folded ts_def ds_def])
  have nz: "\<forall>ph \<in> set ts. p_filesz ph \<noteq> 0" "\<forall>ph \<in> set ds. p_filesz ph \<noteq> 0"
    and m: "\<forall>ph \<in> set ts. malloc_ok env (unat (p_filesz ph))" "\<forall>ph \<in> set ds. malloc_ok env (unat (p_filesz ph))"
    using assms(5) by (auto simp: ts_def ds_def segs_def)
  have hdr: "take DOL_HEADER_SIZE dol = hdr" "\<not> length dol < DOL_HEADER_SIZE" using dol by (simp_all add: DOL_HEADER_SIZE_def)
  have ld: "load_sections env dol (section_table ''text'' (slots hdr 0x00 7) (slots hdr 0x48 7) (slots hdr 0x90 7)) cb s
      = run_sections cb (dol_sections ''text'' elf ts) s"
    "load_sections env dol (section_table ''data'' (slots hdr 0x1C 11) (slots hdr 0x64 11) (slots hdr 0xAC 11)) cb s
      = run_sections cb (dol_sections ''data'' elf ds) s" for s
    using load_sections_arrays [OF t nz(1) m(1)] load_sections_arrays [OF d nz(2) m(2)] len by simp_all
  show "dol_load env filename entry cb s
      = with_entry (rd32 elf 24) (run_sections cb (dol_sections ''text'' elf ts @ dol_sections ''data'' elf ds) s)"
    using assms(4) by (cases "run_sections cb (dol_sections ''text'' elf ts) s")
      (auto simp: dol_load_def parse_header_def hdr ld e DOL_MAX_TEXT_def DOL_MAX_DATA_def run_sections_append Let_def)
  show "0x80000000 \<le> rd32 elf 24 \<and> rd32 elf 24 \<le> 0x817FFFFF \<and> ts @ ds \<noteq> [] \<and> (\<forall>ph \<in> set (ts @ ds). 0x80000000 \<le> p_vaddr ph)
      \<longrightarrow> dol_probe env filename"
  proof
    assume *: "0x80000000 \<le> rd32 elf 24 \<and> rd32 elf 24 \<le> 0x817FFFFF \<and> ts @ ds \<noteq> [] \<and> (\<forall>ph \<in> set (ts @ ds). 0x80000000 \<le> p_vaddr ph)"
    then have "probe_sections (slots hdr 0x00 7) (slots hdr 0x48 7) (slots hdr 0x90 7) = Some (ts \<noteq> [])"
      "probe_sections (slots hdr 0x1C 11) (slots hdr 0x64 11) (slots hdr 0xAC 11) = Some (ds \<noteq> [])"
      using nz by (auto intro!: probe_sections_arrays [OF t] probe_sections_arrays [OF d])
    then show "dol_probe env filename" using * assms(4)
      by (auto simp: dol_probe_def parse_header_def hdr e DOL_MAX_TEXT_def DOL_MAX_DATA_def Let_def not_less)
  qed
qed

text \<open>
  C14. A DOL file made by \<open>elf2dol\<close> is loaded by \<open>dol_load\<close> as the ELF file it was made from. For every ELF
  file the converter accepts, with a result below 4 GB, the loader calls its callback once for each non-empty
  \<open>PT_LOAD\<close> segment, executable ones first and each kind in the order of the program headers, with the
  segment's own bytes, size and virtual address, stops at the first failure, and reports the ELF entry point;
  and the probe recognises the file as a DOL when the entry point and the segments lie in the console's memory.
\<close>

theorem elf2dol_dol_load:
  fixes cb :: "'s section_cb"
  assumes "elf2dol alloc elf = Some (Inr dol)" and "elf_phdrs elf = Some phs" and "length dol + 64 \<le> 2 ^ 32"
    and "files env filename = Some dol" and "\<forall>ph \<in> set phs. malloc_ok env (unat (p_filesz ph))"
  shows "dol_load env filename entry cb s
      = with_entry (rd32 elf 24)
          (run_sections cb (dol_sections ''text'' elf (segs is_text phs) @ dol_sections ''data'' elf (segs (\<lambda>ph. \<not> is_text ph) phs)) s)
    \<and> (0x80000000 \<le> rd32 elf 24 \<and> rd32 elf 24 \<le> 0x817FFFFF \<and> segs (\<lambda>_. True) phs \<noteq> []
          \<and> (\<forall>ph \<in> set (segs (\<lambda>_. True) phs). 0x80000000 \<le> p_vaddr ph) \<longrightarrow> dol_probe env filename)"
proof -
  have "set (segs (\<lambda>_. True) phs) = set (segs is_text phs @ segs (\<lambda>ph. \<not> is_text ph) phs)" by (auto simp: segs_def)
  moreover from this have "segs (\<lambda>_. True) phs \<noteq> [] \<longleftrightarrow> segs is_text phs @ segs (\<lambda>ph. \<not> is_text ph) phs \<noteq> []"
    by (metis set_empty)
  ultimately show ?thesis using dol_load_elf2dol [OF assms] by metis
qed

text \<open>A small ELF file: one executable segment of four bytes.\<close>

definition sample_elf :: bytes where
  "sample_elf = [0x7f, 0x45, 0x4c, 0x46, 1, 2, 1, 0] @ replicate 8 0 @ be16 2 @ be16 20 @ be32 1 @ be32 0x80003100 @ be32 52
     @ be32 0 @ be32 0 @ be16 52 @ be16 32 @ be16 1 @ be16 0 @ be16 0 @ be16 0
     @ be32 1 @ be32 84 @ be32 0x80003100 @ be32 0x80003100 @ be32 4 @ be32 8 @ be32 5 @ be32 4 @ [1, 2, 3, 4]"

lemma sample_elf_phdrs:
  "elf_phdrs sample_elf = Some [\<lparr>p_type = 1, p_offset = 84, p_vaddr = 0x80003100, p_paddr = 0x80003100,
     p_filesz = 4, p_memsz = 8, p_flags = 5, p_align = 4\<rparr>]"
  by code_simp

lemma sample_elf_dol: "\<exists>dol. elf2dol (\<lambda>_. True) sample_elf = Some (Inr dol) \<and> length dol = 260"
proof -
  have "(case elf2dol (\<lambda>_. True) sample_elf of Some (Inr dol) \<Rightarrow> length dol = 260 | _ \<Rightarrow> False)" by code_simp
  then show ?thesis by (auto split: option.splits sum.splits)
qed

theorem elf2dol_dol_load_witness:
  "\<exists>dol. elf2dol (\<lambda>_. True) sample_elf = Some (Inr dol)
     \<and> dol_load (one_file dol) ''a'' 0 collect []
       = Some (0, 0x80003100, [\<lparr>sec_name = ''text0'', load_addr = 0x80003100, sec_size = 4, sec_data = [1, 2, 3, 4]\<rparr>])
     \<and> dol_probe (one_file dol) ''a''"
proof -
  obtain dol where dol: "elf2dol (\<lambda>_. True) sample_elf = Some (Inr dol)" "length dol = 260" using sample_elf_dol by blast
  have s: "rd32 sample_elf 24 = 0x80003100" by code_simp
  have d: "take 4 (drop 84 sample_elf) = [1, 2, 3, 4]" by code_simp
  have n: "section_name ''text'' 0 = ''text0''" by code_simp
  show ?thesis
    using elf2dol_dol_load [OF dol(1) sample_elf_phdrs, of "one_file dol" "''a''" 0 collect "[]"] dol
    by (simp add: one_file_def collect_def segs_def is_text_def dol_sections_def seg_data_def s d n)
qed

end
