(* ===== verification/Upload.thy ===== *)
theory Upload
  imports Scramble Srec Dol Link
begin

text \<open>
  \<^verbatim>\<open>host/src/binary/elf.c\<close>, \<^verbatim>\<open>host/src/binary/raw.c\<close> and \<^verbatim>\<open>host/src/upload.c\<close>: the remaining loaders, the choice of a
  loader, and the upload of a file through a transport. libelf is a parameter: \<open>libelf f\<close> is what its calls report of a
  file with the contents \<open>f\<close> (\<open>None\<close> when it cannot be opened as an ELF file). The transport's \<open>send_data\<close> is a parameter of \<open>upload\<close>; the
  locale \<open>data_transport\<close> states what it promises, and its interpretation is the UDP transport against the
  console. Messages and the transfer statistics are left out.
\<close>

section \<open>The ELF loader\<close>

record elf_scn =
  scn_shdr_ok :: bool
  scn_name :: "string option"
  sh_addr :: u32
  sh_flags :: u32
  sh_size :: u32
  scn_data :: "bytes option"

record elf_file =
  elf_entry :: "u32 option"
  shdrstrndx_ok :: bool
  elf_scns :: "elf_scn list"

type_synonym libelf = "bytes \<Rightarrow> elf_file option"

definition elf_probe :: "host_env \<Rightarrow> string \<Rightarrow> bool" where
  "elf_probe env filename =
     (case files env filename of None \<Rightarrow> False
      | Some f \<Rightarrow> length f \<ge> 4 \<and> take 4 f = [0x7f, 0x45, 0x4c, 0x46])"

fun elf_sections :: "elf_scn list \<Rightarrow> 's section_cb \<Rightarrow> 's \<Rightarrow> (int \<times> 's) option" where
  "elf_sections [] cb s = Some (0, s)"
| "elf_sections (scn # scns) cb s =
     (if \<not> scn_shdr_ok scn then Some (- 1, s)
      else case scn_name scn of None \<Rightarrow> Some (- 1, s)
      | Some name \<Rightarrow>
        if sh_addr scn = 0 \<or> sh_flags scn AND 2 = 0 then elf_sections scns cb s
        else case scn_data scn of None \<Rightarrow> elf_sections scns cb s
        | Some dat \<Rightarrow>
          if dat = [] then elf_sections scns cb s
          else let sz = (if length dat < unat (sh_size scn) then of_nat (length dat) else sh_size scn) in
            Option.bind (cb \<lparr>sec_name = name, load_addr = sh_addr scn, sec_size = sz, sec_data = dat\<rparr> s)
              (\<lambda>(ret, s). if ret \<noteq> 0 then Some (- 1, s) else elf_sections scns cb s))"

definition elf_load :: "libelf \<Rightarrow> 's loader" where
  "elf_load lib env filename entry cb s =
     (case Option.bind (files env filename) lib of None \<Rightarrow> Some (- 1, entry, s)
      | Some elf \<Rightarrow>
        (case elf_entry elf of None \<Rightarrow> Some (- 1, entry, s)
         | Some e \<Rightarrow> if \<not> shdrstrndx_ok elf then Some (- 1, e, s) else with_entry e (elf_sections (elf_scns elf) cb s)))"

definition elf_binary_ops :: "libelf \<Rightarrow> 's binary_ops" where
  "elf_binary_ops lib = \<lparr>ops_name = ''ELF'', ops_probe = elf_probe, ops_load = elf_load lib\<rparr>"

section \<open>Raw files and the choice of a loader\<close>

definition raw_probe :: "host_env \<Rightarrow> string \<Rightarrow> bool" where
  "raw_probe env filename = (case files env filename of None \<Rightarrow> False | Some f \<Rightarrow> length f > 0)"

definition raw_load :: "'s loader" where
  "raw_load env filename entry cb s =
     (case files env filename of None \<Rightarrow> Some (- 1, entry, s)
      | Some f \<Rightarrow>
        if \<not> malloc_ok env (length f) then Some (- 1, entry, s)
        else with_entry entry (cb \<lparr>sec_name = ''.raw'', load_addr = entry, sec_size = of_nat (length f), sec_data = f\<rparr> s))"

definition raw_binary_ops :: "'s binary_ops" where
  "raw_binary_ops = \<lparr>ops_name = ''raw'', ops_probe = raw_probe, ops_load = raw_load\<rparr>"

fun first_format :: "'s binary_ops list \<Rightarrow> 's loader" where
  "first_format [] env filename entry cb s = Some (- 1, entry, s)"
| "first_format (fmt # fmts) env filename entry cb s =
     (if ops_probe fmt env filename then ops_load fmt env filename entry cb s else first_format fmts env filename entry cb s)"

definition binary_auto_load :: "libelf \<Rightarrow> 's loader" where
  "binary_auto_load lib env filename default_addr cb s =
     first_format [elf_binary_ops lib, srec_binary_ops, dol_binary_ops, raw_binary_ops] env filename default_addr cb s"

section \<open>The upload\<close>

datatype console_type = CONSOLE_UNKNOWN | CONSOLE_DC | CONSOLE_GC | CONSOLE_PS2 | CONSOLE_WII | CONSOLE_XBOX | CONSOLE_PSP

record upload_ctx =
  up_console :: console_type
  force_descramble :: bool

record 's upload_state =
  filename_scrambled :: bool
  saw_raw :: bool
  up_error :: bool
  total_bytes :: u32
  up_sections :: u32
  transport :: 's

type_synonym 's send_data = "bytes \<Rightarrow> u32 \<Rightarrow> u32 \<Rightarrow> 's \<Rightarrow> (int \<times> 's) option"

fun base_name :: "string \<Rightarrow> string \<Rightarrow> string" where
  "base_name name [] = name"
| "base_name name (c # p) = (if c = CHR ''/'' \<or> c = CHR 0x5C then base_name p p else base_name name p)"

fun same_name :: "string \<Rightarrow> string \<Rightarrow> bool" where
  "same_name (c # name) (e # expected) = (if tolower c \<noteq> e then False else same_name name expected)"
| "same_name name expected = (name = [] \<and> expected = [])"

definition is_scrambled_filename :: "string \<Rightarrow> bool" where
  "is_scrambled_filename filename = same_name (base_name filename filename) ''1st_read.bin''"

definition maybe_descramble ::
  "host_env \<Rightarrow> upload_ctx \<Rightarrow> binary_section \<Rightarrow> 's upload_state \<Rightarrow> (bytes option \<times> 's upload_state) option" where
  "maybe_descramble env ctx sec st =
     (if up_console ctx \<noteq> CONSOLE_DC \<or> sec_name sec \<noteq> ''.raw'' then Some (None, st)
      else let st = st\<lparr>saw_raw := True\<rparr> in
        if \<not> force_descramble ctx \<and> \<not> filename_scrambled st then Some (None, st)
        else let n = unat (sec_size sec) in
          if \<not> malloc_ok env n then Some (None, st)
          else map_option (\<lambda>(ret, out). (if ret \<noteq> 0 then None else Some out, st))
                 (dc_descramble (malloc_ok env (SCRAMBLE_MAXCHUNK div SCRAMBLE_SLICE * 4)) (sec_data sec) (heap_buf env n) n))"

definition upload_section_cb :: "host_env \<Rightarrow> upload_ctx \<Rightarrow> 's send_data \<Rightarrow> 's upload_state section_cb" where
  "upload_section_cb env ctx send sec st =
     Option.bind (maybe_descramble env ctx sec st) (\<lambda>(descrambled, st).
       let dat = (case descrambled of None \<Rightarrow> sec_data sec | Some d \<Rightarrow> d) in
       Option.bind (send dat (load_addr sec) (sec_size sec) (transport st)) (\<lambda>(ret, ts).
         let st = st\<lparr>transport := ts\<rparr> in
         Some (ret, if ret \<noteq> 0 then st\<lparr>up_error := True\<rparr>
                    else st\<lparr>total_bytes := total_bytes st + sec_size sec, up_sections := up_sections st + 1\<rparr>)))"

definition upload :: "libelf \<Rightarrow> host_env \<Rightarrow> upload_ctx \<Rightarrow> 's send_data \<Rightarrow> string \<Rightarrow> u32 \<Rightarrow> 's \<Rightarrow> (u32 \<times> 's) option" where
  "upload lib env ctx send filename address ts =
     (let st = \<lparr>filename_scrambled = is_scrambled_filename filename, saw_raw = False, up_error = False,
                total_bytes = 0, up_sections = 0, transport = ts\<rparr> in
      Option.bind (binary_auto_load lib env filename address (upload_section_cb env ctx send) st) (\<lambda>(ret, entry, st).
        Some (if ret \<noteq> 0 \<or> up_error st then 0 else entry, transport st)))"

section \<open>What a transport promises\<close>

definition in_memory :: "memory \<Rightarrow> binary_section \<Rightarrow> bool" where
  "in_memory m sec = (mem_read m (load_addr sec) (length (sec_data sec)) = sec_data sec)"

definition disjoint_sections :: "binary_section \<Rightarrow> binary_section \<Rightarrow> bool" where
  "disjoint_sections a b = (\<forall>i < length (sec_data a). outside (load_addr b) (length (sec_data b)) (load_addr a + of_nat i))"

lemma in_memory_cong:
  assumes "in_memory m sec" "\<And>i. i < length (sec_data sec) \<Longrightarrow> m' (load_addr sec + of_nat i) = m (load_addr sec + of_nat i)"
  shows "in_memory m' sec"
  using assms unfolding in_memory_def mem_read_def by (metis (mono_tags, lifting) atLeastLessThan_iff map_eq_conv set_upt)

text \<open>
  A transport that is ready delivers data it accepts: afterwards the console's memory holds them, the rest of the memory is
  as before, and the transport is ready again.
\<close>

locale data_transport =
  fixes send :: "'s send_data"
    and ready :: "'s \<Rightarrow> bool"
    and accepts :: "bytes \<Rightarrow> bool"
    and console_mem :: "'s \<Rightarrow> memory"
  assumes send_delivers: "ready s \<Longrightarrow> accepts dat \<Longrightarrow> \<exists>s'. send dat addr (of_nat (length dat)) s = Some (0, s') \<and> ready s'
      \<and> mem_read (console_mem s') addr (length dat) = dat
      \<and> (\<forall>a. outside addr (length dat) a \<longrightarrow> console_mem s' a = console_mem s a)"
    and accepts_length: "accepts dat \<Longrightarrow> length dat' = length dat \<Longrightarrow> accepts dat'"
begin

text \<open>A section goes through unchanged unless it is a raw file for a Dreamcast.\<close>

definition plain :: "upload_ctx \<Rightarrow> binary_section \<Rightarrow> bool" where
  "plain ctx sec = ((up_console ctx \<noteq> CONSOLE_DC \<or> sec_name sec \<noteq> ''.raw'') \<and> accepts (sec_data sec)
     \<and> sec_size sec = of_nat (length (sec_data sec)))"

lemma plain_section:
  assumes "plain ctx sec" "ready (transport st)"
  shows "\<exists>st'. upload_section_cb env ctx send sec st = Some (0, st') \<and> ready (transport st') \<and> up_error st' = up_error st
    \<and> in_memory (console_mem (transport st')) sec
    \<and> (\<forall>a. outside (load_addr sec) (length (sec_data sec)) a \<longrightarrow> console_mem (transport st') a = console_mem (transport st) a)"
proof -
  obtain s' where "send (sec_data sec) (load_addr sec) (sec_size sec) (transport st) = Some (0, s')" "ready s'"
    "in_memory (console_mem s') sec"
    "\<forall>a. outside (load_addr sec) (length (sec_data sec)) a \<longrightarrow> console_mem s' a = console_mem (transport st) a"
    using send_delivers [OF assms(2), of "sec_data sec" "load_addr sec"] assms(1) unfolding plain_def in_memory_def by metis
  moreover have "maybe_descramble env ctx sec st = Some (None, st)" using assms(1) by (auto simp: plain_def maybe_descramble_def)
  ultimately show ?thesis by (simp add: upload_section_cb_def)
qed

lemma plain_sections:
  assumes "\<forall>sec \<in> set secs. plain ctx sec" "ready (transport st)" "sorted_wrt disjoint_sections secs"
  shows "\<exists>st'. run_sections (upload_section_cb env ctx send) secs st = Some (0, st') \<and> ready (transport st') \<and> up_error st' = up_error st
    \<and> (\<forall>sec \<in> set secs. in_memory (console_mem (transport st')) sec)
    \<and> (\<forall>a. (\<forall>sec \<in> set secs. outside (load_addr sec) (length (sec_data sec)) a) \<longrightarrow> console_mem (transport st') a = console_mem (transport st) a)"
  using assms
proof (induction secs arbitrary: st)
  case (Cons sec secs)
  obtain st1 where 1: "upload_section_cb env ctx send sec st = Some (0, st1)" "ready (transport st1)" "up_error st1 = up_error st"
    "in_memory (console_mem (transport st1)) sec"
    "\<forall>a. outside (load_addr sec) (length (sec_data sec)) a \<longrightarrow> console_mem (transport st1) a = console_mem (transport st) a"
    using plain_section [of ctx sec st env] Cons.prems by auto
  obtain st2 where 2: "run_sections (upload_section_cb env ctx send) secs st1 = Some (0, st2)" "ready (transport st2)" "up_error st2 = up_error st1"
    "\<forall>sec \<in> set secs. in_memory (console_mem (transport st2)) sec"
    "\<forall>a. (\<forall>sec \<in> set secs. outside (load_addr sec) (length (sec_data sec)) a) \<longrightarrow> console_mem (transport st2) a = console_mem (transport st1) a"
    using Cons.IH [of st1] Cons.prems 1(2) by auto
  have "in_memory (console_mem (transport st2)) sec"
    by (rule in_memory_cong [OF 1(4)]) (use 2(5) Cons.prems(3) in \<open>auto simp: disjoint_sections_def\<close>)
  then show ?case using 1 2 by auto
qed simp

end

lemma first_format_dol:
  assumes "files env filename = Some (0 # rest)" "dol_probe env filename"
  shows "binary_auto_load lib env filename addr cb s = dol_load env filename addr cb s"
  using assms by (simp add: binary_auto_load_def elf_binary_ops_def srec_binary_ops_def dol_binary_ops_def elf_probe_def srec_probe_def)

lemma seg_data_length:
  assumes "elf2dol alloc elf = Some (Inr dol)" "elf_phdrs elf = Some phs" "length dol + 64 \<le> 4294967296"
    and "ph \<in> set (segs is_text phs @ segs (\<lambda>ph. \<not> is_text ph) phs)"
  shows "length (seg_data elf ph) = unat (p_filesz ph)"
proof -
  obtain ot od where p: "placed elf ot (segs is_text phs) 256 dol" "placed elf od (segs (\<lambda>ph. \<not> is_text ph) phs) 256 dol"
    by (rule elf2dol_placed [OF assms(1-3)])
  have "length (seg_data elf ph) = unat (p_filesz ph)" if pl: "placed elf offs qs 256 dol" and mem: "ph \<in> set qs" for offs qs
  proof -
    obtain i where i: "i < length qs" "qs ! i = ph" using mem by (auto simp: in_set_conv_nth)
    show ?thesis using placed_nth(2,3) [OF pl i(1)] unfolding i(2) by (metis add.commute add_le_imp_le_diff length_drop length_take min.absorb2)
  qed
  then show ?thesis using p assms(4) by auto
qed

lemma dol_sections_set:
  "sec \<in> set (dol_sections kind elf phs) \<Longrightarrow> \<exists>ph \<in> set phs. load_addr sec = p_vaddr ph \<and> sec_size sec = p_filesz ph \<and> sec_data sec = seg_data elf ph
     \<and> (\<exists>i. sec_name sec = section_name kind i)"
  "ph \<in> set phs \<Longrightarrow> \<exists>sec \<in> set (dol_sections kind elf phs). load_addr sec = p_vaddr ph \<and> sec_data sec = seg_data elf ph"
proof -
  show "\<exists>ph \<in> set phs. load_addr sec = p_vaddr ph \<and> sec_size sec = p_filesz ph \<and> sec_data sec = seg_data elf ph
     \<and> (\<exists>i. sec_name sec = section_name kind i)" if "sec \<in> set (dol_sections kind elf phs)"
    using that unfolding dol_sections_def by (auto dest!: set_zip_rightD) blast
  assume "ph \<in> set phs"
  then obtain i where "i < length phs" "phs ! i = ph" by (auto simp: in_set_conv_nth)
  then have "load_addr (dol_sections kind elf phs ! i) = p_vaddr ph" "sec_data (dol_sections kind elf phs ! i) = seg_data elf ph"
    "i < length (dol_sections kind elf phs)" by (simp_all add: dol_sections_def)
  then show "\<exists>sec \<in> set (dol_sections kind elf phs). load_addr sec = p_vaddr ph \<and> sec_data sec = seg_data elf ph"
    using nth_mem by blast
qed

lemma raw_descrambled:
  assumes "up_console ctx = CONSOLE_DC" "sec_name sec = ''.raw''" "unat (sec_size sec) = length (sec_data sec)"
    and "\<forall>n. malloc_ok env n \<and> length (heap_buf env n) = n"
  shows "\<exists>d. maybe_descramble env ctx sec st = Some (d, st\<lparr>saw_raw := True\<rparr>)
    \<and> (if force_descramble ctx \<or> filename_scrambled st
       then \<exists>out. d = Some out \<and> length out = length (sec_data sec)
              \<and> dc_descramble True (sec_data sec) (heap_buf env (length (sec_data sec))) (length (sec_data sec)) = Some (0, out)
       else d = None)"
  using assms dc_descramble_write_at [of "sec_data sec" "length (sec_data sec)" "heap_buf env (length (sec_data sec))"]
  by (simp add: maybe_descramble_def Let_def)

context data_transport
begin

text \<open>A program converted by \<open>elf2dol\<close>, through any transport.\<close>

lemma dol_uploaded:
  assumes "elf2dol alloc elf = Some (Inr dol)" and "elf_phdrs elf = Some phs" and "length dol + 64 \<le> 2 ^ 32"
    and "files env filename = Some dol" and "\<forall>ph \<in> set phs. malloc_ok env (unat (p_filesz ph))"
    and "0x80000000 \<le> rd32 elf 24" and "rd32 elf 24 \<le> 0x817FFFFF" and "segs (\<lambda>_. True) phs \<noteq> []"
    and "\<forall>ph \<in> set (segs (\<lambda>_. True) phs). 0x80000000 \<le> p_vaddr ph \<and> accepts (seg_data elf ph)"
    and "sorted_wrt disjoint_sections (dol_sections ''text'' elf (segs is_text phs) @ dol_sections ''data'' elf (segs (\<lambda>ph. \<not> is_text ph) phs))"
    and "ready s"
  shows "\<exists>s'. upload lib env ctx send filename addr s = Some (rd32 elf 24, s')
    \<and> (\<forall>ph \<in> set (segs (\<lambda>_. True) phs). mem_read (console_mem s') (p_vaddr ph) (unat (p_filesz ph)) = seg_data elf ph)"
proof -
  let ?ts = "segs is_text phs" and ?ds = "segs (\<lambda>ph. \<not> is_text ph) phs"
  let ?secs = "dol_sections ''text'' elf ?ts @ dol_sections ''data'' elf ?ds"
  have len: "length dol + 64 \<le> 4294967296" using assms(3) by simp
  have all: "set (segs (\<lambda>_. True) phs) = set (?ts @ ?ds)" by (auto simp: segs_def)
  then have "?ts @ ?ds \<noteq> []" using assms(8) by (metis set_empty)
  then have probe: "dol_probe env filename"
    and load: "dol_load env filename addr cb s = with_entry (rd32 elf 24) (run_sections cb ?secs s)" for cb :: "'s upload_state section_cb" and s
    using dol_load_elf2dol [OF assms(1-5)] assms(6,7,9) all by auto
  obtain rest where "dol = 0 # rest" using elf2dol_first_byte [OF assms(1,2) len] by blast
  then have auto: "binary_auto_load lib env filename addr cb s = with_entry (rd32 elf 24) (run_sections cb ?secs s)"
    for cb :: "'s upload_state section_cb" and s
    using first_format_dol probe load assms(4) by metis
  have ph: "length (seg_data elf ph) = unat (p_filesz ph)" "accepts (seg_data elf ph)" if "ph \<in> set (?ts @ ?ds)" for ph
    using seg_data_length [OF assms(1,2) len that] assms(9) all that by auto
  have plain: "plain ctx sec" if mem: "sec \<in> set ?secs" for sec
  proof -
    obtain q k i where q: "q \<in> set (?ts @ ?ds)" "sec_size sec = p_filesz q" "sec_data sec = seg_data elf q"
      "sec_name sec = section_name k i" "k \<in> {''text'', ''data''}"
      using mem dol_sections_set(1) [of sec "''text''" elf ?ts] dol_sections_set(1) [of sec "''data''" elf ?ds] by auto
    have "sec_name sec \<noteq> ''.raw''" using q(4,5) by (auto simp: section_name_def)
    then show ?thesis using ph [OF q(1)] q(2,3) by (simp add: plain_def)
  qed
  let ?st = "\<lparr>filename_scrambled = is_scrambled_filename filename, saw_raw = False, up_error = False,
      total_bytes = 0, up_sections = 0, transport = s\<rparr>"
  obtain st' where st': "run_sections (upload_section_cb env ctx send) ?secs ?st = Some (0, st')" "\<not> up_error st'"
    "\<forall>sec \<in> set ?secs. in_memory (console_mem (transport st')) sec"
    using plain_sections [of ?secs ctx ?st env] plain assms(10,11) by auto
  have "mem_read (console_mem (transport st')) (p_vaddr ph) (unat (p_filesz ph)) = seg_data elf ph" if mem: "ph \<in> set (?ts @ ?ds)" for ph
  proof -
    obtain sec where sec: "sec \<in> set ?secs" "load_addr sec = p_vaddr ph" "sec_data sec = seg_data elf ph"
      using mem dol_sections_set(2) [of ph ?ts "''text''" elf] dol_sections_set(2) [of ph ?ds "''data''" elf] by auto
    have "in_memory (console_mem (transport st')) sec" using st'(3) sec(1) by (rule bspec)
    then show ?thesis using sec(2,3) ph(1) [OF mem] by (simp add: in_memory_def)
  qed
  then show ?thesis using st'(1,2) all by (auto simp: upload_def auto)
qed

text \<open>A raw file for a Dreamcast, through any transport.\<close>

lemma raw_uploaded:
  assumes "files env filename = Some f" and "\<not> elf_probe env filename" "\<not> srec_probe env filename" "\<not> dol_probe env filename"
    and "\<forall>n. malloc_ok env n \<and> length (heap_buf env n) = n" and "up_console ctx = CONSOLE_DC"
    and "accepts f" "f \<noteq> []" "length f < 4294967296" and "ready s"
  shows "\<exists>out s'. upload lib env ctx send filename addr s = Some (addr, s')
    \<and> mem_read (console_mem s') addr (length f) = out
    \<and> (if force_descramble ctx \<or> is_scrambled_filename filename
       then dc_descramble True f (heap_buf env (length f)) (length f) = Some (0, out) else out = f)"
proof -
  let ?sec = "\<lparr>sec_name = ''.raw'', load_addr = addr, sec_size = of_nat (length f), sec_data = f\<rparr>"
  let ?st = "\<lparr>filename_scrambled = is_scrambled_filename filename, saw_raw = False, up_error = False,
      total_bytes = 0, up_sections = 0, transport = s\<rparr>"
  note f = assms(8,9)
  have auto: "binary_auto_load lib env filename addr cb s = with_entry addr (cb ?sec s)" for cb :: "'s upload_state section_cb" and s
    using assms(1-5) f(1) by (simp add: binary_auto_load_def elf_binary_ops_def srec_binary_ops_def dol_binary_ops_def raw_binary_ops_def
        raw_probe_def raw_load_def)
  have n: "unat (sec_size ?sec) = length (sec_data ?sec)" using f(2) by (simp add: unat_of_nat32)
  obtain d where d: "maybe_descramble env ctx ?sec ?st = Some (d, ?st\<lparr>saw_raw := True\<rparr>)"
    and dd: "if force_descramble ctx \<or> is_scrambled_filename filename
       then \<exists>out. d = Some out \<and> length out = length f \<and> dc_descramble True f (heap_buf env (length f)) (length f) = Some (0, out)
       else d = None"
    using raw_descrambled [of ctx ?sec env ?st] n assms(5,6) unfolding binary_section.select_convs upload_state.select_convs by auto
  define out where "out = (case d of None \<Rightarrow> f | Some out \<Rightarrow> out)"
  have o: "length out = length f" "if force_descramble ctx \<or> is_scrambled_filename filename
      then dc_descramble True f (heap_buf env (length f)) (length f) = Some (0, out) else out = f"
    using dd by (auto simp: out_def split: if_splits)
  have "accepts out" using accepts_length assms(7) o(1) .
  then obtain h' where h': "send out addr (of_nat (length f)) s = Some (0, h')" "mem_read (console_mem h') addr (length f) = out"
    using send_delivers [OF assms(10), of out addr] o(1) by auto
  have "upload_section_cb env ctx send ?sec ?st
      = Some (0, ?st\<lparr>saw_raw := True, transport := h', total_bytes := of_nat (length f), up_sections := 1\<rparr>)"
    using d h'(1) by (cases d) (simp_all add: upload_section_cb_def out_def)
  then show ?thesis using h'(2) o(2) by (simp add: upload_def auto)
qed

end

section \<open>The UDP transport\<close>

definition link_transport :: "platform \<Rightarrow> headers \<Rightarrow> bytes \<Rightarrow> link host send_data" where
  "link_transport p hh r dat addr sz h =
     map_option (\<lambda>(ok, h). (if ok then 0 else - 1, h)) (network_send_data (link_ops (link_send p hh r)) dat addr sz h)"

definition link_ready :: "link host \<Rightarrow> bool" where
  "link_ready h = (h_adapter h \<noteq> 0 \<and> \<not> adapter_is_w5500 (h_adapter h) \<and> \<not> legacy_mode h \<and> rxq (world h) = [] \<and> \<not> crashed (world h)
     \<and> 2 \<le> DCTOOL_MAJOR (cl (world h)) \<and> 14 \<le> length (pkt_buf (cl (world h))))"

definition link_mem :: "link host \<Rightarrow> memory" where
  "link_mem h = mem (cl (world h))"

lemma uploadable_length: "uploadable p hh dat \<Longrightarrow> length dat' = length dat \<Longrightarrow> uploadable p hh dat'"
  by (cases dat; cases dat') (auto simp: uploadable_def)

interpretation udp: data_transport "link_transport p hh r" link_ready "uploadable p hh" link_mem for p hh r
proof
  fix h :: "link host" and dat addr
  assume "link_ready h" "uploadable p hh dat"
  then obtain h' d' w' S' where h': "network_send_data (link_ops (link_send p hh r)) dat addr (of_nat (length dat)) h = Some (True, h')"
    "mem_read (mem (cl (world h'))) addr (length dat) = dat" "h' = hst h d' w'" "uploading p addr dat (cl (world h)) S' w'"
    using network_send_data_link [of h dat p hh r addr] by (auto simp: link_ready_def)
  then have "link_ready h'" using \<open>link_ready h\<close> by (simp add: link_ready_def uploading_def upload_inv_def)
  then show "\<exists>s'. link_transport p hh r dat addr (of_nat (length dat)) h = Some (0, s') \<and> link_ready s'
      \<and> mem_read (link_mem s') addr (length dat) = dat \<and> (\<forall>a. outside addr (length dat) a \<longrightarrow> link_mem s' a = link_mem h a)"
    using h' by (simp add: link_transport_def link_mem_def uploading_def)
qed (simp add: uploadable_length)

text \<open>
  C6. From an ELF file to the console's memory. A program converted by \<open>elf2dol\<close> and uploaded by the host over
  a link that loses any finite number of data datagrams: the file is recognised, every segment is sent, \<open>upload\<close>
  returns the program's entry point, and in the end the console's memory holds each loadable segment at
  its virtual address. (The segments must not overlap and each must be one the transport accepts.)
\<close>

theorem converted_program_uploaded:
  fixes h :: "link host"
  assumes "elf2dol alloc elf = Some (Inr dol)" and "elf_phdrs elf = Some phs" and "length dol + 64 \<le> 2 ^ 32"
    and "files env filename = Some dol" and "\<forall>ph \<in> set phs. malloc_ok env (unat (p_filesz ph))"
    and "0x80000000 \<le> rd32 elf 24" and "rd32 elf 24 \<le> 0x817FFFFF" and "segs (\<lambda>_. True) phs \<noteq> []"
    and "\<forall>ph \<in> set (segs (\<lambda>_. True) phs). 0x80000000 \<le> p_vaddr ph \<and> uploadable p hh (seg_data elf ph)"
    and "sorted_wrt disjoint_sections (dol_sections ''text'' elf (segs is_text phs) @ dol_sections ''data'' elf (segs (\<lambda>ph. \<not> is_text ph) phs))"
    and "link_ready h"
  shows "\<exists>h'. upload lib env ctx (link_transport p hh r) filename addr h = Some (rd32 elf 24, h')
    \<and> (\<forall>ph \<in> set (segs (\<lambda>_. True) phs). mem_read (mem (cl (world h'))) (p_vaddr ph) (unat (p_filesz ph)) = seg_data elf ph)"
  using udp.dol_uploaded [OF assms] by (simp add: link_mem_def)

theorem converted_program_uploaded_witness:
  "\<exists>dol h'. elf2dol (\<lambda>_. True) sample_elf = Some (Inr dol)
     \<and> upload (\<lambda>_. None) (one_file dol) \<lparr>up_console = CONSOLE_GC, force_descramble = False\<rparr>
         (link_transport example_platform example_headers []) ''boot.dol'' 0 (example_host [True, False, True]) = Some (0x80003100, h')
     \<and> mem_read (mem (cl (world h'))) 0x80003100 4 = [1, 2, 3, 4]"
proof -
  let ?ph = "\<lparr>p_type = 1, p_offset = 84, p_vaddr = 0x80003100, p_paddr = 0x80003100, p_filesz = 4, p_memsz = 8, p_flags = 5, p_align = 4\<rparr> :: elf32_phdr"
  obtain dol where dol: "elf2dol (\<lambda>_. True) sample_elf = Some (Inr dol)" "length dol = 260" using sample_elf_dol by blast
  have e: "rd32 sample_elf 24 = 0x80003100" and d: "seg_data sample_elf ?ph = [1, 2, 3, 4]" by code_simp+
  have s: "segs (\<lambda>_. True) [?ph] = [?ph]" "segs is_text [?ph] = [?ph]" "segs (\<lambda>ph. \<not> is_text ph) [?ph] = []"
    by (simp_all add: segs_def is_text_def)
  have u: "uploadable example_platform example_headers [1, 2, 3, 4]" by (simp add: uploadable_def addressed_def example_defs)
  have r: "link_ready (example_host [True, False, True])"
    by (simp add: link_ready_def example_host_def DCTOOL_MAJOR_def example_defs adapter_is_w5500_def)
  show ?thesis
    using converted_program_uploaded [OF dol(1) sample_elf_phdrs, of "one_file dol" "''boot.dol''" example_platform example_headers
        "example_host [True, False, True]" "\<lambda>_. None" "\<lparr>up_console = CONSOLE_GC, force_descramble = False\<rparr>" "[]" 0] dol e d s u r
    by (auto simp: one_file_def dol_sections_def)
qed



end
