(* ===== verification/Serial_Client.thy ===== *)
theory Serial_Client
  imports Net_Syscalls
begin

text \<open>
  The serial loader: \<^verbatim>\<open>client/common/serial/serial_transport.c\<close>, \<^verbatim>\<open>serial_syscalls.c\<close> and
  \<^verbatim>\<open>cdfs_syscalls.c\<close>. A function of the loader is a process: it sends a byte (\<open>serial_io_putchar\<close>), waits for
  one (\<open>serial_io_getchar\<close>), changes or looks at the loader's state, and goes on with its continuation; \<open>Halt\<close> ends it (the
  console reboots) and \<open>Again\<close> is the next round of the command loop. \<open>Undef\<close> is
  undefined behaviour of the C code; \<open>Spin\<close> is a loop cut off by its bound (\<open>t_resends\<close> for the times one block is sent,
  \<open>t_blocks\<close> for the rounds of \<open>load_data_block_general\<close>; the theorems about transfers show for which bounds it is never
  reached). The compressor is a parameter: minilzo is a library the loader only calls. So is the program that is
  executed, itself a process.
\<close>

section \<open>Processes\<close>

datatype 's io =
    Halt
  | Again
  | Put u8 "'s io"
  | Get "u8 \<Rightarrow> 's io"
  | Mod "'s \<Rightarrow> 's" "'s io"
  | Obs "'s \<Rightarrow> 's io"
  | Undef
  | Spin

text \<open>
  minilzo: the compressed form of a block, what the compressor leaves in its work memory, and for the decompressor
  whether the input is valid together with the bytes written to the output.
\<close>

record lzo =
  lzo1x_1_compress :: "bytes \<Rightarrow> bytes"
  lzo_workmem :: "bytes \<Rightarrow> bytes"
  lzo1x_decompress :: "bytes \<Rightarrow> bool \<times> bytes"

section \<open>State\<close>

datatype ser_event =
    Border u32 | SetupVideo | ClearScreen | ClearLines nat nat | DrawString nat nat bytes
  | SsReset | SsWake | SetConsoleEnabled bool | Flush | FwPrepare | ExecuteAt u32 | CdfsEnable
  | SerInit u32 | SetRtcTo u32 | RebootNow

record ser_client =
  smem :: memory
  wrkmem :: u32
  video_booted :: bool
  sinfo :: info
  info_adapter :: u32
  baud_rate :: u32
  gdStatus :: u32
  gd_next_request_id :: u32
  s_trace :: "ser_event list"

record ser_target =
  t_lzo :: lzo
  t_name :: bytes
  t_endian :: endian
  t_has_cdfs :: bool
  t_has_fw :: bool
  t_adapter :: u32
  t_init_ok :: bool
  t_dir_addr :: u32
  t_program :: "u32 \<Rightarrow> ser_client io \<Rightarrow> ser_client io"
  t_resends :: nat
  t_blocks :: nat

definition ev :: "ser_event \<Rightarrow> ser_client io \<Rightarrow> ser_client io" where
  "ev e k = Mod (\<lambda>s. s\<lparr>s_trace := s_trace s @ [e]\<rparr>) k"

abbreviation SERIAL_DATA_UNCOMPRESSED :: u8 where "SERIAL_DATA_UNCOMPRESSED \<equiv> 0x55"
abbreviation SERIAL_DATA_COMPRESSED :: u8 where "SERIAL_DATA_COMPRESSED \<equiv> 0x43"
abbreviation SERIAL_DATA_GOOD :: u8 where "SERIAL_DATA_GOOD \<equiv> 0x47"
abbreviation SERIAL_DATA_BAD :: u8 where "SERIAL_DATA_BAD \<equiv> 0x42"
abbreviation SERIAL_DEFAULT_SPEED :: u32 where "SERIAL_DEFAULT_SPEED \<equiv> 57600"
abbreviation KOSLOAD_SERIAL_EXEC_ARGV :: u32 where "KOSLOAD_SERIAL_EXEC_ARGV \<equiv> 0x80000000"
abbreviation KOSLOAD_SERIAL_EXEC_FW_UPDATE :: u32 where "KOSLOAD_SERIAL_EXEC_FW_UPDATE \<equiv> 0x40000000"

definition COMPRESS_BUFFER_SIZE :: nat where "COMPRESS_BUFFER_SIZE = 16384 + 256 + 19"

section \<open>Serial helpers\<close>

definition put_uint :: "u32 \<Rightarrow> 's io \<Rightarrow> 's io" where
  "put_uint val k = Put (ucast (val AND 0xff)) (Put (ucast (drop_bit 8 val AND 0xff))
     (Put (ucast (drop_bit 16 val AND 0xff)) (Put (ucast (drop_bit 24 val AND 0xff)) k)))"

definition get_uint :: "(u32 \<Rightarrow> 's io) \<Rightarrow> 's io" where
  "get_uint k =
     Get (\<lambda>c. let retval = 0 + push_bit 24 (ucast c); retval = drop_bit 8 retval in
     Get (\<lambda>c. let retval = retval + push_bit 24 (ucast c); retval = drop_bit 8 retval in
     Get (\<lambda>c. let retval = retval + push_bit 24 (ucast c); retval = drop_bit 8 retval in
     Get (\<lambda>c. let retval = retval + push_bit 24 (ucast c) in
     Put (ucast (retval AND 0xff)) (Put (ucast (drop_bit 8 retval AND 0xff))
       (Put (ucast (drop_bit 16 retval AND 0xff)) (Put (ucast (drop_bit 24 retval AND 0xff)) (k retval))))))))"

text \<open>\<open>serial_io_puts\<close> as the drivers implement it, with a carriage return after each newline.\<close>

fun serial_io_puts :: "bytes \<Rightarrow> 's io \<Rightarrow> 's io" where
  "serial_io_puts [] k = k"
| "serial_io_puts (c # str) k = Put c (if c = 10 then Put 13 (serial_io_puts str k) else serial_io_puts str k)"

definition uint_to_string :: "u32 \<Rightarrow> bytes" where
  "uint_to_string value =
     map (\<lambda>i. ascii ''0123456789ABCDEF'' ! unat (drop_bit (4 * i) value AND 0xf)) (rev [0..<8])"

section \<open>Data transfer\<close>

fun put_bytes :: "bytes \<Rightarrow> u8 \<Rightarrow> (u8 \<Rightarrow> 's io) \<Rightarrow> 's io" where
  "put_bytes [] x k = k x"
| "put_bytes (b # bs) x k = Put b (put_bytes bs (x XOR b) k)"

definition send_data_block_uncompressed :: "u32 \<Rightarrow> u32 \<Rightarrow> (bool \<Rightarrow> ser_client io) \<Rightarrow> ser_client io" where
  "send_data_block_uncompressed addr sz k =
     Put SERIAL_DATA_UNCOMPRESSED (put_uint sz (Obs (\<lambda>s. put_bytes (mem_read (smem s) addr (unat sz)) 0 (\<lambda>sum.
       Put sum (Get (\<lambda>c. k (c = SERIAL_DATA_GOOD)))))))"

primrec send_until_good :: "nat \<Rightarrow> bytes \<Rightarrow> 's io \<Rightarrow> 's io" where
  "send_until_good 0 bs k = Spin"
| "send_until_good (Suc n) bs k = put_bytes bs 0 (\<lambda>sum. Put sum (Get (\<lambda>c.
     if c = SERIAL_DATA_GOOD then k else send_until_good n bs k)))"

primrec send_uncompressed_until_good :: "nat \<Rightarrow> u32 \<Rightarrow> u32 \<Rightarrow> ser_client io \<Rightarrow> ser_client io" where
  "send_uncompressed_until_good 0 addr sz k = Spin"
| "send_uncompressed_until_good (Suc n) addr sz k =
     send_data_block_uncompressed addr sz (\<lambda>ok. if ok then k else send_uncompressed_until_good n addr sz k)"

text \<open>Two address ranges meet.\<close>

definition ranges_meet :: "u32 \<Rightarrow> nat \<Rightarrow> u32 \<Rightarrow> nat \<Rightarrow> bool" where
  "ranges_meet a n b m = (0 < n \<and> 0 < m \<and> (unat (b - a) < n \<or> unat (a - b) < m))"

text \<open>
  The block loop. A compressor whose input lies in its own work memory destroys what it reads, and an output longer than
  \<open>compress_buffer\<close> overruns it: both are \<open>Undef\<close>.
\<close>

definition send_block :: "ser_target \<Rightarrow> u32 \<Rightarrow> u32 \<Rightarrow> ser_client io \<Rightarrow> ser_client io" where
  "send_block t addr sendsize rest =
     Obs (\<lambda>s. let dat = mem_read (smem s) addr (unat sendsize); out = lzo1x_1_compress (t_lzo t) dat in
       if ranges_meet addr (unat sendsize) (wrkmem s) (length (lzo_workmem (t_lzo t) dat)) \<or> length out > COMPRESS_BUFFER_SIZE
       then Undef
       else Mod (\<lambda>s. s\<lparr>smem := mem_write (smem s) (wrkmem s) (lzo_workmem (t_lzo t) dat)\<rparr>)
         (if of_nat (length out) < sendsize
          then Put SERIAL_DATA_COMPRESSED (put_uint (of_nat (length out)) (send_until_good (t_resends t) out rest))
          else send_uncompressed_until_good (t_resends t) addr sendsize rest))"

function send_blocks :: "ser_target \<Rightarrow> u32 \<Rightarrow> u32 \<Rightarrow> ser_client io \<Rightarrow> ser_client io" where
  "send_blocks t addr sz k =
     (if sz = 0 then k
      else let sendsize = (if sz > 8192 then 8192 else sz) in
        send_block t addr sendsize (send_blocks t (addr + sendsize) (sz - sendsize) k))"
  by pat_completeness auto

termination
proof (relation "measure (\<lambda>(t, addr, sz, k). unat sz)", goal_cases)
  case (2 t addr sz k sendsize)
  then have "sendsize \<le> sz" "sendsize \<noteq> 0" by auto
  then have "unat (sz - sendsize) < unat sz"
    by (simp add: unat_sub word_le_nat_alt) (metis unat_gt_0 diff_less gr0I le_zero_eq)
  then show ?case by simp
qed simp

declare send_blocks.simps [simp del]

definition send_data_block_compressed :: "ser_target \<Rightarrow> u32 \<Rightarrow> u32 \<Rightarrow> (bool \<Rightarrow> ser_client io) \<Rightarrow> ser_client io" where
  "send_data_block_compressed t addr sz k =
     Obs (\<lambda>s. if wrkmem s = 0 then send_data_block_uncompressed addr sz k
       else if sz < 19 then send_data_block_uncompressed addr sz k
       else send_blocks t addr sz (k True))"

definition draw_progress :: "u32 \<Rightarrow> u32 \<Rightarrow> ser_client io \<Rightarrow> ser_client io" where
  "draw_progress so_far tot k =
     ev (ClearLines 102 24) (ev (DrawString 30 102 (ascii ''('')) (ev (DrawString 42 102 (uint_to_string so_far))
       (ev (DrawString 138 102 (ascii ''/'')) (ev (DrawString 150 102 (uint_to_string tot)) (ev (DrawString 246 102 (ascii '')'')) k)))))"

primrec recv_mem :: "nat \<Rightarrow> u32 \<Rightarrow> ser_client io \<Rightarrow> ser_client io" where
  "recv_mem 0 a k = k"
| "recv_mem (Suc n) a k = Get (\<lambda>b. Mod (\<lambda>s. s\<lparr>smem := (smem s)(a := b)\<rparr>) (recv_mem n (a + 1) k))"

primrec recv_tmp :: "nat \<Rightarrow> bytes \<Rightarrow> (bytes \<Rightarrow> 's io) \<Rightarrow> 's io" where
  "recv_tmp 0 tmp k = k tmp"
| "recv_tmp (Suc n) tmp k = Get (\<lambda>b. if length tmp \<ge> COMPRESS_BUFFER_SIZE then Undef else recv_tmp n (tmp @ [b]) k)"

primrec load_blocks :: "ser_target \<Rightarrow> bool \<Rightarrow> u32 \<Rightarrow> nat \<Rightarrow> u32 \<Rightarrow> u32 \<Rightarrow> ser_client io \<Rightarrow> ser_client io" where
  "load_blocks t verbose realtotal 0 dat tot k = (if tot = 0 then k else Spin)"
| "load_blocks t verbose realtotal (Suc n) dat tot k =
     (if tot = 0 then k
      else (if verbose then draw_progress (realtotal - tot) realtotal else (\<lambda>k. k))
        (Get (\<lambda>type. get_uint (\<lambda>sz.
          if type = SERIAL_DATA_UNCOMPRESSED then
            recv_mem (unat sz) dat (Get (\<lambda>sum. Put SERIAL_DATA_GOOD
              (load_blocks t verbose realtotal n (dat + sz) (if sz \<ge> tot then 0 else tot - sz) k)))
          else if type = SERIAL_DATA_COMPRESSED then
            recv_tmp (unat sz) [] (\<lambda>tmp. Get (\<lambda>sum.
              let (ok, out) = lzo1x_decompress (t_lzo t) tmp; newsize = of_nat (length out) in
              Mod (\<lambda>s. s\<lparr>smem := mem_write (smem s) dat out\<rparr>)
                (if ok then Put SERIAL_DATA_GOOD
                   (load_blocks t verbose realtotal n (dat + newsize) (if newsize \<ge> tot then 0 else tot - newsize) k)
                 else Put SERIAL_DATA_BAD (load_blocks t verbose realtotal n dat tot k))))
          else load_blocks t verbose realtotal n dat tot k))))"

definition load_data_block_general :: "ser_target \<Rightarrow> u32 \<Rightarrow> u32 \<Rightarrow> bool \<Rightarrow> ser_client io \<Rightarrow> ser_client io" where
  "load_data_block_general t addr tot verbose k =
     load_blocks t verbose tot (t_blocks t) addr tot (if verbose then draw_progress tot tot k else k)"

section \<open>Command loop\<close>

definition serial_transport_init :: "ser_target \<Rightarrow> ser_client \<Rightarrow> int \<times> ser_client" where
  "serial_transport_init t s =
     (let s = s\<lparr>s_trace := s_trace s @ [SerInit SERIAL_DEFAULT_SPEED]\<rparr> in
      if \<not> t_init_ok t then (- 1, s)
      else (0, s\<lparr>wrkmem := 0, video_booted := False,
        sinfo := (sinfo s)\<lparr>capabilities := 1 OR 32 OR (if t_has_cdfs t then 16 else 0) OR (if t_has_fw t then 64 else 0)\<rparr>,
        info_adapter := t_adapter t, baud_rate := SERIAL_DEFAULT_SPEED\<rparr>))"

definition boot_video :: "ser_target \<Rightarrow> bool \<Rightarrow> ser_client io \<Rightarrow> ser_client io" where
  "boot_video t clear k = Obs (\<lambda>s. if video_booted s then k
     else ev SetupVideo ((if clear then ev ClearScreen else (\<lambda>k. k))
       (ev (DrawString 30 54 (t_name t)) (Mod (\<lambda>s. s\<lparr>video_booted := True\<rparr>) k))))"

definition show_status :: "ser_target \<Rightarrow> string \<Rightarrow> ser_client io \<Rightarrow> ser_client io" where
  "show_status t msg k = boot_video t False (ev (ClearLines 78 24) (ev (DrawString 30 78 (ascii msg)) k))"

primrec recv_argv :: "nat \<Rightarrow> nat \<Rightarrow> ser_client io \<Rightarrow> ser_client io" where
  "recv_argv 0 ci k = k"
| "recv_argv (Suc n) ci k = Get (\<lambda>b.
     Mod (\<lambda>s. s\<lparr>sinfo := (sinfo s)\<lparr>argv_data := (argv_data (sinfo s))[ci := b]\<rparr>\<rparr>) (recv_argv n (Suc ci) k))"

text \<open>An empty argument block makes \<open>argv_data[argv_data_len - 1]\<close> a write outside the array.\<close>

definition get_argv :: "u32 \<Rightarrow> ser_client io \<Rightarrow> ser_client io" where
  "get_argv prog_argc k =
     (if prog_argc > 0 then get_uint (\<lambda>len.
        let len = (if unat len > KOSLOAD_MAX_ARGV_DATA then KOSLOAD_MAX_ARGV_DATA else unat len) in
        recv_argv len 0 (if len = 0 then Undef
          else Mod (\<lambda>s. s\<lparr>sinfo := (sinfo s)\<lparr>argv_data := (argv_data (sinfo s))[len - 1 := 0], argc := prog_argc\<rparr>\<rparr>) k))
      else k)"

definition launch :: "ser_target \<Rightarrow> u32 \<Rightarrow> bool \<Rightarrow> u32 \<Rightarrow> ser_client io \<Rightarrow> ser_client io" where
  "launch t addr fw_update console k =
     (let run = ev (ExecuteAt addr) (t_program t addr (Mod (\<lambda>s. s\<lparr>video_booted := False\<rparr>) k)) in
      if fw_update then ev Flush (if t_has_fw t then ev FwPrepare run else run)
      else ev (SetConsoleEnabled (console \<noteq> 0)) (ev Flush run))"

definition ser_cmd_execute :: "ser_target \<Rightarrow> ser_client io \<Rightarrow> ser_client io" where
  "ser_cmd_execute t k =
     show_status t ''executing...'' (get_uint (\<lambda>addr. get_uint (\<lambda>console.
       let fw_update = (console AND KOSLOAD_SERIAL_EXEC_FW_UPDATE \<noteq> 0);
           console = console AND NOT KOSLOAD_SERIAL_EXEC_FW_UPDATE in
       Mod (\<lambda>s. s\<lparr>sinfo := (sinfo s)\<lparr>argc := 0, argv_data := (argv_data (sinfo s))[0 := 0]\<rparr>\<rparr>)
         (if console AND KOSLOAD_SERIAL_EXEC_ARGV \<noteq> 0
          then get_uint (\<lambda>prog_argc. get_argv prog_argc (launch t addr fw_update (console AND NOT KOSLOAD_SERIAL_EXEC_ARGV) k))
          else launch t addr fw_update console k))))"

definition serial_command :: "ser_target \<Rightarrow> u8 \<Rightarrow> ser_client io \<Rightarrow> ser_client io" where
  "serial_command t cmd k =
     (if cmd = 0x41 then ser_cmd_execute t k
      else if cmd = 0x42 then show_status t ''receiving data...'' (get_uint (\<lambda>addr. get_uint (\<lambda>sz.
        load_data_block_general t addr sz True k)))
      else if cmd = 0x44 \<or> cmd = 0x45 then
        (if cmd = 0x44 then show_status t ''sending uncompressed data...'' else (\<lambda>k. k))
        (get_uint (\<lambda>addr. get_uint (\<lambda>sz. send_data_block_uncompressed addr sz (\<lambda>_. k))))
      else if cmd = 0x46 \<or> cmd = 0x47 then
        (if cmd = 0x46 then show_status t ''sending compressed data...'' else (\<lambda>k. k))
        (get_uint (\<lambda>addr. get_uint (\<lambda>sz. get_uint (\<lambda>w. Mod (\<lambda>s. s\<lparr>wrkmem := w\<rparr>)
          (send_data_block_compressed t addr sz (\<lambda>_. Mod (\<lambda>s. s\<lparr>wrkmem := 0\<rparr>) k))))))
      else if cmd = 0x48 then (if t_has_cdfs t then ev CdfsEnable k else Undef)
      else if cmd = 0x53 then get_uint (\<lambda>speed. ev Flush (ev (SerInit speed) (Mod (\<lambda>s. s\<lparr>baud_rate := speed\<rparr>)
        (get_uint (\<lambda>v. put_uint v k)))))
      else if cmd = 0x57 then get_uint (\<lambda>timestamp. ev (SetRtcTo timestamp) k)
      else if cmd = 0x49 then get_uint (\<lambda>caps. Mod (\<lambda>s. s\<lparr>sinfo := (sinfo s)\<lparr>host_capabilities := caps\<rparr>\<rparr>)
        (Obs (\<lambda>s. put_uint (capabilities (sinfo s)) k)))
      else if cmd = 0x56 then serial_io_puts (t_name t) (serial_io_puts [10] k)
      else if cmd = 0x52 then ev RebootNow Halt
      else ev (SerInit SERIAL_DEFAULT_SPEED) k)"

definition serial_restore_screen :: "ser_target \<Rightarrow> ser_client io \<Rightarrow> ser_client io" where
  "serial_restore_screen t k =
     ev SetupVideo (ev ClearScreen (ev (DrawString 30 54 (t_name t)) (ev (ClearLines 78 24)
       (ev (DrawString 30 78 (ascii ''idle...'')) (ev (ClearLines 102 24) k)))))"

text \<open>The body of the \<open>while(1)\<close>.\<close>

definition serial_transport_loop :: "ser_target \<Rightarrow> ser_client io" where
  "serial_transport_loop t =
     ev (Border 0x00ffffff) (boot_video t True (ev (ClearLines 78 24) (ev (DrawString 30 78 (ascii ''idle...''))
       (ev (ClearLines 102 24) (ev SsReset (Get (\<lambda>cmd. ev SsWake (Put cmd (serial_command t cmd Again)))))))))"

end
