(* ===== verification/Serial_Syscalls.thy ===== *)
theory Serial_Syscalls
  imports Serial_Client
begin

text \<open>
  \<^verbatim>\<open>client/common/serial/serial_syscalls.c\<close> and \<^verbatim>\<open>cdfs_syscalls.c\<close>: the calls a loaded program makes, as processes with the
  caller's continuation. A pointer argument is an address of guest memory; the structures the calls fill are
  written field by field in the console's byte order. \<open>my_strlen\<close> of the network loader serves as \<open>strlen\<close>.
\<close>

definition ser_assign_wrkmem :: "u32 \<Rightarrow> (u32 \<Rightarrow> ser_client io) \<Rightarrow> ser_client io" where
  "ser_assign_wrkmem user_buffer k = Mod (\<lambda>s. s\<lparr>wrkmem := user_buffer\<rparr>) (k 0)"

definition ser_progexit :: "u32 \<Rightarrow> ser_client io \<Rightarrow> ser_client io" where
  "ser_progexit ret_code k = Put 22 (put_uint ret_code (ev Flush k))"

definition ser_read :: "ser_target \<Rightarrow> u32 \<Rightarrow> u32 \<Rightarrow> u32 \<Rightarrow> (u32 \<Rightarrow> ser_client io) \<Rightarrow> ser_client io" where
  "ser_read t fd buf count k =
     Put 3 (put_uint fd (put_uint count (load_data_block_general t buf count False (get_uint k))))"

definition ser_write :: "ser_target \<Rightarrow> u32 \<Rightarrow> u32 \<Rightarrow> u32 \<Rightarrow> (u32 \<Rightarrow> ser_client io) \<Rightarrow> ser_client io" where
  "ser_write t fd buf count k =
     Put 2 (put_uint fd (put_uint count
       (if count \<noteq> 0 then send_data_block_compressed t buf count (\<lambda>_. get_uint k) else get_uint k)))"

text \<open>A call whose first argument is a path: the call number, the length with the terminator, then the bytes.\<close>

definition name_call :: "ser_target \<Rightarrow> u8 \<Rightarrow> u32 \<Rightarrow> ser_client io \<Rightarrow> ser_client io" where
  "name_call t call pathname k =
     Obs (\<lambda>s. case my_strlen (smem s) pathname of None \<Rightarrow> Spin
       | Some n \<Rightarrow> Put call (put_uint (n + 1) (send_data_block_compressed t pathname (n + 1) (\<lambda>_. k))))"

definition ser_open :: "ser_target \<Rightarrow> u32 \<Rightarrow> u32 \<Rightarrow> u32 \<Rightarrow> (u32 \<Rightarrow> ser_client io) \<Rightarrow> ser_client io" where
  "ser_open t pathname flags mode k = name_call t 4 pathname (put_uint flags (put_uint mode (get_uint k)))"

definition ser_close :: "u32 \<Rightarrow> (u32 \<Rightarrow> ser_client io) \<Rightarrow> ser_client io" where
  "ser_close fd k = Put 5 (put_uint fd (get_uint k))"

definition ser_creat :: "ser_target \<Rightarrow> u32 \<Rightarrow> u32 \<Rightarrow> (u32 \<Rightarrow> ser_client io) \<Rightarrow> ser_client io" where
  "ser_creat t pathname mode k = name_call t 6 pathname (put_uint mode (get_uint k))"

definition ser_link :: "ser_target \<Rightarrow> u32 \<Rightarrow> u32 \<Rightarrow> (u32 \<Rightarrow> ser_client io) \<Rightarrow> ser_client io" where
  "ser_link t oldpath newpath k =
     Obs (\<lambda>s. case my_strlen (smem s) newpath of None \<Rightarrow> Spin
       | Some n \<Rightarrow> name_call t 7 oldpath (put_uint (n + 1) (send_data_block_compressed t newpath (n + 1) (\<lambda>_. get_uint k))))"

definition ser_unlink :: "ser_target \<Rightarrow> u32 \<Rightarrow> (u32 \<Rightarrow> ser_client io) \<Rightarrow> ser_client io" where
  "ser_unlink t pathname k = name_call t 8 pathname (get_uint k)"

definition ser_chdir :: "ser_target \<Rightarrow> u32 \<Rightarrow> (u32 \<Rightarrow> ser_client io) \<Rightarrow> ser_client io" where
  "ser_chdir t path k = name_call t 9 path (get_uint k)"

definition ser_chmod :: "ser_target \<Rightarrow> u32 \<Rightarrow> u32 \<Rightarrow> (u32 \<Rightarrow> ser_client io) \<Rightarrow> ser_client io" where
  "ser_chmod t path mode k = name_call t 10 path (put_uint mode (get_uint k))"

definition ser_mkdir :: "ser_target \<Rightarrow> u32 \<Rightarrow> u32 \<Rightarrow> (u32 \<Rightarrow> ser_client io) \<Rightarrow> ser_client io" where
  "ser_mkdir t path mode k = name_call t 23 path (put_uint mode (get_uint k))"

definition ser_lseek :: "u32 \<Rightarrow> u32 \<Rightarrow> u32 \<Rightarrow> (u32 \<Rightarrow> ser_client io) \<Rightarrow> ser_client io" where
  "ser_lseek fd offset whence k = Put 11 (put_uint fd (put_uint offset (put_uint whence (get_uint k))))"

section \<open>Structures\<close>

definition store32 :: "endian \<Rightarrow> u32 \<Rightarrow> u32 \<Rightarrow> ser_client io \<Rightarrow> ser_client io" where
  "store32 e a v k = Mod (\<lambda>s. s\<lparr>smem := mem_write (smem s) a (st32 e v)\<rparr>) k"

definition store16 :: "endian \<Rightarrow> u32 \<Rightarrow> u16 \<Rightarrow> ser_client io \<Rightarrow> ser_client io" where
  "store16 e a v k = Mod (\<lambda>s. s\<lparr>smem := mem_write (smem s) a (st16 e v)\<rparr>) k"

text \<open>The thirteen fields of a \<open>stat\<close> answer and the result after them, for \<open>fstat\<close> and \<open>stat\<close> alike.\<close>

definition recv_stat :: "ser_target \<Rightarrow> u32 \<Rightarrow> (u32 \<Rightarrow> ser_client io) \<Rightarrow> ser_client io" where
  "recv_stat t ds k = (let e = t_endian t in
     get_uint (\<lambda>v. store16 e ds (ucast v) (
     get_uint (\<lambda>v. store16 e (ds + 2) (ucast v) (
     get_uint (\<lambda>v. store32 e (ds + 4) v (
     get_uint (\<lambda>v. store16 e (ds + 8) (ucast v) (
     get_uint (\<lambda>v. store16 e (ds + 10) (ucast v) (
     get_uint (\<lambda>v. store16 e (ds + 12) (ucast v) (
     get_uint (\<lambda>v. store16 e (ds + 14) (ucast v) (
     get_uint (\<lambda>v. store32 e (ds + 16) v (
     get_uint (\<lambda>blksize_val. get_uint (\<lambda>blocks_val.
     get_uint (\<lambda>v. store32 e (ds + 20) v (store32 e (ds + 24) 0 (
     get_uint (\<lambda>v. store32 e (ds + 28) v (store32 e (ds + 32) 0 (
     get_uint (\<lambda>v. store32 e (ds + 36) v (store32 e (ds + 40) 0 (
     store32 e (ds + 44) blksize_val (store32 e (ds + 48) blocks_val (
     store32 e (ds + 52) 0 (store32 e (ds + 56) 0 (get_uint k))))))))))))))))))))))))))))))))"

definition ser_fstat :: "ser_target \<Rightarrow> u32 \<Rightarrow> u32 \<Rightarrow> (u32 \<Rightarrow> ser_client io) \<Rightarrow> ser_client io" where
  "ser_fstat t fd buf k = Put 1 (put_uint fd (recv_stat t buf k))"

definition ser_time :: "ser_target \<Rightarrow> u32 \<Rightarrow> (u32 \<Rightarrow> ser_client io) \<Rightarrow> ser_client io" where
  "ser_time t p k = Put 12 (get_uint (\<lambda>result. if p \<noteq> 0 then store32 (t_endian t) p result (k result) else k result))"

definition ser_stat :: "ser_target \<Rightarrow> u32 \<Rightarrow> u32 \<Rightarrow> (u32 \<Rightarrow> ser_client io) \<Rightarrow> ser_client io" where
  "ser_stat t pathname buf k = name_call t 13 pathname (recv_stat t buf k)"

definition ser_utime :: "ser_target \<Rightarrow> u32 \<Rightarrow> u32 \<Rightarrow> (u32 \<Rightarrow> ser_client io) \<Rightarrow> ser_client io" where
  "ser_utime t filename buf k = name_call t 14 filename
     (if buf \<noteq> 0
      then put_uint 1 (Obs (\<lambda>s. put_uint (mem_ld32 (t_endian t) (smem s) buf)
             (put_uint (mem_ld32 (t_endian t) (smem s) (buf + 4)) (get_uint k))))
      else put_uint 0 (get_uint k))"

definition ser_opendir :: "ser_target \<Rightarrow> u32 \<Rightarrow> (u32 \<Rightarrow> ser_client io) \<Rightarrow> ser_client io" where
  "ser_opendir t nm k = name_call t 16 nm (get_uint k)"

definition ser_closedir :: "u32 \<Rightarrow> (u32 \<Rightarrow> ser_client io) \<Rightarrow> ser_client io" where
  "ser_closedir dir k = Put 17 (put_uint dir (get_uint k))"

text \<open>\<open>dc_dirent_t\<close>: \<open>d_ino\<close>, \<open>d_off\<close>, \<open>d_reclen\<close>, \<open>d_type\<close> and the name at offsets 0, 4, 8, 10 and 11.\<close>

definition ser_readdir :: "ser_target \<Rightarrow> u32 \<Rightarrow> (u32 \<Rightarrow> ser_client io) \<Rightarrow> ser_client io" where
  "ser_readdir t dir k = (let e = t_endian t; d = t_dir_addr t in
     Put 18 (put_uint dir (get_uint (\<lambda>flag. if flag \<noteq> 0 then
       get_uint (\<lambda>v. store32 e d v (
       get_uint (\<lambda>v. store32 e (d + 4) v (
       get_uint (\<lambda>v. store16 e (d + 8) (ucast v) (
       get_uint (\<lambda>v. Mod (\<lambda>s. s\<lparr>smem := mem_write (smem s) (d + 10) [ucast v]\<rparr>) (
       get_uint (\<lambda>namelen. load_data_block_general t (d + 11) namelen False (k d))))))))))
       else k 0))))"

definition ser_gdbpacket :: "ser_target \<Rightarrow> u32 \<Rightarrow> u32 \<Rightarrow> u32 \<Rightarrow> (u32 \<Rightarrow> ser_client io) \<Rightarrow> ser_client io" where
  "ser_gdbpacket t in_buf size_pack out_buf k =
     (let in_size = drop_bit 16 size_pack; out_size = size_pack AND 0xffff;
          answer = get_uint (\<lambda>ret_size. if ret_size \<noteq> 0 \<and> ret_size \<le> out_size
            then load_data_block_general t out_buf ret_size False (k ret_size) else k ret_size) in
      Put 20 (put_uint in_size (put_uint out_size
        (if in_size \<noteq> 0 then send_data_block_compressed t in_buf in_size (\<lambda>_. answer) else answer))))"

definition ser_rewinddir :: "u32 \<Rightarrow> (u32 \<Rightarrow> ser_client io) \<Rightarrow> ser_client io" where
  "ser_rewinddir dir k = Put 21 (put_uint dir (get_uint k))"

definition ser_gethostinfo :: "ser_target \<Rightarrow> u32 \<Rightarrow> u32 \<Rightarrow> (u32 \<Rightarrow> ser_client io) \<Rightarrow> ser_client io" where
  "ser_gethostinfo t ip port k = store32 (t_endian t) ip 0 (store32 (t_endian t) port 0 (k 0))"

section \<open>GD-ROM redirection\<close>

definition gd_next_req_id :: "(u32 \<Rightarrow> ser_client io) \<Rightarrow> ser_client io" where
  "gd_next_req_id k = Obs (\<lambda>s.
     let n = (if gd_next_request_id s = 0 \<or> gd_next_request_id s = 0xffffffff then 1 else gd_next_request_id s) in
     Mod (\<lambda>s. s\<lparr>gd_next_request_id := n + 1\<rparr>) (k n))"

fun fill_toc :: "endian \<Rightarrow> u32 \<Rightarrow> nat \<Rightarrow> ser_client io \<Rightarrow> ser_client io" where
  "fill_toc e a 0 k = k"
| "fill_toc e a (Suc n) k = store32 e a (- 1) (fill_toc e (a + 4) n k)"

definition gdGdcReqCmd :: "ser_target \<Rightarrow> u32 \<Rightarrow> u32 \<Rightarrow> (u32 \<Rightarrow> ser_client io) \<Rightarrow> ser_client io" where
  "gdGdcReqCmd t cmd param k =
     (let e = t_endian t; finish = Mod (\<lambda>s. s\<lparr>gdStatus := 2\<rparr>) (gd_next_req_id k) in
      if cmd = 16 \<or> cmd = 17 then
        Obs (\<lambda>s. let p0 = mem_ld32 e (smem s) param; p1 = mem_ld32 e (smem s) (param + 4);
                     p2 = mem_ld32 e (smem s) (param + 8) in
          Put 19 (put_uint p0 (put_uint p1 (load_data_block_general t p2 (p1 * 2048) False
            (store32 e (param + 12) 0 finish)))))
      else if cmd = 19 then
        Obs (\<lambda>s. let toc = mem_ld32 e (smem s) (param + 4) in
          store32 e toc 0x41000096 (fill_toc e (toc + 4) 98
            (store32 e (toc + 396) 0x41010000 (store32 e (toc + 400) 0x41010000 finish))))
      else if cmd = 24 then finish
      else Mod (\<lambda>s. s\<lparr>gdStatus := 0\<rparr>) (k 0))"

definition gdGdcGetCmdStat :: "ser_target \<Rightarrow> u32 \<Rightarrow> (u32 \<Rightarrow> ser_client io) \<Rightarrow> ser_client io" where
  "gdGdcGetCmdStat t status k = Obs (\<lambda>s. if gdStatus s = 0 then store32 (t_endian t) status 0 (k (gdStatus s)) else k (gdStatus s))"

definition gdGdcGetDrvStat :: "ser_target \<Rightarrow> u32 \<Rightarrow> ser_client io \<Rightarrow> ser_client io" where
  "gdGdcGetDrvStat t param k = store32 (t_endian t) (param + 4) 32 k"

end
