(* ===== verification/Serial_Host.thy ===== *)
theory Serial_Host
  imports Upload Serial_Client
begin

text \<open>
  \<^verbatim>\<open>host/src/transport/serial.c\<close>: the host's end of the serial protocol, over the port operations of
  \<^verbatim>\<open>host/include/kostool/platform.h\<close>. A read answers with the bytes it delivered, the empty list standing for a
  result that is not positive; \<open>None\<close> of a read is one that never returns. \<open>None\<close> of a function is that, a loop that
  does not end, or an access outside a buffer. \<open>sop_junk\<close> is what an uninitialised byte holds. Messages and the
  sockets of the debugger are left out.
\<close>

record 'w serial_ops =
  sop_open :: "u32 \<Rightarrow> 'w \<Rightarrow> bool \<times> 'w"
  sop_close :: "'w \<Rightarrow> 'w"
  sop_read :: "nat \<Rightarrow> 'w \<Rightarrow> (bytes \<times> 'w) option"
  sop_write :: "bytes \<Rightarrow> 'w \<Rightarrow> 'w"
  sop_flush :: "'w \<Rightarrow> 'w"
  sop_drain :: "'w \<Rightarrow> 'w"
  sop_malloc :: "nat \<Rightarrow> bool"
  sop_junk :: u8
  sop_lzo :: lzo
  sop_lzo_init :: bool

record 'w shost =
  sh_device :: bool
  sh_handle :: bool
  sh_initial_speed :: u32
  sh_current_speed :: u32
  sh_can_change_speed :: bool
  sh_speedhack :: bool
  sh_extclk :: bool
  sh_version :: bytes
  sh_remote_caps :: u32
  sh_own_caps :: u32
  sh_console :: console_type
  sh_program_executed :: bool
  sh_console_enabled :: bool
  sh_dumb_terminal :: bool
  sh_prog_argc :: u32
  sh_prog_argv :: bytes
  sh_fw_update :: bool
  sworld :: 'w

section \<open>Low-level helpers\<close>

definition sread :: "'w serial_ops \<Rightarrow> nat \<Rightarrow> 'w shost \<Rightarrow> (bytes \<times> 'w shost) option" where
  "sread ops n h = map_option (\<lambda>(bs, w). (bs, h\<lparr>sworld := w\<rparr>)) (sop_read ops n (sworld h))"

definition swrite :: "'w serial_ops \<Rightarrow> bytes \<Rightarrow> 'w shost \<Rightarrow> 'w shost" where
  "swrite ops bs h = h\<lparr>sworld := sop_write ops bs (sworld h)\<rparr>"

definition serial_putc :: "'w serial_ops \<Rightarrow> u8 \<Rightarrow> 'w shost \<Rightarrow> 'w shost" where
  "serial_putc ops ch h = swrite ops [ch] h"

definition serial_getc :: "'w serial_ops \<Rightarrow> 'w shost \<Rightarrow> (u8 \<times> bool \<times> 'w shost) option" where
  "serial_getc ops h = map_option (\<lambda>(bs, h). case bs of [b] \<Rightarrow> (b, True, h) | _ \<Rightarrow> (0, False, h)) (sread ops 1 h)"

function blread :: "'w serial_ops \<Rightarrow> int \<Rightarrow> 'w shost \<Rightarrow> (bytes \<times> 'w shost) option" where
  "blread ops cnt h =
     (if cnt \<le> 0 then Some ([], h)
      else case sread ops (nat cnt) h of None \<Rightarrow> None
        | Some (bs, h) \<Rightarrow>
          if bs = [] then Some ([], h)
          else map_option (\<lambda>(r, h). (bs @ r, h)) (blread ops (cnt - int (length bs)) h))"
  by pat_completeness auto

termination
  by (relation "measure (\<lambda>(ops, cnt, h). nat cnt)") (auto simp: Suc_le_eq)

declare blread.simps [simp del]

text \<open>One byte into a variable that holds \<open>old\<close>.\<close>

definition blread_byte :: "'w serial_ops \<Rightarrow> u8 \<Rightarrow> 'w shost \<Rightarrow> (u8 \<times> 'w shost) option" where
  "blread_byte ops old h = map_option (\<lambda>(bs, h). (case bs of [] \<Rightarrow> old | b # _ \<Rightarrow> b, h)) (blread ops 1 h)"

definition recv_uint :: "'w serial_ops \<Rightarrow> 'w shost \<Rightarrow> (u32 \<times> 'w shost) option" where
  "recv_uint ops h = do {
     (b0, _, h) \<leftarrow> serial_getc ops h;
     (b1, _, h) \<leftarrow> serial_getc ops h;
     (b2, _, h) \<leftarrow> serial_getc ops h;
     (b3, _, h) \<leftarrow> serial_getc ops h;
     Some (ucast b0 OR push_bit 8 (ucast b1) OR push_bit 16 (ucast b2) OR push_bit 24 (ucast b3), h)
   }"

text \<open>The value in four single-byte writes, then its echo, which is compared only for a message.\<close>

definition send_uint :: "'w serial_ops \<Rightarrow> u32 \<Rightarrow> 'w shost \<Rightarrow> 'w shost option" where
  "send_uint ops val h =
     (let h = serial_putc ops (ucast (val AND 0xff)) h;
          h = serial_putc ops (ucast (drop_bit 8 val AND 0xff)) h;
          h = serial_putc ops (ucast (drop_bit 16 val AND 0xff)) h;
          h = serial_putc ops (ucast (drop_bit 24 val AND 0xff)) h in
      map_option snd (recv_uint ops h))"

section \<open>Compressed transfers\<close>

abbreviation SERIAL_BUFFER_SIZE :: u32 where "SERIAL_BUFFER_SIZE \<equiv> 16384"

definition xor_sum :: "bytes \<Rightarrow> u8" where
  "xor_sum bs = foldl (XOR) 0 bs"

partial_function (option) write_until_good :: "'w serial_ops \<Rightarrow> bytes \<Rightarrow> u8 \<Rightarrow> 'w shost \<Rightarrow> 'w shost option" where
  "write_until_good ops buffer ack h =
     (if ack = SERIAL_DATA_GOOD then Some h
      else let h = serial_putc ops (xor_sum buffer) (swrite ops buffer h) in
        Option.bind (blread_byte ops ack h) (\<lambda>(ack, h). write_until_good ops buffer ack h))"

declare write_until_good.simps [code]

definition lzo_send_block :: "'w serial_ops \<Rightarrow> bytes \<Rightarrow> u32 \<Rightarrow> 'w shost \<Rightarrow> 'w shost option" where
  "lzo_send_block ops dat sendsize h =
     (let buffer = lzo1x_1_compress (sop_lzo ops) dat in
      if length buffer > 16384 + 16384 div 64 + 16 + 3 then None
      else if length buffer < unat sendsize
      then Option.bind (send_uint ops (of_nat (length buffer)) (serial_putc ops SERIAL_DATA_COMPRESSED h))
             (write_until_good ops buffer SERIAL_DATA_BAD)
      else Option.bind (send_uint ops sendsize (serial_putc ops SERIAL_DATA_UNCOMPRESSED h)) (\<lambda>h.
             map_option snd (blread_byte ops (sop_junk ops) (serial_putc ops (xor_sum dat) (swrite ops dat h)))))"

partial_function (option) lzo_send_blocks :: "'w serial_ops \<Rightarrow> bytes \<Rightarrow> u32 \<Rightarrow> 'w shost \<Rightarrow> 'w shost option" where
  "lzo_send_blocks ops addr sz h =
     (if sz = 0 then Some h
      else let sendsize = (if sz > SERIAL_BUFFER_SIZE then SERIAL_BUFFER_SIZE else sz) in
        if length addr < unat sendsize then None
        else Option.bind (lzo_send_block ops (take (unat sendsize) addr) sendsize h)
          (\<lambda>h. lzo_send_blocks ops (drop (unat sendsize) addr) (sz - sendsize) h))"

declare lzo_send_blocks.simps [code]

definition lzo_send_data :: "'w serial_ops \<Rightarrow> bytes \<Rightarrow> u32 \<Rightarrow> 'w shost \<Rightarrow> 'w shost option" where
  "lzo_send_data ops addr sz h =
     (if \<not> sop_malloc ops (16384 + 16384 div 64 + 16 + 3) then Some h else lzo_send_blocks ops addr sz h)"

definition put_at :: "bytes \<Rightarrow> nat \<Rightarrow> bytes \<Rightarrow> bytes option" where
  "put_at buf off bs = (if off + length bs \<le> length buf then Some (take off buf @ bs @ drop (off + length bs) buf) else None)"

text \<open>
  \<open>blread\<close> of \<open>n\<close> bytes to an offset of a buffer, where \<open>n\<close> has been converted to \<open>int\<close>, and into fresh memory of \<open>n\<close> bytes.
\<close>

definition blread_at :: "'w serial_ops \<Rightarrow> bytes \<Rightarrow> nat \<Rightarrow> u32 \<Rightarrow> 'w shost \<Rightarrow> (bytes \<times> 'w shost) option" where
  "blread_at ops buf off n h =
     (if 0 \<le> sint n \<and> off + unat n > length buf then None
      else Option.bind (blread ops (sint n) h) (\<lambda>(bs, h). map_option (\<lambda>buf. (buf, h)) (put_at buf off bs)))"

definition blread_tmp :: "'w serial_ops \<Rightarrow> u32 \<Rightarrow> 'w shost \<Rightarrow> (bytes \<times> 'w shost) option" where
  "blread_tmp ops n h = map_option (\<lambda>(bs, h). (bs @ replicate (unat n - length bs) (sop_junk ops), h)) (blread ops (sint n) h)"

partial_function (option) lzo_recv_blocks ::
  "'w serial_ops \<Rightarrow> bytes \<Rightarrow> nat \<Rightarrow> u32 \<Rightarrow> 'w shost \<Rightarrow> (bytes \<times> 'w shost) option" where
  "lzo_recv_blocks ops buf out tot h =
     (if tot = 0 then Some (buf, h)
      else Option.bind (blread_byte ops (sop_junk ops) h) (\<lambda>(type, h).
        Option.bind (recv_uint ops h) (\<lambda>(sz, h).
          if type = SERIAL_DATA_UNCOMPRESSED then
            Option.bind (blread_at ops buf out sz h) (\<lambda>(buf, h).
            Option.bind (blread_byte ops (sop_junk ops) h) (\<lambda>(sum, h).
              lzo_recv_blocks ops buf (out + unat sz) (tot - sz) (serial_putc ops SERIAL_DATA_GOOD h)))
          else if type = SERIAL_DATA_COMPRESSED then
            (if \<not> sop_malloc ops (unat sz) then Some (buf, h)
             else Option.bind (blread_tmp ops sz h) (\<lambda>(tmp, h).
               Option.bind (blread_byte ops (sop_junk ops) h) (\<lambda>(sum, h).
               Option.bind (put_at buf out (snd (lzo1x_decompress (sop_lzo ops) tmp))) (\<lambda>buf.
                 if fst (lzo1x_decompress (sop_lzo ops) tmp)
                 then lzo_recv_blocks ops buf (out + length (snd (lzo1x_decompress (sop_lzo ops) tmp)))
                        (tot - of_nat (length (snd (lzo1x_decompress (sop_lzo ops) tmp)))) (serial_putc ops SERIAL_DATA_GOOD h)
                 else lzo_recv_blocks ops buf out tot (serial_putc ops SERIAL_DATA_BAD h)))))
          else lzo_recv_blocks ops buf out tot h)))"

declare lzo_recv_blocks.simps [code]

definition lzo_recv_data :: "'w serial_ops \<Rightarrow> bytes \<Rightarrow> u32 \<Rightarrow> 'w shost \<Rightarrow> (bytes \<times> 'w shost) option" where
  "lzo_recv_data ops dat tot h = lzo_recv_blocks ops dat 0 tot h"

section \<open>Transport operations\<close>

text \<open>A command byte and its echo, read back into the same variable.\<close>

definition send_command_byte :: "'w serial_ops \<Rightarrow> u8 \<Rightarrow> 'w shost \<Rightarrow> 'w shost option" where
  "send_command_byte ops c h = map_option snd (blread_byte ops c (swrite ops [c] h))"

definition serial_change_speed :: "'w serial_ops \<Rightarrow> u32 \<Rightarrow> 'w shost \<Rightarrow> (int \<times> 'w shost) option" where
  "serial_change_speed ops new_speed h = do {
     h \<leftarrow> send_command_byte ops 0x53 h;
     let wire_speed = (if sh_speedhack h \<and> new_speed = 115200 then 111607
                       else if sh_speedhack h \<and> new_speed = 230400 then 223214
                       else if sh_extclk h then 0 else new_speed);
     h \<leftarrow> send_uint ops wire_speed h;
     let (ok, w) = sop_open ops new_speed (sop_close ops (sworld h));
     let h = h\<lparr>sworld := w, sh_handle := ok\<rparr>;
     if \<not> ok then Some (- 1, h)
     else do {
       h \<leftarrow> send_uint ops 0xdeadbeef h;
       (rv, h) \<leftarrow> recv_uint ops h;
       Some (0, h\<lparr>sh_current_speed := new_speed\<rparr>)
     }
   }"

definition serial_remote_supports_capabilities :: "'w shost \<Rightarrow> bool" where
  "serial_remote_supports_capabilities h =
     (take 15 (sh_version h) = ascii ''dc-load-serial '' \<or> take 15 (sh_version h) = ascii ''gc-load-serial ''
      \<or> take 13 (sh_version h) = ascii ''psp-load-usb '')"

definition serial_remote_supports_argv :: "'w shost \<Rightarrow> bool" where
  "serial_remote_supports_argv h = (sh_remote_caps h AND 32 \<noteq> 0)"

fun read_version :: "'w serial_ops \<Rightarrow> nat \<Rightarrow> 'w shost \<Rightarrow> (bytes \<times> 'w shost) option" where
  "read_version ops 0 h = Some ([], h)"
| "read_version ops (Suc n) h =
     (case serial_getc ops h of None \<Rightarrow> None
      | Some (ch, ok, h) \<Rightarrow>
        if \<not> ok \<or> ch = 10 then Some ([], h)
        else map_option (\<lambda>(v, h). (ch # v, h)) (read_version ops n h))"

definition initial_speed_change :: "'w serial_ops \<Rightarrow> 'w shost \<Rightarrow> (int \<times> 'w shost) option" where
  "initial_speed_change ops h =
     (if sh_initial_speed h \<noteq> SERIAL_DEFAULT_SPEED
      then (if \<not> sh_can_change_speed h then Some (- 1, h) else serial_change_speed ops (sh_initial_speed h) h)
      else Some (0, h))"

definition query_version :: "'w serial_ops \<Rightarrow> 'w shost \<Rightarrow> 'w shost option" where
  "query_version ops h = do {
     (echo, _, h) \<leftarrow> serial_getc ops (swrite ops [0x56] h);
     (v, h) \<leftarrow> read_version ops 127 h;
     let h = h\<lparr>sh_version := v\<rparr>;
     (ch, _, h) \<leftarrow> serial_getc ops h;
     Some h
   }"

definition query_remote_capabilities :: "'w serial_ops \<Rightarrow> 'w shost \<Rightarrow> 'w shost option" where
  "query_remote_capabilities ops h = do {
     let h = h\<lparr>sh_remote_caps := 0\<rparr>;
     if serial_remote_supports_capabilities h
     then do {
       (echo, _, h) \<leftarrow> serial_getc ops (swrite ops [0x49] h);
       h \<leftarrow> send_uint ops (sh_own_caps h) h;
       (caps, h) \<leftarrow> recv_uint ops h;
       Some (h\<lparr>sh_remote_caps := caps\<rparr>)
     }
     else Some h
   }"

definition serial_init :: "'w serial_ops \<Rightarrow> 'w shost \<Rightarrow> (int \<times> 'w shost) option" where
  "serial_init ops h =
     (if \<not> sop_lzo_init ops then Some (- 1, h)
      else if \<not> sh_device h then Some (- 1, h)
      else let (ok, w) = sop_open ops SERIAL_DEFAULT_SPEED (sworld h); h = h\<lparr>sworld := w, sh_handle := ok\<rparr> in
        if \<not> ok then Some (- 1, h)
        else do {
          (ret, h) \<leftarrow> initial_speed_change ops (h\<lparr>sh_current_speed := SERIAL_DEFAULT_SPEED\<rparr>);
          if ret \<noteq> 0 then Some (- 1, h)
          else do {
            h \<leftarrow> query_version ops h;
            h \<leftarrow> query_remote_capabilities ops h;
            Some (0, h)
          }
        })"

definition serial_shutdown :: "'w serial_ops \<Rightarrow> 'w shost \<Rightarrow> 'w shost option" where
  "serial_shutdown ops h =
     (let launched_without_console = (sh_program_executed h \<and> \<not> sh_console_enabled h \<and> \<not> sh_dumb_terminal h) in
      if \<not> sh_handle h then Some h
      else do {
        h \<leftarrow> (if sh_current_speed h \<noteq> SERIAL_DEFAULT_SPEED \<and> \<not> launched_without_console
           then do {
             h \<leftarrow> send_command_byte ops 0x53 h;
             h \<leftarrow> send_uint ops SERIAL_DEFAULT_SPEED h;
             let (ok, w) = sop_open ops SERIAL_DEFAULT_SPEED (sop_close ops (sworld h));
             let h = h\<lparr>sworld := w, sh_handle := ok\<rparr>;
             if ok then do { h \<leftarrow> send_uint ops 0xdeadbeef h; map_option snd (recv_uint ops h) } else Some h
           }
           else Some h);
        Some (if sh_handle h then h\<lparr>sworld := sop_close ops (sop_flush ops (sworld h)), sh_handle := False\<rparr> else h)
      })"

definition serial_send_data :: "'w serial_ops \<Rightarrow> bytes \<Rightarrow> u32 \<Rightarrow> u32 \<Rightarrow> 'w shost \<Rightarrow> (int \<times> 'w shost) option" where
  "serial_send_data ops dat dest_addr sz h = do {
     h \<leftarrow> send_command_byte ops 0x42 h;
     h \<leftarrow> send_uint ops dest_addr h;
     h \<leftarrow> send_uint ops sz h;
     h \<leftarrow> lzo_send_data ops dat sz h;
     Some (0, h)
   }"

abbreviation LZO_WRKMEM_SIZE :: u32 where "LZO_WRKMEM_SIZE \<equiv> 0x10000"

definition lzo_wrkmem_addr :: "console_type \<Rightarrow> u32" where
  "lzo_wrkmem_addr c = (if c = CONSOLE_DC then 0x8cff0000 else if c = CONSOLE_GC then 0x817dc000
     else if c = CONSOLE_PSP then 0x080f0000 else 0)"

definition download_wrkmem :: "console_type \<Rightarrow> u32 \<Rightarrow> u32 \<Rightarrow> u32" where
  "download_wrkmem c src_addr sz =
     (let wrkmem_addr = lzo_wrkmem_addr c in
      if src_addr < wrkmem_addr + LZO_WRKMEM_SIZE \<and> src_addr + sz > wrkmem_addr then 0 else wrkmem_addr)"

definition serial_recv_data ::
  "'w serial_ops \<Rightarrow> bytes \<Rightarrow> u32 \<Rightarrow> u32 \<Rightarrow> bool \<Rightarrow> 'w shost \<Rightarrow> (int \<times> bytes \<times> 'w shost) option" where
  "serial_recv_data ops dat src_addr sz quiet h = do {
     h \<leftarrow> send_command_byte ops (if quiet then 0x47 else 0x46) h;
     h \<leftarrow> send_uint ops src_addr h;
     h \<leftarrow> send_uint ops sz h;
     h \<leftarrow> send_uint ops (download_wrkmem (sh_console h) src_addr sz) h;
     (dat, h) \<leftarrow> lzo_recv_data ops dat sz h;
     Some (0, dat, h)
   }"

definition serial_send_command :: "'w serial_ops \<Rightarrow> bytes \<Rightarrow> 'w shost \<Rightarrow> int \<times> 'w shost" where
  "serial_send_command ops cmd h =
     (if take 4 cmd = ascii ''EXEC'' then (0, swrite ops [0x41] h)
      else if take 4 cmd = ascii ''LBIN'' then (0, swrite ops [0x42] h)
      else if take 4 cmd = ascii ''RBOT'' then (0, swrite ops [0x52] h)
      else (- 1, h))"

definition serial_recv_response :: "'w serial_ops \<Rightarrow> bytes \<Rightarrow> 'w shost \<Rightarrow> (int \<times> bytes \<times> 'w shost) option" where
  "serial_recv_response ops buffer h =
     (case buffer of [] \<Rightarrow> Some (- 1, buffer, h)
      | b # rest \<Rightarrow> map_option (\<lambda>(b, h). (1, b # rest, h)) (blread_byte ops b h))"

definition serial_execute :: "'w serial_ops \<Rightarrow> u32 \<Rightarrow> u32 \<Rightarrow> bool \<Rightarrow> 'w shost \<Rightarrow> (int \<times> 'w shost) option" where
  "serial_execute ops addr console_enabled cdfs_redir h = do {
     let send_argv = (sh_prog_argc h > 0 \<and> serial_remote_supports_argv h);
     let send_fw_update = (sh_fw_update h \<and> sh_remote_caps h AND 64 \<noteq> 0);
     h \<leftarrow> (if cdfs_redir then send_command_byte ops 0x48 h else Some h);
     h \<leftarrow> send_command_byte ops 0x41 h;
     h \<leftarrow> send_uint ops addr h;
     let console_flags = console_enabled OR (if send_argv then KOSLOAD_SERIAL_EXEC_ARGV else 0)
                           OR (if send_fw_update then KOSLOAD_SERIAL_EXEC_FW_UPDATE else 0);
     h \<leftarrow> send_uint ops console_flags h;
     h \<leftarrow> (if send_argv
        then do {
          h \<leftarrow> send_uint ops (sh_prog_argc h) h;
          n \<leftarrow> argv_length (unat (sh_prog_argc h)) (sh_prog_argv h);
          h \<leftarrow> send_uint ops (of_nat n) h;
          Some (swrite ops (take n (sh_prog_argv h)) h)
        }
        else Some h);
     Some (0, h)
   }"

definition serial_set_rtc :: "'w serial_ops \<Rightarrow> u32 \<Rightarrow> 'w shost \<Rightarrow> (int \<times> 'w shost) option" where
  "serial_set_rtc ops timestamp h = do {
     h \<leftarrow> send_command_byte ops 0x57 h;
     h \<leftarrow> send_uint ops timestamp h;
     Some (0, h)
   }"

definition serial_reset :: "'w serial_ops \<Rightarrow> 'w shost \<Rightarrow> int \<times> 'w shost" where
  "serial_reset ops h =
     (let h = swrite ops [0x52] h in (0, h\<lparr>sworld := sop_drain ops (sworld h), sh_current_speed := SERIAL_DEFAULT_SPEED\<rparr>))"

end
