(* ===== verification/Serial_Line.thy ===== *)
theory Serial_Line
  imports Serial_Host Serial_Syscalls
begin

text \<open>
  The serial line between the host (\<open>Serial_Host\<close>) and the loader (\<open>Serial_Client\<close>). Bytes arrive in order and none is lost.
  The loader runs until it waits for a byte, which is all a host on the other end of the line can observe of its speed; at
  the end of a command it starts the next round of its loop. A host read delivers between one byte and the number asked
  for, as \<open>lsplit\<close> decides, and blocks forever when nothing is on its way: the operations below answer \<open>None\<close> then, so that
  a result of a transfer is also a proof that neither side is left waiting.
\<close>

record line =
  lloop :: "ser_client io"
  lproc :: "ser_client io"
  lst :: ser_client
  lq :: bytes
  lsplit :: "nat \<Rightarrow> bytes \<Rightarrow> nat"

primrec settle :: "'s io \<Rightarrow> 's \<Rightarrow> bytes \<times> 's io \<times> 's" where
  "settle Halt s = ([], Halt, s)"
| "settle Again s = ([], Again, s)"
| "settle (Put b k) s = (case settle k s of (out, r) \<Rightarrow> (b # out, r))"
| "settle (Get f) s = ([], Get f, s)"
| "settle (Mod g k) s = settle k (g s)"
| "settle (Obs f) s = settle (f s) s"
| "settle Undef s = ([], Undef, s)"
| "settle Spin s = ([], Spin, s)"

definition run_loader :: "ser_client io \<Rightarrow> ser_client io \<Rightarrow> ser_client \<Rightarrow> bytes \<times> ser_client io \<times> ser_client" where
  "run_loader loop c s = (case settle c s of (out, c', s') \<Rightarrow>
     (case c' of Again \<Rightarrow> (case settle loop s' of (out', r) \<Rightarrow> (out @ out', r)) | _ \<Rightarrow> (out, c', s')))"

definition resume :: "ser_client io \<Rightarrow> ser_client \<Rightarrow> line \<Rightarrow> line" where
  "resume c s w = (case run_loader (lloop w) c s of (out, c', s') \<Rightarrow> w\<lparr>lproc := c', lst := s', lq := lq w @ out\<rparr>)"

fun line_write :: "bytes \<Rightarrow> line \<Rightarrow> line" where
  "line_write [] w = w"
| "line_write (b # bs) w = line_write bs (case lproc w of Get f \<Rightarrow> resume (f b) (lst w) w | _ \<Rightarrow> w)"

definition line_read :: "nat \<Rightarrow> line \<Rightarrow> (bytes \<times> line) option" where
  "line_read n w =
     (if lq w = [] then None
      else let m = min n (Suc (lsplit w n (lq w))) in Some (take m (lq w), w\<lparr>lq := drop m (lq w)\<rparr>))"

definition line_ops :: "lzo \<Rightarrow> line serial_ops" where
  "line_ops lz = \<lparr>sop_open = (\<lambda>_ w. (True, w)), sop_close = (\<lambda>w. w), sop_read = line_read, sop_write = line_write,
     sop_flush = (\<lambda>w. w), sop_drain = (\<lambda>w. w), sop_malloc = (\<lambda>_. True), sop_junk = 0, sop_lzo = lz, sop_lzo_init = True\<rparr>"

lemma line_ops_simps [simp]:
  "sop_read (line_ops lz) = line_read" "sop_write (line_ops lz) = line_write" "sop_malloc (line_ops lz) n"
  "sop_lzo (line_ops lz) = lz" "sop_junk (line_ops lz) = 0" "sop_lzo_init (line_ops lz)"
  "sop_open (line_ops lz) sp w = (True, w)" "sop_close (line_ops lz) w = w"
  "sop_flush (line_ops lz) w = w" "sop_drain (line_ops lz) w = w"
  by (simp_all add: line_ops_def)

section \<open>The line while a process runs\<close>

text \<open>The line when the loader is about to do \<open>c\<close> in state \<open>s\<close> and the host has still to read \<open>q\<close>.\<close>

definition online :: "line \<Rightarrow> ser_client io \<Rightarrow> ser_client \<Rightarrow> bytes \<Rightarrow> line" where
  "online w c s q = resume c s (w\<lparr>lq := q\<rparr>)"

definition at :: "line shost \<Rightarrow> ser_client io \<Rightarrow> ser_client \<Rightarrow> bytes \<Rightarrow> line shost" where
  "at h c s q = h\<lparr>sworld := online (sworld h) c s q\<rparr>"

lemma run_loader_Put: "run_loader l (Put b k) s = (case run_loader l k s of (out, r) \<Rightarrow> (b # out, r))"
  by (auto simp: run_loader_def split: prod.splits io.splits)

lemma online_steps:
  "online w (Put b k) s q = online w k s (q @ [b])"
  "online w (Mod g k) s q = online w k (g s) q"
  "online w (Obs f) s q = online w (f s) s q"
  by (simp_all add: online_def resume_def run_loader_Put split: prod.splits) (simp_all add: run_loader_def)

lemma at_Put [simp]: "at h (Put b k) s q = at h k s (q @ [b])"
  and at_Mod [simp]: "at h (Mod g k) s q = at h k (g s) q"
  and at_Obs [simp]: "at h (Obs f) s q = at h (f s) s q"
  by (simp_all add: at_def online_steps)

lemma at_ev: "at h (ev e k) s q = at h k (s\<lparr>s_trace := s_trace s @ [e]\<rparr>) q"
  by (simp add: ev_def)

lemma online_Get: "online w (Get f) s q = w\<lparr>lproc := Get f, lst := s, lq := q\<rparr>"
  by (simp add: online_def resume_def run_loader_def)

lemma online_set: "online (w\<lparr>lproc := c', lst := s', lq := q'\<rparr>) c s q = online w c s q"
  by (simp add: online_def resume_def split: prod.splits)

lemma resume_Get: "resume c s (w\<lparr>lproc := Get f, lst := s', lq := q\<rparr>) = online w c s q"
  by (simp add: online_def resume_def split: prod.splits)

lemma swrite_Nil [simp]: "swrite (line_ops lz) [] h = h"
  by (simp add: swrite_def)

lemma swrite_Get: "swrite (line_ops lz) (b # bs) (at h (Get f) s q) = swrite (line_ops lz) bs (at h (f b) s q)"
  by (simp add: swrite_def at_def online_Get resume_Get)

lemma putc_Get [simp]: "serial_putc (line_ops lz) b (at h (Get f) s q) = at h (f b) s q"
  by (simp add: serial_putc_def swrite_Get)

lemma swrite1_Get [simp]: "swrite (line_ops lz) [b] (at h (Get f) s q) = at h (f b) s q"
  by (simp add: swrite_Get)

lemma at_simps [simp]:
  "sh_console (at h c s q) = sh_console h" "sh_version (at h c s q) = sh_version h"
  "sh_remote_caps (at h c s q) = sh_remote_caps h" "sh_own_caps (at h c s q) = sh_own_caps h"
  "sh_prog_argc (at h c s q) = sh_prog_argc h" "sh_prog_argv (at h c s q) = sh_prog_argv h"
  "sh_fw_update (at h c s q) = sh_fw_update h" "sh_speedhack (at h c s q) = sh_speedhack h"
  "sh_extclk (at h c s q) = sh_extclk h" "sh_device (at h c s q) = sh_device h"
  "sh_initial_speed (at h c s q) = sh_initial_speed h" "sh_can_change_speed (at h c s q) = sh_can_change_speed h"
  "sh_current_speed (at h c s q) = sh_current_speed h"
  by (simp_all add: at_def)

lemma at_at: "at (at h c s q) c' s' q' = at h c' s' q'"
  by (simp add: at_def online_def resume_def split: prod.splits)

section \<open>Reading\<close>

lemma lq_online: "\<exists>out. lq (online w c s q) = q @ out"
  by (simp add: online_def resume_def split: prod.splits)

lemma online_drop: "n \<le> length q \<Longrightarrow> (online w c s q)\<lparr>lq := drop n (lq (online w c s q))\<rparr> = online w c s (drop n q)"
  by (simp add: online_def resume_def split: prod.splits)

lemma sread_at:
  assumes "0 < n" "n \<le> length q"
  obtains m where "0 < m" "m \<le> n" "sread (line_ops lz) n (at h c s q) = Some (take m q, at h c s (drop m q))"
proof -
  let ?w = "online (sworld h) c s q"
  define m where "m = min n (Suc (lsplit ?w n (lq ?w)))"
  obtain out where out: "lq ?w = q @ out" using lq_online by blast
  have m: "0 < m" "m \<le> n" using assms by (simp_all add: m_def)
  then have "take m (lq ?w) = take m q" "lq ?w \<noteq> []" using assms out by auto
  then have "sread (line_ops lz) n (at h c s q) = Some (take m q, at h c s (drop m q))"
    using online_drop [of m q "sworld h" c s] m assms by (simp add: sread_def line_read_def at_def m_def Let_def)
  then show ?thesis using that m by blast
qed

lemma blread_at_line: "n \<le> length q \<Longrightarrow> blread (line_ops lz) (int n) (at h c s q) = Some (take n q, at h c s (drop n q))"
proof (induction n arbitrary: q rule: less_induct)
  case (less n)
  show ?case
  proof (cases "n = 0")
    case False
    then obtain m where m: "0 < m" "m \<le> n" "sread (line_ops lz) n (at h c s q) = Some (take m q, at h c s (drop m q))"
      using sread_at less.prems by (metis gr0I)
    have "blread (line_ops lz) (int (n - m)) (at h c s (drop m q)) = Some (take (n - m) (drop m q), at h c s (drop (n - m) (drop m q)))"
      using less m by (intro less.IH) auto
    moreover have "take m q @ take (n - m) (drop m q) = take n q" "drop (n - m) (drop m q) = drop n q"
      using m less.prems by (simp_all add: take_add [symmetric])
    moreover have "int n - int (length (take m q)) = int (n - m)" "take m q \<noteq> []" using m less.prems False by auto
    ultimately show ?thesis using m False by (subst blread.simps) simp
  qed (simp add: blread.simps)
qed

lemma blread_byte_at [simp]: "blread_byte (line_ops lz) old (at h c s (b # q)) = Some (b, at h c s q)"
  using blread_at_line [of 1 "b # q"] by (simp add: blread_byte_def)

lemma serial_getc_at [simp]: "serial_getc (line_ops lz) (at h c s (b # q)) = Some (b, True, at h c s q)"
proof -
  obtain m where "0 < m" "m \<le> 1" "sread (line_ops lz) 1 (at h c s (b # q)) = Some (take m (b # q), at h c s (drop m (b # q)))"
    by (rule sread_at [of 1 "b # q"]) simp_all
  then have "sread (line_ops lz) 1 (at h c s (b # q)) = Some ([b], at h c s q)" by (cases m) auto
  then show ?thesis by (simp add: serial_getc_def)
qed

section \<open>Integers on the line\<close>

lemma ucast_and_ff [simp]: "(ucast ((x :: u32) AND 0xff) :: u8) = ucast x"
proof -
  have "x AND 0xff = take_bit 8 x" by (simp add: take_bit_eq_mask mask_eq_exp_minus_1)
  then show ?thesis by (simp add: bit_eq_iff bit_simps)
qed

lemma put_uint_le32: "at h (put_uint v k) s q = at h k s (q @ le32 v)"
  by (simp add: put_uint_def le32_def)

lemma or_bytes: "ucast b0 OR push_bit 8 (ucast b1) OR push_bit 16 (ucast b2) OR push_bit 24 (ucast b3) = get_le32 b0 b1 b2 b3"
  by (simp add: get_le32_def get_be32_def or.assoc or.commute or.left_commute)

lemma get_le32_le32_nth: "le32 v = [a, b, c, d] \<Longrightarrow> get_le32 a b c d = v"
  by (auto simp: le32_def get_le32_le32)

lemma add_top_byte: "drop_bit 8 x + push_bit 24 (ucast (b :: u8)) = drop_bit 8 (x :: u32) OR push_bit 24 (ucast b)"
  by (rule disjunctive_add) (auto simp: bit_simps dest: bit_imp_le_length)

lemma shift_in: "drop_bit 8 (drop_bit 8 (drop_bit 8 (push_bit 24 (ucast (a :: u8))) + push_bit 24 (ucast (b :: u8)))
    + push_bit 24 (ucast (c :: u8))) + push_bit 24 (ucast (d :: u8)) = get_le32 a b c d"
proof (rule bit_word_eqI)
  fix n assume "n < LENGTH(32)"
  then consider "n < 8" | "8 \<le> n" "n < 16" | "16 \<le> n" "n < 24" | "24 \<le> n" by linarith
  then show "bit (drop_bit 8 (drop_bit 8 (drop_bit 8 (push_bit 24 (ucast a)) + push_bit 24 (ucast b)) + push_bit 24 (ucast c))
      + push_bit 24 (ucast d) :: u32) n = bit (get_le32 a b c d) n"
    using \<open>n < LENGTH(32)\<close> unfolding add_top_byte get_le32_def get_be32_def
    by cases (auto simp: bit_simps dest: bit_imp_le_length)
qed

lemma at_get_uint:
  assumes "le32 v = [a, b, c, d]"
  shows "swrite (line_ops lz) [a, b, c, d] (at h (get_uint k) s q) = at h (k v) s (q @ le32 v)"
  using get_le32_le32_nth [OF assms]
  by (simp add: get_uint_def Let_def swrite_Get shift_in) (simp add: le32_def)

lemma recv_uint_at [simp]: "recv_uint (line_ops lz) (at h c s (le32 v @ q)) = Some (v, at h c s q)"
proof -
  obtain b0 b1 b2 b3 where b: "le32 v = [b0, b1, b2, b3]" by (simp add: le32_def)
  then show ?thesis using get_le32_le32_nth [OF b] by (simp add: recv_uint_def or_bytes)
qed

lemma recv_uint_at0 [simp]: "recv_uint (line_ops lz) (at h c s (le32 v)) = Some (v, at h c s [])"
  using recv_uint_at [of lz h c s v "[]"] by simp

lemma send_uint_at [simp]: "send_uint (line_ops lz) v (at h (get_uint k) s []) = Some (at h (k v) s [])"
proof -
  have "serial_putc (line_ops lz) (ucast (drop_bit 24 v)) (serial_putc (line_ops lz) (ucast (drop_bit 16 v))
      (serial_putc (line_ops lz) (ucast (drop_bit 8 v)) (serial_putc (line_ops lz) (ucast v) (at h (get_uint k) s []))))
    = at h (k v) s (le32 v)"
    using at_get_uint [of v "ucast v" "ucast (drop_bit 8 v)" "ucast (drop_bit 16 v)" "ucast (drop_bit 24 v)" lz h k s "[]"]
    by (simp add: le32_def get_uint_def swrite_Get Let_def)
  then show ?thesis by (simp add: send_uint_def Let_def)
qed

section \<open>Blocks of data\<close>

lemma at_put_bytes [simp]: "at h (put_bytes bs x k) s q = at h (k (foldl (XOR) x bs)) s (q @ bs)"
  by (induction bs arbitrary: x q) simp_all

lemma swrite_recv_mem: "length bs = n \<Longrightarrow>
  swrite (line_ops lz) bs (at h (recv_mem n a k) s q) = at h k (s\<lparr>smem := mem_write (smem s) a bs\<rparr>) q"
  by (induction n arbitrary: bs a s) (auto simp: length_Suc_conv swrite_Get)

lemma swrite_recv_tmp: "length bs = n \<Longrightarrow> length tmp + n \<le> COMPRESS_BUFFER_SIZE \<Longrightarrow>
  swrite (line_ops lz) bs (at h (recv_tmp n tmp k) s q) = at h (k (tmp @ bs)) s q"
  by (induction n arbitrary: bs tmp) (auto simp: length_Suc_conv swrite_Get)

text \<open>
  What the transfers rely on in the compressor: decompressing gives back what was compressed, the output fits the bound the
  buffers on both sides are sized for, and its work memory is 64 KB.
\<close>

definition lossless :: "lzo \<Rightarrow> bool" where
  "lossless lz = (\<forall>x. x \<noteq> [] \<and> length x \<le> 16384 \<longrightarrow>
     lzo1x_decompress lz (lzo1x_1_compress lz x) = (True, x)
     \<and> length (lzo1x_1_compress lz x) \<le> length x + length x div 64 + 19 \<and> length (lzo_workmem lz x) \<le> 65536)"

definition traced :: "ser_client \<Rightarrow> ser_event list \<Rightarrow> ser_client" where
  "traced s tr = s\<lparr>s_trace := s_trace s @ tr\<rparr>"

lemma traced_simps [simp]: "smem (traced s tr) = smem s" "wrkmem (traced s tr) = wrkmem s" "traced s [] = s"
  "traced (traced s tr) tr' = traced s (tr @ tr')" "video_booted (traced s tr) = video_booted s"
  "traced s tr\<lparr>smem := m\<rparr> = traced (s\<lparr>smem := m\<rparr>) tr" "sinfo (traced s tr) = sinfo s"
  by (simp_all add: traced_def)

lemma at_ev_traced [simp]: "at h (ev e k) s q = at h k (traced s [e]) q"
  by (simp add: at_ev traced_def)

lemma mem_write_append: "mem_write m a (xs @ ys) = mem_write (mem_write m a xs) (a + of_nat (length xs)) ys"
  by (induction xs arbitrary: m a) (simp_all add: algebra_simps)

lemma write_until_good_at:
  assumes "serial_putc (line_ops lz) (xor_sum bs) (swrite (line_ops lz) bs h) = at h' k s [SERIAL_DATA_GOOD]"
  shows "write_until_good (line_ops lz) bs SERIAL_DATA_BAD h = Some (at h' k s [])"
  by (subst write_until_good.simps, simp add: assms) (subst write_until_good.simps, simp)

text \<open>The progress line before a block only adds to the screen.\<close>

lemma at_progress: "\<exists>tr. \<forall>k. at h ((if vb then draw_progress x y else (\<lambda>k. k)) k) s q = at h k (traced s tr) q"
proof (cases vb)
  case True
  let ?tr = "[ClearLines 102 24, DrawString 30 102 (ascii ''(''), DrawString 42 102 (uint_to_string x),
    DrawString 138 102 (ascii ''/''), DrawString 150 102 (uint_to_string y), DrawString 246 102 (ascii '')'')]"
  have "at h (draw_progress x y k) s q = at h k (traced s ?tr) q" for k by (simp add: draw_progress_def)
  with True show ?thesis by auto
qed (auto intro: exI [of _ "[]"])

lemma send_one_block:
  assumes l: "lossless (t_lzo t)" and ne: "tot \<noteq> 0" "dat \<noteq> []" and len: "length dat \<le> 16384" "length dat \<le> unat tot"
  defines "buffer \<equiv> lzo1x_1_compress (t_lzo t) dat" and "sz \<equiv> of_nat (length dat)"
  shows "\<exists>tr. lzo_send_block (line_ops (t_lzo t)) dat sz (at h (load_blocks t vb rt (Suc n) a tot k) s [])
    = Some (at h (load_blocks t vb rt n (a + sz) (tot - sz) k) (traced (s\<lparr>smem := mem_write (smem s) a dat\<rparr>) tr) [])"
proof -
  obtain tr where tr: "\<And>k. at h ((if vb then draw_progress (rt - tot) rt else (\<lambda>k. k)) k) s [] = at h k (traced s tr) []"
    using at_progress [of h vb "rt - tot" rt s "[]"] by auto
  have sz: "unat sz = length dat" using len unfolding sz_def by (subst unat_of_nat32) auto
  have left: "(if tot \<le> sz then 0 else tot - sz) = tot - sz"
  proof -
    have "sz \<le> tot" using len sz by (simp add: word_le_nat_alt)
    then show ?thesis by (auto dest: order.antisym)
  qed
  have lz: "lzo1x_decompress (t_lzo t) buffer = (True, dat)" "length buffer \<le> 16659"
    using l ne len unfolding lossless_def buffer_def by (auto dest!: spec [of _ dat])
  show ?thesis
  proof (cases "length buffer < length dat")
    case True
    have bsz: "unat (of_nat (length buffer) :: u32) = length buffer" using lz(2) by (subst unat_of_nat32) auto
    show ?thesis
      using True tr left lz sz ne bsz unfolding sz_def lzo_send_block_def
      by (intro exI [of _ tr]) (simp add: buffer_def [symmetric], rule write_until_good_at, simp add: swrite_recv_tmp COMPRESS_BUFFER_SIZE_def Let_def)
  next
    case False
    then show ?thesis
      using tr left sz lz ne unfolding lzo_send_block_def
      by (intro exI [of _ tr]) (simp add: buffer_def [symmetric] swrite_recv_mem)
  qed
qed

lemma lzo_send_blocks_at:
  assumes "lossless (t_lzo t)"
  shows "length dat = unat sz \<Longrightarrow> length dat \<le> 16384 * n \<Longrightarrow>
    \<exists>tr. lzo_send_blocks (line_ops (t_lzo t)) dat sz (at h (load_blocks t vb rt n a sz k) s [])
      = Some (at h k (traced (s\<lparr>smem := mem_write (smem s) a dat\<rparr>) tr) [])"
proof (induction n arbitrary: dat sz a s)
  case 0
  then have "sz = 0" by (simp add: unat_eq_0)
  with 0 show ?case by (subst lzo_send_blocks.simps) (auto intro: exI [of _ "[]"])
next
  case (Suc n)
  show ?case
  proof (cases "sz = 0")
    case True
    with Suc.prems show ?thesis by (subst lzo_send_blocks.simps) (auto intro: exI [of _ "[]"])
  next
    case False
    define sendsize where "sendsize = (if sz > SERIAL_BUFFER_SIZE then SERIAL_BUFFER_SIZE else sz)"
    define block where "block = take (unat sendsize) dat"
    have ss: "sendsize \<le> sz" "unat sendsize \<le> 16384" "sendsize \<noteq> 0" "sz > 16384 \<Longrightarrow> unat sendsize = 16384"
      using False by (auto simp: sendsize_def word_le_nat_alt word_less_nat_alt)
    then have pos: "0 < unat sendsize" by (simp add: unat_gt_0)
    have block: "length block = unat sendsize" "block \<noteq> []" "of_nat (length block) = sendsize"
      using ss pos Suc.prems by (auto simp: block_def word_le_nat_alt)
    obtain tr where one: "lzo_send_block (line_ops (t_lzo t)) block sendsize (at h (load_blocks t vb rt (Suc n) a sz k) s [])
      = Some (at h (load_blocks t vb rt n (a + sendsize) (sz - sendsize) k) (traced (s\<lparr>smem := mem_write (smem s) a block\<rparr>) tr) [])"
      using send_one_block [OF assms False block(2), of h vb rt n a k s] ss(1,2) block
      by (auto simp: word_le_nat_alt simp del: load_blocks.simps)
    have rest: "length (drop (unat sendsize) dat) = unat (sz - sendsize)" "length (drop (unat sendsize) dat) \<le> 16384 * n"
      using Suc.prems ss by (auto simp: unat_sub sendsize_def word_less_nat_alt)
    obtain tr' where "lzo_send_blocks (line_ops (t_lzo t)) (drop (unat sendsize) dat) (sz - sendsize)
        (at h (load_blocks t vb rt n (a + sendsize) (sz - sendsize) k) (traced (s\<lparr>smem := mem_write (smem s) a block\<rparr>) tr) [])
      = Some (at h k (traced (s\<lparr>smem := mem_write (mem_write (smem s) a block) (a + sendsize) (drop (unat sendsize) dat)\<rparr>) (tr @ tr')) [])"
      using Suc.IH [OF rest, of "a + sendsize" "traced (s\<lparr>smem := mem_write (smem s) a block\<rparr>) tr"] by auto
    moreover have "mem_write (smem s) a dat = mem_write (mem_write (smem s) a block) (a + sendsize) (drop (unat sendsize) dat)"
      using mem_write_append [of "smem s" a block "drop (unat sendsize) dat"] block by (simp add: block_def)
    moreover have "\<not> length dat < unat sendsize" using Suc.prems ss by (simp add: word_le_nat_alt)
    ultimately show ?thesis
      using False one
      by (subst lzo_send_blocks.simps) (auto simp: Let_def sendsize_def [symmetric] block_def [symmetric] simp del: load_blocks.simps)
  qed
qed

section \<open>The idle loader\<close>

text \<open>The loader waits for a command and nothing is on its way to the host.\<close>

definition awaiting :: "ser_target \<Rightarrow> ser_client io" where
  "awaiting t = Get (\<lambda>cmd. ev SsWake (Put cmd (serial_command t cmd Again)))"

definition idle :: "ser_target \<Rightarrow> line shost \<Rightarrow> bool" where
  "idle t h = (lloop (sworld h) = serial_transport_loop t \<and> lproc (sworld h) = awaiting t \<and> lq (sworld h) = []
     \<and> video_booted (lst (sworld h)))"

lemma idle_at: "idle t h \<Longrightarrow> h = at h (awaiting t) (lst (sworld h)) []"
  by (simp add: idle_def at_def awaiting_def online_Get)

text \<open>The next round of the loop draws and waits.\<close>

lemma settle_loop:
  "\<exists>tr. settle (serial_transport_loop t) s = ([], awaiting t, traced (s\<lparr>video_booted := True\<rparr>) tr)"
proof (cases "video_booted s")
  case True
  then show ?thesis by (cases s) (auto simp: serial_transport_loop_def boot_video_def ev_def awaiting_def traced_def)
qed (auto simp: serial_transport_loop_def boot_video_def ev_def awaiting_def traced_def)


lemma at_Again:
  assumes "lloop (sworld h) = serial_transport_loop t"
  obtains tr where "at h Again s q = at h (awaiting t) (traced (s\<lparr>video_booted := True\<rparr>) tr) q"
proof -
  obtain tr where "settle (serial_transport_loop t) s = ([], awaiting t, traced (s\<lparr>video_booted := True\<rparr>) tr)"
    using settle_loop by blast
  then have "online (sworld h) Again s q = online (sworld h) (awaiting t) (traced (s\<lparr>video_booted := True\<rparr>) tr) q"
    using assms by (simp add: online_def resume_def run_loader_def awaiting_def)
  then show ?thesis using that by (simp add: at_def)
qed

lemma idle_awaiting: "lloop (sworld h) = serial_transport_loop t \<Longrightarrow> video_booted s \<Longrightarrow> idle t (at h (awaiting t) s [])"
  by (simp add: idle_def at_def awaiting_def online_Get)

lemma lst_awaiting [simp]: "lst (sworld (at h (awaiting t) s q)) = s"
  by (simp add: at_def awaiting_def online_Get)

text \<open>A command byte to an idle loader comes back, and the loader is at the command.\<close>

lemma command_at: "send_command_byte (line_ops lz) c (at h (awaiting t) s [])
    = Some (at h (serial_command t c Again) (traced s [SsWake]) [])"
  by (simp add: send_command_byte_def awaiting_def)

lemma at_show_status: "video_booted s \<Longrightarrow> \<exists>tr. \<forall>k. at h (show_status t msg k) s q = at h k (traced s tr) q"
  unfolding show_status_def boot_video_def by (intro exI [of _ "[ClearLines 78 24, DrawString 30 78 (ascii msg)]"]) simp

section \<open>Upload\<close>

lemma serial_upload:
  assumes "idle t h" "lossless (t_lzo t)" "length dat < 4294967296" "length dat \<le> 16384 * t_blocks t"
  obtains h' where "serial_send_data (line_ops (t_lzo t)) dat a (of_nat (length dat)) h = Some (0, h')" "idle t h'"
    "smem (lst (sworld h')) = mem_write (smem (lst (sworld h))) a dat" "\<exists>s. h' = at h (awaiting t) s []"
proof -
  let ?s = "lst (sworld h)" and ?lz = "t_lzo t" and ?sz = "of_nat (length dat) :: u32"
  have loop: "lloop (sworld h) = serial_transport_loop t" and vb: "video_booted ?s" using assms(1) by (simp_all add: idle_def)
  obtain tr where st: "\<And>k. at h (show_status t ''receiving data...'' k) (traced ?s [SsWake]) [] = at h k (traced ?s tr) []"
    using at_show_status [of "traced ?s [SsWake]" h t "''receiving data...''" "[]"] vb by auto
  let ?k = "draw_progress ?sz ?sz Again"
  have "unat ?sz = length dat" using assms(3) by (rule unat_of_nat32)
  then obtain tr1 where up: "lzo_send_blocks (line_ops ?lz) dat ?sz (at h (load_blocks t True ?sz (t_blocks t) a ?sz ?k) (traced ?s tr) [])
      = Some (at h ?k (traced (?s\<lparr>smem := mem_write (smem ?s) a dat\<rparr>) tr1) [])"
    using lzo_send_blocks_at [OF assms(2), of dat ?sz "t_blocks t" h True ?sz a ?k "traced ?s tr"] assms(4) by auto
  obtain tr2 where pr: "at h ?k (traced (?s\<lparr>smem := mem_write (smem ?s) a dat\<rparr>) tr1) []
      = at h Again (traced (?s\<lparr>smem := mem_write (smem ?s) a dat\<rparr>) tr2) []"
    using at_progress [of h True ?sz ?sz "traced (?s\<lparr>smem := mem_write (smem ?s) a dat\<rparr>) tr1" "[]"] by auto
  let ?s' = "traced (?s\<lparr>smem := mem_write (smem ?s) a dat\<rparr>) tr2"
  obtain tr3 where ag: "at h Again ?s' [] = at h (awaiting t) (traced (?s'\<lparr>video_booted := True\<rparr>) tr3) []"
    using at_Again [OF loop] by blast
  let ?h' = "at h (awaiting t) (traced (?s'\<lparr>video_booted := True\<rparr>) tr3) []"
  have "serial_send_data (line_ops ?lz) dat a ?sz (at h (awaiting t) ?s []) = Some (0, ?h')"
    using st up pr ag by (simp add: serial_send_data_def command_at serial_command_def load_data_block_general_def lzo_send_data_def)
  then have "serial_send_data (line_ops ?lz) dat a ?sz h = Some (0, ?h')" using idle_at [OF assms(1)] by simp
  then show ?thesis by (rule that) (auto simp: traced_def idle_awaiting loop)
qed

definition ser_ready :: "ser_target \<Rightarrow> line shost \<Rightarrow> bool" where
  "ser_ready t h = (idle t h \<and> lossless (t_lzo t))"

definition ser_accepts :: "ser_target \<Rightarrow> bytes \<Rightarrow> bool" where
  "ser_accepts t dat = (length dat < 4294967296 \<and> length dat \<le> 16384 * t_blocks t)"

definition ser_mem :: "line shost \<Rightarrow> memory" where
  "ser_mem h = smem (lst (sworld h))"

interpretation ser: data_transport "serial_send_data (line_ops (t_lzo t))" "ser_ready t" "ser_accepts t" ser_mem for t
proof
  fix h dat addr
  assume "ser_ready t h" "ser_accepts t dat"
  then obtain h' where "serial_send_data (line_ops (t_lzo t)) dat addr (of_nat (length dat)) h = Some (0, h')" "idle t h'"
    "ser_mem h' = mem_write (ser_mem h) addr dat" "length dat < 4294967296" "lossless (t_lzo t)"
    unfolding ser_ready_def ser_accepts_def ser_mem_def using serial_upload by metis
  then show "\<exists>h'. serial_send_data (line_ops (t_lzo t)) dat addr (of_nat (length dat)) h = Some (0, h') \<and> ser_ready t h'
      \<and> mem_read (ser_mem h') addr (length dat) = dat \<and> (\<forall>a. outside addr (length dat) a \<longrightarrow> ser_mem h' a = ser_mem h a)"
    by (auto simp: ser_ready_def mem_read_write mem_write_other outside_def)
qed (simp add: ser_accepts_def)

section \<open>Download\<close>

lemma sint_unat: "unat (sz :: u32) < 2147483648 \<Longrightarrow> sint sz = int (unat sz)"
proof -
  assume "unat sz < 2147483648"
  moreover have "int (unat sz) = uint sz" by simp
  ultimately have "uint sz < 2147483648" "- 2147483648 \<le> uint sz" by linarith+
  then show ?thesis using signed_take_bit_int_eq_self [of 31 "uint sz"] by (simp add: sint_uint)
qed

lemma blread_at_at:
  assumes "unat sz < 2147483648" "off + unat sz \<le> length buf" "unat sz \<le> length q"
  shows "blread_at (line_ops lz) buf off sz (at h c s q)
    = Some (take off buf @ take (unat sz) q @ drop (off + unat sz) buf, at h c s (drop (unat sz) q))"
  using assms blread_at_line [of "unat sz" q lz h c s] by (simp add: blread_at_def put_at_def sint_unat)

lemma blread_tmp_at:
  assumes "unat sz < 2147483648" "unat sz \<le> length q"
  shows "blread_tmp (line_ops lz) sz (at h c s q) = Some (take (unat sz) q, at h c s (drop (unat sz) q))"
  using assms blread_at_line [of "unat sz" q lz h c s] by (simp add: blread_tmp_def sint_unat)

text \<open>One block of a download, uncompressed or compressed.\<close>

definition patch :: "bytes \<Rightarrow> nat \<Rightarrow> bytes \<Rightarrow> bytes" where
  "patch buf off bs = take off buf @ bs @ drop (off + length bs) buf"

lemma length_patch: "off + length bs \<le> length buf \<Longrightarrow> length (patch buf off bs) = length buf"
  by (simp add: patch_def)

lemma patch_patch: "off + length xs + length ys \<le> length buf \<Longrightarrow> patch (patch buf off xs) (off + length xs) ys = patch buf off (xs @ ys)"
  by (simp add: patch_def ac_simps)

lemma recv_uncompressed:
  assumes "tot \<noteq> 0" "unat sz < 2147483648" "off + unat sz \<le> length buf"
  shows "lzo_recv_blocks (line_ops lz) buf off tot (at h (send_data_block_uncompressed a sz k) s [])
    = lzo_recv_blocks (line_ops lz) (patch buf off (mem_read (smem s) a (unat sz))) (off + unat sz) (tot - sz) (at h (k True) s [])"
  using assms by (subst lzo_recv_blocks.simps) (simp add: send_data_block_uncompressed_def put_uint_le32 blread_at_at patch_def)

lemma recv_compressed:
  assumes "tot \<noteq> 0" "lzo1x_decompress lz out = (True, dat)" "length out < 2147483648" "off + length dat \<le> length buf"
  shows "lzo_recv_blocks (line_ops lz) buf off tot
      (at h (Put SERIAL_DATA_COMPRESSED (put_uint (of_nat (length out)) (send_until_good (Suc n) out k))) s [])
    = lzo_recv_blocks (line_ops lz) (patch buf off dat) (off + length dat) (tot - of_nat (length dat)) (at h k s [])"
proof -
  have "unat (of_nat (length out) :: u32) = length out" using assms(3) by (subst unat_of_nat32) auto
  then show ?thesis using assms by (subst lzo_recv_blocks.simps) (simp add: put_uint_le32 blread_tmp_at patch_def put_at_def)
qed

lemma ranges_apart:
  assumes "\<And>i. i < n \<Longrightarrow> outside b m (a + of_nat i)"
  shows "\<not> ranges_meet a n b m"
proof
  assume "ranges_meet a n b m"
  then consider "0 < m" "unat (b - a) < n" | "0 < n" "unat (a - b) < m" by (auto simp: ranges_meet_def)
  then show False
  proof cases
    case 1
    then have "outside b m (a + (b - a))" using assms [of "unat (b - a)"] by (simp del: add_diff_cancel)
    then show False using 1(1) by (auto simp: outside_def dest: spec [of _ 0])
  next
    case 2
    have "outside b m a" using assms [of 0] 2(1) by simp
    moreover have "a = b + of_nat (unat (a - b))" by simp
    ultimately show False using 2(2) unfolding outside_def by blast
  qed
qed

lemma outside_le: "outside b m x \<Longrightarrow> n \<le> m \<Longrightarrow> outside b n x"
  by (simp add: outside_def)

lemma mem_write_outside: "outside b (length bs) x \<Longrightarrow> mem_write m b bs x = m x"
  by (rule mem_write_other) (simp add: outside_def)

lemma mem_read_outside:
  assumes "\<And>i. i < n \<Longrightarrow> m' (a + of_nat i) = m (a + of_nat i)"
  shows "mem_read m' a n = mem_read m a n"
  using assms by (simp add: mem_read_def)

lemma recv_blocks_at:
  assumes "lossless (t_lzo t)" "t_resends t \<noteq> 0"
  shows "off + unat sz \<le> length buf \<Longrightarrow> unat sz < 2147483648 \<Longrightarrow> \<forall>i < unat sz. outside (wrkmem s) 65536 (a + of_nat i) \<Longrightarrow>
    \<exists>m'. lzo_recv_blocks (line_ops (t_lzo t)) buf off sz (at h (send_blocks t a sz k) s [])
        = Some (patch buf off (mem_read (smem s) a (unat sz)), at h k (s\<lparr>smem := m'\<rparr>) [])
      \<and> (\<forall>x. outside (wrkmem s) 65536 x \<longrightarrow> m' x = smem s x)"
proof (induction "unat sz" arbitrary: sz a off buf s rule: less_induct)
  case less
  show ?case
  proof (cases "sz = 0")
    case True
    then show ?thesis by (subst lzo_recv_blocks.simps, subst send_blocks.simps) (auto simp: patch_def intro!: exI [of _ "smem s"])
  next
    case False
    define n where "n = (if sz > 8192 then 8192 else sz)"
    define dat where "dat = mem_read (smem s) a (unat n)"
    let ?out = "lzo1x_1_compress (t_lzo t) dat" and ?wm = "lzo_workmem (t_lzo t) dat"
    define m1 where "m1 = mem_write (smem s) (wrkmem s) ?wm"
    have n: "unat n \<le> unat sz" "n \<noteq> 0" "unat n \<le> 8192" "unat (sz - n) = unat sz - unat n"
      using False by (auto simp: n_def word_less_nat_alt unat_sub word_le_nat_alt)
    then have pos: "0 < unat n" by (simp add: unat_gt_0)
    have dat: "length dat = unat n" "dat \<noteq> []" using pos by (simp_all add: dat_def flip: length_greater_0_conv)
    have lz: "lzo1x_decompress (t_lzo t) ?out = (True, dat)" "length ?out \<le> 8339" "length ?wm \<le> 65536"
      using assms(1) dat n(3) unfolding lossless_def by (auto dest!: spec [of _ dat])
    obtain r where r: "t_resends t = Suc r" using assms(2) by (cases "t_resends t") auto
    have apart: "\<not> ranges_meet a (unat n) (wrkmem s) (length ?wm)"
      by (rule ranges_apart, rule outside_le [where m = 65536]) (use less.prems(3) n(1) lz(3) in auto)
    have m1: "outside (wrkmem s) 65536 x \<Longrightarrow> m1 x = smem s x" for x
      unfolding m1_def using lz(3) by (intro mem_write_outside) (rule outside_le)
    have same: "mem_read m1 a (unat n) = dat" "mem_read m1 (a + n) (unat (sz - n)) = mem_read (smem s) (a + n) (unat (sz - n))"
    proof -
      show "mem_read m1 a (unat n) = dat"
        unfolding dat_def using less.prems(3) n(1) by (intro mem_read_outside m1) auto
      have "outside (wrkmem s) 65536 (a + n + of_nat i)" if "i < unat (sz - n)" for i
        using less.prems(3) [rule_format, of "unat n + i"] that n by (simp add: add.assoc)
      then show "mem_read m1 (a + n) (unat (sz - n)) = mem_read (smem s) (a + n) (unat (sz - n))"
        by (intro mem_read_outside m1)
    qed
    let ?s1 = "s\<lparr>smem := m1\<rparr>" and ?rest = "send_blocks t (a + n) (sz - n) k"
    have "at h (send_blocks t a sz k) s [] = at h (if of_nat (length ?out) < n
        then Put SERIAL_DATA_COMPRESSED (put_uint (of_nat (length ?out)) (send_until_good (t_resends t) ?out ?rest))
        else send_uncompressed_until_good (t_resends t) a n ?rest) ?s1 []"
      using False apart lz(2)
      by (subst send_blocks.simps) (simp add: n_def [symmetric] send_block_def Let_def dat_def [symmetric] m1_def COMPRESS_BUFFER_SIZE_def)
    then have one: "lzo_recv_blocks (line_ops (t_lzo t)) buf off sz (at h (send_blocks t a sz k) s [])
      = lzo_recv_blocks (line_ops (t_lzo t)) (patch buf off dat) (off + unat n) (sz - n) (at h ?rest ?s1 [])"
      using recv_compressed [OF False lz(1), of off buf h r ?rest ?s1] recv_uncompressed [OF False, of n off buf _ h a _ ?s1]
        less.prems(1,2) n(1) lz(2) dat(1) same(1) r by (auto simp del: send_blocks.simps)
    obtain m' where "lzo_recv_blocks (line_ops (t_lzo t)) (patch buf off dat) (off + unat n) (sz - n) (at h ?rest ?s1 [])
        = Some (patch (patch buf off dat) (off + unat n) (mem_read (smem ?s1) (a + n) (unat (sz - n))), at h k (?s1\<lparr>smem := m'\<rparr>) [])"
      "\<forall>x. outside (wrkmem s) 65536 x \<longrightarrow> m' x = m1 x"
    proof -
      have "outside (wrkmem s) 65536 (a + n + of_nat i)" if "i < unat (sz - n)" for i
        using less.prems(3) [rule_format, of "unat n + i"] that n by (simp add: add.assoc)
      moreover have "unat sz - unat n < 2147483648" using less.prems(2) by linarith
      ultimately show ?thesis
        using less.hyps [of "sz - n" "off + unat n" "patch buf off dat" ?s1 "a + n"] less.prems(1,2) n pos dat(1) that
        by (auto simp: length_patch)
    qed
    moreover have "patch (patch buf off dat) (off + unat n) (mem_read (smem s) (a + n) (unat (sz - n)))
      = patch buf off (mem_read (smem s) a (unat sz))"
      using patch_patch [of off dat "mem_read (smem s) (a + n) (unat (sz - n))" buf] less.prems(1) n dat
        mem_read_add [of "smem s" a "unat n" "unat sz - unat n"] by (simp add: dat_def)
    ultimately show ?thesis using one same(2) m1 by auto
  qed
qed

text \<open>The host's test for the work memory: when it sends a work memory address, the block to read is apart from it.\<close>

lemma download_wrkmem_apart:
  assumes "download_wrkmem c src sz \<noteq> 0" "unat src + unat sz < 4294967296" "i < unat sz"
  shows "outside (download_wrkmem c src sz) 65536 (src + of_nat i)"
proof -
  let ?w = "lzo_wrkmem_addr c"
  have w: "download_wrkmem c src sz = ?w" "\<not> (src < ?w + LZO_WRKMEM_SIZE \<and> src + sz > ?w)"
    using assms(1) by (auto simp: download_wrkmem_def Let_def split: if_splits)
  have wa: "unat ?w < 4294901760" by (simp add: lzo_wrkmem_addr_def)
  then have "unat (?w + LZO_WRKMEM_SIZE) = unat ?w + 65536" by (subst unat_add_lt) auto
  moreover have "unat (src + sz) = unat src + unat sz" using assms(2) by (subst unat_add_lt) auto
  ultimately have apart: "unat ?w + 65536 \<le> unat src \<or> unat src + unat sz \<le> unat ?w"
    using w(2) by (auto simp: word_less_nat_alt)
  have i: "unat (src + of_nat i) = unat src + i"
    using assms(2,3) by (subst unat_add_lt) (auto simp: unat_of_nat32)
  have j: "unat (?w + of_nat j) = unat ?w + j" if "j < 65536" for j
    using wa that by (subst unat_add_lt) (auto simp: unat_of_nat32)
  have "src + of_nat i \<noteq> ?w + of_nat j" if "j < 65536" for j
  proof
    assume "src + of_nat i = ?w + of_nat j"
    then have "unat src + i = unat ?w + j" using i j [OF that] by metis
    with apart assms(3) that show False by linarith
  qed
  then show ?thesis by (simp add: outside_def w(1))
qed

lemma serial_download:
  assumes "idle t h" "lossless (t_lzo t)" "t_resends t \<noteq> 0" "sz \<noteq> 0" "unat sz < 2147483648" "unat src + unat sz < 4294967296"
    and "length buf = unat sz"
  obtains h' where "serial_recv_data (line_ops (t_lzo t)) buf src sz quiet h = Some (0, mem_read (ser_mem h) src (unat sz), h')"
    "idle t h'" "\<And>x. outside (lzo_wrkmem_addr (sh_console h)) 65536 x \<Longrightarrow> ser_mem h' x = ser_mem h x"
proof -
  let ?s = "lst (sworld h)" and ?lz = "t_lzo t" and ?w = "download_wrkmem (sh_console h) src sz"
  have loop: "lloop (sworld h) = serial_transport_loop t" and vb: "video_booted ?s" using assms(1) by (simp_all add: idle_def)
  obtain tr where st: "\<And>k. at h ((if quiet then (\<lambda>k. k) else show_status t ''sending compressed data...'') k) (traced ?s [SsWake]) []
      = at h k (traced ?s tr) []"
    using at_show_status [of "traced ?s [SsWake]" h t "''sending compressed data...''" "[]"] vb by (cases quiet) auto
  let ?k = "Mod (\<lambda>s. s\<lparr>wrkmem := 0\<rparr>) Again" and ?s1 = "(traced ?s tr)\<lparr>wrkmem := ?w\<rparr>"
  have buf: "patch buf 0 (mem_read (smem ?s) src (unat sz)) = mem_read (smem ?s) src (unat sz)" using assms(7) by (simp add: patch_def)
  have "\<exists>m'. lzo_recv_blocks (line_ops ?lz) buf 0 sz (at h (send_data_block_compressed t src sz (\<lambda>_. ?k)) ?s1 [])
        = Some (mem_read (smem ?s) src (unat sz), at h ?k (?s1\<lparr>smem := m'\<rparr>) [])
      \<and> (\<forall>x. outside (lzo_wrkmem_addr (sh_console h)) 65536 x \<longrightarrow> m' x = smem ?s x)"
  proof (cases "?w = 0 \<or> sz < 19")
    case True
    then have "lzo_recv_blocks (line_ops ?lz) buf 0 sz (at h (send_data_block_compressed t src sz (\<lambda>_. ?k)) ?s1 [])
        = Some (mem_read (smem ?s) src (unat sz), at h ?k ?s1 [])"
      using recv_uncompressed [OF assms(4,5), of 0 buf ?lz h src "\<lambda>_. ?k" ?s1] assms(7) buf lzo_recv_blocks.simps [of _ _ _ 0]
      by (auto simp: send_data_block_compressed_def)
    then show ?thesis by (intro exI [of _ "smem ?s"]) simp
  next
    case False
    then have "?w = lzo_wrkmem_addr (sh_console h)" by (auto simp: download_wrkmem_def Let_def split: if_splits)
    moreover have "\<forall>i < unat sz. outside ?w 65536 (src + of_nat i)" using False download_wrkmem_apart assms(6) by blast
    ultimately show ?thesis
      using False recv_blocks_at [OF assms(2,3), of 0 sz buf ?s1 src h ?k] assms(5,7) buf
      by (auto simp: send_data_block_compressed_def)
  qed
  then obtain m' where m': "lzo_recv_blocks (line_ops ?lz) buf 0 sz (at h (send_data_block_compressed t src sz (\<lambda>_. ?k)) ?s1 [])
        = Some (mem_read (smem ?s) src (unat sz), at h ?k (?s1\<lparr>smem := m'\<rparr>) [])"
      "\<forall>x. outside (lzo_wrkmem_addr (sh_console h)) 65536 x \<longrightarrow> m' x = smem ?s x" by blast
  obtain tr3 where ag: "at h Again (?s1\<lparr>smem := m', wrkmem := 0\<rparr>) []
      = at h (awaiting t) (traced (?s1\<lparr>smem := m', wrkmem := 0, video_booted := True\<rparr>) tr3) []"
    using at_Again [OF loop] by blast
  let ?h' = "at h (awaiting t) (traced (?s1\<lparr>smem := m', wrkmem := 0, video_booted := True\<rparr>) tr3) []"
  have "serial_recv_data (line_ops ?lz) buf src sz quiet (at h (awaiting t) ?s []) = Some (0, mem_read (smem ?s) src (unat sz), ?h')"
    using st m' ag by (cases quiet) (simp_all add: serial_recv_data_def command_at serial_command_def lzo_recv_data_def)
  then have "serial_recv_data (line_ops ?lz) buf src sz quiet h = Some (0, mem_read (ser_mem h) src (unat sz), ?h')"
    using idle_at [OF assms(1)] by (simp add: ser_mem_def)
  then show ?thesis by (rule that) (use m'(2) in \<open>auto simp: traced_def idle_awaiting loop ser_mem_def\<close>)
qed

section \<open>An example\<close>

text \<open>A run-length coder in the place of the compressor.\<close>

definition rle_lzo :: lzo where
  "rle_lzo = \<lparr>
     lzo1x_1_compress = (\<lambda>x. if x \<noteq> [] \<and> x = replicate (length x) (hd x) then 1 # hd x # be32 (of_nat (length x)) else 0 # x),
     lzo_workmem = (\<lambda>x. replicate 16 0xff),
     lzo1x_decompress = (\<lambda>y. if y = [] then (False, []) else if hd y = 0 then (True, tl y)
       else if length y = 6 then (True, replicate (unat (rd32 y 2)) (y ! 1)) else (False, []))\<rparr>"

lemma rle_lossless: "lossless rle_lzo"
proof -
  have "lzo1x_decompress rle_lzo (lzo1x_1_compress rle_lzo x) = (True, x)
      \<and> length (lzo1x_1_compress rle_lzo x) \<le> length x + length x div 64 + 19"
    if x: "x \<noteq> []" "length x \<le> 16384" for x
  proof (cases "x = replicate (length x) (hd x)")
    case True
    have n: "unat (of_nat (length x) :: u32) = length x" using x(2) by (subst unat_of_nat32) auto
    from True x have "lzo1x_1_compress rle_lzo x = 1 # hd x # be32 (of_nat (length x))" by (simp add: rle_lzo_def)
    moreover have "lzo1x_decompress rle_lzo (1 # hd x # be32 (of_nat (length x))) = (True, replicate (length x) (hd x))"
      using n rd32_at [of "[1, hd x]" 2 "of_nat (length x)" "[]"] by (simp add: rle_lzo_def)
    ultimately show ?thesis using True by simp
  next
    case False
    then show ?thesis by (simp add: rle_lzo_def)
  qed
  then show ?thesis by (auto simp: lossless_def rle_lzo_def)
qed

definition example_target :: ser_target where
  "example_target = \<lparr>t_lzo = rle_lzo, t_name = ascii ''dc-load-serial 3.1.0'', t_endian = LE, t_has_cdfs = True, t_has_fw = False,
     t_adapter = 1, t_init_ok = True, t_dir_addr = 0x8c005000, t_program = (\<lambda>_ k. k), t_resends = 1, t_blocks = 262144\<rparr>"

definition example_loader :: ser_client where
  "example_loader = \<lparr>smem = (\<lambda>_. 0), wrkmem = 0, video_booted = True,
     sinfo = \<lparr>console_ip = [], console_port = [], host_ip = [], host_port = [], capabilities = 49, host_capabilities = 0, argc = 0,
       argv_data = replicate 256 0\<rparr>,
     info_adapter = 1, baud_rate = SERIAL_DEFAULT_SPEED, gdStatus = 0, gd_next_request_id = 2, s_trace = []\<rparr>"

text \<open>The host of the example, with a line that hands over one to four bytes at a time.\<close>

definition example_shost :: "line shost" where
  "example_shost = \<lparr>sh_device = True, sh_handle = True, sh_initial_speed = 115200, sh_current_speed = SERIAL_DEFAULT_SPEED,
     sh_can_change_speed = True, sh_speedhack = False, sh_extclk = False, sh_version = [], sh_remote_caps = 32, sh_own_caps = 1,
     sh_console = CONSOLE_DC, sh_program_executed = False, sh_console_enabled = True, sh_dumb_terminal = False,
     sh_prog_argc = 2, sh_prog_argv = ascii ''prog'' @ [0] @ ascii ''-v'' @ replicate 249 0, sh_fw_update = False,
     sworld = \<lparr>lloop = serial_transport_loop example_target, lproc = awaiting example_target, lst = example_loader, lq = [],
       lsplit = (\<lambda>n q. length q mod 4)\<rparr>\<rparr>"

lemma example_idle: "idle example_target example_shost"
  by (simp add: idle_def example_shost_def example_loader_def)

lemma example_target_simps [simp]: "t_lzo example_target = rle_lzo" "t_resends example_target = 1" "t_blocks example_target = 262144"
  by (simp_all add: example_target_def)

section \<open>Transfers\<close>



text \<open>
  C23. The upload of a program does not depend on the transport. A program converted by \<open>elf2dol\<close> and uploaded
  over the serial line: \<open>upload\<close> returns its entry point and the console's memory holds each loadable segment at its
  virtual address, as over the network.
\<close>

theorem serial_program_uploaded:
  assumes "elf2dol alloc elf = Some (Inr dol)" and "elf_phdrs elf = Some phs" and "length dol + 64 \<le> 2 ^ 32"
    and "files env filename = Some dol" and "\<forall>ph \<in> set phs. malloc_ok env (unat (p_filesz ph))"
    and "0x80000000 \<le> rd32 elf 24" and "rd32 elf 24 \<le> 0x817FFFFF" and "segs (\<lambda>_. True) phs \<noteq> []"
    and "\<forall>ph \<in> set (segs (\<lambda>_. True) phs). 0x80000000 \<le> p_vaddr ph \<and> ser_accepts t (seg_data elf ph)"
    and "sorted_wrt disjoint_sections (dol_sections ''text'' elf (segs is_text phs) @ dol_sections ''data'' elf (segs (\<lambda>ph. \<not> is_text ph) phs))"
    and "ser_ready t h"
  shows "\<exists>h'. upload lib env ctx (serial_send_data (line_ops (t_lzo t))) filename addr h = Some (rd32 elf 24, h')
    \<and> (\<forall>ph \<in> set (segs (\<lambda>_. True) phs). mem_read (smem (lst (sworld h'))) (p_vaddr ph) (unat (p_filesz ph)) = seg_data elf ph)"
  using ser.dol_uploaded [OF assms] by (simp add: ser_mem_def)

theorem serial_program_uploaded_witness:
  "\<exists>dol h'. elf2dol (\<lambda>_. True) sample_elf = Some (Inr dol)
     \<and> upload (\<lambda>_. None) (one_file dol) \<lparr>up_console = CONSOLE_GC, force_descramble = False\<rparr>
         (serial_send_data (line_ops rle_lzo)) ''boot.dol'' 0 example_shost = Some (0x80003100, h')
     \<and> mem_read (smem (lst (sworld h'))) 0x80003100 4 = [1, 2, 3, 4]"
proof -
  let ?ph = "\<lparr>p_type = 1, p_offset = 84, p_vaddr = 0x80003100, p_paddr = 0x80003100, p_filesz = 4, p_memsz = 8, p_flags = 5, p_align = 4\<rparr> :: elf32_phdr"
  obtain dol where dol: "elf2dol (\<lambda>_. True) sample_elf = Some (Inr dol)" "length dol = 260" using sample_elf_dol by blast
  have e: "rd32 sample_elf 24 = 0x80003100" and d: "seg_data sample_elf ?ph = [1, 2, 3, 4]" by code_simp+
  have s: "segs (\<lambda>_. True) [?ph] = [?ph]" "segs is_text [?ph] = [?ph]" "segs (\<lambda>ph. \<not> is_text ph) [?ph] = []"
    by (simp_all add: segs_def is_text_def)
  have u: "ser_accepts example_target [1, 2, 3, 4]" by (simp add: ser_accepts_def)
  have r: "ser_ready example_target example_shost" by (simp add: ser_ready_def example_idle rle_lossless)
  show ?thesis
    using serial_program_uploaded [OF dol(1) sample_elf_phdrs, of "one_file dol" "''boot.dol''" example_target
        example_shost "\<lambda>_. None" "\<lparr>up_console = CONSOLE_GC, force_descramble = False\<rparr>" 0] dol e d s u r
    by (auto simp: one_file_def dol_sections_def)
qed

text \<open>
  C40. A download of no bytes breaks the protocol. The loader answers it with an empty block and waits for its
  acknowledgement, but the host, with nothing to receive, reads no block: \<open>serial_recv_data\<close> reports success, six bytes the
  host will take for the answer to its next command are on the line, and the loader takes the first byte of that command
  for the acknowledgement.
\<close>

theorem empty_download_desynchronises:
  assumes "idle t h"
  shows "\<exists>h'. serial_recv_data (line_ops (t_lzo t)) buf src 0 True h = Some (0, buf, h')
    \<and> lq (sworld h') = [SERIAL_DATA_UNCOMPRESSED, 0, 0, 0, 0, 0] \<and> \<not> idle t h'
    \<and> (\<exists>s. sworld (swrite (line_ops (t_lzo t)) [c] h') = (sworld (at h (awaiting t) s (lq (sworld h')))))"
proof -
  let ?s = "lst (sworld h)" and ?lz = "t_lzo t" and ?w = "download_wrkmem (sh_console h) src 0"
  have loop: "lloop (sworld h) = serial_transport_loop t" and vb: "video_booted ?s" using assms by (simp_all add: idle_def)
  let ?k = "Mod (\<lambda>s. s\<lparr>wrkmem := 0\<rparr>) Again" and ?s1 = "(traced ?s [SsWake])\<lparr>wrkmem := ?w\<rparr>"
  let ?h' = "at h (Get (\<lambda>c. ?k)) ?s1 [SERIAL_DATA_UNCOMPRESSED, 0, 0, 0, 0, 0]"
  have "at h (send_data_block_compressed t src 0 (\<lambda>_. ?k)) ?s1 [] = ?h'"
    by (simp add: send_data_block_compressed_def send_data_block_uncompressed_def put_uint_le32 le32_def)
  then have "serial_recv_data (line_ops ?lz) buf src 0 True (at h (awaiting t) ?s []) = Some (0, buf, ?h')"
    by (simp add: serial_recv_data_def command_at serial_command_def lzo_recv_data_def lzo_recv_blocks.simps)
  then have "serial_recv_data (line_ops ?lz) buf src 0 True h = Some (0, buf, ?h')" using idle_at [OF assms] by simp
  moreover have q: "lq (sworld ?h') = [SERIAL_DATA_UNCOMPRESSED, 0, 0, 0, 0, 0]" by (simp add: at_def online_Get)
  moreover obtain tr where "at h Again (?s1\<lparr>wrkmem := 0\<rparr>) (lq (sworld ?h'))
      = at h (awaiting t) (traced (?s1\<lparr>wrkmem := 0, video_booted := True\<rparr>) tr) (lq (sworld ?h'))"
    using at_Again [OF loop] by blast
  ultimately show ?thesis by (auto simp: idle_def)
qed

theorem empty_download_desynchronises_witness:
  "\<exists>h'. serial_recv_data (line_ops rle_lzo) [] 0x8c010000 0 True example_shost = Some (0, [], h')
     \<and> lq (sworld h') = [SERIAL_DATA_UNCOMPRESSED, 0, 0, 0, 0, 0]"
  using empty_download_desynchronises [OF example_idle, of "[]" "0x8c010000"] by auto

end
