(* ===== verification/Serial_Session.thy ===== *)
theory Serial_Session
  imports Serial_Line
begin

text \<open>
  A session on the serial line: the host's handshake (speed, version, capabilities) and the start of a program, each
  against the loader's command loop.
\<close>

lemma at_update [simp]:
  "(at h c s q)\<lparr>sh_version := v\<rparr> = at (h\<lparr>sh_version := v\<rparr>) c s q"
  "(at h c s q)\<lparr>sh_remote_caps := v'\<rparr> = at (h\<lparr>sh_remote_caps := v'\<rparr>) c s q"
  "(at h c s q)\<lparr>sh_current_speed := v'\<rparr> = at (h\<lparr>sh_current_speed := v'\<rparr>) c s q"
  "(at h c s q)\<lparr>sh_handle := b\<rparr> = at (h\<lparr>sh_handle := b\<rparr>) c s q"
  "(at h c s q)\<lparr>sworld := sworld (at h c s q)\<rparr> = at h c s q"
  "(at h c s q)\<lparr>sworld := sworld (at h c s q), sh_handle := b\<rparr> = at (h\<lparr>sh_handle := b\<rparr>) c s q"
  by (simp_all add: at_def)

lemma swrite_awaiting: "swrite (line_ops lz) [c] (at h (awaiting t) s []) = at h (serial_command t c Again) (traced s [SsWake]) [c]"
  by (simp add: awaiting_def)

lemma command_capabilities: "serial_command t 0x49 k = get_uint (\<lambda>caps.
    Mod (\<lambda>s. s\<lparr>sinfo := (sinfo s)\<lparr>host_capabilities := caps\<rparr>\<rparr>) (Obs (\<lambda>s. put_uint (capabilities (sinfo s)) k)))"
  by (simp add: serial_command_def)

section \<open>Handshake\<close>

definition wire_speed :: "'w shost \<Rightarrow> u32 \<Rightarrow> u32" where
  "wire_speed h sp = (if sh_speedhack h \<and> sp = 115200 then 111607 else if sh_speedhack h \<and> sp = 230400 then 223214
     else if sh_extclk h then 0 else sp)"

lemma wire_speed_at [simp]: "wire_speed (at h c s q) sp = wire_speed h sp"
  by (simp add: wire_speed_def)

lemma wire_speed_update [simp]: "wire_speed (h\<lparr>sh_handle := b, sh_current_speed := v\<rparr>) sp = wire_speed h sp"
  by (simp add: wire_speed_def)

lemma change_speed_at:
  assumes "lloop (sworld h) = serial_transport_loop t"
  obtains tr where "serial_change_speed (line_ops lz) sp (at h (awaiting t) s [])
    = Some (0, at (h\<lparr>sh_handle := True, sh_current_speed := sp\<rparr>) (awaiting t)
        (traced (s\<lparr>baud_rate := wire_speed h sp, video_booted := True\<rparr>) tr) [])"
proof -
  let ?h = "h\<lparr>sh_handle := True, sh_current_speed := sp\<rparr>" and ?s = "traced s [SsWake, Flush, SerInit (wire_speed h sp)]\<lparr>baud_rate := wire_speed h sp\<rparr>"
  have l: "lloop (sworld ?h) = serial_transport_loop t" using assms by simp
  obtain tr where "at ?h Again ?s [] = at ?h (awaiting t) (traced (?s\<lparr>video_booted := True\<rparr>) tr) []"
    by (rule at_Again [OF l, of ?s "[]"])
  then have "serial_change_speed (line_ops lz) sp (at h (awaiting t) s [])
    = Some (0, at (h\<lparr>sh_handle := True, sh_current_speed := sp\<rparr>) (awaiting t) (traced (?s\<lparr>video_booted := True\<rparr>) tr) [])"
    by (simp add: serial_change_speed_def command_at serial_command_def put_uint_le32 wire_speed_def [symmetric] Let_def)
  then show ?thesis by (intro that) (simp add: traced_def)
qed

lemma at_puts: "10 \<notin> set v \<Longrightarrow> at h (serial_io_puts v k) s q = at h k s (q @ v)"
  by (induction v arbitrary: q) auto

lemma read_version_at:
  "10 \<notin> set v \<Longrightarrow> length v < n \<Longrightarrow> read_version (line_ops lz) n (at h c s (v @ 10 # q)) = Some (v, at h c s q)"
proof (induction v arbitrary: n)
  case Nil
  then show ?case by (cases n) simp_all
next
  case (Cons b v)
  then show ?case by (cases n) auto
qed

lemma initial_speed_change_at:
  assumes "lloop (sworld h) = serial_transport_loop t" "video_booted s" "sh_current_speed h = SERIAL_DEFAULT_SPEED" "sh_handle h"
    and "sh_initial_speed h \<noteq> SERIAL_DEFAULT_SPEED \<longrightarrow> sh_can_change_speed h"
  obtains s' where "initial_speed_change (line_ops lz) (at h (awaiting t) s [])
      = Some (0, at (h\<lparr>sh_current_speed := sh_initial_speed h\<rparr>) (awaiting t) s' [])"
    "video_booted s'" "sinfo s' = sinfo s" "smem s' = smem s"
    "sh_initial_speed h \<noteq> SERIAL_DEFAULT_SPEED \<longrightarrow> baud_rate s' = wire_speed h (sh_initial_speed h)"
proof (cases "sh_initial_speed h = SERIAL_DEFAULT_SPEED")
  case True
  then have "h\<lparr>sh_current_speed := sh_initial_speed h\<rparr> = h" using assms(3) by (cases h) simp
  then show ?thesis using that [of s] True assms(2) by (simp add: initial_speed_change_def)
next
  case False
  have "h\<lparr>sh_handle := True, sh_current_speed := sh_initial_speed h\<rparr> = h\<lparr>sh_current_speed := sh_initial_speed h\<rparr>"
    using assms(4) by (cases h) simp
  moreover obtain tr where "serial_change_speed (line_ops lz) (sh_initial_speed h) (at h (awaiting t) s [])
      = Some (0, at (h\<lparr>sh_handle := True, sh_current_speed := sh_initial_speed h\<rparr>) (awaiting t)
          (traced (s\<lparr>baud_rate := wire_speed h (sh_initial_speed h), video_booted := True\<rparr>) tr) [])"
    by (rule change_speed_at [OF assms(1)])
  ultimately show ?thesis
    using that [of "traced (s\<lparr>baud_rate := wire_speed h (sh_initial_speed h), video_booted := True\<rparr>) tr"] False assms(5)
    by (simp add: initial_speed_change_def traced_def)
qed

lemma query_version_at:
  assumes "lloop (sworld h) = serial_transport_loop t" "10 \<notin> set (t_name t)" "length (t_name t) \<le> 126"
  obtains tr where "query_version (line_ops lz) (at h (awaiting t) s [])
    = Some (at (h\<lparr>sh_version := t_name t\<rparr>) (awaiting t) (traced (s\<lparr>video_booted := True\<rparr>) tr) [])"
proof -
  let ?s = "traced s [SsWake]"
  obtain tr where a: "at h Again ?s (t_name t @ [10, 13]) = at h (awaiting t) (traced (?s\<lparr>video_booted := True\<rparr>) tr) (t_name t @ [10, 13])"
    using at_Again [OF assms(1)] by blast
  have "at h (serial_command t 0x56 Again) ?s [] = at h (awaiting t) (traced (?s\<lparr>video_booted := True\<rparr>) tr) (t_name t @ [10, 13])"
    using a assms(2) by (simp add: serial_command_def at_puts)
  then have "query_version (line_ops lz) (at h (awaiting t) s [])
      = Some (at (h\<lparr>sh_version := t_name t\<rparr>) (awaiting t) (traced (?s\<lparr>video_booted := True\<rparr>) tr) [])"
    using assms(2,3) by (simp add: query_version_def swrite_awaiting read_version_at)
  then show ?thesis using that [of "SsWake # tr"] by (simp add: traced_def)
qed

lemma query_remote_capabilities_at:
  assumes "lloop (sworld h) = serial_transport_loop t" "serial_remote_supports_capabilities h"
  obtains tr where "query_remote_capabilities (line_ops lz) (at h (awaiting t) s [])
    = Some (at (h\<lparr>sh_remote_caps := capabilities (sinfo s)\<rparr>) (awaiting t)
        (traced (s\<lparr>sinfo := (sinfo s)\<lparr>host_capabilities := sh_own_caps h\<rparr>, video_booted := True\<rparr>) tr) [])"
proof -
  let ?h = "h\<lparr>sh_remote_caps := capabilities (sinfo s)\<rparr>"
  let ?s = "(traced s [SsWake])\<lparr>sinfo := (sinfo s)\<lparr>host_capabilities := sh_own_caps h\<rparr>\<rparr>"
  obtain tr where "at ?h Again ?s [] = at ?h (awaiting t) (traced (?s\<lparr>video_booted := True\<rparr>) tr) []"
    using at_Again [of ?h t ?s "[]"] assms(1) by auto
  moreover have "serial_remote_supports_capabilities (at (h\<lparr>sh_remote_caps := 0\<rparr>) c s q)" for c s q
    using assms(2) by (simp add: serial_remote_supports_capabilities_def)
  ultimately have "query_remote_capabilities (line_ops lz) (at h (awaiting t) s [])
      = Some (at ?h (awaiting t) (traced (?s\<lparr>video_booted := True\<rparr>) tr) [])"
    by (simp add: query_remote_capabilities_def swrite_awaiting command_capabilities put_uint_le32 Let_def)
  then show ?thesis using that [of "SsWake # tr"] by (simp add: traced_def)
qed

text \<open>
  The handshake. Opening a session with an idle loader (changing the speed first when the user asks for another one)
  leaves the host with the loader's version string and its capabilities, the loader with the host's capabilities, both
  with the agreed speed, and the loader idle. The version is the loader's name up to the newline, and the
  carriage return the loader's \<open>puts\<close> adds is consumed, so that nothing stays on the line.
\<close>

theorem serial_handshake:
  assumes "idle t h" and "sh_device h" and "sh_initial_speed h \<noteq> SERIAL_DEFAULT_SPEED \<longrightarrow> sh_can_change_speed h"
    and "10 \<notin> set (t_name t)" and "length (t_name t) \<le> 126" and "take 15 (t_name t) = ascii ''dc-load-serial ''"
  shows "\<exists>h'. serial_init (line_ops lz) h = Some (0, h') \<and> idle t h' \<and> sh_version h' = t_name t
    \<and> sh_remote_caps h' = capabilities (sinfo (lst (sworld h))) \<and> host_capabilities (sinfo (lst (sworld h'))) = sh_own_caps h
    \<and> sh_current_speed h' = sh_initial_speed h
    \<and> (sh_initial_speed h \<noteq> SERIAL_DEFAULT_SPEED \<longrightarrow> baud_rate (lst (sworld h')) = wire_speed h (sh_initial_speed h))
    \<and> smem (lst (sworld h')) = smem (lst (sworld h))"
proof -
  let ?s = "lst (sworld h)" and ?h0 = "h\<lparr>sh_handle := True, sh_current_speed := SERIAL_DEFAULT_SPEED\<rparr>"
  let ?h1 = "h\<lparr>sh_handle := True, sh_current_speed := sh_initial_speed h\<rparr>" and ?h2 = "h\<lparr>sh_handle := True, sh_current_speed := sh_initial_speed h, sh_version := t_name t\<rparr>"
  have loop: "lloop (sworld h) = serial_transport_loop t" and vb: "video_booted ?s" using assms(1) by (simp_all add: idle_def)
  obtain s1 where s1: "initial_speed_change (line_ops lz) (at ?h0 (awaiting t) ?s []) = Some (0, at ?h1 (awaiting t) s1 [])"
    "sinfo s1 = sinfo ?s" "smem s1 = smem ?s" "sh_initial_speed h \<noteq> SERIAL_DEFAULT_SPEED \<longrightarrow> baud_rate s1 = wire_speed h (sh_initial_speed h)"
    by (rule initial_speed_change_at [of ?h0 t ?s lz]) (use loop vb assms(3) in auto)
  obtain tr where q: "query_version (line_ops lz) (at ?h1 (awaiting t) s1 []) = Some (at ?h2 (awaiting t) (traced (s1\<lparr>video_booted := True\<rparr>) tr) [])"
    by (rule query_version_at [of ?h1 t lz s1]) (use loop assms(4,5) in auto)
  have sup: "serial_remote_supports_capabilities ?h2" using assms(6) by (simp add: serial_remote_supports_capabilities_def)
  obtain tr2 where c: "query_remote_capabilities (line_ops lz) (at ?h2 (awaiting t) (traced (s1\<lparr>video_booted := True\<rparr>) tr) [])
      = Some (at (?h2\<lparr>sh_remote_caps := capabilities (sinfo ?s)\<rparr>) (awaiting t)
          (traced ((traced (s1\<lparr>video_booted := True\<rparr>) tr)\<lparr>sinfo := (sinfo ?s)\<lparr>host_capabilities := sh_own_caps h\<rparr>, video_booted := True\<rparr>) tr2) [])"
    by (rule query_remote_capabilities_at [OF _ sup, of t lz "traced (s1\<lparr>video_booted := True\<rparr>) tr"]) (use loop s1(2) in auto)
  have "serial_init (line_ops lz) (at h (awaiting t) ?s []) = Some (0, at (?h2\<lparr>sh_remote_caps := capabilities (sinfo ?s)\<rparr>) (awaiting t)
          (traced ((traced (s1\<lparr>video_booted := True\<rparr>) tr)\<lparr>sinfo := (sinfo ?s)\<lparr>host_capabilities := sh_own_caps h\<rparr>, video_booted := True\<rparr>) tr2) [])"
    using s1(1) q c assms(2) by (simp add: serial_init_def)
  then have i: "serial_init (line_ops lz) h = Some (0, at (?h2\<lparr>sh_remote_caps := capabilities (sinfo ?s)\<rparr>) (awaiting t)
          (traced ((traced (s1\<lparr>video_booted := True\<rparr>) tr)\<lparr>sinfo := (sinfo ?s)\<lparr>host_capabilities := sh_own_caps h\<rparr>, video_booted := True\<rparr>) tr2) [])"
    using idle_at [OF assms(1)] by simp
  show ?thesis by (rule exI, rule conjI, rule i) (use s1(3,4) loop in \<open>auto simp: traced_def idle_awaiting\<close>)
qed

theorem serial_handshake_witness:
  "\<exists>h'. serial_init (line_ops rle_lzo) example_shost = Some (0, h') \<and> sh_version h' = ascii ''dc-load-serial 3.1.0''
     \<and> sh_remote_caps h' = 49 \<and> sh_current_speed h' = 115200 \<and> baud_rate (lst (sworld h')) = 115200"
proof -
  have n: "t_name example_target = ascii ''dc-load-serial 3.1.0''" by (simp add: example_target_def)
  have a: "10 \<notin> set (ascii ''dc-load-serial 3.1.0'')" "take 15 (ascii ''dc-load-serial 3.1.0'') = ascii ''dc-load-serial ''" by code_simp+
  show ?thesis
    using serial_handshake [OF example_idle, of rle_lzo] n a by (auto simp: example_shost_def example_loader_def wire_speed_def)
qed

section \<open>Starting a program\<close>

lemma swrite_recv_argv: "length bs = n \<Longrightarrow> ci + n \<le> length (argv_data (sinfo s)) \<Longrightarrow>
  swrite (line_ops lz) bs (at h (recv_argv n ci k) s q)
    = at h k (s\<lparr>sinfo := (sinfo s)\<lparr>argv_data := patch (argv_data (sinfo s)) ci bs\<rparr>\<rparr>) q"
proof (induction n arbitrary: bs ci s)
  case 0
  then show ?case by (simp add: patch_def)
next
  case (Suc n)
  then obtain b bs' where b: "bs = b # bs'" "length bs' = n" by (auto simp: length_Suc_conv)
  have "patch ((argv_data (sinfo s))[ci := b]) (Suc ci) bs' = patch (argv_data (sinfo s)) ci bs"
    using Suc.prems b by (simp add: patch_def list_update_append take_Suc_conv_app_nth drop_update_cancel
        upd_conv_take_nth_drop add.commute)
  then show ?case using Suc b by (simp add: swrite_Get)
qed

lemma argv_length_bounds: "argv_length (Suc k) v = Some n \<Longrightarrow> 0 < n \<and> n \<le> length v \<and> v ! (n - 1) = 0"
proof (induction k arbitrary: v n)
  case 0
  then show ?case using nth_length_takeWhile [of "\<lambda>b. b \<noteq> 0" v] by (auto simp: Let_def split: if_splits)
next
  case (Suc k)
  let ?l = "length (takeWhile (\<lambda>b. b \<noteq> 0) v)"
  obtain m where m: "argv_length (Suc k) (drop (?l + 1) v) = Some m" "n = ?l + 1 + m" "?l < length v"
    using Suc.prems by (auto simp: Let_def split: if_splits)
  then have "0 < m \<and> m \<le> length (drop (?l + 1) v) \<and> drop (?l + 1) v ! (m - 1) = 0" using Suc.IH by blast
  then show ?case using m by auto
qed

text \<open>The console word: the low bit and the two flags come apart again.\<close>

definition console_word :: "u32 \<Rightarrow> bool \<Rightarrow> bool \<Rightarrow> u32" where
  "console_word c av fw = c OR (if av then KOSLOAD_SERIAL_EXEC_ARGV else 0) OR (if fw then KOSLOAD_SERIAL_EXEC_FW_UPDATE else 0)"

lemma console_word_bits:
  assumes "c = 0 \<or> c = 1"
  shows "(console_word c av fw AND KOSLOAD_SERIAL_EXEC_FW_UPDATE \<noteq> 0) = fw"
    "((console_word c av fw AND NOT KOSLOAD_SERIAL_EXEC_FW_UPDATE) AND KOSLOAD_SERIAL_EXEC_ARGV \<noteq> 0) = av"
    "((console_word c av fw AND NOT KOSLOAD_SERIAL_EXEC_FW_UPDATE) AND NOT KOSLOAD_SERIAL_EXEC_ARGV \<noteq> 0) = (c = 1)"
    "\<not> av \<Longrightarrow> (console_word c av fw AND NOT KOSLOAD_SERIAL_EXEC_FW_UPDATE \<noteq> 0) = (c = 1)"
  using assms by (cases av; cases fw; auto simp: console_word_def)+

definition launch_events :: "ser_target \<Rightarrow> bool \<Rightarrow> bool \<Rightarrow> u32 \<Rightarrow> ser_event list" where
  "launch_events t fw console addr =
     (if fw then Flush # (if t_has_fw t then [FwPrepare] else []) else [SetConsoleEnabled console, Flush]) @ [ExecuteAt addr]"

abbreviation in_program :: "ser_target \<Rightarrow> u32 \<Rightarrow> ser_client io" where
  "in_program t addr \<equiv> t_program t addr (Mod (\<lambda>s. s\<lparr>video_booted := False\<rparr>) Again)"

lemma at_launch: "at h (launch t addr fw console Again) s q = at h (in_program t addr) (traced s (launch_events t fw (console \<noteq> 0) addr)) q"
  by (simp add: launch_def launch_events_def Let_def)

lemma swrite_argv:
  assumes "length (argv_data (sinfo s)) = 256" "0 < length arg" "length arg \<le> 256" "last arg = 0" "0 < argc'"
  shows "\<exists>c. send_uint (line_ops lz) (of_nat (length arg)) (at h (get_argv argc' k) s []) = Some (at h c s [])
    \<and> swrite (line_ops lz) arg (at h c s [])
      = at h k (s\<lparr>sinfo := (sinfo s)\<lparr>argv_data := patch (argv_data (sinfo s)) 0 arg, argc := argc'\<rparr>\<rparr>) []"
proof -
  have n: "unat (of_nat (length arg) :: u32) = length arg" using assms(3) by (subst unat_of_nat32) auto
  have "(patch (argv_data (sinfo s)) 0 arg)[length arg - Suc 0 := 0] = patch (argv_data (sinfo s)) 0 arg"
  proof -
    have "patch (argv_data (sinfo s)) 0 arg ! (length arg - 1) = 0"
      using assms(2,4) by (simp add: patch_def nth_append last_conv_nth)
    then show ?thesis by (metis One_nat_def list_update_id)
  qed
  then show ?thesis
    using assms n by (simp add: get_argv_def Let_def KOSLOAD_MAX_ARGV_DATA_def) (rule exI, rule conjI, rule refl, simp add: swrite_recv_argv)
qed

text \<open>
  C22. Starting a program. \<open>serial_execute\<close> with an idle loader leaves the loader in the program at the given address, with the
  memory unchanged, the console switched as asked (or, for a firmware update the loader can prepare, prepared for it instead), the
  argument count and strings the host holds in place when the loader takes arguments and none otherwise, and nothing
  left on the line for the program to misread.
\<close>

theorem serial_execute_starts_program:
  assumes "idle t h" and "c = 0 \<or> c = 1" and "cdfs \<longrightarrow> t_has_cdfs t"
    and "length (sh_prog_argv h) = 256" and "length (argv_data (sinfo (lst (sworld h)))) = 256"
    and "0 < sh_prog_argc h \<longrightarrow> argv_length (unat (sh_prog_argc h)) (sh_prog_argv h) = Some n"
  shows "\<exists>s' tr. serial_execute (line_ops lz) addr c cdfs h = Some (0, at h (in_program t addr) s' [])
    \<and> smem s' = smem (lst (sworld h))
    \<and> s_trace s' = tr @ launch_events t (sh_fw_update h \<and> sh_remote_caps h AND 64 \<noteq> 0) (c = 1) addr
    \<and> (cdfs \<longrightarrow> CdfsEnable \<in> set tr)
    \<and> (if 0 < sh_prog_argc h \<and> sh_remote_caps h AND 32 \<noteq> 0
       then argc (sinfo s') = sh_prog_argc h \<and> take n (argv_data (sinfo s')) = take n (sh_prog_argv h)
       else argc (sinfo s') = 0)"
proof -
  let ?s = "lst (sworld h)" and ?fw = "sh_fw_update h \<and> sh_remote_caps h AND 64 \<noteq> 0"
  let ?arg = "take n (sh_prog_argv h)"
  define av where "av = (0 < sh_prog_argc h \<and> sh_remote_caps h AND 32 \<noteq> 0)"
  have loop: "lloop (sworld h) = serial_transport_loop t" and vb: "video_booted ?s" using assms(1) by (simp_all add: idle_def)
  obtain s1 where s1: "(if cdfs then send_command_byte (line_ops lz) 0x48 h else Some h) = Some (at h (awaiting t) s1 [])"
    "video_booted s1" "smem s1 = smem ?s" "sinfo s1 = sinfo ?s" "cdfs \<longrightarrow> CdfsEnable \<in> set (s_trace s1)"
  proof (cases cdfs)
    case True
    obtain tr where "at h Again (traced ?s [SsWake, CdfsEnable]) []
        = at h (awaiting t) (traced ((traced ?s [SsWake, CdfsEnable])\<lparr>video_booted := True\<rparr>) tr) []"
      using at_Again [OF loop] by blast
    then have "send_command_byte (line_ops lz) 0x48 (at h (awaiting t) ?s [])
        = Some (at h (awaiting t) (traced ((traced ?s [SsWake, CdfsEnable])\<lparr>video_booted := True\<rparr>) tr) [])"
      using assms(3) True by (simp add: command_at serial_command_def)
    then show ?thesis
      using that [of "traced ((traced ?s [SsWake, CdfsEnable])\<lparr>video_booted := True\<rparr>) tr"] True idle_at [OF assms(1)]
      by (simp add: traced_def)
  next
    case False
    then show ?thesis using that [of ?s] vb idle_at [OF assms(1)] by simp
  qed
  obtain tr where st: "\<And>k. at h (show_status t ''executing...'' k) (traced s1 [SsWake]) [] = at h k (traced s1 tr) []"
    using at_show_status [of "traced s1 [SsWake]" h t "''executing...''" "[]"] s1(2) by auto
  let ?s2 = "(traced s1 tr)\<lparr>sinfo := (sinfo ?s)\<lparr>argc := 0, argv_data := (argv_data (sinfo ?s))[0 := 0]\<rparr>\<rparr>"
  note bits = console_word_bits [OF assms(2), simplified]
  have ex: "serial_execute (line_ops lz) addr c cdfs h = do {
      h \<leftarrow> send_uint (line_ops lz) addr (at h (ser_cmd_execute t Again) (traced s1 [SsWake]) []);
      h \<leftarrow> send_uint (line_ops lz) (console_word c av ?fw) h;
      h \<leftarrow> (if av then do {
              h \<leftarrow> send_uint (line_ops lz) (sh_prog_argc h) h;
              k \<leftarrow> argv_length (unat (sh_prog_argc h)) (sh_prog_argv h);
              h \<leftarrow> send_uint (line_ops lz) (of_nat k) h;
              Some (swrite (line_ops lz) (take k (sh_prog_argv h)) h)
            } else Some h);
      Some (0, h) }"
    using s1(1) unfolding serial_execute_def serial_remote_supports_argv_def console_word_def
    by (simp add: command_at serial_command_def Let_def av_def [symmetric])
  show ?thesis
  proof (cases av)
    case True
    then have pos: "0 < sh_prog_argc h" by (simp add: av_def)
    have n: "0 < n" "n \<le> 256" "sh_prog_argv h ! (n - 1) = 0"
    proof -
      have "unat (sh_prog_argc h) \<noteq> 0" using pos by (auto simp: unat_eq_0)
      then obtain j where "unat (sh_prog_argc h) = Suc j" using not0_implies_Suc by blast
      then show "0 < n" "n \<le> 256" "sh_prog_argv h ! (n - 1) = 0"
        using argv_length_bounds [of j "sh_prog_argv h" n] pos assms(4,6) by simp_all
    qed
    then have len: "length ?arg = n" "?arg \<noteq> []" using assms(4) by auto
    then have "last ?arg = ?arg ! (n - 1)" by (simp add: last_conv_nth)
    then have arg: "length ?arg = n" "last ?arg = 0" "?arg \<noteq> []" using n len by simp_all
    let ?s3 = "?s2\<lparr>sinfo := (sinfo ?s2)\<lparr>argv_data := patch (argv_data (sinfo ?s2)) 0 ?arg, argc := sh_prog_argc h\<rparr>\<rparr>"
    let ?s' = "traced ?s3 (launch_events t ?fw (c = 1) addr)"
    let ?k = "launch t addr ?fw ((console_word c True ?fw AND NOT KOSLOAD_SERIAL_EXEC_FW_UPDATE) AND NOT KOSLOAD_SERIAL_EXEC_ARGV) Again"
    obtain cc where "send_uint (line_ops lz) (of_nat n) (at h (get_argv (sh_prog_argc h) ?k) ?s2 []) = Some (at h cc ?s2 [])"
      "swrite (line_ops lz) ?arg (at h cc ?s2 []) = at h ?k ?s3 []"
      using swrite_argv [of ?s2 ?arg "sh_prog_argc h" lz h ?k] pos assms(5) n arg by auto
    then have "serial_execute (line_ops lz) addr c cdfs h = Some (0, at h (in_program t addr) ?s' [])"
      using True pos assms(6) st bits s1(4) unfolding ex ser_cmd_execute_def by (simp add: Let_def at_launch)
    then show ?thesis
      using True [unfolded av_def] s1(3,5) arg(1) by (intro exI [of _ ?s'] exI [of _ "s_trace s1 @ tr"]) (simp add: traced_def patch_def)
  next
    case False
    let ?s' = "traced ?s2 (launch_events t ?fw (c = 1) addr)"
    have "serial_execute (line_ops lz) addr c cdfs h = Some (0, at h (in_program t addr) ?s' [])"
      using False st bits s1(4) unfolding ex ser_cmd_execute_def by (simp add: Let_def at_launch)
    then show ?thesis
      using False [unfolded av_def] s1(3,5) by (intro exI [of _ ?s'] exI [of _ "s_trace s1 @ tr"]) (auto simp: traced_def)
  qed
qed

theorem serial_execute_starts_program_witness:
  "\<exists>s' tr. serial_execute (line_ops rle_lzo) 0x8c010000 1 True example_shost = Some (0, at example_shost (in_program example_target 0x8c010000) s' [])
     \<and> s_trace s' = tr @ [SetConsoleEnabled True, Flush, ExecuteAt 0x8c010000] \<and> CdfsEnable \<in> set tr
     \<and> argc (sinfo s') = 2 \<and> take 8 (argv_data (sinfo s')) = ascii ''prog'' @ [0] @ ascii ''-v'' @ [0]"
proof -
  let ?v = "ascii ''prog'' @ [0] @ ascii ''-v'' @ replicate 249 0 :: bytes"
  have l: "argv_length 2 ?v = Some 8" by code_simp
  have t: "take 8 ?v = ascii ''prog'' @ [0] @ ascii ''-v'' @ [0]" by code_simp
  have e: "sh_prog_argc example_shost = 2" "sh_prog_argv example_shost = ?v" "sh_remote_caps example_shost = 32" "\<not> sh_fw_update example_shost"
    "lst (sworld example_shost) = example_loader" "length (argv_data (sinfo example_loader)) = 256" "t_has_cdfs example_target"
    by (simp_all add: example_shost_def example_loader_def example_target_def)
  show ?thesis
    using serial_execute_starts_program [OF example_idle, of 1 True 8 rle_lzo "0x8c010000"] l t e
    by (simp add: launch_events_def) blast
qed

end
