(* ===== verification/Host_Os.thy ===== *)
theory Host_Os
  imports Serial_Line
begin

text \<open>
  The host system the console serves a program from: the POSIX calls \<^verbatim>\<open>host/src/console.c\<close> makes, as operations of a
  record over the state \<open>'o\<close> of that system, which the theorems leave open; the string helpers of
  \<^verbatim>\<open>include/kosload/strutil.h\<close>, the path and flag translation of \<^verbatim>\<open>host/src/platform/posix.c\<close>, and \<open>write_full\<close>. A C
  string is its bytes without the terminator; file descriptors and results are 32-bit integers, \<open>-1\<close> among them.
\<close>

section \<open>Operating system\<close>

datatype access_mode = O_RDONLY | O_WRONLY | O_RDWR

record open_flags =
  o_access :: access_mode
  o_append :: bool
  o_creat :: bool
  o_trunc :: bool
  o_excl :: bool

record host_stat =
  st_dev :: u64
  st_ino :: u64
  st_mode :: u64
  st_nlink :: u64
  st_uid :: u64
  st_gid :: u64
  st_rdev :: u64
  st_size :: u64
  st_blksize :: u64
  st_blocks :: u64
  st_atime :: u64
  st_mtime :: u64
  st_ctime :: u64

record dirent =
  d_ino :: u64
  d_off :: u64
  d_reclen :: u16
  d_type :: u8
  d_name :: bytes

datatype write_result = Wrote nat | Interrupted | Failed

text \<open>
  \<open>os_read\<close> answers with the bytes delivered, or \<open>None\<close> for \<open>-1\<close>; \<open>os_stat\<close> and \<open>os_fstat\<close> with the structure they filled in,
  if they did; a directory stream is a number. \<open>os_a2l_start\<close> is the fork of the helper process, \<open>os_a2l_put\<close> and
  \<open>os_a2l_gets\<close> the two pipes to it, \<open>os_popen_gets\<close> the first line of a command's output, where the number is the size of
  the buffer given to \<open>fgets\<close>. \<open>os_localtime\<close> is year, month, day, hour, minute and second of the local time; \<open>os_fopen\<close> opens the
  file of an exception report, \<open>os_fprintf\<close> writes to it.
\<close>

record 'o os =
  os_open :: "bytes \<Rightarrow> open_flags \<Rightarrow> u32 \<Rightarrow> 'o \<Rightarrow> u32 \<times> 'o"
  os_close :: "u32 \<Rightarrow> 'o \<Rightarrow> u32 \<times> 'o"
  os_read :: "u32 \<Rightarrow> nat \<Rightarrow> 'o \<Rightarrow> bytes option \<times> 'o"
  os_write :: "u32 \<Rightarrow> bytes \<Rightarrow> 'o \<Rightarrow> write_result \<times> 'o"
  os_lseek :: "u32 \<Rightarrow> int \<Rightarrow> u32 \<Rightarrow> 'o \<Rightarrow> int \<times> 'o"
  os_link :: "bytes \<Rightarrow> bytes \<Rightarrow> 'o \<Rightarrow> u32 \<times> 'o"
  os_unlink :: "bytes \<Rightarrow> 'o \<Rightarrow> u32 \<times> 'o"
  os_chdir :: "bytes \<Rightarrow> 'o \<Rightarrow> u32 \<times> 'o"
  os_chmod :: "bytes \<Rightarrow> u32 \<Rightarrow> 'o \<Rightarrow> u32 \<times> 'o"
  os_mkdir :: "bytes \<Rightarrow> u32 \<Rightarrow> 'o \<Rightarrow> u32 \<times> 'o"
  os_stat :: "bytes \<Rightarrow> 'o \<Rightarrow> (u32 \<times> host_stat option) \<times> 'o"
  os_fstat :: "u32 \<Rightarrow> 'o \<Rightarrow> (u32 \<times> host_stat option) \<times> 'o"
  os_utime :: "bytes \<Rightarrow> (u32 \<times> u32) option \<Rightarrow> 'o \<Rightarrow> u32 \<times> 'o"
  os_time :: "'o \<Rightarrow> u64 \<times> 'o"
  os_opendir :: "bytes \<Rightarrow> 'o \<Rightarrow> nat option \<times> 'o"
  os_closedir :: "nat \<Rightarrow> 'o \<Rightarrow> u32 \<times> 'o"
  os_readdir :: "nat \<Rightarrow> 'o \<Rightarrow> dirent option \<times> 'o"
  os_rewinddir :: "nat \<Rightarrow> 'o \<Rightarrow> 'o"
  os_malloc :: "nat \<Rightarrow> bool"
  os_executable :: "bytes \<Rightarrow> 'o \<Rightarrow> bool"
  os_file_head :: "bytes \<Rightarrow> 'o \<Rightarrow> bytes option"
  os_a2l_start :: "bytes \<Rightarrow> bytes \<Rightarrow> 'o \<Rightarrow> bool \<times> 'o"
  os_a2l_put :: "bytes \<Rightarrow> 'o \<Rightarrow> 'o"
  os_a2l_gets :: "nat \<Rightarrow> 'o \<Rightarrow> bytes option \<times> 'o"
  os_popen_gets :: "bytes \<Rightarrow> nat \<Rightarrow> 'o \<Rightarrow> bytes option \<times> 'o"
  os_stderr :: "bytes \<Rightarrow> 'o \<Rightarrow> 'o"
  os_localtime :: "'o \<Rightarrow> nat list"
  os_fopen :: "bytes \<Rightarrow> 'o \<Rightarrow> bool \<times> 'o"
  os_fprintf :: "bytes \<Rightarrow> 'o \<Rightarrow> 'o"
  os_fclose :: "'o \<Rightarrow> 'o"

section \<open>Strings\<close>

definition c_string :: "bytes \<Rightarrow> bytes" where
  "c_string bs = takeWhile (\<lambda>b. b \<noteq> 0) bs"

definition compat_str_copy :: "nat \<Rightarrow> bytes \<Rightarrow> bytes" where
  "compat_str_copy dst_size src = take (dst_size - 1) (c_string src)"

text \<open>
  The buffer holds \<open>dst\<close> when the bytes are appended at its end: the position passed in is always the length the
  call before returned. A buffer of size 0 is left alone.
\<close>

definition compat_str_append_bytes :: "nat \<Rightarrow> bytes \<Rightarrow> bytes \<Rightarrow> bytes" where
  "compat_str_append_bytes dst_size dst src =
     (let dst = take (dst_size - 1) dst in dst @ take (dst_size - 1 - length dst) src)"

definition compat_str_append :: "nat \<Rightarrow> bytes \<Rightarrow> bytes \<Rightarrow> bytes" where
  "compat_str_append dst_size dst src = compat_str_append_bytes dst_size dst (c_string src)"

definition posix_resolve_path :: "bytes option \<Rightarrow> nat \<Rightarrow> bytes \<Rightarrow> bytes" where
  "posix_resolve_path map_root out_size dc_path =
     (case map_root of None \<Rightarrow> c_string dc_path
      | Some root \<Rightarrow> compat_str_append out_size (compat_str_copy out_size root) dc_path)"

definition posix_translate_flags :: "u32 \<Rightarrow> open_flags" where
  "posix_translate_flags kos_flags =
     \<lparr>o_access = (if kos_flags AND 0x0002 \<noteq> 0 then O_RDWR else if kos_flags AND 0x0001 \<noteq> 0 then O_WRONLY else O_RDONLY),
      o_append = (kos_flags AND 0x0008 \<noteq> 0), o_creat = (kos_flags AND 0x0200 \<noteq> 0),
      o_trunc = (kos_flags AND 0x0400 \<noteq> 0), o_excl = (kos_flags AND 0x0800 \<noteq> 0)\<rparr>"

lemma length_append_bytes: "length (compat_str_append_bytes n dst src) \<le> n - 1"
  by (simp add: compat_str_append_bytes_def Let_def)

lemma append_bytes_fits: "length dst + length src < n \<Longrightarrow> compat_str_append_bytes n dst src = dst @ src"
  by (simp add: compat_str_append_bytes_def)

section \<open>Complete writes\<close>

text \<open>\<open>None\<close>: the loop is interrupted for ever.\<close>

partial_function (option) write_full_from :: "'o os \<Rightarrow> u32 \<Rightarrow> bytes \<Rightarrow> u32 \<Rightarrow> u32 \<Rightarrow> 'o \<Rightarrow> (u32 \<times> 'o) option" where
  "write_full_from os fd dat off cnt u =
     (if off < cnt then
        (case os_write os fd (take (unat (cnt - off)) (drop (unat off) dat)) u of
           (Wrote n, u) \<Rightarrow> if n = 0 then Some (off, u) else write_full_from os fd dat (off + of_nat n) cnt u
         | (Interrupted, u) \<Rightarrow> write_full_from os fd dat off cnt u
         | (Failed, u) \<Rightarrow> Some (- 1, u))
      else Some (off, u))"

declare write_full_from.simps [code]

definition write_full :: "'o os \<Rightarrow> u32 \<Rightarrow> bytes \<Rightarrow> u32 \<Rightarrow> 'o \<Rightarrow> (u32 \<times> 'o) option" where
  "write_full os fd dat cnt u = write_full_from os fd dat 0 cnt u"

section \<open>A host with nothing but a terminal\<close>

text \<open>
  For evaluation: every descriptor is a log, there are no files, and addr2line answers every address with the same line.
\<close>

definition terminal_os :: "bytes \<Rightarrow> (u32 \<Rightarrow> bytes) os" where
  "terminal_os answer =
     \<lparr>os_open = (\<lambda>_ _ _ u. (- 1, u)), os_close = (\<lambda>_ u. (0, u)), os_read = (\<lambda>_ _ u. (Some [], u)),
      os_write = (\<lambda>fd bs u. (Wrote (length bs), u(fd := u fd @ bs))), os_lseek = (\<lambda>_ _ _ u. (- 1, u)),
      os_link = (\<lambda>_ _ u. (- 1, u)), os_unlink = (\<lambda>_ u. (- 1, u)), os_chdir = (\<lambda>_ u. (- 1, u)),
      os_chmod = (\<lambda>_ _ u. (- 1, u)), os_mkdir = (\<lambda>_ _ u. (- 1, u)), os_stat = (\<lambda>_ u. ((- 1, None), u)),
      os_fstat = (\<lambda>_ u. ((- 1, None), u)), os_utime = (\<lambda>_ _ u. (- 1, u)), os_time = (\<lambda>u. (0, u)),
      os_opendir = (\<lambda>_ u. (None, u)), os_closedir = (\<lambda>_ u. (- 1, u)), os_readdir = (\<lambda>_ u. (None, u)),
      os_rewinddir = (\<lambda>_ u. u), os_malloc = (\<lambda>_. True), os_executable = (\<lambda>_ _. True),
      os_file_head = (\<lambda>_ _. Some [0x7f, 0x45, 0x4c, 0x46]), os_a2l_start = (\<lambda>_ _ u. (True, u)), os_a2l_put = (\<lambda>_ u. u),
      os_a2l_gets = (\<lambda>n u. (Some (take (n - 1) answer), u)), os_popen_gets = (\<lambda>_ n u. (Some (take (n - 1) answer), u)),
      os_stderr = (\<lambda>bs u. u(2 := u 2 @ bs)), os_localtime = (\<lambda>_. [2026, 1, 2, 3, 4, 5]), os_fopen = (\<lambda>_ u. (True, u)),
      os_fprintf = (\<lambda>bs u. u(3 := u 3 @ bs)), os_fclose = (\<lambda>u. u)\<rparr>"

end
