(* ===== verification/Console_Output.thy ===== *)
theory Console_Output
  imports Host_Os
begin

text \<open>
  The console's terminal output, \<^verbatim>\<open>host/src/console.c\<close>: lines of a stack trace the program prints are annotated with the
  source position addr2line gives for the address in them, everything else passes through. State: whether a trace is being
  printed, the bytes of an unfinished line, whether addr2line can be used, and the addresses decoded so far.
\<close>

section \<open>State\<close>

record trace_out =
  in_stack_trace :: bool
  stk_line_buf :: bytes
  addr2line_available :: "bool option"
  a2l_running :: bool
  addr_cache :: "(u32 \<times> bytes) list"

record a2l_conf =
  sh4_addr2line :: bytes
  ppc_addr2line :: bytes
  mips_addr2line :: bytes
  xbox_addr2line :: bytes
  psp_addr2line :: bytes
  a2l_console :: console_type
  target_big_endian :: bool
  loaded_binary_path :: "bytes option"

definition STK_LINE_BUF_SIZE :: nat where "STK_LINE_BUF_SIZE = 256"
definition ADDR2LINE_CACHE_SIZE :: nat where "ADDR2LINE_CACHE_SIZE = 64"
definition STK_BANNER_PREFIX :: bytes where "STK_BANNER_PREFIX = ascii ''-------- ''"

section \<open>Address decoding\<close>

definition is_elf_file :: "'o os \<Rightarrow> bytes \<Rightarrow> 'o \<Rightarrow> bool" where
  "is_elf_file os path u = (case os_file_head os path u of None \<Rightarrow> False | Some magic \<Rightarrow> take 4 magic = [0x7f, 0x45, 0x4c, 0x46])"

text \<open>\<open>%08x\<close>.\<close>

definition hex8 :: "u32 \<Rightarrow> bytes" where
  "hex8 v = map (\<lambda>i. ascii ''0123456789abcdef'' ! unat (drop_bit (4 * i) v AND 0xf)) (rev [0..<8])"

definition ask_addr2line :: "'o os \<Rightarrow> bool \<Rightarrow> bytes \<Rightarrow> bytes \<Rightarrow> u32 \<Rightarrow> nat \<Rightarrow> 'o \<Rightarrow> bytes option \<times> 'o" where
  "ask_addr2line os alive cmd elf_path addr out_size u =
     (if alive then os_a2l_gets os out_size (os_a2l_put os (ascii ''0x'' @ hex8 addr @ [10]) u)
      else os_popen_gets os (take 511 (c_string cmd @ ascii '' -Cifpe '' @ c_string elf_path @ ascii '' 0x'' @ hex8 addr)) out_size u)"

definition strip_newline :: "bytes \<Rightarrow> bytes" where
  "strip_newline out = (if out \<noteq> [] \<and> last out = 10 then butlast out else out)"

definition decode_address ::
  "'o os \<Rightarrow> bytes \<Rightarrow> bytes \<Rightarrow> u32 \<Rightarrow> nat \<Rightarrow> 'o \<Rightarrow> trace_out \<Rightarrow> bytes \<times> 'o \<times> trace_out" where
  "decode_address os cmd elf_path addr out_size u tr =
     (case map_of (addr_cache tr) addr of Some decoded \<Rightarrow> (compat_str_copy out_size decoded, u, tr)
      | None \<Rightarrow>
        (case ask_addr2line os (a2l_running tr) cmd elf_path addr out_size u of (line, u) \<Rightarrow>
          let out = strip_newline (case line of None \<Rightarrow> [] | Some l \<Rightarrow> c_string l) in
          if out = [] \<or> hd out = 0x3f then (out, u, tr)
          else (out, u, if length (addr_cache tr) < ADDR2LINE_CACHE_SIZE
                        then tr\<lparr>addr_cache := addr_cache tr @ [(addr, compat_str_copy 256 out)]\<rparr> else tr)))"

section \<open>Lines\<close>

definition trace_digit :: "u8 \<Rightarrow> u32 option" where
  "trace_digit c =
     (if 0x30 \<le> c \<and> c \<le> 0x39 then Some (ucast c - 0x30)
      else if 0x61 \<le> c \<and> c \<le> 0x66 then Some (ucast c - 0x61 + 10)
      else if 0x41 \<le> c \<and> c \<le> 0x46 then Some (ucast c - 0x41 + 10) else None)"

fun parse_hex :: "bytes \<Rightarrow> u32 \<Rightarrow> u32 option" where
  "parse_hex [] val = Some val"
| "parse_hex (c # cs) val = Option.bind (trace_digit c) (\<lambda>d. parse_hex cs (push_bit 4 val OR d))"

definition parse_trace_addr :: "bytes \<Rightarrow> u32 option" where
  "parse_trace_addr line =
     (if length line < 12 \<or> line ! 0 \<noteq> 0x20 \<or> line ! 1 \<noteq> 0x20 \<or> line ! 2 \<noteq> 0x20 then None
      else parse_hex (take 8 (drop 3 line)) 0)"

definition console_emit :: "'o os \<Rightarrow> u32 \<Rightarrow> bytes \<Rightarrow> 'o \<Rightarrow> 'o" where
  "console_emit os fd buf u = snd (os_write os fd buf u)"

definition trim_newlines :: "bytes \<Rightarrow> bytes" where
  "trim_newlines line = rev (dropWhile (\<lambda>b. b = 10 \<or> b = 13) (rev line))"

definition annotated :: "bytes \<Rightarrow> bytes \<Rightarrow> bytes" where
  "annotated line decoded =
     (let out = compat_str_append_bytes 512 [] (trim_newlines line);
          out = compat_str_append_bytes 512 out (ascii ''   '');
          out = compat_str_append 512 out decoded in
      compat_str_append_bytes 512 out [10])"

definition is_banner :: "bytes \<Rightarrow> bool" where
  "is_banner line = (length line > 9 \<and> take 9 line = STK_BANNER_PREFIX)"

definition console_write_line ::
  "'o os \<Rightarrow> bytes \<Rightarrow> bytes \<Rightarrow> u32 \<Rightarrow> bytes \<Rightarrow> 'o \<times> trace_out \<Rightarrow> 'o \<times> trace_out" where
  "console_write_line os cmd elf_path fd line ot = (case ot of (u, tr) \<Rightarrow>
     if is_banner line then
       (console_emit os fd line u,
        if length line > 20 \<and> line ! 9 = 0x53 then tr\<lparr>in_stack_trace := True\<rparr>
        else if line ! 9 = 0x45 then tr\<lparr>in_stack_trace := False\<rparr> else tr)
     else case (if in_stack_trace tr then parse_trace_addr line else None) of
       None \<Rightarrow> (console_emit os fd line u, tr)
     | Some addr \<Rightarrow>
       (case decode_address os cmd elf_path addr 256 u tr of (decoded, u, tr) \<Rightarrow>
         (console_emit os fd (if decoded \<noteq> [] \<and> hd decoded \<noteq> 0x3f then annotated line decoded else line) u, tr)))"

definition addr2line_for_console :: "a2l_conf \<Rightarrow> bytes" where
  "addr2line_for_console cf = (case a2l_console cf of
     CONSOLE_DC \<Rightarrow> sh4_addr2line cf | CONSOLE_GC \<Rightarrow> ppc_addr2line cf | CONSOLE_WII \<Rightarrow> ppc_addr2line cf
   | CONSOLE_PS2 \<Rightarrow> mips_addr2line cf | CONSOLE_XBOX \<Rightarrow> xbox_addr2line cf | CONSOLE_PSP \<Rightarrow> psp_addr2line cf
   | CONSOLE_UNKNOWN \<Rightarrow> if target_big_endian cf then ppc_addr2line cf else sh4_addr2line cf)"

text \<open>The check of \<open>addr2line_available\<close>, made once, with the start of the helper process.\<close>

definition check_addr2line :: "'o os \<Rightarrow> a2l_conf \<Rightarrow> 'o \<times> trace_out \<Rightarrow> 'o \<times> trace_out" where
  "check_addr2line os cf ot = (case ot of (u, tr) \<Rightarrow>
     (case addr2line_available tr of Some _ \<Rightarrow> (u, tr)
      | None \<Rightarrow>
        (let cmd = addr2line_for_console cf in
         case loaded_binary_path cf of None \<Rightarrow> (u, tr\<lparr>addr2line_available := Some False\<rparr>)
         | Some path \<Rightarrow>
           if cmd \<noteq> [] \<and> os_executable os cmd u \<and> is_elf_file os path u
           then (case os_a2l_start os cmd path u of (ok, u) \<Rightarrow> (u, tr\<lparr>addr2line_available := Some True, a2l_running := ok\<rparr>))
           else (u, tr\<lparr>addr2line_available := Some False\<rparr>))))"

section \<open>Writing\<close>

text \<open>The rest of the data holds no newline.\<close>

definition console_hold :: "'o os \<Rightarrow> u32 \<Rightarrow> bytes \<Rightarrow> 'o \<times> trace_out \<Rightarrow> 'o \<times> trace_out" where
  "console_hold os fd p ot = (case ot of (u, tr) \<Rightarrow>
     if length (stk_line_buf tr) + length p < STK_LINE_BUF_SIZE then (u, tr\<lparr>stk_line_buf := stk_line_buf tr @ p\<rparr>)
     else if stk_line_buf tr \<noteq> [] then (console_emit os fd p (console_emit os fd (stk_line_buf tr) u), tr\<lparr>stk_line_buf := []\<rparr>)
     else (console_emit os fd p u, tr))"

text \<open>One complete line, its newline included, behind what is in the buffer.\<close>

definition console_line :: "'o os \<Rightarrow> bytes \<Rightarrow> bytes \<Rightarrow> u32 \<Rightarrow> bytes \<Rightarrow> 'o \<times> trace_out \<Rightarrow> 'o \<times> trace_out" where
  "console_line os cmd elf_path fd line ot = (case ot of (u, tr) \<Rightarrow>
     if stk_line_buf tr \<noteq> [] then
       (case (if length (stk_line_buf tr) + length line < STK_LINE_BUF_SIZE
              then console_write_line os cmd elf_path fd (stk_line_buf tr @ line) (u, tr)
              else (console_emit os fd line (console_emit os fd (stk_line_buf tr) u), tr)) of
          (u, tr) \<Rightarrow> (u, tr\<lparr>stk_line_buf := []\<rparr>))
     else console_write_line os cmd elf_path fd line (u, tr))"

function console_lines :: "'o os \<Rightarrow> bytes \<Rightarrow> bytes \<Rightarrow> u32 \<Rightarrow> bytes \<Rightarrow> 'o \<times> trace_out \<Rightarrow> 'o \<times> trace_out" where
  "console_lines os cmd elf_path fd p ot =
     (if p = [] then ot
      else case dropWhile (\<lambda>b. b \<noteq> 10) p of
        [] \<Rightarrow> console_hold os fd p ot
      | nl # rest \<Rightarrow> console_lines os cmd elf_path fd rest (console_line os cmd elf_path fd (takeWhile (\<lambda>b. b \<noteq> 10) p @ [nl]) ot))"
  by pat_completeness auto

termination
proof (relation "measure (\<lambda>(os, cmd, elf_path, fd, p, ot). length p)", goal_cases)
  case (2 os cmd elf_path fd p ot nl rest)
  have "length (dropWhile (\<lambda>b. b \<noteq> 10) p) \<le> length p" by (rule length_dropWhile_le)
  with 2 show ?case by simp
qed simp

declare console_lines.simps [simp del]

definition write_result_int :: "write_result \<Rightarrow> u32" where
  "write_result_int r = (case r of Wrote n \<Rightarrow> of_nat n | _ \<Rightarrow> - 1)"

definition console_write :: "'o os \<Rightarrow> a2l_conf \<Rightarrow> u32 \<Rightarrow> bytes \<Rightarrow> 'o \<times> trace_out \<Rightarrow> u32 \<times> 'o \<times> trace_out" where
  "console_write os cf fd dat ot =
     (case check_addr2line os cf ot of (u, tr) \<Rightarrow>
       if addr2line_available tr \<noteq> Some True
          \<or> (\<not> in_stack_trace tr \<and> stk_line_buf tr = [] \<and> (dat = [] \<or> hd dat \<noteq> 0x2d))
       then (case os_write os fd dat u of (r, u) \<Rightarrow> (write_result_int r, u, tr))
       else (of_nat (length dat),
             console_lines os (addr2line_for_console cf) (case loaded_binary_path cf of None \<Rightarrow> [] | Some p \<Rightarrow> p) fd dat (u, tr)))"

section \<open>What reaches the terminal\<close>

text \<open>
  A host whose \<open>write\<close> takes everything, with \<open>log\<close> what has been written to a descriptor; and an addr2line that knows no
  address: no answer, an empty one, or one that begins with a question mark.
\<close>

definition logging :: "'o os \<Rightarrow> ('o \<Rightarrow> u32 \<Rightarrow> bytes) \<Rightarrow> bool" where
  "logging os log = ((\<forall>fd bs u. fst (os_write os fd bs u) = Wrote (length bs) \<and> log (snd (os_write os fd bs u)) fd = log u fd @ bs)
     \<and> (\<forall>alive cmd elf addr n u. log (snd (ask_addr2line os alive cmd elf addr n u)) = log u)
     \<and> (\<forall>cmd elf u. log (snd (os_a2l_start os cmd elf u)) = log u))"

definition knows_nothing :: "'o os \<Rightarrow> bool" where
  "knows_nothing os = (\<forall>alive cmd elf addr n u. case fst (ask_addr2line os alive cmd elf addr n u) of
     None \<Rightarrow> True | Some line \<Rightarrow> strip_newline (c_string line) = [] \<or> hd (strip_newline (c_string line)) = 0x3f)"

lemma log_emit: "logging os log \<Longrightarrow> log (console_emit os fd bs u) fd = log u fd @ bs"
  by (simp add: logging_def console_emit_def)

lemma decode_unknown:
  assumes "knows_nothing os" "logging os log" "addr_cache tr = []" "decode_address os cmd elf addr n u tr = (decoded, u', tr')"
  shows "decoded = [] \<or> hd decoded = 0x3f" "log u' = log u" "tr' = tr"
proof -
  obtain l where l: "ask_addr2line os (a2l_running tr) cmd elf addr n u = (l, u')"
    "decoded = strip_newline (case l of None \<Rightarrow> [] | Some l \<Rightarrow> c_string l)" "tr' = tr \<or> \<not> (decoded = [] \<or> hd decoded = 0x3f)"
    using assms(3,4) by (auto simp: decode_address_def Let_def split: prod.splits if_splits)
  show d: "decoded = [] \<or> hd decoded = 0x3f"
    using assms(1) [unfolded knows_nothing_def, rule_format, of "a2l_running tr" cmd elf addr n u] l(1,2)
    by (cases l) (auto simp: strip_newline_def)
  show "log u' = log u" using assms(2) l(1) unfolding logging_def by (metis snd_conv)
  show "tr' = tr" using d l(3) by blast
qed

lemma write_line_plain:
  assumes "knows_nothing os" "logging os log" "addr_cache tr = []" "console_write_line os cmd elf fd line (u, tr) = (u', tr')"
  shows "log u' fd = log u fd @ line \<and> stk_line_buf tr' = stk_line_buf tr \<and> addr_cache tr' = []
    \<and> addr2line_available tr' = addr2line_available tr"
proof (cases "is_banner line")
  case True
  then show ?thesis using assms log_emit [OF assms(2)] by (auto simp: console_write_line_def split: if_splits)
next
  case False
  define a where "a = (if in_stack_trace tr then parse_trace_addr line else None)"
  show ?thesis
  proof (cases a)
    case None
    then have "(u', tr') = (console_emit os fd line u, tr)" using assms(4) False by (simp add: console_write_line_def a_def [symmetric])
    then show ?thesis using assms(3) by (simp add: log_emit [OF assms(2)])
  next
    case (Some addr)
    obtain decoded u1 tr1 where d: "decode_address os cmd elf addr 256 u tr = (decoded, u1, tr1)" by (metis prod_cases3)
    note dk = decode_unknown [OF assms(1-3) d]
    have "console_write_line os cmd elf fd line (u, tr) = (console_emit os fd line u1, tr1)"
      using False Some dk(1) d by (auto simp: console_write_line_def a_def [symmetric])
    then show ?thesis using assms(3,4) dk log_emit [OF assms(2), of fd line u1] by simp
  qed
qed

definition shown :: "('o \<Rightarrow> u32 \<Rightarrow> bytes) \<Rightarrow> u32 \<Rightarrow> 'o \<times> trace_out \<Rightarrow> bytes" where
  "shown log fd ot = log (fst ot) fd @ stk_line_buf (snd ot)"

definition annotating :: "trace_out \<Rightarrow> bool" where
  "annotating tr = (length (stk_line_buf tr) < STK_LINE_BUF_SIZE \<and> addr_cache tr = [] \<and> addr2line_available tr = Some True)"

definition out_ok :: "trace_out \<Rightarrow> bool" where
  "out_ok tr = (annotating tr \<or> stk_line_buf tr = [] \<and> addr_cache tr = [] \<and> addr2line_available tr \<noteq> Some True)"

lemma line_plain:
  assumes "knows_nothing os" "logging os log" "annotating (snd ot)"
  shows "shown log fd (console_line os cmd elf fd line ot) = shown log fd ot @ line \<and> annotating (snd (console_line os cmd elf fd line ot))"
proof (cases ot)
  case (Pair u tr)
  have cache: "addr_cache tr = []" using assms(3) Pair by (simp add: annotating_def)
  obtain u1 tr1 where w1: "console_write_line os cmd elf fd (stk_line_buf tr @ line) (u, tr) = (u1, tr1)" by fastforce
  obtain u2 tr2 where w2: "console_write_line os cmd elf fd line (u, tr) = (u2, tr2)" by fastforce
  show ?thesis
    using Pair cache assms(3) w1 w2 write_line_plain [OF assms(1,2) cache w1] write_line_plain [OF assms(1,2) cache w2]
    by (simp add: console_line_def shown_def annotating_def log_emit [OF assms(2)] STK_LINE_BUF_SIZE_def)
qed

lemma hold_plain:
  assumes "logging os log" "annotating (snd ot)"
  shows "shown log fd (console_hold os fd p ot) = shown log fd ot @ p \<and> annotating (snd (console_hold os fd p ot))"
  using assms(2) by (cases ot) (auto simp: console_hold_def shown_def annotating_def log_emit [OF assms(1)] STK_LINE_BUF_SIZE_def)

lemma console_lines_hold: "dropWhile (\<lambda>b. b \<noteq> 10) p = [] \<Longrightarrow> console_lines os cmd elf fd p ot = (if p = [] then ot else console_hold os fd p ot)"
  by (subst console_lines.simps) (simp del: dropWhile_eq_Nil_conv)

lemma console_lines_line: "dropWhile (\<lambda>b. b \<noteq> 10) p = nl # rest \<Longrightarrow> console_lines os cmd elf fd p ot
    = console_lines os cmd elf fd rest (console_line os cmd elf fd (takeWhile (\<lambda>b. b \<noteq> 10) p @ [nl]) ot)"
  by (subst console_lines.simps) auto

lemma lines_plain:
  assumes "knows_nothing os" "logging os log"
  shows "annotating (snd ot) \<Longrightarrow> shown log fd (console_lines os cmd elf fd p ot) = shown log fd ot @ p
    \<and> annotating (snd (console_lines os cmd elf fd p ot))"
proof (induction "length p" arbitrary: p ot rule: less_induct)
  case less
  show ?case
  proof (cases "dropWhile (\<lambda>b. b \<noteq> 10) p")
    case Nil
    then show ?thesis using less.prems hold_plain [OF assms(2)] by (simp add: console_lines_hold del: dropWhile_eq_Nil_conv)
  next
    case (Cons nl rest)
    let ?line = "takeWhile (\<lambda>b. b \<noteq> 10) p @ [nl]"
    have p: "?line @ rest = p" using Cons takeWhile_dropWhile_id [of "\<lambda>b. b \<noteq> 10" p] by simp
    have "length rest < length p" by (subst p [symmetric]) simp
    then have "shown log fd (console_lines os cmd elf fd rest (console_line os cmd elf fd ?line ot)) = shown log fd ot @ ?line @ rest
        \<and> annotating (snd (console_lines os cmd elf fd rest (console_line os cmd elf fd ?line ot)))"
      using less.hyps line_plain [OF assms less.prems] by simp
    then show ?thesis unfolding console_lines_line [OF Cons] p .
  qed
qed

lemma check_plain:
  assumes "logging os log" "out_ok (snd ot)"
  shows "shown log fd (check_addr2line os cf ot) = shown log fd ot \<and> out_ok (snd (check_addr2line os cf ot))"
proof -
  have start: "log u' = log u" if "os_a2l_start os cmd path u = (ok, u')" for cmd path ok u u'
    using assms(1) that unfolding logging_def by (metis snd_conv)
  show ?thesis
    using assms(2) by (cases ot) (auto simp: check_addr2line_def shown_def out_ok_def annotating_def Let_def STK_LINE_BUF_SIZE_def
      split: option.splits prod.splits dest: start)
qed

definition passes :: "trace_out \<Rightarrow> bytes \<Rightarrow> bool" where
  "passes tr dat = (addr2line_available tr \<noteq> Some True
     \<or> (\<not> in_stack_trace tr \<and> stk_line_buf tr = [] \<and> (dat = [] \<or> hd dat \<noteq> 0x2d)))"

lemma write_plain:
  assumes "knows_nothing os" "logging os log" "out_ok (snd ot)" "console_write os cf fd dat ot = (r, ot')"
  shows "r = of_nat (length dat) \<and> shown log fd ot' = shown log fd ot @ dat \<and> out_ok (snd ot')"
proof -
  obtain u tr where c: "check_addr2line os cf ot = (u, tr)" by fastforce
  have ok: "shown log fd (u, tr) = shown log fd ot" "out_ok tr" using check_plain [OF assms(2,3), of fd cf] c by auto
  show ?thesis
  proof (cases "passes tr dat")
    case True
    obtain u1 where w: "os_write os fd dat u = (Wrote (length dat), u1)" "log u1 fd = log u fd @ dat"
      using assms(2) unfolding logging_def by (metis prod.collapse)
    have "(r, ot') = (of_nat (length dat), u1, tr)"
      unfolding assms(4) [symmetric] console_write_def c using True [unfolded passes_def] w(1) by (simp add: write_result_int_def)
    moreover have "stk_line_buf tr = []" using True ok(2) by (auto simp: passes_def out_ok_def annotating_def)
    ultimately show ?thesis using ok w(2) by (simp add: shown_def)
  next
    case False
    then have "annotating tr" using ok(2) by (auto simp: passes_def out_ok_def)
    moreover have "(r, ot') = (of_nat (length dat), console_lines os (addr2line_for_console cf)
        (case loaded_binary_path cf of None \<Rightarrow> [] | Some p \<Rightarrow> p) fd dat (u, tr))"
      unfolding assms(4) [symmetric] console_write_def c using False [unfolded passes_def] by auto
    ultimately show ?thesis using ok lines_plain [OF assms(1,2), of "(u, tr)" fd] by (auto simp: out_ok_def)
  qed
qed

fun console_writes :: "'o os \<Rightarrow> a2l_conf \<Rightarrow> u32 \<Rightarrow> bytes list \<Rightarrow> 'o \<times> trace_out \<Rightarrow> u32 list \<times> 'o \<times> trace_out" where
  "console_writes os cf fd [] ot = ([], ot)"
| "console_writes os cf fd (dat # dats) ot =
     (case console_write os cf fd dat ot of (r, ot) \<Rightarrow> case console_writes os cf fd dats ot of (rs, ot) \<Rightarrow> (r # rs, ot))"

lemma writes_plain:
  assumes "knows_nothing os" "logging os log"
  shows "out_ok (snd ot) \<Longrightarrow> console_writes os cf fd dats ot = (rs, ot') \<Longrightarrow>
    rs = map (\<lambda>dat. of_nat (length dat)) dats \<and> shown log fd ot' = shown log fd ot @ concat dats \<and> out_ok (snd ot')"
proof (induction dats arbitrary: ot rs)
  case (Cons dat dats)
  obtain r ot1 where w: "console_write os cf fd dat ot = (r, ot1)" by (cases "console_write os cf fd dat ot") auto
  obtain rs1 where ws: "console_writes os cf fd dats ot1 = (rs1, ot')" "rs = r # rs1"
    using Cons.prems(2) w by (auto split: prod.splits)
  show ?case using write_plain [OF assms Cons.prems(1) w] Cons.IH [OF _ ws(1)] ws(2) by simp
qed simp


definition trace_start :: trace_out where
  "trace_start = \<lparr>in_stack_trace = False, stk_line_buf = [], addr2line_available = None, a2l_running = False, addr_cache = []\<rparr>"

definition example_conf :: a2l_conf where
  "example_conf = \<lparr>sh4_addr2line = ascii ''/opt/sh-elf-addr2line'', ppc_addr2line = [], mips_addr2line = [], xbox_addr2line = [],
     psp_addr2line = [], a2l_console = CONSOLE_DC, target_big_endian = False, loaded_binary_path = Some (ascii ''game.elf'')\<rparr>"

lemma knows_nothing_terminal: "knows_nothing (terminal_os (ascii ''?? ??:0''))"
proof -
  have "strip_newline (c_string (take (n - 1) (ascii ''?? ??:0''))) = [] \<or> hd (strip_newline (c_string (take (n - 1) (ascii ''?? ??:0'')))) = 0x3f" for n
  proof (cases "n < 9")
    case True
    then have "n \<in> {0, 1, 2, 3, 4, 5, 6, 7, 8}" by auto
    then show ?thesis by (auto simp: ascii_def c_string_def strip_newline_def)
  next
    case False
    then show ?thesis by (simp add: ascii_def c_string_def strip_newline_def)
  qed
  then show ?thesis unfolding knows_nothing_def ask_addr2line_def terminal_os_def by (simp del: One_nat_def)
qed

lemma logging_terminal: "logging (terminal_os answer) (\<lambda>u. u)"
  by (simp add: logging_def ask_addr2line_def terminal_os_def)


section \<open>Annotation\<close>

lemma hex_digit_nibble: "n < 16 \<Longrightarrow> trace_digit (ascii ''0123456789abcdef'' ! n) = Some (of_nat n)"
proof -
  assume "n < 16"
  then have "n \<in> set [0..<16]" by simp
  moreover have "\<forall>n \<in> set [0..<16]. trace_digit (ascii ''0123456789abcdef'' ! n) = Some (of_nat n)" by code_simp
  ultimately show ?thesis by blast
qed

definition nibble :: "u32 \<Rightarrow> nat \<Rightarrow> u32" where
  "nibble v i = drop_bit (4 * i) v AND 0xf"

lemma nibble_take: "nibble v i = take_bit 4 (drop_bit (4 * i) v)"
  by (simp add: nibble_def take_bit_eq_mask mask_eq_exp_minus_1)

lemma nibble_lt: "unat (nibble v i) < 16"
proof -
  have "nibble v i \<le> 0xf" by (simp add: nibble_def word_and_le1)
  then show ?thesis by (simp add: word_le_nat_alt)
qed

lemma nibbles: "push_bit 4 (push_bit 4 (push_bit 4 (push_bit 4 (push_bit 4 (push_bit 4 (push_bit 4 (nibble v 7)
    OR nibble v 6) OR nibble v 5) OR nibble v 4) OR nibble v 3) OR nibble v 2) OR nibble v 1) OR nibble v 0 = v"
proof (rule bit_word_eqI)
  fix n assume n: "n < LENGTH(32)"
  then consider "n < 4" | "4 \<le> n" "n < 8" | "8 \<le> n" "n < 12" | "12 \<le> n" "n < 16" | "16 \<le> n" "n < 20" | "20 \<le> n" "n < 24"
    | "24 \<le> n" "n < 28" | "28 \<le> n" by linarith
  then show "bit (push_bit 4 (push_bit 4 (push_bit 4 (push_bit 4 (push_bit 4 (push_bit 4 (push_bit 4 (nibble v 7)
    OR nibble v 6) OR nibble v 5) OR nibble v 4) OR nibble v 3) OR nibble v 2) OR nibble v 1) OR nibble v 0) n = bit v n"
    using n unfolding nibble_take by cases (auto simp: bit_simps)
qed

lemma hex8_nibbles: "hex8 v = map (\<lambda>i. ascii ''0123456789abcdef'' ! unat (nibble v i)) [7, 6, 5, 4, 3, 2, 1, 0]"
  by (simp add: hex8_def nibble_def upt_rec)

lemma parse_hex8: "parse_hex (hex8 v) 0 = Some v"
  using nibbles [of v] by (simp add: hex8_nibbles hex_digit_nibble nibble_lt)

lemma length_hex8 [simp]: "length (hex8 v) = 8"
  by (simp add: hex8_def)

lemma hex8_printable: "b \<in> set (hex8 v) \<Longrightarrow> b \<noteq> 10 \<and> b \<noteq> 13"
proof -
  assume "b \<in> set (hex8 v)"
  then obtain i where "b = ascii ''0123456789abcdef'' ! unat (nibble v i)" by (auto simp: hex8_def nibble_def)
  then have "b \<in> set (ascii ''0123456789abcdef'')" using nibble_lt [of v i] by simp
  moreover have "\<forall>b \<in> set (ascii ''0123456789abcdef''). b \<noteq> 10 \<and> b \<noteq> 13" by code_simp
  ultimately show ?thesis by blast
qed

definition trace_line :: "u32 \<Rightarrow> bytes" where
  "trace_line v = ascii ''   '' @ hex8 v @ [10]"

lemma trace_line_simps:
  "length (trace_line v) = 12" "\<not> is_banner (trace_line v)" "parse_trace_addr (trace_line v) = Some v"
  "trim_newlines (trace_line v) = ascii ''   '' @ hex8 v"
  "dropWhile (\<lambda>b. b \<noteq> 10) (trace_line v) = [10]" "takeWhile (\<lambda>b. b \<noteq> 10) (trace_line v) @ [10] = trace_line v"
proof -
  have sp: "ascii ''   '' = [0x20, 0x20, 0x20]" by code_simp
  show "length (trace_line v) = 12" by (simp add: trace_line_def)
  have "hd STK_BANNER_PREFIX = 0x2d" by code_simp
  then show "\<not> is_banner (trace_line v)" by (auto simp: is_banner_def trace_line_def sp dest: arg_cong [where f = hd])
  show "parse_trace_addr (trace_line v) = Some v" by (simp add: parse_trace_addr_def trace_line_def sp parse_hex8)
  have "trim_newlines (trace_line v) = rev (dropWhile (\<lambda>b. b = 10 \<or> b = 13) (rev (hex8 v) @ rev (ascii ''   '')))"
    by (simp add: trim_newlines_def trace_line_def)
  also have "dropWhile (\<lambda>b. b = 10 \<or> b = 13) (rev (hex8 v) @ rev (ascii ''   '')) = rev (hex8 v) @ rev (ascii ''   '')"
    using hex8_printable [of "last (hex8 v)" v] by (cases "hex8 v" rule: rev_cases) (auto dest: arg_cong [where f = length])
  finally show "trim_newlines (trace_line v) = ascii ''   '' @ hex8 v" by simp
  have "b \<noteq> 10" if "b \<in> set (ascii ''   '' @ hex8 v)" for b using that hex8_printable by (auto simp: sp)
  then have "dropWhile (\<lambda>b. b \<noteq> 10) ((ascii ''   '' @ hex8 v) @ [10]) = [10]"
    "takeWhile (\<lambda>b. b \<noteq> 10) ((ascii ''   '' @ hex8 v) @ [10]) = ascii ''   '' @ hex8 v"
    by (subst dropWhile_append2 takeWhile_append2, blast, simp)+
  then show "dropWhile (\<lambda>b. b \<noteq> 10) (trace_line v) = [10]" "takeWhile (\<lambda>b. b \<noteq> 10) (trace_line v) @ [10] = trace_line v"
    by (simp_all add: trace_line_def)
qed

lemma c_string_clean: "0 \<notin> set d \<Longrightarrow> c_string d = d"
  by (auto simp: c_string_def)

lemma annotated_trace_line:
  "0 \<notin> set d \<Longrightarrow> length d \<le> 254 \<Longrightarrow> annotated (trace_line v) d = ascii ''   '' @ hex8 v @ ascii ''   '' @ d @ [10]"
  by (simp add: annotated_def trace_line_simps compat_str_append_def append_bytes_fits c_string_clean)

lemma console_write_trace_line:
  assumes "in_stack_trace tr" "stk_line_buf tr = []" "addr2line_available tr = Some True"
    and "decode_address os (addr2line_for_console cf) path v 256 u tr = (d, u', tr')"
    and "d \<noteq> []" "hd d \<noteq> 0x3f" "0 \<notin> set d" "length d \<le> 254" "loaded_binary_path cf = Some path"
  shows "console_write os cf fd (trace_line v) (u, tr)
    = (12, console_emit os fd (ascii ''   '' @ hex8 v @ ascii ''   '' @ d @ [10]) u', tr')"
  using assms unfolding console_write_def check_addr2line_def
  by (simp add: console_lines_line [OF trace_line_simps(5)] trace_line_simps console_line_def console_write_line_def
      annotated_trace_line) (simp add: console_lines.simps)

text \<open>
  An address in a stack trace is shown with its source position, and addr2line is asked once. Inside a trace a
  program prints the line of an address twice; addr2line answers \<open>d\<close>. Both lines come out with the address unchanged and \<open>d\<close>
  behind it, and after the first the answer is in the cache: the host's state is changed by one question and two writes.
\<close>

theorem trace_address_annotated:
  assumes "in_stack_trace tr" "stk_line_buf tr = []" "addr2line_available tr = Some True"
    and "map_of (addr_cache tr) v = None" "length (addr_cache tr) < ADDR2LINE_CACHE_SIZE"
    and "loaded_binary_path cf = Some path"
    and "ask_addr2line os (a2l_running tr) (addr2line_for_console cf) path v 256 u = (Some (d @ [10]), u')"
    and "d \<noteq> []" "hd d \<noteq> 0x3f" "0 \<notin> set d" "length d \<le> 254"
  shows "console_writes os cf fd [trace_line v, trace_line v] (u, tr)
    = ([12, 12], let out = ascii ''   '' @ hex8 v @ ascii ''   '' @ d @ [10] in console_emit os fd out (console_emit os fd out u'),
       tr\<lparr>addr_cache := addr_cache tr @ [(v, d)]\<rparr>)"
proof -
  let ?cmd = "addr2line_for_console cf" and ?out = "ascii ''   '' @ hex8 v @ ascii ''   '' @ d @ [10]"
  let ?tr = "tr\<lparr>addr_cache := addr_cache tr @ [(v, d)]\<rparr>"
  have "c_string (d @ [10]) = d @ [10]" using assms(10) by (simp add: c_string_clean)
  then have one: "decode_address os ?cmd path v 256 u tr = (d, u', ?tr)"
    using assms c_string_clean [of d] by (auto simp: decode_address_def strip_newline_def compat_str_copy_def)
  have two: "decode_address os ?cmd path v 256 (console_emit os fd ?out u') ?tr = (d, console_emit os fd ?out u', ?tr)"
    using assms by (auto simp: decode_address_def compat_str_copy_def c_string_clean map_add_def)
  show ?thesis
    using console_write_trace_line [OF assms(1-3) one, of fd] console_write_trace_line [of ?tr, OF _ _ _ two, of fd] assms
    by (simp add: Let_def)
qed

theorem trace_address_annotated_witness:
  "let tr = trace_start\<lparr>in_stack_trace := True, addr2line_available := Some True, a2l_running := True\<rparr>;
       d = ascii ''main at game.c:7'' in
   console_writes (terminal_os (d @ [10])) example_conf 1 [trace_line 0x8c010000, trace_line 0x8c010000] (\<lambda>_. [], tr)
    = ([12, 12], (\<lambda>_. [])(1 := ascii ''   8c010000   main at game.c:7'' @ [10] @ ascii ''   8c010000   main at game.c:7'' @ [10]),
       tr\<lparr>addr_cache := [(0x8c010000, d)]\<rparr>)"
proof -
  let ?tr = "trace_start\<lparr>in_stack_trace := True, addr2line_available := Some True, a2l_running := True\<rparr>"
  let ?d = "ascii ''main at game.c:7''" and ?path = "ascii ''game.elf''"
  let ?os = "terminal_os (?d @ [10])"
  have d: "?d \<noteq> []" "hd ?d \<noteq> 0x3f" "0 \<notin> set ?d" "length ?d \<le> 254" by code_simp+
  have h: "ascii ''   '' @ hex8 0x8c010000 @ ascii ''   '' @ ?d @ [10] = ascii ''   8c010000   main at game.c:7'' @ [10]" by code_simp
  have a: "ask_addr2line ?os (a2l_running ?tr) (addr2line_for_console example_conf) ?path 0x8c010000 256 (\<lambda>_. []) = (Some (?d @ [10]), \<lambda>_. [])"
    using d(4) by (simp add: ask_addr2line_def terminal_os_def trace_start_def)
  show ?thesis
    using trace_address_annotated [where tr = ?tr and v = "0x8c010000" and cf = example_conf and path = ?path and os = ?os and u = "\<lambda>_. []" and d = ?d and u' = "\<lambda>_. []" and fd = 1] a d
    unfolding h by (simp add: trace_start_def example_conf_def ADDR2LINE_CACHE_SIZE_def console_emit_def terminal_os_def Let_def)
qed

end
