(* ===== verification/Exceptions.thy ===== *)
theory Exceptions
  imports Console_Output
begin

text \<open>
  Reports of a crashed program, \<^verbatim>\<open>host/src/console.c\<close>: the loader sends the registers as a write that begins with
  \<open>EXPT\<close>; the console decodes the frame of the machine at the other end (\<^verbatim>\<open>include/kosload/types.h\<close>), prints the exception and
  its key registers, the source positions of the registers that point into the program or else all registers, and saves the
  complete report to a file. The five handlers have the same form and differ in the frame, the tables and the address range;
  \<open>report_exception\<close> is that form.
\<close>

section \<open>Formatting\<close>

function num_digits :: "nat \<Rightarrow> nat \<Rightarrow> bytes" where
  "num_digits base n =
     (if base < 2 \<or> n < base then [ascii ''0123456789abcdef'' ! n]
      else num_digits base (n div base) @ [ascii ''0123456789abcdef'' ! (n mod base)])"
  by pat_completeness auto

termination
  by (relation "measure (\<lambda>(base, n). n)") auto

declare num_digits.simps [simp del]

definition pad_left :: "nat \<Rightarrow> u8 \<Rightarrow> bytes \<Rightarrow> bytes" where
  "pad_left width c bs = replicate (width - length bs) c @ bs"

definition pad_right :: "nat \<Rightarrow> u8 \<Rightarrow> bytes \<Rightarrow> bytes" where
  "pad_right width c bs = bs @ replicate (width - length bs) c"

definition dec_u :: "nat \<Rightarrow> bytes" where "dec_u n = num_digits 10 n"

text \<open>\<open>"  %-6s 0x%08x\n"\<close>\<close>

definition reg_line :: "bytes \<times> u32 \<Rightarrow> bytes" where
  "reg_line nv = ascii ''  '' @ pad_right 6 0x20 (fst nv) @ ascii '' 0x'' @ hex8 (snd nv) @ [10]"

definition symbol_line :: "bytes \<Rightarrow> bytes \<Rightarrow> bytes" where
  "symbol_line nm decoded = ascii ''  '' @ pad_right 6 0x20 nm @ ascii '' -> '' @ decoded @ [10]"

definition le32_at :: "bytes \<Rightarrow> nat \<Rightarrow> u32" where
  "le32_at dat i = get_le32 (dat ! i) (dat ! (i + 1)) (dat ! (i + 2)) (dat ! (i + 3))"

definition le_words :: "bytes \<Rightarrow> nat \<Rightarrow> nat \<Rightarrow> u32 list" where
  "le_words dat off n = map (\<lambda>i. le32_at dat (off + 4 * i)) [0..<n]"

definition be_words :: "bytes \<Rightarrow> nat \<Rightarrow> nat \<Rightarrow> u32 list" where
  "be_words dat off n = map (\<lambda>i. rd32 dat (off + 4 * i)) [0..<n]"

section \<open>Tables\<close>

definition dc_exception_code_to_string :: "u32 \<Rightarrow> bytes" where
  "dc_exception_code_to_string code = ascii (case map_of
     [(0x1e0, ''User break''), (0x0e0, ''Address error (read)''), (0x040, ''TLB miss exception (read)''),
      (0x0a0, ''TLB protection violation (read)''), (0x180, ''General illegal instruction''), (0x1a0, ''Slot illegal instruction''),
      (0x800, ''General FPU disable''), (0x820, ''Slot FPU disable''), (0x100, ''Address error (write)''),
      (0x060, ''TLB miss exception (write)''), (0x0c0, ''TLB protection violation (write)''), (0x120, ''FPU exception''),
      (0x080, ''Initial page write exception''), (0x160, ''Unconditional trap (TRAPA)'')] code of Some nm \<Rightarrow> nm | None \<Rightarrow> ''Unknown exception'')"

definition gc_exception_code_to_string :: "u32 \<Rightarrow> bytes" where
  "gc_exception_code_to_string code = ascii (case map_of
     [(0x0100, ''System Reset''), (0x0200, ''Machine Check''), (0x0300, ''DSI (Data Storage)''),
      (0x0400, ''ISI (Instruction Storage)''), (0x0500, ''External Interrupt''), (0x0600, ''Alignment''),
      (0x0700, ''Program''), (0x0800, ''FP Unavailable''), (0x0900, ''Decrementer''),
      (0x0C00, ''System Call''), (0x0D00, ''Trace''), (0x0F00, ''Performance Monitor''),
      (0x1300, ''IABR''), (0x1700, ''Thermal'')] code of Some nm \<Rightarrow> nm | None \<Rightarrow> ''Unknown Exception'')"

definition ps2_exception_code_to_string :: "u32 \<Rightarrow> bytes" where
  "ps2_exception_code_to_string code = ascii (case map_of
     [(0, ''Interrupt''), (1, ''TLB modification''), (2, ''TLB miss (load/fetch)''),
      (3, ''TLB miss (store)''), (4, ''Address error (load/fetch)''), (5, ''Address error (store)''),
      (6, ''Bus error (instruction)''), (7, ''Bus error (data)''), (8, ''Syscall''),
      (9, ''Breakpoint''), (10, ''Reserved instruction''), (11, ''Coprocessor unusable''),
      (12, ''Arithmetic overflow''), (13, ''Trap''), (15, ''Floating-point exception'')] code of Some nm \<Rightarrow> nm | None \<Rightarrow> ''Unknown exception'')"

definition xbox_exception_code_to_string :: "u32 \<Rightarrow> bytes" where
  "xbox_exception_code_to_string code = ascii (case map_of
     [(0, ''Divide error''), (1, ''Debug''), (2, ''NMI''),
      (3, ''Breakpoint''), (4, ''Overflow''), (5, ''BOUND range exceeded''),
      (6, ''Invalid opcode''), (7, ''Device not available''), (8, ''Double fault''),
      (9, ''Coprocessor segment overrun''), (10, ''Invalid TSS''), (11, ''Segment not present''),
      (12, ''Stack-segment fault''), (13, ''General protection fault''), (14, ''Page fault''),
      (16, ''x87 floating-point error''), (17, ''Alignment check''), (18, ''Machine check''),
      (19, ''SIMD floating-point error'')] code of Some nm \<Rightarrow> nm | None \<Rightarrow> ''Unknown exception'')"

definition dc_register_names :: "bytes list" where
  "dc_register_names = map ascii [''PC'', ''PR'', ''SR'', ''GBR'', ''VBR'', ''DBR'', ''MACH'', ''MACL'', ''R0B0'', ''R1B0'', ''R2B0'', ''R3B0'',
      ''R4B0'', ''R5B0'', ''R6B0'', ''R7B0'', ''R0B1'', ''R1B1'', ''R2B1'', ''R3B1'', ''R4B1'', ''R5B1'', ''R6B1'', ''R7B1'',
      ''R8'', ''R9'', ''R10'', ''R11'', ''R12'', ''R13'', ''R14'', ''R15'', ''FPSCR'', ''FR0'', ''FR1'', ''FR2'',
      ''FR3'', ''FR4'', ''FR5'', ''FR6'', ''FR7'', ''FR8'', ''FR9'', ''FR10'', ''FR11'', ''FR12'', ''FR13'', ''FR14'',
      ''FR15'', ''FPUL'', ''XF0'', ''XF1'', ''XF2'', ''XF3'', ''XF4'', ''XF5'', ''XF6'', ''XF7'', ''XF8'', ''XF9'',
      ''XF10'', ''XF11'', ''XF12'', ''XF13'', ''XF14'', ''XF15'']"

definition gc_register_names :: "bytes list" where
  "gc_register_names = map ascii [''SRR0'', ''SRR1'', ''R0'', ''R1'', ''R2'', ''R3'', ''R4'', ''R5'', ''R6'', ''R7'', ''R8'', ''R9'',
      ''R10'', ''R11'', ''R12'', ''R13'', ''R14'', ''R15'', ''R16'', ''R17'', ''R18'', ''R19'', ''R20'', ''R21'',
      ''R22'', ''R23'', ''R24'', ''R25'', ''R26'', ''R27'', ''R28'', ''R29'', ''R30'', ''R31'', ''LR'', ''CTR'',
      ''XER'', ''CR'', ''DSISR'', ''DAR'']"

definition gc_fpr_names :: "bytes list" where
  "gc_fpr_names = map ascii [''F0'', ''F1'', ''F2'', ''F3'', ''F4'', ''F5'', ''F6'', ''F7'', ''F8'', ''F9'', ''F10'', ''F11'',
      ''F12'', ''F13'', ''F14'', ''F15'', ''F16'', ''F17'', ''F18'', ''F19'', ''F20'', ''F21'', ''F22'', ''F23'',
      ''F24'', ''F25'', ''F26'', ''F27'', ''F28'', ''F29'', ''F30'', ''F31'']"

definition ps2_register_names :: "bytes list" where
  "ps2_register_names = map ascii [''zero'', ''at'', ''v0'', ''v1'', ''a0'', ''a1'', ''a2'', ''a3'', ''a4'', ''a5'', ''a6'', ''a7'',
      ''t0'', ''t1'', ''t2'', ''t3'', ''s0'', ''s1'', ''s2'', ''s3'', ''s4'', ''s5'', ''s6'', ''s7'',
      ''t8'', ''t9'', ''k0'', ''k1'', ''gp'', ''sp'', ''fp'', ''ra'']"

definition psp_register_names :: "bytes list" where
  "psp_register_names = map ascii [''zero'', ''at'', ''v0'', ''v1'', ''a0'', ''a1'', ''a2'', ''a3'', ''t0'', ''t1'', ''t2'', ''t3'',
      ''t4'', ''t5'', ''t6'', ''t7'', ''s0'', ''s1'', ''s2'', ''s3'', ''s4'', ''s5'', ''s6'', ''s7'',
      ''t8'', ''t9'', ''k0'', ''k1'', ''gp'', ''sp'', ''fp'', ''ra'']"

definition x86_register_names :: "bytes list" where
  "x86_register_names = map ascii [''EIP'', ''EFLAGS'', ''EAX'', ''EBX'', ''ECX'', ''EDX'', ''ESI'', ''EDI'', ''EBP'', ''ESP'', ''CS'', ''DS'',
      ''ES'', ''SS'', ''FS'', ''GS'', ''CR0'', ''CR2'', ''CR3'', ''CR4'']"

section \<open>Reports\<close>

definition make_dump_filename :: "bytes \<Rightarrow> nat list \<Rightarrow> bytes" where
  "make_dump_filename prefix tm = take 127 (prefix @ ascii ''_exception_'' @ pad_left 4 0x30 (dec_u (tm ! 0))
     @ pad_left 2 0x30 (dec_u (tm ! 1)) @ pad_left 2 0x30 (dec_u (tm ! 2)) @ ascii ''_'' @ pad_left 2 0x30 (dec_u (tm ! 3))
     @ pad_left 2 0x30 (dec_u (tm ! 4)) @ pad_left 2 0x30 (dec_u (tm ! 5)) @ ascii ''.txt'')"

definition print_dc_registers :: "u32 list \<Rightarrow> bytes" where
  "print_dc_registers regs = concat (map reg_line (zip dc_register_names regs))"

definition print_gc_registers :: "u32 list \<Rightarrow> bytes \<Rightarrow> bytes" where
  "print_gc_registers regs dat = (let fpu_offset = 8 + 40 * 4 in
     concat (map reg_line (zip gc_register_names regs)) @ ascii ''  FPSCR  0x'' @ hex8 (rd32 dat (fpu_offset + 4)) @ [10]
     @ concat (map (\<lambda>i. ascii ''  '' @ pad_right 6 0x20 (gc_fpr_names ! i) @ ascii '' 0x'' @ hex8 (rd32 dat (fpu_offset + 8 + i * 8))
         @ hex8 (rd32 dat (fpu_offset + 8 + i * 8 + 4)) @ [10]) [0..<32]))"

definition print_ps2_registers :: "u32 list \<Rightarrow> u32 \<Rightarrow> u32 \<Rightarrow> u32 \<Rightarrow> u32 \<Rightarrow> u32 list \<Rightarrow> u32 \<Rightarrow> bytes" where
  "print_ps2_registers gpr_lo epc status cause badvaddr fpr fcr31 =
     concat (map reg_line (zip ps2_register_names gpr_lo
       @ [(ascii ''EPC'', epc), (ascii ''Status'', status), (ascii ''Cause'', cause), (ascii ''BadV'', badvaddr)]))
     @ concat (map (\<lambda>i. ascii ''  f'' @ pad_right 5 0x20 (dec_u i) @ ascii '' 0x'' @ hex8 (fpr ! i) @ [10]) [0..<32])
     @ reg_line (ascii ''FCR31'', fcr31)"

definition print_psp_registers :: "u32 list \<Rightarrow> u32 \<Rightarrow> u32 \<Rightarrow> u32 \<Rightarrow> u32 \<Rightarrow> bytes" where
  "print_psp_registers gpr epc status cause badvaddr = concat (map reg_line (zip psp_register_names gpr
     @ [(ascii ''EPC'', epc), (ascii ''Status'', status), (ascii ''Cause'', cause), (ascii ''BadV'', badvaddr)]))"

definition print_x86_registers :: "u32 list \<Rightarrow> u32 \<Rightarrow> u32 list \<Rightarrow> bytes" where
  "print_x86_registers regs errcode stack = concat (map reg_line ((ascii ''ERR'', errcode) # zip x86_register_names regs))
     @ [10] @ ascii ''Stack (32 words from ESP):'' @ [10]
     @ concat (map (\<lambda>i. ascii ''  [esp+'' @ pad_right 3 0x20 (dec_u (i * 4)) @ ascii ''] 0x'' @ hex8 (stack ! i) @ [10]) [0..<32])"

text \<open>An address inside the program that addr2line knows is printed by \<open>say\<close>.\<close>

definition say_symbol ::
  "'o os \<Rightarrow> a2l_conf \<Rightarrow> (bytes \<Rightarrow> bytes) \<Rightarrow> (bytes \<Rightarrow> 'o \<Rightarrow> 'o) \<Rightarrow> u32 \<Rightarrow> u32 \<Rightarrow> u32 \<Rightarrow> 'o \<times> trace_out \<Rightarrow> bool \<times> 'o \<times> trace_out" where
  "say_symbol os cf line out lo hi v ot = (case ot of (u, tr) \<Rightarrow>
     if v < lo \<or> v \<ge> hi then (False, u, tr)
     else case decode_address os (addr2line_for_console cf) (case loaded_binary_path cf of None \<Rightarrow> [] | Some p \<Rightarrow> p) v 256 u tr of
       (decoded, u, tr) \<Rightarrow> if decoded = [] \<or> hd decoded = 0x3f then (False, u, tr) else (True, out (line decoded) u, tr))"

fun print_symbols ::
  "'o os \<Rightarrow> a2l_conf \<Rightarrow> (bytes \<Rightarrow> 'o \<Rightarrow> 'o) \<Rightarrow> u32 \<Rightarrow> u32 \<Rightarrow> (bytes \<times> u32) list \<Rightarrow> 'o \<times> trace_out \<Rightarrow> 'o \<times> trace_out" where
  "print_symbols os cf out lo hi [] ot = ot"
| "print_symbols os cf out lo hi ((nm, v) # regs) ot =
     print_symbols os cf out lo hi regs (snd (say_symbol os cf (symbol_line nm) out lo hi v ot))"

fun stack_entries ::
  "'o os \<Rightarrow> a2l_conf \<Rightarrow> (bytes \<Rightarrow> 'o \<Rightarrow> 'o) \<Rightarrow> nat \<Rightarrow> u32 list \<Rightarrow> bool \<Rightarrow> 'o \<times> trace_out \<Rightarrow> bool \<times> 'o \<times> trace_out" where
  "stack_entries os cf out i [] printed ot = (printed, ot)"
| "stack_entries os cf out i (v # stack) printed ot =
     (case say_symbol os cf (\<lambda>decoded. (if printed then [] else [10] @ ascii ''Stack trace (scanned, most recent first):'' @ [10])
         @ ascii ''  [esp+'' @ pad_right 3 0x20 (dec_u (i * 4)) @ ascii ''] 0x'' @ hex8 v @ ascii ''  '' @ decoded @ [10])
         out 0x0003C000 0x0203C000 v ot of
       (said, ot) \<Rightarrow> stack_entries os cf out (Suc i) stack (printed \<or> said) ot)"

definition print_xbox_stack_trace ::
  "'o os \<Rightarrow> a2l_conf \<Rightarrow> (bytes \<Rightarrow> 'o \<Rightarrow> 'o) \<Rightarrow> u32 list \<Rightarrow> 'o \<times> trace_out \<Rightarrow> 'o \<times> trace_out" where
  "print_xbox_stack_trace os cf out stack ot =
     (case stack_entries os cf out 0 stack False ot of (printed, u, tr) \<Rightarrow>
       (if printed then u else out ([10] @ ascii ''Stack trace: no resolvable return addresses in the sample'' @ [10]) u, tr))"

definition print_all_symbols ::
  "'o os \<Rightarrow> a2l_conf \<Rightarrow> u32 \<Rightarrow> u32 \<Rightarrow> (bytes \<times> u32) list \<Rightarrow> u32 list option \<Rightarrow> (bytes \<Rightarrow> 'o \<Rightarrow> 'o) \<Rightarrow> 'o \<times> trace_out \<Rightarrow> 'o \<times> trace_out" where
  "print_all_symbols os cf lo hi regs stack out ot = (let ot = print_symbols os cf out lo hi regs ot in
     case stack of None \<Rightarrow> ot | Some ws \<Rightarrow> print_xbox_stack_trace os cf out ws ot)"

definition report_exception ::
  "'o os \<Rightarrow> a2l_conf \<Rightarrow> bytes \<Rightarrow> bytes \<Rightarrow> (bytes \<times> u32) list \<Rightarrow> bytes \<Rightarrow> u32 \<Rightarrow> u32 \<Rightarrow> (bytes \<times> u32) list \<Rightarrow> u32 list option
   \<Rightarrow> 'o \<times> trace_out \<Rightarrow> 'o \<times> trace_out" where
  "report_exception os cf prefix title key full lo hi regs stack ot =
     (let symbols = print_all_symbols os cf lo hi regs stack;
          u = os_stderr os ([10] @ title @ [10] @ concat (map reg_line key)) (fst ot) in
      case check_addr2line os cf (u, snd ot) of (u, tr) \<Rightarrow>
      let available = (addr2line_available tr = Some True) in
      case (if available then symbols (os_stderr os) (u, tr) else (os_stderr os full u, tr)) of (u, tr) \<Rightarrow>
      let filename = make_dump_filename prefix (os_localtime os u) in
      case os_fopen os filename u of (ok, u) \<Rightarrow>
        if \<not> ok then (u, tr)
        else let u = os_fprintf os (title @ [10, 10] @ ascii ''Registers:'' @ [10] @ full) u in
          case (if available then symbols (os_fprintf os) (os_fprintf os ([10] @ ascii ''Symbols:'' @ [10]) u, tr) else (u, tr)) of
            (u, tr) \<Rightarrow> (os_stderr os (ascii ''  Saved to '' @ filename @ [10]) (os_fclose os u), tr))"

definition incomplete :: "'o os \<Rightarrow> bytes \<Rightarrow> bytes \<Rightarrow> 'o \<times> trace_out \<Rightarrow> 'o \<times> trace_out" where
  "incomplete os nm dat ot =
     (os_stderr os ([10] @ ascii ''Incomplete '' @ nm @ ascii '' exception frame ('' @ dec_u (length dat) @ ascii '' bytes)'' @ [10]) (fst ot), snd ot)"

definition exc_title :: "bytes \<Rightarrow> bytes \<Rightarrow> bytes \<Rightarrow> bytes" where
  "exc_title machine name code = ascii ''=== '' @ machine @ ascii '' Exception: '' @ name @ ascii '' ('' @ code @ ascii '') ===''"

definition handle_xbox_exception :: "'o os \<Rightarrow> a2l_conf \<Rightarrow> bytes \<Rightarrow> 'o \<times> trace_out \<Rightarrow> 'o \<times> trace_out" where
  "handle_xbox_exception os cf dat ot =
     (if length dat < 220 then incomplete os (ascii ''Xbox'') dat ot
      else let regs = le_words dat 12 20; stack = le_words dat 92 32; vector = le32_at dat 4; errcode = le32_at dat 8;
        title = exc_title (ascii ''Xbox'') (xbox_exception_code_to_string vector) (ascii ''vector '' @ dec_u (unat vector)) in
      report_exception os cf (ascii ''xbox'') title
        ([(ascii ''EIP'', regs ! 0), (ascii ''EFLAGS'', regs ! 1), (ascii ''ESP'', regs ! 9), (ascii ''EBP'', regs ! 8), (ascii ''ERR'', errcode)]
         @ (if vector = 14 then [(ascii ''CR2'', regs ! 17)] else []))
        (print_x86_registers regs errcode stack) 0x0003C000 0x0203C000 (zip x86_register_names regs) (Some stack) ot)"

definition handle_dc_exception :: "'o os \<Rightarrow> a2l_conf \<Rightarrow> bytes \<Rightarrow> 'o \<times> trace_out \<Rightarrow> 'o \<times> trace_out" where
  "handle_dc_exception os cf dat ot =
     (if length dat < 272 then incomplete os (ascii ''DC'') dat ot
      else let regs = le_words dat 8 66; expt_code = le32_at dat 4;
        title = exc_title (ascii ''Dreamcast'') (dc_exception_code_to_string expt_code) (ascii ''0x'' @ pad_left 3 0x30 (num_digits 16 (unat expt_code))) in
      report_exception os cf (ascii ''dc'') title
        [(ascii ''PC'', regs ! 0), (ascii ''PR'', regs ! 1), (ascii ''SR'', regs ! 2), (ascii ''R15'', regs ! 31)]
        (print_dc_registers regs) 0x8c010000 0x8d000000 (zip dc_register_names regs) None ot)"

definition handle_gc_exception :: "'o os \<Rightarrow> a2l_conf \<Rightarrow> bytes \<Rightarrow> 'o \<times> trace_out \<Rightarrow> 'o \<times> trace_out" where
  "handle_gc_exception os cf dat ot =
     (if length dat < 432 then incomplete os (ascii ''GC'') dat ot
      else let regs = be_words dat 8 40; expt_code = rd32 dat 4;
        title = exc_title (ascii ''GameCube'') (gc_exception_code_to_string expt_code) (ascii ''0x'' @ pad_left 4 0x30 (num_digits 16 (unat expt_code))) in
      report_exception os cf (ascii ''gc'') title
        ([(ascii ''SRR0'', regs ! 0), (ascii ''SRR1'', regs ! 1), (ascii ''R1'', regs ! 3), (ascii ''LR'', regs ! 34)]
         @ (if expt_code = 0x0300 \<or> expt_code = 0x0400 then [(ascii ''DAR'', regs ! 39), (ascii ''DSISR'', regs ! 38)] else []))
        (print_gc_registers regs dat) 0x80003100 0x81800000 (zip gc_register_names regs) None ot)"

definition handle_ps2_exception :: "'o os \<Rightarrow> a2l_conf \<Rightarrow> bytes \<Rightarrow> 'o \<times> trace_out \<Rightarrow> 'o \<times> trace_out" where
  "handle_ps2_exception os cf dat ot =
     (if length dat < 420 then incomplete os (ascii ''PS2'') dat ot
      else let gpr_lo = map (\<lambda>i. le32_at dat (4 + 8 * i)) [0..<32]; epc = le32_at dat 260; status = le32_at dat 264;
        cause = le32_at dat 268; badvaddr = le32_at dat 272; fpr = le_words dat 276 32; fcr31 = le32_at dat 404;
        excode = drop_bit 2 cause AND 0x1f;
        title = exc_title (ascii ''PlayStation 2'') (ps2_exception_code_to_string excode) (ascii ''ExcCode '' @ dec_u (unat excode)) in
      report_exception os cf (ascii ''ps2'') title
        [(ascii ''EPC'', epc), (ascii ''Cause'', cause), (ascii ''Status'', status), (ascii ''BadV'', badvaddr), (ascii ''sp'', gpr_lo ! 29), (ascii ''ra'', gpr_lo ! 31)]
        (print_ps2_registers gpr_lo epc status cause badvaddr fpr fcr31) 0x00100000 0x02000000
        ((ascii ''EPC'', epc) # zip ps2_register_names gpr_lo) None ot)"

definition handle_psp_exception :: "'o os \<Rightarrow> a2l_conf \<Rightarrow> bytes \<Rightarrow> 'o \<times> trace_out \<Rightarrow> 'o \<times> trace_out" where
  "handle_psp_exception os cf dat ot =
     (if length dat < 180 then incomplete os (ascii ''PSP'') dat ot
      else let gpr = le_words dat 4 32; cause = le32_at dat 132; epc = le32_at dat 136; status = le32_at dat 140; badvaddr = le32_at dat 144;
        excode = drop_bit 2 cause AND 0x1f;
        title = exc_title (ascii ''PSP'') (ps2_exception_code_to_string excode) (ascii ''ExcCode '' @ dec_u (unat excode)) in
      report_exception os cf (ascii ''psp'') title
        [(ascii ''EPC'', epc), (ascii ''Cause'', cause), (ascii ''Status'', status), (ascii ''BadV'', badvaddr), (ascii ''sp'', gpr ! 29), (ascii ''ra'', gpr ! 31)]
        (print_psp_registers gpr epc status cause badvaddr) 0x08804000 0x0A000000
        ((ascii ''EPC'', epc) # zip psp_register_names gpr) None ot)"

definition handle_exception :: "'o os \<Rightarrow> a2l_conf \<Rightarrow> bytes \<Rightarrow> 'o \<times> trace_out \<Rightarrow> 'o \<times> trace_out" where
  "handle_exception os cf dat ot = (case a2l_console cf of
     CONSOLE_PS2 \<Rightarrow> handle_ps2_exception os cf dat ot | CONSOLE_PSP \<Rightarrow> handle_psp_exception os cf dat ot
   | CONSOLE_GC \<Rightarrow> handle_gc_exception os cf dat ot | CONSOLE_WII \<Rightarrow> handle_gc_exception os cf dat ot
   | CONSOLE_XBOX \<Rightarrow> handle_xbox_exception os cf dat ot | _ \<Rightarrow> handle_dc_exception os cf dat ot)"

section \<open>Decoding a frame\<close>

lemma le32_at_skip: "i \<ge> length pre \<Longrightarrow> le32_at (pre @ xs) i = le32_at xs (i - length pre)"
  by (simp add: le32_at_def nth_append Suc_diff_le)

lemma rd32_skip: "i \<ge> length pre \<Longrightarrow> rd32 (pre @ xs) i = rd32 xs (i - length pre)"
  by (simp add: rd32_def nth_append Suc_diff_le)

lemma le32_at_head: "le32_at (le32 w @ xs) 0 = w"
  by (simp add: le32_at_def le32_def get_le32_le32)

lemma rd32_head: "rd32 (be32 w @ xs) 0 = w"
  using rd32_at [of "[]" 0 w xs] by simp

lemma le32_at_words: "i < length ws \<Longrightarrow> le32_at (concat (map le32 ws) @ post) (4 * i) = ws ! i"
proof (induction ws arbitrary: i)
  case (Cons w ws)
  then show ?case by (cases i) (simp_all add: le32_at_head le32_at_skip)
qed simp

lemma rd32_words: "i < length ws \<Longrightarrow> rd32 (concat (map be32 ws) @ post) (4 * i) = ws ! i"
proof (induction ws arbitrary: i)
  case (Cons w ws)
  then show ?case by (cases i) (simp_all add: rd32_head rd32_skip)
qed simp

lemma le_words_at: "length pre = off \<Longrightarrow> length ws = n \<Longrightarrow> le_words (pre @ concat (map le32 ws) @ post) off n = ws"
  by (auto intro!: nth_equalityI simp: le_words_def le32_at_skip le32_at_words)

lemma be_words_at: "length pre = off \<Longrightarrow> length ws = n \<Longrightarrow> be_words (pre @ concat (map be32 ws) @ post) off n = ws"
  by (auto intro!: nth_equalityI simp: be_words_def rd32_skip rd32_words)

lemma length_concat_le32 [simp]: "length (concat (map le32 ws)) = 4 * length ws"
  by (induction ws) simp_all

lemma length_concat_be32 [simp]: "length (concat (map be32 ws)) = 4 * length ws"
  by (induction ws) simp_all

text \<open>The frames as the loaders send them (\<^verbatim>\<open>include/kosload/types.h\<close>), from the values of their fields.\<close>

definition dc_frame :: "u32 \<Rightarrow> u32 list \<Rightarrow> bytes" where
  "dc_frame code regs = ascii ''EXPT'' @ le32 code @ concat (map le32 regs)"

definition gc_frame :: "u32 \<Rightarrow> u32 list \<Rightarrow> u32 list \<Rightarrow> bytes" where
  "gc_frame code regs fpu = ascii ''EXPT'' @ be32 code @ concat (map be32 regs) @ concat (map be32 fpu)"

definition psp_frame :: "u32 list \<Rightarrow> u32 \<Rightarrow> u32 \<Rightarrow> u32 \<Rightarrow> u32 \<Rightarrow> u32 list \<Rightarrow> bytes" where
  "psp_frame gpr cause epc status badvaddr nmi = ascii ''EXPT'' @ concat (map le32 (gpr @ [cause, epc, status, badvaddr] @ nmi))"

definition ps2_frame :: "(u32 \<times> u32) list \<Rightarrow> u32 \<Rightarrow> u32 \<Rightarrow> u32 \<Rightarrow> u32 \<Rightarrow> u32 list \<Rightarrow> u32 \<Rightarrow> u32 list \<Rightarrow> bytes" where
  "ps2_frame gpr epc status cause badvaddr fpr fcr31 pad =
     ascii ''EXPT'' @ concat (map le32 (concat (map (\<lambda>(lo, hi). [lo, hi]) gpr) @ [epc, status, cause, badvaddr] @ fpr @ [fcr31] @ pad))"

definition x86_frame :: "u32 \<Rightarrow> u32 \<Rightarrow> u32 list \<Rightarrow> u32 list \<Rightarrow> bytes" where
  "x86_frame vector errcode regs stack = ascii ''EXPT'' @ concat (map le32 ([vector, errcode] @ regs @ stack))"

lemma frame_word: "i < length ws \<Longrightarrow> j = 4 + 4 * i \<Longrightarrow> le32_at (ascii ''EXPT'' @ concat (map le32 ws)) j = ws ! i"
  using le32_at_words [of i ws "[]"] by (simp add: le32_at_skip)

lemma frame_words: "off = 4 + 4 * k \<Longrightarrow> k + n \<le> length ws \<Longrightarrow> le_words (ascii ''EXPT'' @ concat (map le32 ws)) off n = take n (drop k ws)"
  by (auto intro!: nth_equalityI frame_word simp: le_words_def)

lemma nth_pairs: "i < length ps \<Longrightarrow> concat (map (\<lambda>(lo, hi). [lo, hi]) ps) ! (2 * i) = fst (ps ! i)"
proof (induction ps arbitrary: i)
  case (Cons p ps)
  then show ?case by (cases i) (auto split: prod.splits)
qed simp

lemma length_pairs [simp]: "length (concat (map (\<lambda>(lo, hi). [lo, hi]) ps)) = 2 * length ps"
  by (induction ps) auto

lemma dc_report:
  assumes "length regs = 66"
  shows "handle_dc_exception os cf (dc_frame code regs) ot
    = report_exception os cf (ascii ''dc'') (exc_title (ascii ''Dreamcast'') (dc_exception_code_to_string code)
          (ascii ''0x'' @ pad_left 3 0x30 (num_digits 16 (unat code))))
        [(ascii ''PC'', regs ! 0), (ascii ''PR'', regs ! 1), (ascii ''SR'', regs ! 2), (ascii ''R15'', regs ! 31)]
        (print_dc_registers regs) 0x8c010000 0x8d000000 (zip dc_register_names regs) None ot"
proof -
  have f: "dc_frame code regs = ascii ''EXPT'' @ concat (map le32 (code # regs))" by (simp add: dc_frame_def)
  have "le_words (dc_frame code regs) 8 66 = regs" "le32_at (dc_frame code regs) 4 = code"
    unfolding f using assms frame_words [of 8 1 66 "code # regs"] frame_word [of 0 "code # regs" 4] by simp_all
  then show ?thesis using assms by (simp add: handle_dc_exception_def dc_frame_def Let_def)
qed

text \<open>What a GameCube dump shows of the floating-point unit: \<open>FPSCR\<close> in the second word, then \<open>F0\<close> to \<open>F31\<close> as word pairs.\<close>

definition gc_dump :: "u32 list \<Rightarrow> u32 list \<Rightarrow> bytes" where
  "gc_dump regs fpu = concat (map reg_line (zip gc_register_names regs)) @ ascii ''  FPSCR  0x'' @ hex8 (fpu ! 1) @ [10]
     @ concat (map (\<lambda>i. ascii ''  '' @ pad_right 6 0x20 (gc_fpr_names ! i) @ ascii '' 0x'' @ hex8 (fpu ! (2 + 2 * i))
         @ hex8 (fpu ! (3 + 2 * i)) @ [10]) [0..<32])"

lemma gc_fpu_word:
  assumes "length regs = 40" "length fpu = 66" "k < 66"
  shows "rd32 (gc_frame code regs fpu) (168 + 4 * k) = fpu ! k"
  using assms rd32_words [of k fpu "[]"] by (simp add: gc_frame_def rd32_skip)

lemma gc_report:
  assumes "length regs = 40" "length fpu = 66"
  shows "handle_gc_exception os cf (gc_frame code regs fpu) ot
    = report_exception os cf (ascii ''gc'') (exc_title (ascii ''GameCube'') (gc_exception_code_to_string code)
          (ascii ''0x'' @ pad_left 4 0x30 (num_digits 16 (unat code))))
        ([(ascii ''SRR0'', regs ! 0), (ascii ''SRR1'', regs ! 1), (ascii ''R1'', regs ! 3), (ascii ''LR'', regs ! 34)]
         @ (if code = 0x0300 \<or> code = 0x0400 then [(ascii ''DAR'', regs ! 39), (ascii ''DSISR'', regs ! 38)] else []))
        (gc_dump regs fpu) 0x80003100 0x81800000 (zip gc_register_names regs) None ot"
proof -
  let ?f = "gc_frame code regs fpu"
  have w: "be_words ?f 8 40 = regs" "rd32 ?f 4 = code"
    using assms be_words_at [of "ascii ''EXPT'' @ be32 code" 8 regs 40 "concat (map be32 fpu)"] rd32_at [of "ascii ''EXPT''" 4 code]
    by (simp_all add: gc_frame_def)
  have "rd32 ?f (176 + i * 8) = fpu ! (2 + 2 * i)" "rd32 ?f (180 + i * 8) = fpu ! (3 + 2 * i)" if "i < 32" for i
    using that gc_fpu_word [OF assms, of "2 + 2 * i" code] gc_fpu_word [OF assms, of "3 + 2 * i" code] by (simp_all add: algebra_simps)
  moreover have "rd32 ?f 172 = fpu ! 1" using gc_fpu_word [OF assms, of 1 code] by simp
  ultimately have "print_gc_registers regs ?f = gc_dump regs fpu"
    by (auto simp: print_gc_registers_def gc_dump_def intro!: arg_cong [where f = concat])
  moreover have "length ?f = 432" using assms by (simp add: gc_frame_def)
  ultimately show ?thesis using w by (simp add: handle_gc_exception_def Let_def)
qed

lemma ps2_report:
  assumes "length gpr = 32" "length fpr = 32" "length pad = 3"
  shows "handle_ps2_exception os cf (ps2_frame gpr epc status cause badvaddr fpr fcr31 pad) ot
    = report_exception os cf (ascii ''ps2'') (exc_title (ascii ''PlayStation 2'') (ps2_exception_code_to_string (drop_bit 2 cause AND 0x1f))
          (ascii ''ExcCode '' @ dec_u (unat (drop_bit 2 cause AND 0x1f))))
        [(ascii ''EPC'', epc), (ascii ''Cause'', cause), (ascii ''Status'', status), (ascii ''BadV'', badvaddr),
         (ascii ''sp'', fst (gpr ! 29)), (ascii ''ra'', fst (gpr ! 31))]
        (print_ps2_registers (map fst gpr) epc status cause badvaddr fpr fcr31) 0x00100000 0x02000000
        ((ascii ''EPC'', epc) # zip ps2_register_names (map fst gpr)) None ot"
proof -
  let ?ws = "concat (map (\<lambda>(lo, hi). [lo, hi]) gpr) @ [epc, status, cause, badvaddr] @ fpr @ [fcr31] @ pad"
  let ?f = "ps2_frame gpr epc status cause badvaddr fpr fcr31 pad"
  have w: "le32_at ?f j = ?ws ! i" if "i < 104" "j = 4 + 4 * i" for i j
    using frame_word [of i ?ws j] that assms unfolding ps2_frame_def by simp
  have "map (\<lambda>i. le32_at ?f (4 + 8 * i)) [0..<32] = map fst gpr"
  proof (rule nth_equalityI)
    fix i assume "i < length (map (\<lambda>i. le32_at ?f (4 + 8 * i)) [0..<32])"
    then show "map (\<lambda>i. le32_at ?f (4 + 8 * i)) [0..<32] ! i = map fst gpr ! i"
      using assms w [of "2 * i" "4 + 8 * i"] nth_pairs [of i gpr] by (simp add: nth_append)
  qed (simp add: assms)
  moreover have "le32_at ?f 260 = epc" "le32_at ?f 264 = status" "le32_at ?f 268 = cause" "le32_at ?f 272 = badvaddr" "le32_at ?f 404 = fcr31"
    using assms w [of 64] w [of 65] w [of 66] w [of 67] w [of 100] by (simp_all add: nth_append)
  moreover have "le_words ?f 276 32 = fpr"
    using assms frame_words [of 276 68 32 ?ws] by (simp add: ps2_frame_def)
  moreover have "length ?f = 420" using assms by (simp add: ps2_frame_def del: map_append concat_append)
  ultimately show ?thesis using assms by (simp add: handle_ps2_exception_def Let_def)
qed

lemma psp_report:
  assumes "length gpr = 32" "length nmi = 8"
  shows "handle_psp_exception os cf (psp_frame gpr cause epc status badvaddr nmi) ot
    = report_exception os cf (ascii ''psp'') (exc_title (ascii ''PSP'') (ps2_exception_code_to_string (drop_bit 2 cause AND 0x1f))
          (ascii ''ExcCode '' @ dec_u (unat (drop_bit 2 cause AND 0x1f))))
        [(ascii ''EPC'', epc), (ascii ''Cause'', cause), (ascii ''Status'', status), (ascii ''BadV'', badvaddr),
         (ascii ''sp'', gpr ! 29), (ascii ''ra'', gpr ! 31)]
        (print_psp_registers gpr epc status cause badvaddr) 0x08804000 0x0A000000
        ((ascii ''EPC'', epc) # zip psp_register_names gpr) None ot"
proof -
  let ?ws = "gpr @ [cause, epc, status, badvaddr] @ nmi"
  let ?f = "psp_frame gpr cause epc status badvaddr nmi"
  have w: "le32_at ?f j = ?ws ! i" if "i < 44" "j = 4 + 4 * i" for i j
    using frame_word [of i ?ws j] that assms unfolding psp_frame_def by simp
  have "le32_at ?f 132 = cause" "le32_at ?f 136 = epc" "le32_at ?f 140 = status" "le32_at ?f 144 = badvaddr"
    using assms w [of 32] w [of 33] w [of 34] w [of 35] by (simp_all add: nth_append)
  moreover have "le_words ?f 4 32 = gpr" using assms frame_words [of 4 0 32 ?ws] by (simp add: psp_frame_def)
  moreover have "length ?f = 180" using assms by (simp add: psp_frame_def del: map_append concat_append)
  ultimately show ?thesis by (simp add: handle_psp_exception_def Let_def)
qed

lemma xbox_report:
  assumes "length regs = 20" "length stack = 32"
  shows "handle_xbox_exception os cf (x86_frame vector errcode regs stack) ot
    = report_exception os cf (ascii ''xbox'') (exc_title (ascii ''Xbox'') (xbox_exception_code_to_string vector)
          (ascii ''vector '' @ dec_u (unat vector)))
        ([(ascii ''EIP'', regs ! 0), (ascii ''EFLAGS'', regs ! 1), (ascii ''ESP'', regs ! 9), (ascii ''EBP'', regs ! 8), (ascii ''ERR'', errcode)]
         @ (if vector = 14 then [(ascii ''CR2'', regs ! 17)] else []))
        (print_x86_registers regs errcode stack) 0x0003C000 0x0203C000 (zip x86_register_names regs) (Some stack) ot"
proof -
  let ?ws = "[vector, errcode] @ regs @ stack" and ?f = "x86_frame vector errcode regs stack"
  have "le32_at ?f 4 = vector" "le32_at ?f 8 = errcode"
    using frame_word [of 0 ?ws 4] frame_word [of 1 ?ws 8] unfolding x86_frame_def by simp_all
  moreover have "le_words ?f 12 20 = regs" "le_words ?f 92 32 = stack"
    using assms frame_words [of 12 2 20 ?ws] frame_words [of 92 22 32 ?ws] unfolding x86_frame_def by simp_all
  moreover have "length ?f = 220" using assms by (simp add: x86_frame_def del: map_append concat_append)
  ultimately show ?thesis by (simp add: handle_xbox_exception_def Let_def)
qed

text \<open>A crash of each console: its frame, whether the fields have the layout's lengths, and the report it calls for.\<close>

datatype crash =
    Dc_crash u32 "u32 list"
  | Gc_crash u32 "u32 list" "u32 list"
  | Ps2_crash "(u32 \<times> u32) list" u32 u32 u32 u32 "u32 list" u32 "u32 list"
  | Psp_crash "u32 list" u32 u32 u32 u32 "u32 list"
  | Xbox_crash u32 u32 "u32 list" "u32 list"

fun crash_frame :: "crash \<Rightarrow> bytes" where
  "crash_frame (Dc_crash code regs) = dc_frame code regs"
| "crash_frame (Gc_crash code regs fpu) = gc_frame code regs fpu"
| "crash_frame (Ps2_crash gpr epc status cause badv fpr fcr31 pad) = ps2_frame gpr epc status cause badv fpr fcr31 pad"
| "crash_frame (Psp_crash gpr cause epc status badv nmi) = psp_frame gpr cause epc status badv nmi"
| "crash_frame (Xbox_crash vector errcode regs stack) = x86_frame vector errcode regs stack"

fun crash_on :: "console_type \<Rightarrow> crash \<Rightarrow> bool" where
  "crash_on c (Dc_crash code regs) = (c \<in> {CONSOLE_DC, CONSOLE_UNKNOWN} \<and> length regs = 66)"
| "crash_on c (Gc_crash code regs fpu) = (c \<in> {CONSOLE_GC, CONSOLE_WII} \<and> length regs = 40 \<and> length fpu = 66)"
| "crash_on c (Ps2_crash gpr epc status cause badv fpr fcr31 pad) = (c = CONSOLE_PS2 \<and> length gpr = 32 \<and> length fpr = 32 \<and> length pad = 3)"
| "crash_on c (Psp_crash gpr cause epc status badv nmi) = (c = CONSOLE_PSP \<and> length gpr = 32 \<and> length nmi = 8)"
| "crash_on c (Xbox_crash vector errcode regs stack) = (c = CONSOLE_XBOX \<and> length regs = 20 \<and> length stack = 32)"

text \<open>The registers a report lists, by name, in the order of the dump.\<close>

fun crash_registers :: "crash \<Rightarrow> (bytes \<times> u32) list" where
  "crash_registers (Dc_crash code regs) = zip dc_register_names regs"
| "crash_registers (Gc_crash code regs fpu) = zip gc_register_names regs"
| "crash_registers (Ps2_crash gpr epc status cause badv fpr fcr31 pad) =
     zip ps2_register_names (map fst gpr) @ [(ascii ''EPC'', epc), (ascii ''Status'', status), (ascii ''Cause'', cause), (ascii ''BadV'', badv)]"
| "crash_registers (Psp_crash gpr cause epc status badv nmi) =
     zip psp_register_names gpr @ [(ascii ''EPC'', epc), (ascii ''Status'', status), (ascii ''Cause'', cause), (ascii ''BadV'', badv)]"
| "crash_registers (Xbox_crash vector errcode regs stack) = (ascii ''ERR'', errcode) # zip x86_register_names regs"

definition plain_report :: "'o os \<Rightarrow> bytes \<Rightarrow> bytes \<Rightarrow> (bytes \<times> u32) list \<Rightarrow> bytes \<Rightarrow> 'o \<Rightarrow> 'o" where
  "plain_report os prefix title key full u =
     (let u = os_stderr os full (os_stderr os ([10] @ title @ [10] @ concat (map reg_line key)) u);
          filename = make_dump_filename prefix (os_localtime os u) in
      case os_fopen os filename u of (ok, u) \<Rightarrow>
        if ok then os_stderr os (ascii ''  Saved to '' @ filename @ [10])
          (os_fclose os (os_fprintf os (title @ [10, 10] @ ascii ''Registers:'' @ [10] @ full) u)) else u)"

lemma report_without_addr2line:
  "addr2line_available tr = Some False \<Longrightarrow>
   report_exception os cf prefix title key full lo hi regs stack (u, tr) = (plain_report os prefix title key full u, tr)"
  by (simp add: report_exception_def check_addr2line_def plain_report_def Let_def split: prod.splits)

lemma in_zip: "i < length names \<Longrightarrow> i < length regs \<Longrightarrow> names ! i = nm \<Longrightarrow> (nm, regs ! i) \<in> set (zip names regs)"
  by (auto simp: in_set_zip)

lemma register_names:
  "length dc_register_names = 66" "dc_register_names ! 0 = ascii ''PC''" "dc_register_names ! 1 = ascii ''PR''"
  "dc_register_names ! 2 = ascii ''SR''" "dc_register_names ! 31 = ascii ''R15''"
  "length gc_register_names = 40" "gc_register_names ! 0 = ascii ''SRR0''" "gc_register_names ! 1 = ascii ''SRR1''"
  "gc_register_names ! 3 = ascii ''R1''" "gc_register_names ! 34 = ascii ''LR''" "gc_register_names ! 38 = ascii ''DSISR''"
  "gc_register_names ! 39 = ascii ''DAR''"
  "length ps2_register_names = 32" "ps2_register_names ! 29 = ascii ''sp''" "ps2_register_names ! 31 = ascii ''ra''"
  "length psp_register_names = 32" "psp_register_names ! 29 = ascii ''sp''" "psp_register_names ! 31 = ascii ''ra''"
  "length x86_register_names = 20" "x86_register_names ! 0 = ascii ''EIP''" "x86_register_names ! 1 = ascii ''EFLAGS''"
  "x86_register_names ! 8 = ascii ''EBP''" "x86_register_names ! 9 = ascii ''ESP''" "x86_register_names ! 17 = ascii ''CR2''"
  by code_simp+

lemma dc_keys: "length regs = 66 \<Longrightarrow> {(ascii ''PC'', regs ! 0), (ascii ''PR'', regs ! 1), (ascii ''SR'', regs ! 2), (ascii ''R15'', regs ! 31)} \<subseteq> set (zip dc_register_names regs)"
  using in_zip [of 0 dc_register_names regs "ascii ''PC''"]
    in_zip [of 1 dc_register_names regs "ascii ''PR''"]
    in_zip [of 2 dc_register_names regs "ascii ''SR''"]
    in_zip [of 31 dc_register_names regs "ascii ''R15''"]
  by (simp add: register_names del: One_nat_def)

lemma gc_keys: "length regs = 40 \<Longrightarrow> {(ascii ''SRR0'', regs ! 0), (ascii ''SRR1'', regs ! 1), (ascii ''R1'', regs ! 3), (ascii ''LR'', regs ! 34), (ascii ''DSISR'', regs ! 38), (ascii ''DAR'', regs ! 39)} \<subseteq> set (zip gc_register_names regs)"
  using in_zip [of 0 gc_register_names regs "ascii ''SRR0''"]
    in_zip [of 1 gc_register_names regs "ascii ''SRR1''"]
    in_zip [of 3 gc_register_names regs "ascii ''R1''"]
    in_zip [of 34 gc_register_names regs "ascii ''LR''"]
    in_zip [of 38 gc_register_names regs "ascii ''DSISR''"]
    in_zip [of 39 gc_register_names regs "ascii ''DAR''"]
  by (simp add: register_names del: One_nat_def)

lemma ps2_keys: "length regs = 32 \<Longrightarrow> {(ascii ''sp'', regs ! 29), (ascii ''ra'', regs ! 31)} \<subseteq> set (zip ps2_register_names regs)"
  using in_zip [of 29 ps2_register_names regs "ascii ''sp''"]
    in_zip [of 31 ps2_register_names regs "ascii ''ra''"]
  by (simp add: register_names del: One_nat_def)

lemma psp_keys: "length regs = 32 \<Longrightarrow> {(ascii ''sp'', regs ! 29), (ascii ''ra'', regs ! 31)} \<subseteq> set (zip psp_register_names regs)"
  using in_zip [of 29 psp_register_names regs "ascii ''sp''"]
    in_zip [of 31 psp_register_names regs "ascii ''ra''"]
  by (simp add: register_names del: One_nat_def)

lemma x86_keys: "length regs = 20 \<Longrightarrow> {(ascii ''EIP'', regs ! 0), (ascii ''EFLAGS'', regs ! 1), (ascii ''EBP'', regs ! 8), (ascii ''ESP'', regs ! 9), (ascii ''CR2'', regs ! 17)} \<subseteq> set (zip x86_register_names regs)"
  using in_zip [of 0 x86_register_names regs "ascii ''EIP''"]
    in_zip [of 1 x86_register_names regs "ascii ''EFLAGS''"]
    in_zip [of 8 x86_register_names regs "ascii ''EBP''"]
    in_zip [of 9 x86_register_names regs "ascii ''ESP''"]
    in_zip [of 17 x86_register_names regs "ascii ''CR2''"]
  by (simp add: register_names del: One_nat_def)

definition reports :: "'o os \<Rightarrow> a2l_conf \<Rightarrow> (bytes \<times> u32) list \<Rightarrow> 'o \<times> trace_out \<Rightarrow> 'o \<times> trace_out \<Rightarrow> bool" where
  "reports os cf regs ot ot' = (\<exists>prefix title key rest lo hi syms stack. set key \<subseteq> set regs
     \<and> ot' = report_exception os cf prefix title key (concat (map reg_line regs) @ rest) lo hi syms stack ot)"

lemma reportsI:
  assumes "ot' = report_exception os cf prefix title key full lo hi syms stack ot" "full = concat (map reg_line regs) @ rest" "set key \<subseteq> set regs"
  shows "reports os cf regs ot ot'"
  using assms unfolding reports_def by blast

lemma crash_reported: "crash_on (a2l_console cf) k \<Longrightarrow> reports os cf (crash_registers k) ot (handle_exception os cf (crash_frame k) ot)"
proof (cases k)
  case (Dc_crash code regs)
  assume "crash_on (a2l_console cf) k"
  with Dc_crash have l: "length regs = 66" "handle_exception os cf (crash_frame k) ot = handle_dc_exception os cf (dc_frame code regs) ot"
    by (auto simp: handle_exception_def)
  show ?thesis unfolding l(2)
    by (rule reportsI [OF dc_report [OF l(1)], where rest = "[]"])
       (use dc_keys [OF l(1)] Dc_crash in \<open>auto simp: print_dc_registers_def\<close>)
next
  case (Gc_crash code regs fpu)
  assume "crash_on (a2l_console cf) k"
  with Gc_crash have l: "length regs = 40" "length fpu = 66" "handle_exception os cf (crash_frame k) ot = handle_gc_exception os cf (gc_frame code regs fpu) ot"
    by (auto simp: handle_exception_def)
  show ?thesis unfolding l(3)
    by (rule reportsI [OF gc_report [OF l(1,2)]])
       (use gc_keys [OF l(1)] Gc_crash in \<open>auto simp: gc_dump_def\<close>)
next
  case (Ps2_crash gpr epc status cause badv fpr fcr31 pad)
  assume "crash_on (a2l_console cf) k"
  with Ps2_crash have l: "length gpr = 32" "length fpr = 32" "length pad = 3"
    "handle_exception os cf (crash_frame k) ot = handle_ps2_exception os cf (ps2_frame gpr epc status cause badv fpr fcr31 pad) ot"
    by (auto simp: handle_exception_def)
  show ?thesis unfolding l(4)
    by (rule reportsI [OF ps2_report [OF l(1-3)]]) (use l(1) ps2_keys [of "map fst gpr"] Ps2_crash in \<open>auto simp: print_ps2_registers_def\<close>)
next
  case (Psp_crash gpr cause epc status badv nmi)
  assume "crash_on (a2l_console cf) k"
  with Psp_crash have l: "length gpr = 32" "length nmi = 8"
    "handle_exception os cf (crash_frame k) ot = handle_psp_exception os cf (psp_frame gpr cause epc status badv nmi) ot"
    by (auto simp: handle_exception_def)
  show ?thesis unfolding l(3)
    by (rule reportsI [OF psp_report [OF l(1,2)], where rest = "[]"])
       (use psp_keys [OF l(1)] Psp_crash in \<open>auto simp: print_psp_registers_def\<close>)
next
  case (Xbox_crash vector errcode regs stack)
  assume "crash_on (a2l_console cf) k"
  with Xbox_crash have l: "length regs = 20" "length stack = 32"
    "handle_exception os cf (crash_frame k) ot = handle_xbox_exception os cf (x86_frame vector errcode regs stack) ot"
    by (auto simp: handle_exception_def)
  show ?thesis unfolding l(3)
    by (rule reportsI [OF xbox_report [OF l(1,2)]])
       (use x86_keys [OF l(1)] Xbox_crash in \<open>auto simp: print_x86_registers_def\<close>)
qed



end
