(* ===== verification/Gdb.thy ===== *)
theory Gdb
  imports Kos_Base Client_State
begin

text \<open>
  The debugger relay: \<^verbatim>\<open>host/src/gdb.c\<close> and the part of \<^verbatim>\<open>host/src/console.c\<close> the two \<open>gdbpacket\<close> calls share. The host
  listens for GDB, passes packets of the remote serial protocol between it and the program, watches both directions for the
  detach command and its answer, and tells GDB when the program has ended. Sockets are operations over the state \<open>'o\<close> of the
  host; a socket is its number, negative when there is none. Messages are left out.
\<close>

section \<open>State\<close>

record 'o socks =
  so_init :: "'o \<Rightarrow> int \<times> 'o"
  so_cleanup :: "'o \<Rightarrow> 'o"
  so_tcp_socket :: "'o \<Rightarrow> int \<times> 'o"
  so_setsockopt_reuse :: "int \<Rightarrow> 'o \<Rightarrow> 'o"
  so_bind_listen :: "int \<Rightarrow> u16 \<Rightarrow> 'o \<Rightarrow> int \<times> 'o"
  so_accept :: "int \<Rightarrow> 'o \<Rightarrow> int \<times> 'o"
  so_send :: "int \<Rightarrow> bytes \<Rightarrow> 'o \<Rightarrow> int \<times> 'o"
  so_recv :: "int \<Rightarrow> nat \<Rightarrow> 'o \<Rightarrow> bytes option \<times> 'o"
  so_close :: "int \<Rightarrow> 'o \<Rightarrow> 'o"

record gdb_probe =
  in_packet :: bool
  checksum_bytes :: nat
  payload :: bytes

record gdb =
  gdb_server_socket :: int
  gdb_client_socket :: int
  gdb_detach_pending :: bool
  gdb_client_probe :: gdb_probe
  gdb_target_probe :: gdb_probe
  sockets_initialized :: bool

definition probe_clear :: gdb_probe where
  "probe_clear = \<lparr>in_packet = False, checksum_bytes = 0, payload = []\<rparr>"

section \<open>Sockets\<close>

definition gdb_socket_runtime_init :: "'o socks \<Rightarrow> gdb \<times> 'o \<Rightarrow> int \<times> gdb \<times> 'o" where
  "gdb_socket_runtime_init so gu = (case gu of (g, u) \<Rightarrow>
     if sockets_initialized g then (0, g, u)
     else case so_init so u of (rv, u) \<Rightarrow> if rv \<noteq> 0 then (- 1, g, u) else (0, g\<lparr>sockets_initialized := True\<rparr>, u))"

definition gdb_socket_runtime_cleanup :: "'o socks \<Rightarrow> gdb \<times> 'o \<Rightarrow> gdb \<times> 'o" where
  "gdb_socket_runtime_cleanup so gu = (case gu of (g, u) \<Rightarrow>
     if sockets_initialized g then (g\<lparr>sockets_initialized := False\<rparr>, so_cleanup so u) else (g, u))"

function gdb_send_all :: "'o socks \<Rightarrow> int \<Rightarrow> bytes \<Rightarrow> 'o \<Rightarrow> int \<times> 'o" where
  "gdb_send_all so sock buf u =
     (if buf = [] then (0, u)
      else case so_send so sock buf u of (rv, u) \<Rightarrow>
        if rv \<le> 0 then (- 1, u) else gdb_send_all so sock (drop (nat rv) buf) u)"
  by pat_completeness auto

termination
  by (relation "measure (\<lambda>(so, sock, buf, u). length buf)") auto

declare gdb_send_all.simps [simp del]

definition gdb_close_client :: "'o socks \<Rightarrow> gdb \<times> 'o \<Rightarrow> gdb \<times> 'o" where
  "gdb_close_client so gu = (case gu of (g, u) \<Rightarrow>
     if gdb_client_socket g \<ge> 0 then (g\<lparr>gdb_client_socket := - 1\<rparr>, so_close so (gdb_client_socket g) u) else (g, u))"

definition hex2 :: "u8 \<Rightarrow> bytes" where
  "hex2 v = [ascii ''0123456789abcdef'' ! unat (drop_bit 4 v), ascii ''0123456789abcdef'' ! unat (v AND 0xf)]"

definition rsp_checksum :: "bytes \<Rightarrow> u8" where
  "rsp_checksum bs = foldl (+) 0 bs"

definition gdb_report_program_exit :: "'o socks \<Rightarrow> u32 \<Rightarrow> gdb \<times> 'o \<Rightarrow> gdb \<times> 'o" where
  "gdb_report_program_exit so exit_code gu = (case gu of (g, u) \<Rightarrow>
     if gdb_client_socket g \<ge> 0 then
       let pl = ascii ''W'' @ hex2 (ucast (exit_code AND 0xff));
           packet = ascii ''$'' @ pl @ ascii ''#'' @ hex2 (rsp_checksum pl) in
       gdb_close_client so (g, snd (gdb_send_all so (gdb_client_socket g) packet u))
     else (g, u))"

definition gdb_init :: "'o socks \<Rightarrow> u16 \<Rightarrow> gdb \<times> 'o \<Rightarrow> int \<times> gdb \<times> 'o" where
  "gdb_init so port gu = (case gdb_socket_runtime_init so gu of (rv, g, u) \<Rightarrow>
     if rv \<noteq> 0 then (- 1, g, u)
     else case so_tcp_socket so u of (sock, u) \<Rightarrow>
       if sock < 0 then (- 1, g, u)
       else case so_bind_listen so sock port (so_setsockopt_reuse so sock u) of (rv, u) \<Rightarrow>
         if rv < 0 then (- 1, g\<lparr>gdb_server_socket := - 1\<rparr>, so_close so sock u)
         else (0, g\<lparr>gdb_server_socket := sock, gdb_client_socket := - 1\<rparr>, u))"

definition gdb_shutdown :: "'o socks \<Rightarrow> gdb \<times> 'o \<Rightarrow> gdb \<times> 'o" where
  "gdb_shutdown so gu = (case gdb_close_client so gu of (g, u) \<Rightarrow>
     if gdb_server_socket g \<ge> 0 then (g\<lparr>gdb_server_socket := - 1\<rparr>, so_close so (gdb_server_socket g) u) else (g, u))"

section \<open>Watching for the detach\<close>

text \<open>The payload as the C string comparison of its first bytes sees it.\<close>

definition payload_text :: "bytes \<Rightarrow> bytes" where
  "payload_text pl = takeWhile (\<lambda>b. b \<noteq> 0) pl"

text \<open>One byte of a stream: the packet parser, and whether a detach request or an \<open>OK\<close> has been seen complete.\<close>

definition probe_byte :: "nat \<Rightarrow> u8 \<Rightarrow> gdb_probe \<times> bool \<times> bool \<Rightarrow> gdb_probe \<times> bool \<times> bool" where
  "probe_byte payload_cap ch pf = (case pf of (p, saw_detach, saw_ok) \<Rightarrow>
     if \<not> in_packet p then
       (if ch = 0x24 then p\<lparr>in_packet := True, checksum_bytes := 0, payload := []\<rparr> else p, saw_detach, saw_ok)
     else if ch = 0x24 then (p\<lparr>checksum_bytes := 0, payload := []\<rparr>, saw_detach, saw_ok)
     else if checksum_bytes p \<noteq> 0 then
       (if Suc (checksum_bytes p) = 3
        then (p\<lparr>in_packet := False, checksum_bytes := 0, payload := []\<rparr>,
              saw_detach \<or> payload_text (payload p) = [0x44] \<or> take 2 (payload_text (payload p)) = [0x44, 0x3b],
              saw_ok \<or> payload_text (payload p) = [0x4f, 0x4b])
        else (p\<lparr>checksum_bytes := Suc (checksum_bytes p)\<rparr>, saw_detach, saw_ok))
     else if ch = 0x23 then (p\<lparr>checksum_bytes := 1\<rparr>, saw_detach, saw_ok)
     else (if length (payload p) + 1 < payload_cap then p\<lparr>payload := payload p @ [ch]\<rparr> else p, saw_detach, saw_ok))"

definition gdb_probe_stream :: "nat \<Rightarrow> bytes \<Rightarrow> gdb_probe \<Rightarrow> gdb_probe \<times> bool \<times> bool" where
  "gdb_probe_stream payload_cap dat p = fold (probe_byte payload_cap) dat (p, False, False)"

definition PROBE_CAP :: nat where "PROBE_CAP = 32"

definition gdb_note_client_bytes :: "bytes \<Rightarrow> gdb \<Rightarrow> gdb" where
  "gdb_note_client_bytes dat g = (case gdb_probe_stream PROBE_CAP dat (gdb_client_probe g) of (p, saw_detach, _) \<Rightarrow>
     let g = g\<lparr>gdb_client_probe := p\<rparr> in if saw_detach then g\<lparr>gdb_detach_pending := True\<rparr> else g)"

definition gdb_note_target_bytes :: "bytes \<Rightarrow> gdb \<Rightarrow> bool \<times> gdb" where
  "gdb_note_target_bytes dat g =
     (if \<not> gdb_detach_pending g then (False, g)
      else case gdb_probe_stream PROBE_CAP dat (gdb_target_probe g) of (p, _, saw_ok) \<Rightarrow> (saw_ok, g\<lparr>gdb_target_probe := p\<rparr>))"

definition gdb_clear_detach_state :: "gdb \<Rightarrow> gdb" where
  "gdb_clear_detach_state g = g\<lparr>gdb_detach_pending := False, gdb_client_probe := probe_clear, gdb_target_probe := probe_clear\<rparr>"

section \<open>Relaying a packet\<close>

text \<open>
  What a \<open>gdbpacket\<close> call does once its arguments are there: the answer is the call's result with the bytes from GDB.
  \<open>gdb_drop\<close> closes the connection and forgets what was seen of it.
\<close>

definition gdb_drop :: "'o socks \<Rightarrow> gdb \<times> 'o \<Rightarrow> gdb \<times> 'o" where
  "gdb_drop so gu = (case gdb_close_client so gu of (g, u) \<Rightarrow> (gdb_clear_detach_state g, u))"

definition gdb_connect :: "'o socks \<Rightarrow> gdb \<times> 'o \<Rightarrow> bool \<times> gdb \<times> 'o" where
  "gdb_connect so gu = (case gu of (g, u) \<Rightarrow>
     if gdb_server_socket g < 0 then (False, g, u)
     else if gdb_client_socket g < 0 then
       (case so_accept so (gdb_server_socket g) u of (sock, u) \<Rightarrow> (\<not> sock < 0, g\<lparr>gdb_client_socket := sock\<rparr>, u))
     else (True, g, u))"

definition gdb_forward :: "'o socks \<Rightarrow> bytes \<Rightarrow> gdb \<times> 'o \<Rightarrow> (bool \<times> bool) \<times> gdb \<times> 'o" where
  "gdb_forward so in_buf gu = (case gu of (g, u) \<Rightarrow>
     if in_buf = [] then ((True, False), g, u)
     else case gdb_note_target_bytes in_buf g of (close_after_reply, g) \<Rightarrow>
       case gdb_send_all so (gdb_client_socket g) in_buf u of (rv, u) \<Rightarrow>
         if rv < 0 then ((False, close_after_reply), gdb_drop so (g, u)) else ((True, close_after_reply), g, u))"

definition gdb_answer :: "'o socks \<Rightarrow> nat \<Rightarrow> gdb \<times> 'o \<Rightarrow> bytes \<times> gdb \<times> 'o" where
  "gdb_answer so out_size gu = (case gu of (g, u) \<Rightarrow>
     if out_size = 0 then ([], g, u)
     else case so_recv so (gdb_client_socket g) (min out_size 1024) u of (r, u) \<Rightarrow>
       (case r of None \<Rightarrow> ([], gdb_drop so (g, u))
        | Some dat \<Rightarrow> if dat = [] then ([], gdb_drop so (g, u)) else (dat, gdb_note_client_bytes dat g, u)))"

definition gdb_relay :: "'o socks \<Rightarrow> bytes \<Rightarrow> nat \<Rightarrow> gdb \<times> 'o \<Rightarrow> (u32 \<times> bytes) \<times> gdb \<times> 'o" where
  "gdb_relay so in_buf out_size gu =
     (case gdb_connect so gu of (ok, gu) \<Rightarrow>
       if \<not> ok then ((- 1, []), gu)
       else case gdb_forward so in_buf gu of ((ok, close_after_reply), gu) \<Rightarrow>
         if \<not> ok then ((0, []), gu)
         else case gdb_answer so out_size gu of (dat, gu) \<Rightarrow>
           ((of_nat (length dat), dat), if close_after_reply then gdb_drop so gu else gu))"

section \<open>Detach\<close>

lemma fold_probe_flags: "fold (probe_byte cap) dat (p, d, k)
    = (case fold (probe_byte cap) dat (p, False, False) of (p', d', k') \<Rightarrow> (p', d \<or> d', k \<or> k'))"
proof (induction dat arbitrary: p d k)
  case (Cons c dat)
  obtain p1 d1 k1 where b: "probe_byte cap c (p, False, False) = (p1, d1, k1)" by (metis prod_cases3)
  then have "probe_byte cap c (p, d, k) = (p1, d \<or> d1, k \<or> k1)" by (auto simp: probe_byte_def split: if_splits)
  with b Cons.IH [of p1 "d \<or> d1" "k \<or> k1"] Cons.IH [of p1 d1 k1] show ?case by (auto split: prod.splits)
qed simp

lemma probe_idle: "\<forall>b \<in> set junk. b \<noteq> 0x24 \<Longrightarrow> \<not> in_packet p \<Longrightarrow> fold (probe_byte cap) junk (p, d, k) = (p, d, k)"
  by (induction junk) (auto simp: probe_byte_def)

lemma probe_payload: "in_packet p \<Longrightarrow> checksum_bytes p = 0 \<Longrightarrow> \<forall>b \<in> set pl. b \<noteq> 0x24 \<and> b \<noteq> 0x23 \<Longrightarrow> length (payload p) < cap \<Longrightarrow>
  fold (probe_byte cap) pl (p, d, k) = (p\<lparr>payload := take (cap - 1) (payload p @ pl)\<rparr>, d, k)"
proof (induction pl arbitrary: p)
  case (Cons b pl)
  show ?case
  proof (cases "length (payload p) + 1 < cap")
    case True
    then obtain n where n: "cap - Suc (length (payload p)) = Suc n" by (metis Suc_diff_Suc Suc_eq_plus1)
    moreover have "probe_byte cap b (p, d, k) = (p\<lparr>payload := payload p @ [b]\<rparr>, d, k)"
      using True Cons.prems by (simp add: probe_byte_def)
    moreover have "cap - Suc (Suc (length (payload p))) = n" "Suc (length (payload p)) < cap" using n True by simp_all
    ultimately show ?thesis using Cons.IH [of "p\<lparr>payload := payload p @ [b]\<rparr>"] Cons.prems by simp
  next
    case False
    then have "length (payload p) = cap - 1" using Cons.prems by simp
    moreover have "probe_byte cap b (p, d, k) = (p, d, k)" using False Cons.prems by (simp add: probe_byte_def)
    ultimately show ?thesis using Cons by simp
  qed
qed auto

lemma take_short_eq: "length ys < n \<Longrightarrow> take n xs = ys \<longleftrightarrow> xs = ys"
  by (metis length_take min_def not_less take_all le_eq_less_or_eq)

lemma payload_text_take: "payload_text (take n pl) = take n (payload_text pl)"
proof (induction pl arbitrary: n)
  case (Cons b pl)
  then show ?case by (cases n) (simp_all add: payload_text_def)
qed (simp add: payload_text_def)

lemma probe_packet:
  assumes "\<not> in_packet p" "\<forall>b \<in> set junk. b \<noteq> 0x24" "\<forall>b \<in> set pl. b \<noteq> 0x24 \<and> b \<noteq> 0x23" "c1 \<noteq> 0x24" "c2 \<noteq> 0x24" "3 < cap"
  shows "fold (probe_byte cap) (junk @ 0x24 # pl @ [0x23, c1, c2]) (p, d, k)
    = (probe_clear, d \<or> payload_text pl = [0x44] \<or> take 2 (payload_text pl) = [0x44, 0x3b], k \<or> payload_text pl = [0x4f, 0x4b])"
proof -
  define q where "q = p\<lparr>in_packet := True, checksum_bytes := 0, payload := []\<rparr>"
  have "fold (probe_byte cap) (junk @ 0x24 # pl @ [0x23, c1, c2]) (p, d, k)
      = fold (probe_byte cap) [0x23, c1, c2] (fold (probe_byte cap) pl (q, d, k))"
    using assms(1,2) by (simp add: probe_idle) (simp add: probe_byte_def q_def)
  also have "fold (probe_byte cap) pl (q, d, k) = (q\<lparr>payload := take (cap - 1) pl\<rparr>, d, k)"
    using assms(3,6) by (subst probe_payload) (auto simp: q_def)
  also have "fold (probe_byte cap) [0x23, c1, c2] (q\<lparr>payload := take (cap - 1) pl\<rparr>, d, k)
      = (probe_clear, d \<or> take (cap - 1) (payload_text pl) = [0x44] \<or> take 2 (take (cap - 1) (payload_text pl)) = [0x44, 0x3b], k \<or> take (cap - 1) (payload_text pl) = [0x4f, 0x4b])"
    using assms(4,5) by (simp add: probe_byte_def q_def probe_clear_def payload_text_take)
  finally have packet: "fold (probe_byte cap) (junk @ 0x24 # pl @ [0x23, c1, c2]) (p, d, k)
      = (probe_clear, d \<or> take (cap - 1) (payload_text pl) = [0x44] \<or> take 2 (take (cap - 1) (payload_text pl)) = [0x44, 0x3b], k \<or> take (cap - 1) (payload_text pl) = [0x4f, 0x4b])" .
  have "take (cap - 1) (payload_text pl) = [0x44] \<longleftrightarrow> payload_text pl = [0x44]"
    "take (cap - 1) (payload_text pl) = [0x4f, 0x4b] \<longleftrightarrow> payload_text pl = [0x4f, 0x4b]"
    "take 2 (take (cap - 1) (payload_text pl)) = take 2 (payload_text pl)"
    using assms(6) take_short_eq [of "[0x44]" "cap - 1" "payload_text pl"] take_short_eq [of "[0x4f, 0x4b]" "cap - 1" "payload_text pl"] by (auto simp: min_def)
  then show ?thesis using packet by simp
qed

definition is_detach :: "bytes \<Rightarrow> bool" where
  "is_detach pl = (payload_text pl = [0x44] \<or> take 2 (payload_text pl) = [0x44, 0x3b])"

definition packet_stream :: "bytes \<Rightarrow> bytes \<Rightarrow> u8 \<Rightarrow> u8 \<Rightarrow> bytes" where
  "packet_stream junk pl c1 c2 = junk @ 0x24 # pl @ [0x23, c1, c2]"

lemma note_client_chunks:
  "fold gdb_note_client_bytes chunks g = (case fold (probe_byte PROBE_CAP) (concat chunks) (gdb_client_probe g, False, False) of
     (p, saw_detach, _) \<Rightarrow> g\<lparr>gdb_client_probe := p, gdb_detach_pending := gdb_detach_pending g \<or> saw_detach\<rparr>)"
proof (induction chunks arbitrary: g)
  case (Cons dat chunks)
  obtain p d k where f: "fold (probe_byte PROBE_CAP) dat (gdb_client_probe g, False, False) = (p, d, k)" by (metis prod_cases3)
  show ?case
    using Cons fold_probe_flags [of PROBE_CAP "concat chunks" p d k]
    by (auto simp: f gdb_note_client_bytes_def gdb_probe_stream_def Let_def split: prod.splits)
qed simp

fun note_target_chunks :: "bytes list \<Rightarrow> gdb \<Rightarrow> bool \<times> gdb" where
  "note_target_chunks [] g = (False, g)"
| "note_target_chunks (dat # chunks) g =
     (case gdb_note_target_bytes dat g of (ok, g) \<Rightarrow> case note_target_chunks chunks g of (ok', g) \<Rightarrow> (ok \<or> ok', g))"

lemma note_target_concat:
  "gdb_detach_pending g \<Longrightarrow> note_target_chunks chunks g
     = (case fold (probe_byte PROBE_CAP) (concat chunks) (gdb_target_probe g, False, False) of
          (p, _, saw_ok) \<Rightarrow> (saw_ok, g\<lparr>gdb_target_probe := p\<rparr>))"
proof (induction chunks arbitrary: g)
  case (Cons dat chunks)
  obtain p d k where f: "fold (probe_byte PROBE_CAP) dat (gdb_target_probe g, False, False) = (p, d, k)" by (metis prod_cases3)
  show ?case
    using Cons fold_probe_flags [of PROBE_CAP "concat chunks" p d k]
    by (auto simp: f gdb_note_target_bytes_def gdb_probe_stream_def split: prod.splits)
qed simp

text \<open>
  C19. The detach handshake is recognised however the sockets cut the stream. GDB's bytes, whatever precedes the packet
  and however they are split into reads, leave a detach pending exactly when the packet's payload is a detach request (or one
  was pending before); with one pending, the program's bytes report the end of the session exactly when their packet is \<open>OK\<close>.
  Both parsers are back between packets afterwards.
\<close>

theorem detach_recognised_across_chunks:
  assumes "\<not> in_packet (gdb_client_probe g)" "\<forall>b \<in> set junk. b \<noteq> 0x24" "\<forall>b \<in> set pl. b \<noteq> 0x24 \<and> b \<noteq> 0x23" "c1 \<noteq> 0x24" "c2 \<noteq> 0x24"
    and "concat chunks = packet_stream junk pl c1 c2"
    and "\<not> in_packet (gdb_target_probe h)" "gdb_detach_pending h" "\<forall>b \<in> set junk'. b \<noteq> 0x24"
    and "\<forall>b \<in> set pl'. b \<noteq> 0x24 \<and> b \<noteq> 0x23" "c1' \<noteq> 0x24" "c2' \<noteq> 0x24" "concat chunks' = packet_stream junk' pl' c1' c2'"
  shows "fold gdb_note_client_bytes chunks g
      = g\<lparr>gdb_client_probe := probe_clear, gdb_detach_pending := gdb_detach_pending g \<or> is_detach pl\<rparr>
    \<and> note_target_chunks chunks' h = (payload_text pl' = [0x4f, 0x4b], h\<lparr>gdb_target_probe := probe_clear\<rparr>)"
proof
  have cap: "3 < PROBE_CAP" by (simp add: PROBE_CAP_def)
  show "fold gdb_note_client_bytes chunks g
      = g\<lparr>gdb_client_probe := probe_clear, gdb_detach_pending := gdb_detach_pending g \<or> is_detach pl\<rparr>"
    using assms(6) probe_packet [OF assms(1-5) cap, of False False]
    by (simp add: note_client_chunks packet_stream_def is_detach_def)
  show "note_target_chunks chunks' h = (payload_text pl' = [0x4f, 0x4b], h\<lparr>gdb_target_probe := probe_clear\<rparr>)"
    using assms(13) probe_packet [OF assms(7,9-12) cap, of False False]
    by (simp add: note_target_concat [OF assms(8)] packet_stream_def)
qed

definition example_gdb :: gdb where
  "example_gdb = \<lparr>gdb_server_socket = 3, gdb_client_socket = 4, gdb_detach_pending = False, gdb_client_probe = probe_clear,
     gdb_target_probe = probe_clear, sockets_initialized = True\<rparr>"

theorem detach_recognised_across_chunks_witness:
  "fold gdb_note_client_bytes [[0x2b, 0x24], [0x44, 0x23, 0x34], [0x34]] example_gdb = example_gdb\<lparr>gdb_detach_pending := True\<rparr>
   \<and> note_target_chunks [[0x2b, 0x24, 0x4f], [0x4b, 0x23, 0x39, 0x61]] (example_gdb\<lparr>gdb_detach_pending := True\<rparr>)
     = (True, example_gdb\<lparr>gdb_detach_pending := True\<rparr>)"
  using detach_recognised_across_chunks [where g = example_gdb and junk = "[0x2b]" and pl = "[0x44]" and ?c1.0 = "0x34" and ?c2.0 = "0x34"
      and chunks = "[[0x2b, 0x24], [0x44, 0x23, 0x34], [0x34]]" and h = "example_gdb\<lparr>gdb_detach_pending := True\<rparr>" and junk' = "[0x2b]"
      and pl' = "[0x4f, 0x4b]" and c1' = "0x39" and c2' = "0x61" and chunks' = "[[0x2b, 0x24, 0x4f], [0x4b, 0x23, 0x39, 0x61]]"]
  by (simp add: example_gdb_def probe_clear_def packet_stream_def is_detach_def payload_text_def)

end
