(* ===== verification/Serial_Console.thy ===== *)
theory Serial_Console
  imports Exceptions Gdb
begin

text \<open>
  The serial console, \<^verbatim>\<open>host/src/console.c\<close>: once a program runs, the host reads one byte per system call, takes the
  arguments off the line, performs the call and sends back the result. The state is the serial side of the host
  (\<open>Serial_Host\<close>), the operating system, the terminal output (\<open>Console_Output\<close>), the debugger relay (\<open>Gdb\<close>) and the table of open
  directories. \<open>None\<close> is a read that never returns, a loop that does not end, or an access outside a buffer.
\<close>

section \<open>State\<close>

record ('w, 'o) console =
  con_host :: "'w shost"
  con_os :: 'o
  con_out :: trace_out
  con_gdb :: gdb
  ser_link_dead :: bool
  opendirs :: "nat option list"
  gdb_buf :: bytes
  map_path :: "bytes option"
  cdfs_fd :: u32
  cdfs_enabled :: bool
  iso_filename :: "bytes option"

text \<open>
  What the handlers use besides the port: the system, its sockets and clock, the settings of addr2line, and the byte that
  stands for the contents of fresh memory.
\<close>

record 'o con_env =
  env_os :: "'o os"
  env_socks :: "'o socks"
  env_a2l :: a2l_conf
  env_bytes_available :: "'o \<Rightarrow> int"
  env_junk :: u8

abbreviation MAX_PATH_LEN :: nat where "MAX_PATH_LEN \<equiv> 4096"
abbreviation MAX_SYSCALL_SIZE :: u32 where "MAX_SYSCALL_SIZE \<equiv> 0x02000000"
abbreviation MAX_OPEN_DIRS :: nat where "MAX_OPEN_DIRS \<equiv> 512"
abbreviation DIRENT_OFFSET :: u32 where "DIRENT_OFFSET \<equiv> 1337"

section \<open>Serial helpers\<close>

definition cwrite :: "'w serial_ops \<Rightarrow> bytes \<Rightarrow> ('w, 'o) console \<Rightarrow> ('w, 'o) console" where
  "cwrite ops bs c = c\<lparr>con_host := swrite ops bs (con_host c)\<rparr>"

function ser_read_loop :: "'w serial_ops \<Rightarrow> int \<Rightarrow> 'w shost \<Rightarrow> (bool \<times> bytes \<times> 'w shost) option" where
  "ser_read_loop ops cnt h =
     (if cnt \<le> 0 then Some (True, [], h)
      else case sread ops (nat cnt) h of None \<Rightarrow> None
        | Some (bs, h) \<Rightarrow>
          if bs = [] then Some (False, [], h)
          else map_option (\<lambda>(ok, r, h). (ok, bs @ r, h)) (ser_read_loop ops (cnt - int (length bs)) h))"
  by pat_completeness auto

termination
  by (relation "measure (\<lambda>(ops, cnt, h). nat cnt)") (auto simp: Suc_le_eq)

declare ser_read_loop.simps [simp del]

definition ser_blread :: "'w serial_ops \<Rightarrow> int \<Rightarrow> ('w, 'o) console \<Rightarrow> (bool \<times> bytes \<times> ('w, 'o) console) option" where
  "ser_blread ops cnt c =
     (if ser_link_dead c then Some (False, [], c)
      else map_option (\<lambda>(ok, bs, h). (ok, bs, c\<lparr>con_host := h, ser_link_dead := \<not> ok\<rparr>)) (ser_read_loop ops cnt (con_host c)))"

definition ser_send_uint :: "'w serial_ops \<Rightarrow> u32 \<Rightarrow> ('w, 'o) console \<Rightarrow> ('w, 'o) console option" where
  "ser_send_uint ops val c =
     (let c = cwrite ops [ucast (val AND 0xff)] c;
          c = cwrite ops [ucast (drop_bit 8 val AND 0xff)] c;
          c = cwrite ops [ucast (drop_bit 16 val AND 0xff)] c;
          c = cwrite ops [ucast (drop_bit 24 val AND 0xff)] c in
      map_option (\<lambda>(ok, e, c). c) (ser_blread ops 4 c))"

definition ser_recv_uint :: "'w serial_ops \<Rightarrow> ('w, 'o) console \<Rightarrow> (u32 \<times> ('w, 'o) console) option" where
  "ser_recv_uint ops c = map_option (\<lambda>(ok, b, c).
     (if ok then ucast (b ! 0) OR push_bit 8 (ucast (b ! 1)) OR push_bit 16 (ucast (b ! 2)) OR push_bit 24 (ucast (b ! 3)) else 0, c))
     (ser_blread ops 4 c)"

text \<open>The retries of a compressed block, then one block, then the loop.\<close>

partial_function (option) ser_write_until_good ::
  "'w serial_ops \<Rightarrow> bytes \<Rightarrow> u8 \<Rightarrow> ('w, 'o) console \<Rightarrow> (bool \<times> ('w, 'o) console) option" where
  "ser_write_until_good ops buffer ack c =
     (if ack = SERIAL_DATA_GOOD then Some (True, c)
      else Option.bind (ser_blread ops 1 (cwrite ops [xor_sum buffer] (cwrite ops buffer c))) (\<lambda>(ok, b, c).
        if \<not> ok then Some (False, c) else ser_write_until_good ops buffer (hd b) c))"

declare ser_write_until_good.simps [code]

definition ser_send_block :: "'w serial_ops \<Rightarrow> bytes \<Rightarrow> u32 \<Rightarrow> ('w, 'o) console \<Rightarrow> (bool \<times> ('w, 'o) console) option" where
  "ser_send_block ops dat sendsize c =
     (let buffer = lzo1x_1_compress (sop_lzo ops) dat in
      if length buffer > 16384 + 16384 div 64 + 16 + 3 then None
      else if length buffer < unat sendsize
      then Option.bind (ser_send_uint ops (of_nat (length buffer)) (cwrite ops [SERIAL_DATA_COMPRESSED] c))
             (ser_write_until_good ops buffer SERIAL_DATA_BAD)
      else Option.bind (ser_send_uint ops sendsize (cwrite ops [SERIAL_DATA_UNCOMPRESSED] c)) (\<lambda>c.
             map_option (\<lambda>(ok, b, c). (ok, c)) (ser_blread ops 1 (cwrite ops [xor_sum dat] (cwrite ops dat c)))))"

partial_function (option) ser_send_blocks :: "'w serial_ops \<Rightarrow> bytes \<Rightarrow> u32 \<Rightarrow> ('w, 'o) console \<Rightarrow> ('w, 'o) console option" where
  "ser_send_blocks ops addr sz c =
     (if sz = 0 then Some c
      else let sendsize = (if sz > SERIAL_BUFFER_SIZE then SERIAL_BUFFER_SIZE else sz) in
        if length addr < unat sendsize then None
        else Option.bind (ser_send_block ops (take (unat sendsize) addr) sendsize c) (\<lambda>(ok, c).
          if \<not> ok then Some c else ser_send_blocks ops (drop (unat sendsize) addr) (sz - sendsize) c))"

declare ser_send_blocks.simps [code]

definition ser_send_data :: "'w serial_ops \<Rightarrow> bytes \<Rightarrow> u32 \<Rightarrow> ('w, 'o) console \<Rightarrow> ('w, 'o) console option" where
  "ser_send_data ops addr sz c =
     (if \<not> sop_malloc ops (16384 + 16384 div 64 + 16 + 3) then Some c else ser_send_blocks ops addr sz c)"

text \<open>The read of a block to an offset of the buffer, and into fresh memory.\<close>

definition ser_blread_at :: "'w serial_ops \<Rightarrow> bytes \<Rightarrow> nat \<Rightarrow> u32 \<Rightarrow> ('w, 'o) console \<Rightarrow> (bool \<times> bytes \<times> ('w, 'o) console) option" where
  "ser_blread_at ops buf off n c =
     (if 0 \<le> sint n \<and> off + unat n > length buf then None
      else Option.bind (ser_blread ops (sint n) c) (\<lambda>(ok, bs, c). map_option (\<lambda>buf. (ok, buf, c)) (put_at buf off bs)))"

definition ser_blread_tmp :: "'w serial_ops \<Rightarrow> u32 \<Rightarrow> ('w, 'o) console \<Rightarrow> (bool \<times> bytes \<times> ('w, 'o) console) option" where
  "ser_blread_tmp ops n c = map_option (\<lambda>(ok, bs, c). (ok, bs @ replicate (unat n - length bs) (sop_junk ops), c)) (ser_blread ops (sint n) c)"

partial_function (option) ser_recv_blocks ::
  "'w serial_ops \<Rightarrow> bytes \<Rightarrow> nat \<Rightarrow> u32 \<Rightarrow> ('w, 'o) console \<Rightarrow> (bytes \<times> ('w, 'o) console) option" where
  "ser_recv_blocks ops buf out tot c =
     (if tot = 0 then Some (buf, c)
      else Option.bind (ser_blread ops 1 c) (\<lambda>(ok, type, c). if \<not> ok then Some (buf, c) else
        Option.bind (ser_recv_uint ops c) (\<lambda>(sz, c). if ser_link_dead c then Some (buf, c)
          else if hd type = SERIAL_DATA_UNCOMPRESSED then
            Option.bind (ser_blread_at ops buf out sz c) (\<lambda>(ok, buf, c). if \<not> ok then Some (buf, c) else
            Option.bind (ser_blread ops 1 c) (\<lambda>(ok, sum, c). if \<not> ok then Some (buf, c) else
              ser_recv_blocks ops buf (out + unat sz) (tot - sz) (cwrite ops [SERIAL_DATA_GOOD] c)))
          else if hd type = SERIAL_DATA_COMPRESSED then
            (if \<not> sop_malloc ops (unat sz) then Some (buf, c)
             else Option.bind (ser_blread_tmp ops sz c) (\<lambda>(ok, tmp, c). if \<not> ok then Some (buf, c) else
               Option.bind (ser_blread ops 1 c) (\<lambda>(ok, sum, c). if \<not> ok then Some (buf, c) else
               Option.bind (put_at buf out (snd (lzo1x_decompress (sop_lzo ops) tmp))) (\<lambda>buf.
                 if fst (lzo1x_decompress (sop_lzo ops) tmp)
                 then ser_recv_blocks ops buf (out + length (snd (lzo1x_decompress (sop_lzo ops) tmp)))
                        (tot - of_nat (length (snd (lzo1x_decompress (sop_lzo ops) tmp)))) (cwrite ops [SERIAL_DATA_GOOD] c)
                 else ser_recv_blocks ops buf out tot (cwrite ops [SERIAL_DATA_BAD] c)))))
          else ser_recv_blocks ops buf out tot c)))"

declare ser_recv_blocks.simps [code]

definition ser_recv_data :: "'w serial_ops \<Rightarrow> bytes \<Rightarrow> u32 \<Rightarrow> ('w, 'o) console \<Rightarrow> (bytes \<times> ('w, 'o) console) option" where
  "ser_recv_data ops dat tot c = ser_recv_blocks ops dat 0 tot c"

section \<open>System calls\<close>

definition os_call :: "('o \<Rightarrow> 'r \<times> 'o) \<Rightarrow> ('w, 'o) console \<Rightarrow> 'r \<times> ('w, 'o) console" where
  "os_call f c = (case f (con_os c) of (r, u) \<Rightarrow> (r, c\<lparr>con_os := u\<rparr>))"

definition send_result :: "'w serial_ops \<Rightarrow> u32 \<times> ('w, 'o) console \<Rightarrow> ('w, 'o) console option" where
  "send_result ops rc = ser_send_uint ops (fst rc) (snd rc)"

text \<open>
  The beginning of every call that takes a path: its length, the checks, the bytes. A call that fails here answers \<open>err\<close>.
  \<open>resolve_path\<close> of a path without a terminator reads past the allocation.
\<close>

definition ser_recv_path ::
  "'w serial_ops \<Rightarrow> u32 \<Rightarrow> (bytes \<Rightarrow> ('w, 'o) console \<Rightarrow> ('w, 'o) console option) \<Rightarrow> ('w, 'o) console \<Rightarrow> ('w, 'o) console option" where
  "ser_recv_path ops err k c =
     Option.bind (ser_recv_uint ops c) (\<lambda>(namelen, c).
       if namelen = 0 \<or> unat namelen > MAX_PATH_LEN \<or> \<not> sop_malloc ops (unat namelen) then ser_send_uint ops err c
       else Option.bind (ser_recv_data ops (replicate (unat namelen) (sop_junk ops)) namelen c) (\<lambda>(name, c). k name c))"

definition resolve_path :: "bytes \<Rightarrow> ('w, 'o) console \<Rightarrow> bytes option" where
  "resolve_path name c = (if 0 \<in> set name then Some (posix_resolve_path (map_path c) MAX_PATH_LEN name) else None)"

text \<open>A call that passes a resolved path to the system and answers with the result.\<close>

definition path_call ::
  "'w serial_ops \<Rightarrow> (bytes \<Rightarrow> 'o \<Rightarrow> u32 \<times> 'o) \<Rightarrow> bytes \<Rightarrow> ('w, 'o) console \<Rightarrow> ('w, 'o) console option" where
  "path_call ops f name c = Option.bind (resolve_path name c) (\<lambda>path. send_result ops (os_call (f path) c))"

definition stat_zero :: host_stat where
  "stat_zero = \<lparr>st_dev = 0, st_ino = 0, st_mode = 0, st_nlink = 0, st_uid = 0, st_gid = 0, st_rdev = 0, st_size = 0,
     st_blksize = 0, st_blocks = 0, st_atime = 0, st_mtime = 0, st_ctime = 0\<rparr>"

definition stat_words :: "host_stat \<Rightarrow> u32 list" where
  "stat_words st = map ucast [st_dev st, st_ino st, st_mode st, st_nlink st, st_uid st, st_gid st, st_rdev st, st_size st,
     st_blksize st, st_blocks st, st_atime st, st_mtime st, st_ctime st]"

fun ser_send_uints :: "'w serial_ops \<Rightarrow> u32 list \<Rightarrow> ('w, 'o) console \<Rightarrow> ('w, 'o) console option" where
  "ser_send_uints ops [] c = Some c"
| "ser_send_uints ops (v # vs) c = Option.bind (ser_send_uint ops v c) (ser_send_uints ops vs)"

text \<open>The thirteen fields, zero where the system filled in nothing, and the result.\<close>

definition send_stat :: "'w serial_ops \<Rightarrow> (u32 \<times> host_stat option) \<times> ('w, 'o) console \<Rightarrow> ('w, 'o) console option" where
  "send_stat ops rc = (case rc of ((ret, st), c) \<Rightarrow>
     ser_send_uints ops (stat_words (case st of None \<Rightarrow> stat_zero | Some s \<Rightarrow> s) @ [ret]) c)"

definition ser_syscall_fstat :: "'w serial_ops \<Rightarrow> 'o os \<Rightarrow> ('w, 'o) console \<Rightarrow> ('w, 'o) console option" where
  "ser_syscall_fstat ops os c = Option.bind (ser_recv_uint ops c) (\<lambda>(fd, c). send_stat ops (os_call (os_fstat os fd) c))"

definition console_out :: "'o con_env \<Rightarrow> u32 \<Rightarrow> bytes \<Rightarrow> ('w, 'o) console \<Rightarrow> u32 \<times> ('w, 'o) console" where
  "console_out env fd dat c =
     (if length dat \<ge> 8 \<and> take 4 dat = ascii ''EXPT''
      then case handle_exception (env_os env) (env_a2l env) dat (con_os c, con_out c) of (u, tr) \<Rightarrow>
        (of_nat (length dat), c\<lparr>con_os := u, con_out := tr\<rparr>)
      else case console_write (env_os env) (env_a2l env) fd dat (con_os c, con_out c) of (ret, u, tr) \<Rightarrow>
        (ret, c\<lparr>con_os := u, con_out := tr\<rparr>))"

definition ser_syscall_write :: "'w serial_ops \<Rightarrow> 'o con_env \<Rightarrow> ('w, 'o) console \<Rightarrow> ('w, 'o) console option" where
  "ser_syscall_write ops env c =
     Option.bind (ser_recv_uint ops c) (\<lambda>(fd, c).
     Option.bind (ser_recv_uint ops c) (\<lambda>(count, c).
       if count = 0 then ser_send_uint ops 0 c
       else if count > MAX_SYSCALL_SIZE \<or> \<not> sop_malloc ops (unat count) then ser_send_uint ops (- 1) c
       else Option.bind (ser_recv_data ops (replicate (unat count) (sop_junk ops)) count c) (\<lambda>(dat, c).
         if fd \<noteq> 1 \<and> fd \<noteq> 2
         then Option.bind (write_full (env_os env) fd dat count (con_os c)) (\<lambda>(ret, u). ser_send_uint ops ret (c\<lparr>con_os := u\<rparr>))
         else send_result ops (console_out env fd dat c))))"

text \<open>What \<open>read\<close> delivered, in the fresh buffer; the whole buffer is sent.\<close>

definition ser_syscall_read :: "'w serial_ops \<Rightarrow> 'o os \<Rightarrow> ('w, 'o) console \<Rightarrow> ('w, 'o) console option" where
  "ser_syscall_read ops os c =
     Option.bind (ser_recv_uint ops c) (\<lambda>(fd, c).
     Option.bind (ser_recv_uint ops c) (\<lambda>(count, c).
       if count = 0 \<or> count > MAX_SYSCALL_SIZE \<or> \<not> sop_malloc ops (unat count) then ser_send_uint ops (- 1) c
       else case os_call (os_read os fd (unat count)) c of (r, c) \<Rightarrow>
         Option.bind (put_at (replicate (unat count) (sop_junk ops)) 0 (case r of None \<Rightarrow> [] | Some bs \<Rightarrow> bs)) (\<lambda>dat.
         Option.bind (ser_send_data ops dat count c)
           (ser_send_uint ops (case r of None \<Rightarrow> - 1 | Some bs \<Rightarrow> of_nat (length bs))))))"

definition ser_syscall_open :: "'w serial_ops \<Rightarrow> 'o os \<Rightarrow> ('w, 'o) console \<Rightarrow> ('w, 'o) console option" where
  "ser_syscall_open ops os = ser_recv_path ops (- 1) (\<lambda>name c.
     Option.bind (ser_recv_uint ops c) (\<lambda>(flags, c). Option.bind (ser_recv_uint ops c) (\<lambda>(mode, c).
       path_call ops (\<lambda>path. os_open os path (posix_translate_flags flags) mode) name c)))"

definition ser_syscall_close :: "'w serial_ops \<Rightarrow> 'o os \<Rightarrow> ('w, 'o) console \<Rightarrow> ('w, 'o) console option" where
  "ser_syscall_close ops os c = Option.bind (ser_recv_uint ops c) (\<lambda>(fd, c). send_result ops (os_call (os_close os fd) c))"

definition creat_flags :: open_flags where
  "creat_flags = \<lparr>o_access = O_WRONLY, o_append = False, o_creat = True, o_trunc = True, o_excl = False\<rparr>"

definition ser_syscall_creat :: "'w serial_ops \<Rightarrow> 'o os \<Rightarrow> ('w, 'o) console \<Rightarrow> ('w, 'o) console option" where
  "ser_syscall_creat ops os = ser_recv_path ops (- 1) (\<lambda>name c.
     Option.bind (ser_recv_uint ops c) (\<lambda>(mode, c). path_call ops (\<lambda>path. os_open os path creat_flags mode) name c))"

definition ser_syscall_link :: "'w serial_ops \<Rightarrow> 'o os \<Rightarrow> ('w, 'o) console \<Rightarrow> ('w, 'o) console option" where
  "ser_syscall_link ops os = ser_recv_path ops (- 1) (\<lambda>path1. ser_recv_path ops (- 1) (\<lambda>path2 c.
     Option.bind (resolve_path path1 c) (\<lambda>r1. path_call ops (os_link os r1) path2 c)))"

definition ser_syscall_unlink :: "'w serial_ops \<Rightarrow> 'o os \<Rightarrow> ('w, 'o) console \<Rightarrow> ('w, 'o) console option" where
  "ser_syscall_unlink ops os = ser_recv_path ops (- 1) (path_call ops (os_unlink os))"

definition ser_syscall_chdir :: "'w serial_ops \<Rightarrow> 'o os \<Rightarrow> ('w, 'o) console \<Rightarrow> ('w, 'o) console option" where
  "ser_syscall_chdir ops os = ser_recv_path ops (- 1) (path_call ops (os_chdir os))"

definition ser_syscall_chmod :: "'w serial_ops \<Rightarrow> 'o os \<Rightarrow> ('w, 'o) console \<Rightarrow> ('w, 'o) console option" where
  "ser_syscall_chmod ops os = ser_recv_path ops (- 1) (\<lambda>name c.
     Option.bind (ser_recv_uint ops c) (\<lambda>(mode, c). path_call ops (\<lambda>path. os_chmod os path mode) name c))"

definition ser_syscall_mkdir :: "'w serial_ops \<Rightarrow> 'o os \<Rightarrow> ('w, 'o) console \<Rightarrow> ('w, 'o) console option" where
  "ser_syscall_mkdir ops os = ser_recv_path ops (- 1) (\<lambda>name c.
     Option.bind (ser_recv_uint ops c) (\<lambda>(mode, c). path_call ops (\<lambda>path. os_mkdir os path mode) name c))"

definition ser_syscall_lseek :: "'w serial_ops \<Rightarrow> 'o os \<Rightarrow> ('w, 'o) console \<Rightarrow> ('w, 'o) console option" where
  "ser_syscall_lseek ops os c =
     Option.bind (ser_recv_uint ops c) (\<lambda>(fd, c). Option.bind (ser_recv_uint ops c) (\<lambda>(offset, c).
     Option.bind (ser_recv_uint ops c) (\<lambda>(whence, c).
       case os_call (os_lseek os fd (sint offset) whence) c of (ret, c) \<Rightarrow> ser_send_uint ops (word_of_int ret) c)))"

definition ser_syscall_time :: "'w serial_ops \<Rightarrow> 'o os \<Rightarrow> ('w, 'o) console \<Rightarrow> ('w, 'o) console option" where
  "ser_syscall_time ops os c = (case os_call (os_time os) c of (t, c) \<Rightarrow> ser_send_uint ops (ucast t) c)"

definition ser_syscall_stat :: "'w serial_ops \<Rightarrow> 'o os \<Rightarrow> ('w, 'o) console \<Rightarrow> ('w, 'o) console option" where
  "ser_syscall_stat ops os = ser_recv_path ops (- 1) (\<lambda>name c.
     Option.bind (resolve_path name c) (\<lambda>path. send_stat ops (os_call (os_stat os path) c)))"

definition ser_syscall_utime :: "'w serial_ops \<Rightarrow> 'o os \<Rightarrow> ('w, 'o) console \<Rightarrow> ('w, 'o) console option" where
  "ser_syscall_utime ops os = ser_recv_path ops (- 1) (\<lambda>name c.
     Option.bind (ser_recv_uint ops c) (\<lambda>(has_times, c).
       if has_times \<noteq> 0
       then Option.bind (ser_recv_uint ops c) (\<lambda>(actime, c). Option.bind (ser_recv_uint ops c) (\<lambda>(modtime, c).
         path_call ops (\<lambda>path. os_utime os path (Some (actime, modtime))) name c))
       else path_call ops (\<lambda>path. os_utime os path None) name c))"

section \<open>Directories\<close>

text \<open>
  The table has a slot for each of 512 directories; the program's handle is the slot number plus 1337. A handle in range
  whose slot is empty makes the C code call \<open>closedir\<close>, \<open>readdir\<close> or \<open>rewinddir\<close> with a null pointer.
\<close>

fun free_slot :: "nat option list \<Rightarrow> nat" where
  "free_slot [] = 0"
| "free_slot (None # ds) = 0"
| "free_slot (Some d # ds) = Suc (free_slot ds)"

definition open_slot :: "'o os \<Rightarrow> bytes \<Rightarrow> ('w, 'o) console \<Rightarrow> u32 \<times> ('w, 'o) console" where
  "open_slot os path c =
     (let i = free_slot (opendirs c) in
      case os_call (os_opendir os path) c of
        (None, c) \<Rightarrow> (0, c) | (Some d, c) \<Rightarrow> (of_nat i + DIRENT_OFFSET, c\<lparr>opendirs := (opendirs c)[i := Some d]\<rparr>))"

definition ser_syscall_opendir :: "'w serial_ops \<Rightarrow> 'o os \<Rightarrow> ('w, 'o) console \<Rightarrow> ('w, 'o) console option" where
  "ser_syscall_opendir ops os = ser_recv_path ops 0 (\<lambda>name c.
     if free_slot (opendirs c) < MAX_OPEN_DIRS
     then Option.bind (resolve_path name c) (\<lambda>path. send_result ops (open_slot os path c))
     else ser_send_uint ops 0 c)"

definition dir_handle :: "u32 \<Rightarrow> bool" where
  "dir_handle i = (i \<ge> DIRENT_OFFSET \<and> i < of_nat MAX_OPEN_DIRS + DIRENT_OFFSET)"

definition dir_slot :: "u32 \<Rightarrow> nat" where
  "dir_slot i = unat (i - DIRENT_OFFSET)"

definition ser_syscall_closedir :: "'w serial_ops \<Rightarrow> 'o os \<Rightarrow> ('w, 'o) console \<Rightarrow> ('w, 'o) console option" where
  "ser_syscall_closedir ops os c = Option.bind (ser_recv_uint ops c) (\<lambda>(i, c).
     if dir_handle i
     then Option.bind (opendirs c ! dir_slot i) (\<lambda>d. case os_call (os_closedir os d) c of (ret, c) \<Rightarrow>
       ser_send_uint ops ret (c\<lparr>opendirs := (opendirs c)[dir_slot i := None]\<rparr>))
     else ser_send_uint ops (- 1) c)"

definition send_dirent :: "'w serial_ops \<Rightarrow> dirent \<Rightarrow> ('w, 'o) console \<Rightarrow> ('w, 'o) console option" where
  "send_dirent ops de c =
     (let name = d_name de @ [0]; namelen = min (length name) 256 in
      Option.bind (ser_send_uints ops [1, ucast (d_ino de), ucast (d_off de), ucast (d_reclen de), ucast (d_type de), of_nat namelen] c)
        (ser_send_data ops (take namelen name) (of_nat namelen)))"

definition ser_syscall_readdir :: "'w serial_ops \<Rightarrow> 'o os \<Rightarrow> ('w, 'o) console \<Rightarrow> ('w, 'o) console option" where
  "ser_syscall_readdir ops os c = Option.bind (ser_recv_uint ops c) (\<lambda>(i, c).
     if dir_handle i
     then Option.bind (opendirs c ! dir_slot i) (\<lambda>d. case os_call (os_readdir os d) c of
       (None, c) \<Rightarrow> ser_send_uint ops 0 c | (Some de, c) \<Rightarrow> send_dirent ops de c)
     else ser_send_uint ops 0 c)"

definition ser_syscall_rewinddir :: "'w serial_ops \<Rightarrow> 'o os \<Rightarrow> ('w, 'o) console \<Rightarrow> ('w, 'o) console option" where
  "ser_syscall_rewinddir ops os c = Option.bind (ser_recv_uint ops c) (\<lambda>(i, c).
     if dir_handle i
     then Option.bind (opendirs c ! dir_slot i) (\<lambda>d. ser_send_uint ops 0 (c\<lparr>con_os := os_rewinddir os d (con_os c)\<rparr>))
     else ser_send_uint ops 0 c)"

section \<open>CD images and the debugger\<close>

text \<open>The sectors of the image, zero where there are none. \<open>SEEK_SET\<close> is 0.\<close>

definition read_sectors :: "'o os \<Rightarrow> u32 \<Rightarrow> nat \<Rightarrow> ('w, 'o) console \<Rightarrow> (bytes \<times> ('w, 'o) console) option" where
  "read_sectors os start n c =
     (if sint (cdfs_fd c) < 0 then Some (replicate n 0, c)
      else case os_call (os_lseek os (cdfs_fd c) (sint start * 2048) 0) c of (pos, c) \<Rightarrow>
        if pos = - 1 then Some (replicate n 0, c)
        else case os_call (os_read os (cdfs_fd c) n) c of (r, c) \<Rightarrow>
          map_option (\<lambda>buf. (buf, c)) (put_at (replicate n 0) 0 (case r of None \<Rightarrow> [] | Some bs \<Rightarrow> bs)))"

definition ser_syscall_cdfs_read :: "'w serial_ops \<Rightarrow> 'o os \<Rightarrow> ('w, 'o) console \<Rightarrow> ('w, 'o) console option" where
  "ser_syscall_cdfs_read ops os c =
     Option.bind (ser_recv_uint ops c) (\<lambda>(start, c). Option.bind (ser_recv_uint ops c) (\<lambda>(num, c).
       if num = 0 \<or> num > MAX_SYSCALL_SIZE div 2048 \<or> \<not> sop_malloc ops (unat (num * 2048)) then ser_send_uint ops (- 1) c
       else Option.bind (read_sectors os (start - 150) (unat (num * 2048)) c) (\<lambda>(buf, c). ser_send_data ops buf (num * 2048) c)))"

text \<open>
  The packet is received into a static buffer of 1024 bytes, which holds what an earlier call left where a dead link delivers
  nothing. The length given is then used unbounded: of a longer packet the relay reads beyond the buffer.
\<close>

definition ser_syscall_gdbpacket :: "'w serial_ops \<Rightarrow> 'o socks \<Rightarrow> ('w, 'o) console \<Rightarrow> ('w, 'o) console option" where
  "ser_syscall_gdbpacket ops so c =
     Option.bind (ser_recv_uint ops c) (\<lambda>(in_size, c). Option.bind (ser_recv_uint ops c) (\<lambda>(out_size, c).
     Option.bind (if in_size \<noteq> 0 then ser_recv_data ops (gdb_buf c) (if in_size > 1024 then 1024 else in_size) c else Some (gdb_buf c, c)) (\<lambda>(buf, c).
       if in_size > 1024 \<and> fst (gdb_connect so (con_gdb c, con_os c)) then None
       else case gdb_relay so (take (unat in_size) buf) (unat out_size) (con_gdb c, con_os c) of ((ret, dat), g, u) \<Rightarrow>
         Option.bind (put_at buf 0 dat) (\<lambda>buf.
         Option.bind (ser_send_uint ops ret (c\<lparr>con_gdb := g, con_os := u, gdb_buf := buf\<rparr>)) (\<lambda>c.
           if dat \<noteq> [] then ser_send_data ops buf ret c else Some c)))))"

section \<open>The console loop\<close>

datatype ('w, 'o) console_result = Serving "('w, 'o) console" | Ended int "u32 option" "('w, 'o) console" | Lost "('w, 'o) console"

text \<open>
  \<open>ser_try_recv_uint\<close> polls for four bytes until the deadline. How many bytes are waiting, and whether the time has run out, is
  decided by the environment; the model takes the answer of the last poll.
\<close>

definition ser_try_recv_uint :: "'w serial_ops \<Rightarrow> 'o con_env \<Rightarrow> ('w, 'o) console \<Rightarrow> (u32 option \<times> ('w, 'o) console) option" where
  "ser_try_recv_uint ops env c =
     (if env_bytes_available env (con_os c) \<ge> 4 then map_option (\<lambda>(v, c). (Some v, c)) (ser_recv_uint ops c) else Some (None, c))"

definition program_exit :: "'o con_env \<Rightarrow> u32 \<Rightarrow> ('w, 'o) console \<Rightarrow> ('w, 'o) console" where
  "program_exit env code c = (case gdb_report_program_exit (env_socks env) code (con_gdb c, con_os c) of (g, u) \<Rightarrow>
     c\<lparr>con_gdb := g, con_os := u\<rparr>)"

definition ser_handler :: "'w serial_ops \<Rightarrow> 'o con_env \<Rightarrow> u8 \<Rightarrow> (('w, 'o) console \<Rightarrow> ('w, 'o) console option) option" where
  "ser_handler ops env command = (let os = env_os env in
     if command = 1 then Some (ser_syscall_fstat ops os)
     else if command = 2 then Some (ser_syscall_write ops env)
     else if command = 3 then Some (ser_syscall_read ops os)
     else if command = 4 then Some (ser_syscall_open ops os)
     else if command = 5 then Some (ser_syscall_close ops os)
     else if command = 6 then Some (ser_syscall_creat ops os)
     else if command = 7 then Some (ser_syscall_link ops os)
     else if command = 8 then Some (ser_syscall_unlink ops os)
     else if command = 9 then Some (ser_syscall_chdir ops os)
     else if command = 10 then Some (ser_syscall_chmod ops os)
     else if command = 11 then Some (ser_syscall_lseek ops os)
     else if command = 12 then Some (ser_syscall_time ops os)
     else if command = 13 then Some (ser_syscall_stat ops os)
     else if command = 14 then Some (ser_syscall_utime ops os)
     else if command = 15 then Some Some
     else if command = 16 then Some (ser_syscall_opendir ops os)
     else if command = 17 then Some (ser_syscall_closedir ops os)
     else if command = 18 then Some (ser_syscall_readdir ops os)
     else if command = 19 then Some (ser_syscall_cdfs_read ops os)
     else if command = 20 then Some (ser_syscall_gdbpacket ops (env_socks env))
     else if command = 21 then Some (ser_syscall_rewinddir ops os)
     else if command = 23 then Some (ser_syscall_mkdir ops os)
     else None)"

text \<open>One round of the loop.\<close>

definition serial_console_step :: "'w serial_ops \<Rightarrow> 'o con_env \<Rightarrow> ('w, 'o) console \<Rightarrow> ('w, 'o) console_result option" where
  "serial_console_step ops env c =
     Option.bind (ser_blread ops 1 c) (\<lambda>(ok, b, c).
       if \<not> ok then Some (Lost c)
       else let command = hd b in
         if command = 0 then
           map_option (\<lambda>(code, c). Ended 0 code (program_exit env (case code of None \<Rightarrow> 0 | Some v \<Rightarrow> v) c)) (ser_try_recv_uint ops env c)
         else if command = 22 then map_option (\<lambda>(code, c). Ended 0 (Some code) (program_exit env code c)) (ser_recv_uint ops c)
         else case ser_handler ops env command of None \<Rightarrow> Some (Ended (- 1) None c)
           | Some handler \<Rightarrow> map_option Serving (handler c))"

definition open_image :: "'o con_env \<Rightarrow> ('w, 'o) console \<Rightarrow> ('w, 'o) console" where
  "open_image env c =
     (case (cdfs_enabled c, iso_filename c) of
        (True, Some nm) \<Rightarrow> (case os_call (os_open (env_os env) nm
            \<lparr>o_access = O_RDONLY, o_append = False, o_creat = False, o_trunc = False, o_excl = False\<rparr> 0) c of (fd, c) \<Rightarrow> c\<lparr>cdfs_fd := fd\<rparr>)
      | _ \<Rightarrow> c)"

partial_function (option) console_loop :: "'w serial_ops \<Rightarrow> 'o con_env \<Rightarrow> ('w, 'o) console \<Rightarrow> ('w, 'o) console_result option" where
  "console_loop ops env c =
     Option.bind (serial_console_step ops env c) (\<lambda>r. case r of Serving c \<Rightarrow> console_loop ops env c | _ \<Rightarrow> Some r)"

declare console_loop.simps [code]

definition do_serial_console :: "'w serial_ops \<Rightarrow> 'o con_env \<Rightarrow> ('w, 'o) console \<Rightarrow> ('w, 'o) console_result option" where
  "do_serial_console ops env c = console_loop ops env (open_image env (c\<lparr>ser_link_dead := False\<rparr>))"

end
