(* ===== verification/Serial_Port.thy ===== *)
theory Serial_Port
  imports Serial_Console
begin

text \<open>
  The serial helpers of \<^verbatim>\<open>host/src/console.c\<close> against those of \<^verbatim>\<open>host/src/transport/serial.c\<close>. The console has its own copy of
  the block transfer, with a flag that remembers a failed link; on the line of \<open>Serial_Line\<close>, where no read fails, the two
  are the same function, so that what is proved of the transport holds for the console.
\<close>

section \<open>Reads on the line\<close>

definition unread :: "line shost \<Rightarrow> bytes" where
  "unread h = lq (sworld h)"

definition consume :: "nat \<Rightarrow> line shost \<Rightarrow> line shost" where
  "consume n h = h\<lparr>sworld := (sworld h)\<lparr>lq := drop n (lq (sworld h))\<rparr>\<rparr>"

lemma consume_0 [simp]: "consume 0 h = h"
  by (simp add: consume_def)

lemma consume_consume [simp]: "consume m (consume n h) = consume (n + m) h"
  by (simp add: consume_def add.commute)

lemma unread_consume [simp]: "unread (consume n h) = drop n (unread h)"
  by (simp add: consume_def unread_def)

lemma sread_line:
  "sread (line_ops lz) n h = (if unread h = [] then None
     else let m = min n (Suc (lsplit (sworld h) n (unread h))) in Some (take m (unread h), consume m h))"
  by (simp add: sread_def line_read_def unread_def consume_def Let_def)

lemma blread_line:
  "blread (line_ops lz) (int n) h = (if n \<le> length (unread h) then Some (take n (unread h), consume n h) else None)"
proof (induction n arbitrary: h rule: less_induct)
  case (less n)
  show ?case
  proof (cases "n = 0 \<or> unread h = []")
    case True
    then show ?thesis by (subst blread.simps) (auto simp: sread_line)
  next
    case False
    define m where "m = min n (Suc (lsplit (sworld h) n (unread h)))"
    define k where "k = min m (length (unread h))"
    have m: "0 < m" "m \<le> n" using False by (simp_all add: m_def)
    have k: "0 < k" "k \<le> n" "take m (unread h) = take k (unread h)" "consume m h = consume k h"
      using m False by (auto simp: k_def consume_def unread_def min_def)
    have "sread (line_ops lz) n h = Some (take k (unread h), consume k h)"
      using False k(3,4) unfolding sread_line m_def by (simp add: Let_def)
    moreover have "int n - int (length (take k (unread h))) = int (n - k)" "take k (unread h) \<noteq> []"
      using k False by (auto simp: k_def)
    ultimately have step: "blread (line_ops lz) (int n) h
        = map_option (\<lambda>(r, h'). (take k (unread h) @ r, h')) (blread (line_ops lz) (int (n - k)) (consume k h))"
      using False by (subst blread.simps) simp
    have kl: "k \<le> length (unread h)" by (simp add: k_def)
    have IH: "blread (line_ops lz) (int (n - k)) (consume k h)
        = (if n - k \<le> length (unread h) - k then Some (take (n - k) (drop k (unread h)), consume n h) else None)"
      using less.IH [of "n - k" "consume k h"] k(1,2) by simp
    have "take k (unread h) @ take (n - k) (drop k (unread h)) = take n (unread h)" using k(2) by (simp add: take_add [symmetric])
    moreover have "n - k \<le> length (unread h) - k \<longleftrightarrow> n \<le> length (unread h)" using kl k(2) by linarith
    ultimately show ?thesis unfolding step IH by simp
  qed
qed

lemma ser_read_loop_line:
  "ser_read_loop (line_ops lz) cnt h = map_option (\<lambda>(bs, h). (True, bs, h)) (blread (line_ops lz) cnt h)"
proof (induction "line_ops lz" cnt h rule: blread.induct)
  case (1 cnt h)
  show ?case
  proof (cases "cnt \<le> 0 \<or> unread h = []")
    case True
    then show ?thesis by (subst ser_read_loop.simps, subst blread.simps) (auto simp: sread_line)
  next
    case False
    then obtain bs h1 where s: "sread (line_ops lz) (nat cnt) h = Some (bs, h1)" "bs \<noteq> []" by (auto simp: sread_line Let_def)
    then show ?thesis using 1 [OF _ s(1)] False
      by (subst ser_read_loop.simps, subst blread.simps) (simp add: option.map_comp comp_def case_prod_unfold)
  qed
qed

section \<open>Equal functions\<close>

definition alive :: "('w, 'o) console \<Rightarrow> bool" where
  "alive c = (\<not> ser_link_dead c)"

text \<open>The console with another state of its serial side.\<close>

definition onto :: "('w, 'o) console \<Rightarrow> 'w shost \<Rightarrow> ('w, 'o) console" where
  "onto c h = c\<lparr>con_host := h\<rparr>"

lemma onto_simps [simp]: "con_host (onto c h) = h" "onto (onto c h) h' = onto c h'" "alive (onto c h) = alive c"
  "con_os (onto c h) = con_os c" "con_out (onto c h) = con_out c" "con_gdb (onto c h) = con_gdb c" "opendirs (onto c h) = opendirs c"
  "map_path (onto c h) = map_path c" "cdfs_fd (onto c h) = cdfs_fd c" "onto c (con_host c) = c"
  "ser_link_dead (onto c h) = ser_link_dead c"
  by (simp_all add: onto_def alive_def)

lemma cwrite_onto [simp]: "cwrite ops bs (onto c h) = onto c (swrite ops bs h)"
  by (simp add: cwrite_def onto_def)

lemma ser_blread_line: "alive c \<Longrightarrow>
  ser_blread (line_ops lz) cnt (onto c h) = map_option (\<lambda>(bs, h). (True, bs, onto c h)) (blread (line_ops lz) cnt h)"
  by (auto simp: ser_blread_def ser_read_loop_line onto_def alive_def option.map_comp comp_def case_prod_unfold intro!: option.map_cong)

lemma length_blread: "blread (line_ops lz) (int n) h = Some (bs, h') \<Longrightarrow> length bs = n"
  by (auto simp: blread_line split: if_splits)

lemma serial_getc_line: "serial_getc (line_ops lz) h = (case unread h of [] \<Rightarrow> None | b # q \<Rightarrow> Some (b, True, consume 1 h))"
  by (cases "unread h") (simp_all add: serial_getc_def sread_line min_def Let_def)

lemma recv_uint_line: "recv_uint (line_ops lz) h
    = map_option (\<lambda>(b, h). (ucast (b ! 0) OR push_bit 8 (ucast (b ! 1)) OR push_bit 16 (ucast (b ! 2)) OR push_bit 24 (ucast (b ! 3)), h))
        (blread (line_ops lz) 4 h)"
proof -
  consider "unread h = []" | a where "unread h = [a]" | a b where "unread h = [a, b]" | a b c where "unread h = [a, b, c]"
    | a b c d q where "unread h = a # b # c # d # q" by (metis list.exhaust)
  then show ?thesis
    using blread_line [of lz 4 h]
    by cases (simp_all add: recv_uint_def serial_getc_line numeral_nat)
qed

lemma blread_byte_line: "blread_byte (line_ops lz) old h = map_option (\<lambda>(bs, h). (hd bs, h)) (blread (line_ops lz) 1 h)"
  using blread_line [of lz 1 h] by (cases "unread h") (auto simp: blread_byte_def)

lemma ser_recv_uint_line: "alive c \<Longrightarrow>
  ser_recv_uint (line_ops lz) (onto c h) = map_option (\<lambda>(v, h). (v, onto c h)) (recv_uint (line_ops lz) h)"
  by (simp add: ser_recv_uint_def ser_blread_line recv_uint_line option.map_comp comp_def case_prod_unfold)

lemma ser_send_uint_line: "alive c \<Longrightarrow> ser_send_uint (line_ops lz) v (onto c h) = map_option (onto c) (send_uint (line_ops lz) v h)"
  by (simp add: ser_send_uint_def send_uint_def ser_blread_line recv_uint_line serial_putc_def option.map_comp comp_def case_prod_unfold)

text \<open>Each loop of the console returns when the transport's does, and the other way round.\<close>

lemmas until_good_induct = write_until_good.raw_induct [rotated, consumes 1, case_names step]
lemmas ser_until_good_induct = ser_write_until_good.raw_induct [rotated, consumes 1, case_names step]
lemmas send_blocks_induct = lzo_send_blocks.raw_induct [rotated, consumes 1, case_names step]
lemmas ser_send_blocks_induct = ser_send_blocks.raw_induct [rotated, consumes 1, case_names step]

lemma until_good_if:
  "write_until_good ops buf ack h = Some h' \<Longrightarrow> ops = line_ops lz \<Longrightarrow> alive c \<Longrightarrow>
   ser_write_until_good (line_ops lz) buf ack (onto c h) = Some (True, onto c h')"
proof (induction ops buf ack h h' rule: until_good_induct)
  case (step f ops buf ack h h')
  show ?case
  proof (cases "ack = SERIAL_DATA_GOOD")
    case True
    with step show ?thesis by (subst ser_write_until_good.simps) auto
  next
    case False
    let ?h = "swrite (line_ops lz) [xor_sum buf] (swrite (line_ops lz) buf h)"
    obtain bs h1 where b: "blread (line_ops lz) 1 ?h = Some (bs, h1)" "f (line_ops lz) buf (hd bs) h1 = Some h'"
      using False step by (auto simp: blread_byte_line serial_putc_def bind_eq_Some_conv)
    from step(1) [OF b(2)] step.prems have "ser_write_until_good (line_ops lz) buf (hd bs) (onto c h1) = Some (True, onto c h')" by simp
    then show ?thesis using False b(1) step.prems by (subst ser_write_until_good.simps) (simp add: ser_blread_line)
  qed
qed

lemma until_good_only_if:
  "ser_write_until_good ops buf ack d = Some r \<Longrightarrow> ops = line_ops lz \<Longrightarrow> d = onto c h \<Longrightarrow> alive c \<Longrightarrow>
   \<exists>h'. r = (True, onto c h') \<and> write_until_good (line_ops lz) buf ack h = Some h'"
proof (induction ops buf ack d r arbitrary: h rule: ser_until_good_induct)
  case (step f ops buf ack d r)
  show ?case
  proof (cases "ack = SERIAL_DATA_GOOD")
    case True
    with step show ?thesis by (subst write_until_good.simps) auto
  next
    case False
    then obtain bs h1 where b: "blread (line_ops lz) 1 (swrite (line_ops lz) [xor_sum buf] (swrite (line_ops lz) buf h)) = Some (bs, h1)"
      "f (line_ops lz) buf (hd bs) (onto c h1) = Some r"
      using step by (auto simp: ser_blread_line bind_eq_Some_conv)
    from step(1) [OF b(2)] step.prems have "\<exists>h'. r = (True, onto c h') \<and> write_until_good (line_ops lz) buf (hd bs) h1 = Some h'" by blast
    then show ?thesis
      using False b(1) by (subst write_until_good.simps) (simp add: blread_byte_line serial_putc_def)
  qed
qed

lemma ser_write_until_good_line: "alive c \<Longrightarrow> ser_write_until_good (line_ops lz) buf ack (onto c h)
    = map_option (\<lambda>h. (True, onto c h)) (write_until_good (line_ops lz) buf ack h)"
  using until_good_if [of "line_ops lz" buf ack h _ lz c] until_good_only_if [of "line_ops lz" buf ack "onto c h" _ lz c h]
  by (cases "write_until_good (line_ops lz) buf ack h"; cases "ser_write_until_good (line_ops lz) buf ack (onto c h)") auto

lemma ser_send_block_line: "alive c \<Longrightarrow> ser_send_block (line_ops lz) dat sz (onto c h)
    = map_option (\<lambda>h. (True, onto c h)) (lzo_send_block (line_ops lz) dat sz h)"
  by (auto simp: ser_send_block_def lzo_send_block_def Let_def ser_send_uint_line ser_write_until_good_line ser_blread_line blread_byte_line
      serial_putc_def option.map_comp comp_def case_prod_unfold option.map_ident split: Option.bind_splits intro!: map_option_cong)

definition sendsize_of :: "u32 \<Rightarrow> u32" where
  "sendsize_of sz = (if sz > SERIAL_BUFFER_SIZE then SERIAL_BUFFER_SIZE else sz)"

lemma send_blocks_if:
  "lzo_send_blocks ops dat sz h = Some h' \<Longrightarrow> ops = line_ops lz \<Longrightarrow> alive c \<Longrightarrow>
   ser_send_blocks (line_ops lz) dat sz (onto c h) = Some (onto c h')"
proof (induction ops dat sz h h' rule: send_blocks_induct)
  case (step f ops dat sz h h')
  show ?case
  proof (cases "sz = 0")
    case True
    with step show ?thesis by (subst ser_send_blocks.simps) auto
  next
    case False
    define ss where "ss = sendsize_of sz"
    obtain h1 where b: "lzo_send_block (line_ops lz) (take (unat ss) dat) ss h = Some h1" "\<not> length dat < unat ss"
      "f (line_ops lz) (drop (unat ss) dat) (sz - ss) h1 = Some h'"
      using False step by (auto simp: Let_def bind_eq_Some_conv sendsize_of_def [symmetric] ss_def [symmetric] split: if_splits)
    from step(1) [OF b(3)] step.prems have "ser_send_blocks (line_ops lz) (drop (unat ss) dat) (sz - ss) (onto c h1) = Some (onto c h')" by simp
    then show ?thesis using False b(1,2) step.prems
      by (subst ser_send_blocks.simps) (simp add: ser_send_block_line Let_def sendsize_of_def [symmetric] ss_def [symmetric])
  qed
qed

lemma send_blocks_only_if:
  "ser_send_blocks ops dat sz d = Some r \<Longrightarrow> ops = line_ops lz \<Longrightarrow> d = onto c h \<Longrightarrow> alive c \<Longrightarrow>
   \<exists>h'. r = onto c h' \<and> lzo_send_blocks (line_ops lz) dat sz h = Some h'"
proof (induction ops dat sz d r arbitrary: h rule: ser_send_blocks_induct)
  case (step f ops dat sz d r)
  show ?case
  proof (cases "sz = 0")
    case True
    with step show ?thesis by (subst lzo_send_blocks.simps) auto
  next
    case False
    define ss where "ss = sendsize_of sz"
    obtain h1 where b: "lzo_send_block (line_ops lz) (take (unat ss) dat) ss h = Some h1" "\<not> length dat < unat ss"
      "f (line_ops lz) (drop (unat ss) dat) (sz - ss) (onto c h1) = Some r"
      using False step by (auto simp: ser_send_block_line Let_def bind_eq_Some_conv sendsize_of_def [symmetric] ss_def [symmetric] split: if_splits)
    from step(1) [OF b(3)] step.prems have "\<exists>h'. r = onto c h' \<and> lzo_send_blocks (line_ops lz) (drop (unat ss) dat) (sz - ss) h1 = Some h'" by blast
    then show ?thesis using False b(1,2)
      by (subst lzo_send_blocks.simps) (simp add: Let_def sendsize_of_def [symmetric] ss_def [symmetric])
  qed
qed

lemma ser_send_data_line: "alive c \<Longrightarrow> ser_send_data (line_ops lz) dat sz (onto c h) = map_option (onto c) (lzo_send_data (line_ops lz) dat sz h)"
  using send_blocks_if [of "line_ops lz" dat sz h _ lz c] send_blocks_only_if [of "line_ops lz" dat sz "onto c h" _ lz c h]
  unfolding ser_send_data_def lzo_send_data_def
  by (cases "lzo_send_blocks (line_ops lz) dat sz h"; cases "ser_send_blocks (line_ops lz) dat sz (onto c h)") auto

lemma ser_blread_at_line: "alive c \<Longrightarrow> ser_blread_at (line_ops lz) buf off n (onto c h)
    = map_option (\<lambda>(buf, h). (True, buf, onto c h)) (blread_at (line_ops lz) buf off n h)"
  by (auto simp: ser_blread_at_def blread_at_def ser_blread_line option.map_comp comp_def case_prod_unfold split: Option.bind_splits)

lemma ser_blread_tmp_line: "alive c \<Longrightarrow> ser_blread_tmp (line_ops lz) n (onto c h)
    = map_option (\<lambda>(tmp, h). (True, tmp, onto c h)) (blread_tmp (line_ops lz) n h)"
  by (simp add: ser_blread_tmp_def blread_tmp_def ser_blread_line option.map_comp comp_def case_prod_unfold)

text \<open>One round of the receive loop: it ends, or goes on with another state.\<close>

type_synonym 'c recv_round = "(bytes \<times> 'c + bytes \<times> nat \<times> u32 \<times> 'c) option"

definition recv_round :: "'w serial_ops \<Rightarrow> bytes \<Rightarrow> nat \<Rightarrow> u32 \<Rightarrow> 'w shost \<Rightarrow> 'w shost recv_round" where
  "recv_round ops buf out tot h =
     (if tot = 0 then Some (Inl (buf, h))
      else Option.bind (blread_byte ops (sop_junk ops) h) (\<lambda>(type, h).
        Option.bind (recv_uint ops h) (\<lambda>(sz, h).
          if type = SERIAL_DATA_UNCOMPRESSED then
            Option.bind (blread_at ops buf out sz h) (\<lambda>(buf, h).
            Option.bind (blread_byte ops (sop_junk ops) h) (\<lambda>(sum, h).
              Some (Inr (buf, out + unat sz, tot - sz, serial_putc ops SERIAL_DATA_GOOD h))))
          else if type = SERIAL_DATA_COMPRESSED then
            (if \<not> sop_malloc ops (unat sz) then Some (Inl (buf, h))
             else Option.bind (blread_tmp ops sz h) (\<lambda>(tmp, h).
               Option.bind (blread_byte ops (sop_junk ops) h) (\<lambda>(sum, h).
               Option.bind (put_at buf out (snd (lzo1x_decompress (sop_lzo ops) tmp))) (\<lambda>buf.
                 if fst (lzo1x_decompress (sop_lzo ops) tmp)
                 then Some (Inr (buf, out + length (snd (lzo1x_decompress (sop_lzo ops) tmp)),
                        tot - of_nat (length (snd (lzo1x_decompress (sop_lzo ops) tmp))), serial_putc ops SERIAL_DATA_GOOD h))
                 else Some (Inr (buf, out, tot, serial_putc ops SERIAL_DATA_BAD h))))))
          else Some (Inr (buf, out, tot, h)))))"

definition ser_recv_round :: "'w serial_ops \<Rightarrow> bytes \<Rightarrow> nat \<Rightarrow> u32 \<Rightarrow> ('w, 'o) console \<Rightarrow> ('w, 'o) console recv_round" where
  "ser_recv_round ops buf out tot c =
     (if tot = 0 then Some (Inl (buf, c))
      else Option.bind (ser_blread ops 1 c) (\<lambda>(ok, type, c). if \<not> ok then Some (Inl (buf, c)) else
        Option.bind (ser_recv_uint ops c) (\<lambda>(sz, c). if ser_link_dead c then Some (Inl (buf, c))
          else if hd type = SERIAL_DATA_UNCOMPRESSED then
            Option.bind (ser_blread_at ops buf out sz c) (\<lambda>(ok, buf, c). if \<not> ok then Some (Inl (buf, c)) else
            Option.bind (ser_blread ops 1 c) (\<lambda>(ok, sum, c). if \<not> ok then Some (Inl (buf, c)) else
              Some (Inr (buf, out + unat sz, tot - sz, cwrite ops [SERIAL_DATA_GOOD] c))))
          else if hd type = SERIAL_DATA_COMPRESSED then
            (if \<not> sop_malloc ops (unat sz) then Some (Inl (buf, c))
             else Option.bind (ser_blread_tmp ops sz c) (\<lambda>(ok, tmp, c). if \<not> ok then Some (Inl (buf, c)) else
               Option.bind (ser_blread ops 1 c) (\<lambda>(ok, sum, c). if \<not> ok then Some (Inl (buf, c)) else
               Option.bind (put_at buf out (snd (lzo1x_decompress (sop_lzo ops) tmp))) (\<lambda>buf.
                 if fst (lzo1x_decompress (sop_lzo ops) tmp)
                 then Some (Inr (buf, out + length (snd (lzo1x_decompress (sop_lzo ops) tmp)),
                        tot - of_nat (length (snd (lzo1x_decompress (sop_lzo ops) tmp))), cwrite ops [SERIAL_DATA_GOOD] c))
                 else Some (Inr (buf, out, tot, cwrite ops [SERIAL_DATA_BAD] c))))))
          else Some (Inr (buf, out, tot, c)))))"

lemma bind_if: "Option.bind (if b then x else y) k = (if b then Option.bind x k else Option.bind y k)"
  by simp

lemma recv_round_body:
  "(if tot = 0 then Some (buf, h)
      else Option.bind (blread_byte ops (sop_junk ops) h) (\<lambda>(type, h).
        Option.bind (recv_uint ops h) (\<lambda>(sz, h).
          if type = SERIAL_DATA_UNCOMPRESSED then
            Option.bind (blread_at ops buf out sz h) (\<lambda>(buf, h).
            Option.bind (blread_byte ops (sop_junk ops) h) (\<lambda>(sum, h).
              f ops buf (out + unat sz) (tot - sz) (serial_putc ops SERIAL_DATA_GOOD h)))
          else if type = SERIAL_DATA_COMPRESSED then
            (if \<not> sop_malloc ops (unat sz) then Some (buf, h)
             else Option.bind (blread_tmp ops sz h) (\<lambda>(tmp, h).
               Option.bind (blread_byte ops (sop_junk ops) h) (\<lambda>(sum, h).
               Option.bind (put_at buf out (snd (lzo1x_decompress (sop_lzo ops) tmp))) (\<lambda>buf.
                 if fst (lzo1x_decompress (sop_lzo ops) tmp)
                 then f ops buf (out + length (snd (lzo1x_decompress (sop_lzo ops) tmp)))
                        (tot - of_nat (length (snd (lzo1x_decompress (sop_lzo ops) tmp)))) (serial_putc ops SERIAL_DATA_GOOD h)
                 else f ops buf out tot (serial_putc ops SERIAL_DATA_BAD h)))))
          else f ops buf out tot h)))
    = Option.bind (recv_round ops buf out tot h) (case_sum Some (\<lambda>(buf, out, tot, h). f ops buf out tot h))"
  by (simp add: recv_round_def bind_if case_prod_unfold cong: if_cong)

lemma ser_recv_round_body:
  "(if tot = 0 then Some (buf, c)
      else Option.bind (ser_blread ops 1 c) (\<lambda>(ok, type, c). if \<not> ok then Some (buf, c) else
        Option.bind (ser_recv_uint ops c) (\<lambda>(sz, c). if ser_link_dead c then Some (buf, c)
          else if hd type = SERIAL_DATA_UNCOMPRESSED then
            Option.bind (ser_blread_at ops buf out sz c) (\<lambda>(ok, buf, c). if \<not> ok then Some (buf, c) else
            Option.bind (ser_blread ops 1 c) (\<lambda>(ok, sum, c). if \<not> ok then Some (buf, c) else
              f ops buf (out + unat sz) (tot - sz) (cwrite ops [SERIAL_DATA_GOOD] c)))
          else if hd type = SERIAL_DATA_COMPRESSED then
            (if \<not> sop_malloc ops (unat sz) then Some (buf, c)
             else Option.bind (ser_blread_tmp ops sz c) (\<lambda>(ok, tmp, c). if \<not> ok then Some (buf, c) else
               Option.bind (ser_blread ops 1 c) (\<lambda>(ok, sum, c). if \<not> ok then Some (buf, c) else
               Option.bind (put_at buf out (snd (lzo1x_decompress (sop_lzo ops) tmp))) (\<lambda>buf.
                 if fst (lzo1x_decompress (sop_lzo ops) tmp)
                 then f ops buf (out + length (snd (lzo1x_decompress (sop_lzo ops) tmp)))
                        (tot - of_nat (length (snd (lzo1x_decompress (sop_lzo ops) tmp)))) (cwrite ops [SERIAL_DATA_GOOD] c)
                 else f ops buf out tot (cwrite ops [SERIAL_DATA_BAD] c)))))
          else f ops buf out tot c)))
    = Option.bind (ser_recv_round ops buf out tot c) (case_sum Some (\<lambda>(buf, out, tot, c). f ops buf out tot c))"
  by (simp add: ser_recv_round_def bind_if case_prod_unfold cong: if_cong)

lemmas recv_blocks_induct = lzo_recv_blocks.raw_induct [unfolded recv_round_body, rotated, consumes 1, case_names step]
lemmas ser_recv_blocks_induct = ser_recv_blocks.raw_induct [unfolded ser_recv_round_body, rotated, consumes 1, case_names step]
lemmas recv_blocks_unfold = lzo_recv_blocks.simps [unfolded recv_round_body]
lemmas ser_recv_blocks_unfold = ser_recv_blocks.simps [unfolded ser_recv_round_body]

definition over :: "('w, 'o) console \<Rightarrow> bytes \<times> 'w shost + bytes \<times> nat \<times> u32 \<times> 'w shost
    \<Rightarrow> bytes \<times> ('w, 'o) console + bytes \<times> nat \<times> u32 \<times> ('w, 'o) console" where
  "over c = map_sum (\<lambda>(buf, h). (buf, onto c h)) (\<lambda>(buf, out, tot, h). (buf, out, tot, onto c h))"

lemma map_option_if: "map_option g (if b then x else y) = (if b then map_option g x else map_option g y)"
  by simp

lemma ser_recv_round_line: "alive c \<Longrightarrow> ser_recv_round (line_ops lz) buf out tot (onto c h) = map_option (over c) (recv_round (line_ops lz) buf out tot h)"
  by (simp add: ser_recv_round_def recv_round_def ser_blread_line ser_recv_uint_line ser_blread_at_line ser_blread_tmp_line blread_byte_line
      serial_putc_def alive_def bind_map_option comp_def case_prod_unfold map_option_bind map_option_if over_def cong: if_cong)

lemma recv_blocks_if:
  "lzo_recv_blocks ops buf out tot h = Some r \<Longrightarrow> ops = line_ops lz \<Longrightarrow> alive c \<Longrightarrow>
   ser_recv_blocks (line_ops lz) buf out tot (onto c h) = Some (fst r, onto c (snd r))"
proof (induction ops buf out tot h r rule: recv_blocks_induct)
  case (step f ops buf out tot h r)
  from step(2) obtain x where x: "recv_round (line_ops lz) buf out tot h = Some x"
    "case_sum Some (\<lambda>(buf, out, tot, h). f (line_ops lz) buf out tot h) x = Some r"
    using step.prems by (auto simp: bind_eq_Some_conv)
  have s: "ser_recv_round (line_ops lz) buf out tot (onto c h) = Some (over c x)"
    using x(1) step.prems by (simp add: ser_recv_round_line)
  show ?case
  proof (cases x)
    case (Inl y)
    then show ?thesis using x(2) s by (subst ser_recv_blocks_unfold) (simp add: over_def case_prod_unfold)
  next
    case (Inr y)
    obtain buf1 out1 tot1 h1 where y: "y = (buf1, out1, tot1, h1)" by (cases y) auto
    then have "f (line_ops lz) buf1 out1 tot1 h1 = Some r" using Inr x(2) by simp
    from step(1) [OF this refl step.prems(2)] show ?thesis using s Inr y
      by (subst ser_recv_blocks_unfold) (simp add: over_def)
  qed
qed

lemma recv_blocks_only_if:
  "ser_recv_blocks ops buf out tot d = Some r \<Longrightarrow> ops = line_ops lz \<Longrightarrow> d = onto c h \<Longrightarrow> alive c \<Longrightarrow>
   \<exists>buf' h'. r = (buf', onto c h') \<and> lzo_recv_blocks (line_ops lz) buf out tot h = Some (buf', h')"
proof (induction ops buf out tot d r arbitrary: h rule: ser_recv_blocks_induct)
  case (step f ops buf out tot d r)
  from step(2) obtain x where x: "recv_round (line_ops lz) buf out tot h = Some x"
    "case_sum Some (\<lambda>(buf, out, tot, c). f (line_ops lz) buf out tot c) (over c x) = Some r"
    using step.prems by (auto simp: bind_eq_Some_conv ser_recv_round_line)
  show ?case
  proof (cases x)
    case (Inl y)
    then show ?thesis using x by (cases y) (subst recv_blocks_unfold, simp add: over_def)
  next
    case (Inr y)
    obtain buf1 out1 tot1 h1 where y: "y = (buf1, out1, tot1, h1)" by (cases y) auto
    then have "f (line_ops lz) buf1 out1 tot1 (onto c h1) = Some r" using Inr x(2) by (simp add: over_def)
    from step(1) [OF this] step.prems(3) show ?thesis using x(1) Inr y by (subst recv_blocks_unfold) simp
  qed
qed

lemma ser_recv_data_line: "alive c \<Longrightarrow> ser_recv_data (line_ops lz) buf tot (onto c h)
    = map_option (\<lambda>(buf, h). (buf, onto c h)) (lzo_recv_data (line_ops lz) buf tot h)"
  using recv_blocks_if [of "line_ops lz" buf 0 tot h _ lz c] recv_blocks_only_if [of "line_ops lz" buf 0 tot "onto c h" _ lz c h]
  unfolding ser_recv_data_def lzo_recv_data_def
  by (cases "lzo_recv_blocks (line_ops lz) buf 0 tot h"; cases "ser_recv_blocks (line_ops lz) buf 0 tot (onto c h)") auto

text \<open>
  The console's copy of the serial protocol is the transport's. On a line that delivers what was sent, whatever
  the program at the other end does and however reads are split, \<^verbatim>\<open>console.c\<close>'s \<open>ser_send_data\<close>, \<open>ser_recv_data\<close>, \<open>ser_send_uint\<close> and
  \<open>ser_recv_uint\<close> return exactly when \<^verbatim>\<open>serial.c\<close>'s \<open>lzo_send_data\<close>, \<open>lzo_recv_data\<close>, \<open>send_uint\<close> and \<open>recv_uint\<close> do, with the same
  results and the same effect on the line, and nothing else of the console's state changes.
\<close>

theorem console_protocol_is_transports:
  assumes "\<not> ser_link_dead c"
  shows "ser_send_data (line_ops lz) dat sz (c\<lparr>con_host := h\<rparr>) = map_option (\<lambda>h. c\<lparr>con_host := h\<rparr>) (lzo_send_data (line_ops lz) dat sz h)
    \<and> ser_recv_data (line_ops lz) buf tot (c\<lparr>con_host := h\<rparr>) = map_option (\<lambda>(buf, h). (buf, c\<lparr>con_host := h\<rparr>)) (lzo_recv_data (line_ops lz) buf tot h)
    \<and> ser_send_uint (line_ops lz) v (c\<lparr>con_host := h\<rparr>) = map_option (\<lambda>h. c\<lparr>con_host := h\<rparr>) (send_uint (line_ops lz) v h)
    \<and> ser_recv_uint (line_ops lz) (c\<lparr>con_host := h\<rparr>) = map_option (\<lambda>(v, h). (v, c\<lparr>con_host := h\<rparr>)) (recv_uint (line_ops lz) h)"
  using ser_send_data_line [of c lz dat sz h] ser_recv_data_line [of c lz buf tot h] ser_send_uint_line [of c lz v h]
    ser_recv_uint_line [of c lz h] assms unfolding alive_def onto_def by simp

end
