(* ===== verification/Serial_Calls.thy ===== *)
theory Serial_Calls
  imports Serial_Port
begin

text \<open>
  System calls over the serial line, end to end: the loader's side of each call (\<open>Serial_Syscalls\<close>) against the console's
  (\<open>Serial_Console\<close>). The specification is the call performed on the host directly, with the arguments read from and the
  results written to the program's memory; the theorems show that the exchange on the line implements it.
\<close>

section \<open>Calls\<close>

datatype guest_call =
    GFstat u32 u32 | GWrite u32 u32 u32 | GRead u32 u32 u32 | GOpen u32 u32 u32 | GClose u32 | GCreat u32 u32
  | GLink u32 u32 | GUnlink u32 | GChdir u32 | GChmod u32 u32 | GMkdir u32 u32 | GLseek u32 u32 u32 | GTime u32
  | GStat u32 u32 | GUtime u32 u32 | GOpendir u32 | GClosedir u32 | GReaddir u32 | GRewinddir u32

fun issue :: "ser_target \<Rightarrow> guest_call \<Rightarrow> (u32 \<Rightarrow> ser_client io) \<Rightarrow> ser_client io" where
  "issue t (GFstat fd buf) k = ser_fstat t fd buf k"
| "issue t (GWrite fd buf cnt) k = ser_write t fd buf cnt k"
| "issue t (GRead fd buf cnt) k = ser_read t fd buf cnt k"
| "issue t (GOpen path flags mode) k = ser_open t path flags mode k"
| "issue t (GClose fd) k = ser_close fd k"
| "issue t (GCreat path mode) k = ser_creat t path mode k"
| "issue t (GLink old new) k = ser_link t old new k"
| "issue t (GUnlink path) k = ser_unlink t path k"
| "issue t (GChdir path) k = ser_chdir t path k"
| "issue t (GChmod path mode) k = ser_chmod t path mode k"
| "issue t (GMkdir path mode) k = ser_mkdir t path mode k"
| "issue t (GLseek fd offset whence) k = ser_lseek fd offset whence k"
| "issue t (GTime p) k = ser_time t p k"
| "issue t (GStat path buf) k = ser_stat t path buf k"
| "issue t (GUtime path buf) k = ser_utime t path buf k"
| "issue t (GOpendir path) k = ser_opendir t path k"
| "issue t (GClosedir d) k = ser_closedir d k"
| "issue t (GReaddir d) k = ser_readdir t d k"
| "issue t (GRewinddir d) k = ser_rewinddir d k"

section \<open>Specification\<close>

text \<open>
  A call on the host: the result, the program's memory and the host afterwards. \<open>None\<close> where the host itself would access a
  directory that is not open, get more from \<open>read\<close> than it asked for, or not return from a write.
\<close>

definition on_host :: "('o \<Rightarrow> 'r \<times> 'o) \<Rightarrow> ('r \<Rightarrow> u32) \<Rightarrow> memory \<Rightarrow> ('w, 'o) console \<Rightarrow> (u32 \<times> memory \<times> ('w, 'o) console) option" where
  "on_host f res m c = (case f (con_os c) of (r, u) \<Rightarrow> Some (res r, m, c\<lparr>con_os := u\<rparr>))"

definition host_path :: "memory \<Rightarrow> u32 \<Rightarrow> ('w, 'o) console \<Rightarrow> bytes option" where
  "host_path m a c = map_option (posix_resolve_path (map_path c) MAX_PATH_LEN) (guest_string m a)"

text \<open>\<open>kosload_stat_t\<close> and \<open>kosload_dirent_t\<close> in the console's memory.\<close>

definition stat_bytes :: "endian \<Rightarrow> host_stat \<Rightarrow> bytes" where
  "stat_bytes e st =
     st16 e (ucast (st_dev st)) @ st16 e (ucast (st_ino st)) @ st32 e (ucast (st_mode st)) @ st16 e (ucast (st_nlink st))
     @ st16 e (ucast (st_uid st)) @ st16 e (ucast (st_gid st)) @ st16 e (ucast (st_rdev st)) @ st32 e (ucast (st_size st))
     @ st32 e (ucast (st_atime st)) @ st32 e 0 @ st32 e (ucast (st_mtime st)) @ st32 e 0 @ st32 e (ucast (st_ctime st)) @ st32 e 0
     @ st32 e (ucast (st_blksize st)) @ st32 e (ucast (st_blocks st)) @ st32 e 0 @ st32 e 0"

definition dirent_bytes :: "endian \<Rightarrow> dirent \<Rightarrow> bytes" where
  "dirent_bytes e de = st32 e (ucast (d_ino de)) @ st32 e (ucast (d_off de)) @ st16 e (d_reclen de) @ [d_type de]
     @ take 256 (d_name de @ [0])"

definition put_stat :: "ser_target \<Rightarrow> u32 \<Rightarrow> (u32 \<times> host_stat option) \<times> 'o \<Rightarrow> memory \<Rightarrow> ('w, 'o) console \<Rightarrow> (u32 \<times> memory \<times> ('w, 'o) console) option" where
  "put_stat t buf r m c = (case r of ((ret, st), u) \<Rightarrow>
     Some (ret, mem_write m buf (stat_bytes (t_endian t) (case st of None \<Rightarrow> stat_zero | Some s \<Rightarrow> s)), c\<lparr>con_os := u\<rparr>))"

definition dir_call :: "u32 \<Rightarrow> ('w, 'o) console \<Rightarrow> 'r \<Rightarrow> (nat \<Rightarrow> 'r option) \<Rightarrow> 'r option" where
  "dir_call d c bad f = (if dir_handle d then Option.bind (opendirs c ! dir_slot d) f else Some bad)"

fun local_call :: "'o con_env \<Rightarrow> ser_target \<Rightarrow> guest_call \<Rightarrow> memory \<Rightarrow> ('w, 'o) console \<Rightarrow> (u32 \<times> memory \<times> ('w, 'o) console) option" where
  "local_call env t (GFstat fd buf) m c = put_stat t buf (os_fstat (env_os env) fd (con_os c)) m c"
| "local_call env t (GWrite fd buf cnt) m c =
     (if cnt = 0 then Some (0, m, c)
      else if fd \<noteq> 1 \<and> fd \<noteq> 2
      then map_option (\<lambda>(ret, u). (ret, m, c\<lparr>con_os := u\<rparr>)) (write_full (env_os env) fd (mem_read m buf (unat cnt)) cnt (con_os c))
      else case console_out env fd (mem_read m buf (unat cnt)) c of (ret, c) \<Rightarrow> Some (ret, m, c))"
| "local_call env t (GRead fd buf cnt) m c =
     (case os_read (env_os env) fd (unat cnt) (con_os c) of (r, u) \<Rightarrow>
        let bs = (case r of None \<Rightarrow> [] | Some bs \<Rightarrow> bs) in
        if length bs > unat cnt then None
        else Some (case r of None \<Rightarrow> - 1 | Some bs \<Rightarrow> of_nat (length bs), mem_write m buf (bs @ replicate (unat cnt - length bs) 0), c\<lparr>con_os := u\<rparr>))"
| "local_call env t (GOpen path flags mode) m c =
     Option.bind (host_path m path c) (\<lambda>p. on_host (os_open (env_os env) p (posix_translate_flags flags) mode) id m c)"
| "local_call env t (GClose fd) m c = on_host (os_close (env_os env) fd) id m c"
| "local_call env t (GCreat path mode) m c = Option.bind (host_path m path c) (\<lambda>p. on_host (os_open (env_os env) p creat_flags mode) id m c)"
| "local_call env t (GLink old new) m c =
     Option.bind (host_path m old c) (\<lambda>p. Option.bind (host_path m new c) (\<lambda>q. on_host (os_link (env_os env) p q) id m c))"
| "local_call env t (GUnlink path) m c = Option.bind (host_path m path c) (\<lambda>p. on_host (os_unlink (env_os env) p) id m c)"
| "local_call env t (GChdir path) m c = Option.bind (host_path m path c) (\<lambda>p. on_host (os_chdir (env_os env) p) id m c)"
| "local_call env t (GChmod path mode) m c = Option.bind (host_path m path c) (\<lambda>p. on_host (os_chmod (env_os env) p mode) id m c)"
| "local_call env t (GMkdir path mode) m c = Option.bind (host_path m path c) (\<lambda>p. on_host (os_mkdir (env_os env) p mode) id m c)"
| "local_call env t (GLseek fd offset whence) m c = on_host (os_lseek (env_os env) fd (sint offset) whence) word_of_int m c"
| "local_call env t (GTime p) m c =
     (case os_time (env_os env) (con_os c) of (r, u) \<Rightarrow>
        Some (ucast r, if p = 0 then m else mem_write m p (st32 (t_endian t) (ucast r)), c\<lparr>con_os := u\<rparr>))"
| "local_call env t (GStat path buf) m c =
     Option.bind (host_path m path c) (\<lambda>p. put_stat t buf (os_stat (env_os env) p (con_os c)) m c)"
| "local_call env t (GUtime path buf) m c =
     Option.bind (host_path m path c) (\<lambda>p. on_host (os_utime (env_os env) p
       (if buf = 0 then None else Some (mem_ld32 (t_endian t) m buf, mem_ld32 (t_endian t) m (buf + 4)))) id m c)"
| "local_call env t (GOpendir path) m c =
     Option.bind (host_path m path c) (\<lambda>p.
       if free_slot (opendirs c) < MAX_OPEN_DIRS then (case open_slot (env_os env) p c of (r, c) \<Rightarrow> Some (r, m, c)) else Some (0, m, c))"
| "local_call env t (GClosedir d) m c = dir_call d c (- 1, m, c) (\<lambda>x.
     case os_closedir (env_os env) x (con_os c) of (r, u) \<Rightarrow> Some (r, m, c\<lparr>con_os := u, opendirs := (opendirs c)[dir_slot d := None]\<rparr>))"
| "local_call env t (GReaddir d) m c = dir_call d c (0, m, c) (\<lambda>x.
     case os_readdir (env_os env) x (con_os c) of
       (None, u) \<Rightarrow> Some (0, m, c\<lparr>con_os := u\<rparr>)
     | (Some de, u) \<Rightarrow> Some (t_dir_addr t, mem_write m (t_dir_addr t) (dirent_bytes (t_endian t) de), c\<lparr>con_os := u\<rparr>))"
| "local_call env t (GRewinddir d) m c = dir_call d c (0, m, c) (\<lambda>x. Some (0, m, c\<lparr>con_os := os_rewinddir (env_os env) x (con_os c)\<rparr>))"

section \<open>The exchange\<close>

text \<open>Bytes the compressor's work memory does not overlay, and two memories that agree outside it. Address 0 stands for none.\<close>

definition clear_of :: "ser_client \<Rightarrow> u32 \<Rightarrow> nat \<Rightarrow> bool" where
  "clear_of s a n = (wrkmem s = 0 \<or> (\<forall>i < n. outside (wrkmem s) 65536 (a + of_nat i)))"

definition agree :: "ser_client \<Rightarrow> memory \<Rightarrow> memory \<Rightarrow> bool" where
  "agree s m m' = (\<forall>x. wrkmem s = 0 \<or> outside (wrkmem s) 65536 x \<longrightarrow> m' x = m x)"

lemma agree_refl [simp]: "agree s m m"
  by (simp add: agree_def)

lemma agree_read: "agree s m m' \<Longrightarrow> clear_of s a n \<Longrightarrow> mem_read m' a n = mem_read m a n"
  by (rule mem_read_outside) (auto simp: agree_def clear_of_def)

lemma agree_write: "agree s m m' \<Longrightarrow> agree s (mem_write m a bs) (mem_write m' a bs)"
proof (induction bs arbitrary: m m' a)
  case (Cons b bs)
  then have "agree s (m(a := b)) (m'(a := b))" by (simp add: agree_def)
  then show ?case using Cons.IH by simp
qed simp

lemma onto_updates [simp]:
  "(onto c h)\<lparr>con_os := u\<rparr> = onto (c\<lparr>con_os := u\<rparr>) h" "(onto c h)\<lparr>con_out := tr\<rparr> = onto (c\<lparr>con_out := tr\<rparr>) h"
  "(onto c h)\<lparr>opendirs := ds\<rparr> = onto (c\<lparr>opendirs := ds\<rparr>) h"
  "alive (c\<lparr>con_os := u\<rparr>) = alive c" "alive (c\<lparr>con_out := tr\<rparr>) = alive c" "alive (c\<lparr>opendirs := ds\<rparr>) = alive c"
  by (simp_all add: onto_def alive_def)

lemma os_call_onto [simp]: "os_call f (onto c h) = (fst (f (con_os c)), onto (c\<lparr>con_os := snd (f (con_os c))\<rparr>) h)"
  by (simp add: os_call_def split: prod.splits)

lemma command_at_line [simp]: "alive c \<Longrightarrow> ser_blread (line_ops lz) 1 (onto c (at h p s (b # q))) = Some (True, [b], onto c (at h p s q))"
  using blread_at_line [of 1 "b # q" lz h p s] by (simp add: ser_blread_line)

lemma recv_uint_onto [simp]: "alive c \<Longrightarrow> ser_recv_uint (line_ops lz) (onto c (at h p s (le32 v @ q))) = Some (v, onto c (at h p s q))"
  by (simp add: ser_recv_uint_line)

lemma recv_uint_onto0 [simp]: "alive c \<Longrightarrow> ser_recv_uint (line_ops lz) (onto c (at h p s (le32 v))) = Some (v, onto c (at h p s []))"
  using recv_uint_onto [of c lz h p s v "[]"] by simp

lemma send_uint_onto [simp]: "alive c \<Longrightarrow> ser_send_uint (line_ops lz) v (onto c (at h (get_uint k) s [])) = Some (onto c (at h (k v) s []))"
  by (simp add: ser_send_uint_line)

lemma send_result_onto [simp]: "alive c \<Longrightarrow>
  send_result (line_ops lz) (v, onto c (at h (get_uint k) s [])) = Some (onto c (at h (k v) s []))"
  by (simp add: send_result_def)

lemma data_from_guest:
  assumes "lossless (t_lzo t)" "t_resends t \<noteq> 0" "alive c" "sz \<noteq> 0" "unat sz < 2147483648" "clear_of s a (unat sz)"
  obtains m' where "agree s (smem s) m'" "ser_recv_data (line_ops (t_lzo t)) (replicate (unat sz) x) sz
      (onto c (at h (send_data_block_compressed t a sz (\<lambda>_. k)) s []))
    = Some (mem_read (smem s) a (unat sz), onto c (at h k (s\<lparr>smem := m'\<rparr>) []))"
proof (cases "wrkmem s = 0 \<or> sz < 19")
  case True
  then have "at h (send_data_block_compressed t a sz (\<lambda>_. k)) s [] = at h (send_data_block_uncompressed a sz (\<lambda>_. k)) s []"
    by (auto simp: send_data_block_compressed_def)
  moreover have "lzo_recv_data (line_ops (t_lzo t)) (replicate (unat sz) x) sz (at h (send_data_block_uncompressed a sz (\<lambda>_. k)) s [])
      = Some (mem_read (smem s) a (unat sz), at h k s [])"
    using recv_uncompressed [OF assms(4,5), of 0 "replicate (unat sz) x" "t_lzo t" h a "\<lambda>_. k" s]
    by (simp add: lzo_recv_data_def patch_def) (subst lzo_recv_blocks.simps, simp)
  ultimately show ?thesis using that [of "smem s"] assms(3) by (simp add: ser_recv_data_line)
next
  case False
  then have c: "at h (send_data_block_compressed t a sz (\<lambda>_. k)) s [] = at h (send_blocks t a sz k) s []"
    by (simp add: send_data_block_compressed_def)
  obtain m' where "lzo_recv_data (line_ops (t_lzo t)) (replicate (unat sz) x) sz (at h (send_blocks t a sz k) s [])
      = Some (patch (replicate (unat sz) x) 0 (mem_read (smem s) a (unat sz)), at h k (s\<lparr>smem := m'\<rparr>) [])"
    "\<forall>x. outside (wrkmem s) 65536 x \<longrightarrow> m' x = smem s x"
    using recv_blocks_at [OF assms(1,2), of 0 sz "replicate (unat sz) x" s a h k] assms(5,6) False
    unfolding lzo_recv_data_def clear_of_def by auto
  then show ?thesis using that [of m'] c assms(3) False by (simp add: ser_recv_data_line agree_def patch_def)
qed

lemma data_to_guest:
  assumes "lossless (t_lzo t)" "alive c" "length dat = unat sz" "length dat \<le> 16384 * t_blocks t"
  obtains tr where "ser_send_data (line_ops (t_lzo t)) dat sz (onto c (at h (load_data_block_general t a sz False k) s []))
    = Some (onto c (at h k (traced (s\<lparr>smem := mem_write (smem s) a dat\<rparr>) tr) []))"
  using lzo_send_blocks_at [OF assms(1,3,4), of h False sz a k s] assms(2) that
  by (auto simp: ser_send_data_line lzo_send_data_def load_data_block_general_def)

text \<open>A path argument within the console's limit, its bytes clear of the work memory.\<close>

definition path_ok :: "ser_client \<Rightarrow> u32 \<Rightarrow> bool" where
  "path_ok s a = (case my_strlen (smem s) a of None \<Rightarrow> False | Some n \<Rightarrow> unat n < MAX_PATH_LEN \<and> clear_of s a (unat n + 1))"

fun call_ok :: "ser_target \<Rightarrow> ser_client \<Rightarrow> guest_call \<Rightarrow> bool" where
  "call_ok t s (GWrite fd buf cnt) = (cnt \<le> MAX_SYSCALL_SIZE \<and> clear_of s buf (unat cnt))"
| "call_ok t s (GRead fd buf cnt) = (cnt \<noteq> 0 \<and> cnt \<le> MAX_SYSCALL_SIZE \<and> unat cnt \<le> 16384 * t_blocks t)"
| "call_ok t s (GOpen path flags mode) = path_ok s path"
| "call_ok t s (GCreat path mode) = path_ok s path"
| "call_ok t s (GLink old new) = (path_ok s old \<and> path_ok s new)"
| "call_ok t s (GUnlink path) = path_ok s path"
| "call_ok t s (GChdir path) = path_ok s path"
| "call_ok t s (GChmod path mode) = path_ok s path"
| "call_ok t s (GMkdir path mode) = path_ok s path"
| "call_ok t s (GStat path buf) = path_ok s path"
| "call_ok t s (GUtime path buf) = (path_ok s path \<and> (buf = 0 \<or> clear_of s buf 8))"
| "call_ok t s (GOpendir path) = path_ok s path"
| "call_ok t s (GReaddir d) = (t_blocks t \<noteq> 0)"
| "call_ok t s _ = True"

lemma my_strlen_from_zero: "my_strlen_from m a i = Some n \<Longrightarrow> m (a + n) = 0"
  by (induction m a i n rule: my_strlen_from.raw_induct [rotated, consumes 1, case_names step]) (auto split: if_splits)

lemma path_okE:
  assumes "path_ok s a"
  obtains n name where "my_strlen (smem s) a = Some n" "n + 1 \<noteq> 0" "unat (n + 1) \<le> MAX_PATH_LEN" "clear_of s a (unat (n + 1))"
    "name = mem_read (smem s) a (unat (n + 1))" "0 \<in> set name" "guest_string (smem s) a = Some name"
proof -
  obtain n where n: "my_strlen (smem s) a = Some n" "unat n < 4096" "clear_of s a (unat n + 1)"
    using assms by (auto simp: path_ok_def split: option.splits)
  have u: "unat (n + 1) = unat n + 1" using n(2) by (subst unat_add_lt) auto
  have "smem s (a + of_nat (unat n)) = 0" using my_strlen_from_zero n(1) unfolding my_strlen_def by simp
  then have "0 \<in> set (mem_read (smem s) a (unat n + 1))" unfolding mem_read_def by force
  moreover have "n + 1 \<noteq> 0" using u by (metis add_is_0 one_neq_zero unat_0)
  ultimately show ?thesis using that [of n] n u by (simp add: guest_string_def)
qed

lemma path_from_guest:
  assumes "lossless (t_lzo t)" "t_resends t \<noteq> 0" "alive c" "path_ok s a"
  obtains m' name n where "agree s (smem s) m'" "guest_string (smem s) a = Some name" "0 \<in> set name" "my_strlen (smem s) a = Some n"
    "\<And>err K. ser_recv_path (line_ops (t_lzo t)) err K (onto c (at h (send_data_block_compressed t a (n + 1) (\<lambda>_. k)) s (le32 (n + 1))))
      = K name (onto c (at h k (s\<lparr>smem := m'\<rparr>) []))"
proof -
  obtain n name where n: "my_strlen (smem s) a = Some n" "n + 1 \<noteq> 0" "unat (n + 1) \<le> 4096" "clear_of s a (unat (n + 1))"
    "name = mem_read (smem s) a (unat (n + 1))" "0 \<in> set name" "guest_string (smem s) a = Some name"
    using path_okE [OF assms(4)] by blast
  obtain m' where m: "agree s (smem s) m'" "ser_recv_data (line_ops (t_lzo t)) (replicate (unat (n + 1)) 0) (n + 1)
      (onto c (at h (send_data_block_compressed t a (n + 1) (\<lambda>_. k)) s [])) = Some (name, onto c (at h k (s\<lparr>smem := m'\<rparr>) []))"
    using data_from_guest [OF assms(1-3) n(2), of s a 0 h k] n by auto
  show ?thesis
    by (rule that [OF m(1) n(7,6,1)]) (use n(2,3) m(2) assms(3) in \<open>simp add: ser_recv_path_def\<close>)
qed

lemma at_name_call:
  "my_strlen (smem s) a = Some n \<Longrightarrow> at h (name_call t b a k) s q = at h (send_data_block_compressed t a (n + 1) (\<lambda>_. k)) s (q @ b # le32 (n + 1))"
  by (simp add: name_call_def put_uint_le32)

lemma resolve_onto [simp]: "0 \<in> set name \<Longrightarrow> resolve_path name (onto c h) = Some (posix_resolve_path (map_path c) MAX_PATH_LEN name)"
  by (simp add: resolve_path_def)

text \<open>The line after a call: the program goes on with the result, its memory is what the specification says outside the work memory.\<close>

definition served :: "'o con_env \<Rightarrow> ser_target \<Rightarrow> (line, 'o) console \<Rightarrow> line shost \<Rightarrow> ser_client io \<Rightarrow> ser_client \<Rightarrow> (u32 \<Rightarrow> ser_client io)
    \<Rightarrow> u32 \<times> memory \<times> (line, 'o) console \<Rightarrow> bool" where
  "served env t c h p s k r = (case r of (ret, m, c') \<Rightarrow> \<exists>m' tr. agree s m m' \<and> alive c'
     \<and> serial_console_step (line_ops (t_lzo t)) env (onto c (at h p s [])) = Some (Serving (onto c' (at h (k ret) (traced (s\<lparr>smem := m'\<rparr>) tr) []))))"

lemma servedI:
  assumes "agree s m m'" "alive c'"
    "serial_console_step (line_ops (t_lzo t)) env (onto c (at h p s [])) = Some (Serving (onto c' (at h (k ret) (traced (s\<lparr>smem := m'\<rparr>) tr) [])))"
  shows "served env t c h p s k (ret, m, c')"
  using assms by (auto simp: served_def)

lemma servedI_same:
  assumes "alive c'"
    "serial_console_step (line_ops (t_lzo t)) env (onto c (at h p s [])) = Some (Serving (onto c' (at h (k ret) s [])))"
  shows "served env t c h p s k (ret, smem s, c')"
  using servedI [of s "smem s" "smem s" c' t env c h p k ret "[]"] assms by simp

lemma servedI_exact:
  assumes "alive c'"
    "serial_console_step (line_ops (t_lzo t)) env (onto c (at h p s [])) = Some (Serving (onto c' (at h (k ret) (s\<lparr>smem := m\<rparr>) [])))"
  shows "served env t c h p s k (ret, m, c')"
  using servedI [of s m m c' t env c h p k ret "[]"] assms by simp

lemma step_command: "alive c \<Longrightarrow> b \<noteq> 0 \<Longrightarrow> b \<noteq> 22 \<Longrightarrow> ser_handler (line_ops lz) env b = Some f \<Longrightarrow>
  serial_console_step (line_ops lz) env (onto c (at h p s (b # q))) = map_option Serving (f (onto c (at h p s q)))"
  by (simp add: serial_console_step_def)

lemmas handlers = ser_handler_def Let_def

lemma close_served: "alive c \<Longrightarrow> local_call env t (GClose fd) (smem s) c = Some r \<Longrightarrow> served env t c h (ser_close fd k) s k r"
  by (cases "os_close (env_os env) fd (con_os c)")
     (auto simp: on_host_def ser_close_def put_uint_le32 step_command handlers ser_syscall_close_def intro!: servedI_same)

lemma lseek_served: "alive c \<Longrightarrow> local_call env t (GLseek fd offset whence) (smem s) c = Some r \<Longrightarrow>
    served env t c h (ser_lseek fd offset whence k) s k r"
  by (cases "os_lseek (env_os env) fd (sint offset) whence (con_os c)")
     (auto simp: on_host_def ser_lseek_def put_uint_le32 step_command handlers ser_syscall_lseek_def intro!: servedI_same)

lemma time_served: "alive c \<Longrightarrow> local_call env t (GTime p) (smem s) c = Some r \<Longrightarrow> served env t c h (ser_time t p k) s k r"
  by (cases "os_time (env_os env) (con_os c)"; cases "p = 0")
     (auto simp: ser_time_def step_command handlers ser_syscall_time_def store32_def intro!: servedI_exact)

lemma closedir_served: "alive c \<Longrightarrow> local_call env t (GClosedir d) (smem s) c = Some r \<Longrightarrow> served env t c h (ser_closedir d k) s k r"
  by (auto simp: dir_call_def ser_closedir_def put_uint_le32 step_command handlers ser_syscall_closedir_def bind_eq_Some_conv case_prod_unfold
      split: if_splits intro!: servedI_same)

lemma rewinddir_served: "alive c \<Longrightarrow> local_call env t (GRewinddir d) (smem s) c = Some r \<Longrightarrow> served env t c h (ser_rewinddir d k) s k r"
  by (auto simp: dir_call_def ser_rewinddir_def put_uint_le32 step_command handlers ser_syscall_rewinddir_def bind_eq_Some_conv
      split: if_splits intro!: servedI_same)

lemma name_call_served:
  assumes "lossless (t_lzo t)" "t_resends t \<noteq> 0" "alive c" "path_ok s a" "b \<noteq> 0" "b \<noteq> 22" "alive c'"
    and "ser_handler (line_ops (t_lzo t)) env b = Some (ser_recv_path (line_ops (t_lzo t)) err K)"
    and "\<And>name m'. guest_string (smem s) a = Some name \<Longrightarrow> 0 \<in> set name \<Longrightarrow> agree s (smem s) m' \<Longrightarrow>
      \<exists>m'' tr. agree s m m'' \<and> K name (onto c (at h kk (s\<lparr>smem := m'\<rparr>) [])) = Some (onto c' (at h (k ret) (traced (s\<lparr>smem := m''\<rparr>) tr) []))"
  shows "served env t c h (name_call t b a kk) s k (ret, m, c')"
proof -
  obtain m' name n where p: "agree s (smem s) m'" "guest_string (smem s) a = Some name" "0 \<in> set name" "my_strlen (smem s) a = Some n"
    "ser_recv_path (line_ops (t_lzo t)) err K (onto c (at h (send_data_block_compressed t a (n + 1) (\<lambda>_. kk)) s (le32 (n + 1))))
      = K name (onto c (at h kk (s\<lparr>smem := m'\<rparr>) []))"
    using path_from_guest [OF assms(1-4), of h kk] by metis
  obtain m'' tr where "agree s m m''" "K name (onto c (at h kk (s\<lparr>smem := m'\<rparr>) [])) = Some (onto c' (at h (k ret) (traced (s\<lparr>smem := m''\<rparr>) tr) []))"
    using assms(9) [OF p(2,3,1)] by blast
  then show ?thesis
    by (intro servedI [OF _ assms(7)]) (auto simp: at_name_call [OF p(4)] step_command [OF assms(3,5,6,8)] p(5))
qed

text \<open>The calls that hand a path to the host and send back its answer.\<close>

lemma path_call_served:
  assumes "lossless (t_lzo t)" "t_resends t \<noteq> 0" "alive c" "path_ok s a" "b \<noteq> 0" "b \<noteq> 22"
    and "ser_handler (line_ops (t_lzo t)) env b = Some (ser_recv_path (line_ops (t_lzo t)) (- 1) K)"
    and "\<And>name m'. K name (onto c (at h kk (s\<lparr>smem := m'\<rparr>) [])) = path_call (line_ops (t_lzo t)) f name (onto c (at h (get_uint k) (s\<lparr>smem := m'\<rparr>) []))"
    and "Option.bind (host_path (smem s) a c) (\<lambda>p. on_host (f p) id (smem s) c) = Some r"
  shows "served env t c h (name_call t b a kk) s k r"
proof -
  obtain name where name: "guest_string (smem s) a = Some name" using assms(9) by (auto simp: host_path_def bind_eq_Some_conv)
  let ?p = "posix_resolve_path (map_path c) 4096 name"
  obtain ret u where f: "f ?p (con_os c) = (ret, u)" by fastforce
  have r: "r = (ret, smem s, c\<lparr>con_os := u\<rparr>)" using assms(9) name f by (simp add: host_path_def on_host_def)
  show ?thesis unfolding r
  proof (rule name_call_served [OF assms(1-6) _ assms(7)])
    fix name' m' assume "guest_string (smem s) a = Some name'" "0 \<in> set name'" "agree s (smem s) m'"
    then show "\<exists>m'' tr. agree s (smem s) m'' \<and> K name' (onto c (at h kk (s\<lparr>smem := m'\<rparr>) []))
        = Some (onto (c\<lparr>con_os := u\<rparr>) (at h (k ret) (traced (s\<lparr>smem := m''\<rparr>) tr) []))"
      using name f assms(3) by (intro exI [of _ m'] exI [of _ "[]"]) (simp add: assms(8) path_call_def)
  qed (simp add: assms(3))
qed

lemma path_calls_served:
  assumes "lossless (t_lzo t)" "t_resends t \<noteq> 0" "alive c" "path_ok s path"
  shows "local_call env t (GOpen path flags mode) (smem s) c = Some r \<Longrightarrow> served env t c h (ser_open t path flags mode k) s k r"
    and "local_call env t (GCreat path mode) (smem s) c = Some r \<Longrightarrow> served env t c h (ser_creat t path mode k) s k r"
    and "local_call env t (GUnlink path) (smem s) c = Some r \<Longrightarrow> served env t c h (ser_unlink t path k) s k r"
    and "local_call env t (GChdir path) (smem s) c = Some r \<Longrightarrow> served env t c h (ser_chdir t path k) s k r"
    and "local_call env t (GChmod path mode) (smem s) c = Some r \<Longrightarrow> served env t c h (ser_chmod t path mode k) s k r"
    and "local_call env t (GMkdir path mode) (smem s) c = Some r \<Longrightarrow> served env t c h (ser_mkdir t path mode k) s k r"
  unfolding ser_open_def ser_creat_def ser_unlink_def ser_chdir_def ser_chmod_def ser_mkdir_def
  by (rule path_call_served [OF assms, where f = "\<lambda>p. os_open (env_os env) p (posix_translate_flags flags) mode"],
        simp, simp, simp add: handlers ser_syscall_open_def, simp add: put_uint_le32 assms(3), simp)
     (rule path_call_served [OF assms], simp, simp, simp add: handlers ser_syscall_creat_def ser_syscall_unlink_def ser_syscall_chdir_def
        ser_syscall_chmod_def ser_syscall_mkdir_def, simp add: put_uint_le32 assms(3), simp)+

lemma ucast_32_16 [simp]: "(ucast (ucast (x :: u64) :: u32) :: u16) = ucast x"
  by (simp add: bit_eq_iff bit_simps)

lemma ucast_16_32 [simp]: "(ucast (ucast (x :: u16) :: u32) :: u16) = x"
  by (simp add: bit_eq_iff bit_simps)

lemma ucast_8_32 [simp]: "(ucast (ucast (x :: u8) :: u32) :: u8) = x"
  by (simp add: bit_eq_iff bit_simps)

lemma stat_to_guest: "alive c \<Longrightarrow> ser_send_uints (line_ops lz) (stat_words st @ [ret]) (onto c (at h (recv_stat t buf k) s []))
    = Some (onto c (at h (k ret) (s\<lparr>smem := mem_write (smem s) buf (stat_bytes (t_endian t) st)\<rparr>) []))"
  by (simp add: recv_stat_def stat_words_def store32_def store16_def Let_def stat_bytes_def mem_write_append ac_simps)

lemma send_stat_onto: "alive c \<Longrightarrow> send_stat (line_ops lz) ((ret, st), onto c (at h (recv_stat t buf k) s []))
    = Some (onto c (at h (k ret) (s\<lparr>smem := mem_write (smem s) buf (stat_bytes (t_endian t) (case st of None \<Rightarrow> stat_zero | Some x \<Rightarrow> x))\<rparr>) []))"
  by (simp add: send_stat_def stat_to_guest)

lemma fstat_served: "alive c \<Longrightarrow> local_call env t (GFstat fd buf) (smem s) c = Some r \<Longrightarrow> served env t c h (ser_fstat t fd buf k) s k r"
  by (cases "os_fstat (env_os env) fd (con_os c)")
     (auto simp: put_stat_def ser_fstat_def put_uint_le32 step_command handlers ser_syscall_fstat_def send_stat_onto intro!: servedI_exact)

lemma stat_served:
  assumes "lossless (t_lzo t)" "t_resends t \<noteq> 0" "alive c" "path_ok s path" "local_call env t (GStat path buf) (smem s) c = Some r"
  shows "served env t c h (ser_stat t path buf k) s k r"
proof -
  obtain name where name: "guest_string (smem s) path = Some name" using assms(5) by (auto simp: host_path_def bind_eq_Some_conv)
  obtain ret st u where f: "os_stat (env_os env) (posix_resolve_path (map_path c) 4096 name) (con_os c) = ((ret, st), u)" by (metis prod_cases3 surj_pair)
  let ?bs = "stat_bytes (t_endian t) (case st of None \<Rightarrow> stat_zero | Some x \<Rightarrow> x)"
  have r: "r = (ret, mem_write (smem s) buf ?bs, c\<lparr>con_os := u\<rparr>)" using assms(5) name f by (simp add: host_path_def put_stat_def)
  show ?thesis unfolding r ser_stat_def
  proof (rule name_call_served [OF assms(1-4), where err = "- 1"])
    show "ser_handler (line_ops (t_lzo t)) env 13 = Some (ser_recv_path (line_ops (t_lzo t)) (- 1) (\<lambda>name c.
        Option.bind (resolve_path name c) (\<lambda>path. send_stat (line_ops (t_lzo t)) (os_call (os_stat (env_os env) path) c))))"
      by (simp add: handlers ser_syscall_stat_def)
    fix name' m' assume n: "guest_string (smem s) path = Some name'" "0 \<in> set name'" "agree s (smem s) m'"
    show "\<exists>m'' tr. agree s (mem_write (smem s) buf ?bs) m'' \<and> Option.bind (resolve_path name' (onto c (at h (recv_stat t buf k) (s\<lparr>smem := m'\<rparr>) [])))
          (\<lambda>path. send_stat (line_ops (t_lzo t)) (os_call (os_stat (env_os env) path) (onto c (at h (recv_stat t buf k) (s\<lparr>smem := m'\<rparr>) []))))
        = Some (onto (c\<lparr>con_os := u\<rparr>) (at h (k ret) (traced (s\<lparr>smem := m''\<rparr>) tr) []))"
      using n name f assms(3) agree_write [OF n(3), of buf ?bs]
      by (intro exI [of _ "mem_write m' buf ?bs"] exI [of _ "[]"]) (simp add: send_stat_onto)
  qed (simp_all add: assms(3))
qed

lemma agree_ld32: "agree s m m' \<Longrightarrow> clear_of s a 8 \<Longrightarrow> mem_ld32 e m' a = mem_ld32 e m a \<and> mem_ld32 e m' (a + 4) = mem_ld32 e m (a + 4)"
proof -
  assume a: "agree s m m'" "clear_of s a 8"
  have "m' (a + of_nat i) = m (a + of_nat i)" if "i < 8" for i using a that by (auto simp: agree_def clear_of_def)
  from this [of 0] this [of 1] this [of 2] this [of 3] this [of 4] this [of 5] this [of 6] this [of 7]
  show ?thesis by (simp add: mem_ld32_def ac_simps)
qed

lemma utime_served:
  assumes "lossless (t_lzo t)" "t_resends t \<noteq> 0" "alive c" "path_ok s path" "buf = 0 \<or> clear_of s buf 8"
    and "local_call env t (GUtime path buf) (smem s) c = Some r"
  shows "served env t c h (ser_utime t path buf k) s k r"
proof -
  obtain name where name: "guest_string (smem s) path = Some name" using assms(6) by (auto simp: host_path_def bind_eq_Some_conv)
  define times where "times = (if buf = 0 then None else Some (mem_ld32 (t_endian t) (smem s) buf, mem_ld32 (t_endian t) (smem s) (buf + 4)))"
  obtain ret u where f: "os_utime (env_os env) (posix_resolve_path (map_path c) 4096 name) times (con_os c) = (ret, u)" by fastforce
  have r: "r = (ret, smem s, c\<lparr>con_os := u\<rparr>)" using assms(6) name f by (simp add: host_path_def on_host_def times_def)
  show ?thesis unfolding r ser_utime_def
  proof (rule name_call_served [OF assms(1-4), where err = "- 1"])
    fix name' m' assume n: "guest_string (smem s) path = Some name'" "0 \<in> set name'" "agree s (smem s) m'"
    note ld = agree_ld32 [OF n(3), of buf "t_endian t"]
    show "\<exists>m'' tr. agree s (smem s) m'' \<and> (\<lambda>name c. Option.bind (ser_recv_uint (line_ops (t_lzo t)) c) (\<lambda>(has_times, c).
       if has_times \<noteq> 0
       then Option.bind (ser_recv_uint (line_ops (t_lzo t)) c) (\<lambda>(actime, c). Option.bind (ser_recv_uint (line_ops (t_lzo t)) c) (\<lambda>(modtime, c).
         path_call (line_ops (t_lzo t)) (\<lambda>path. os_utime (env_os env) path (Some (actime, modtime))) name c))
       else path_call (line_ops (t_lzo t)) (\<lambda>path. os_utime (env_os env) path None) name c)) name'
          (onto c (at h (if buf \<noteq> 0 then put_uint 1 (Obs (\<lambda>s. put_uint (mem_ld32 (t_endian t) (smem s) buf)
             (put_uint (mem_ld32 (t_endian t) (smem s) (buf + 4)) (get_uint k)))) else put_uint 0 (get_uint k)) (s\<lparr>smem := m'\<rparr>) []))
        = Some (onto (c\<lparr>con_os := u\<rparr>) (at h (k ret) (traced (s\<lparr>smem := m''\<rparr>) tr) []))"
      using n name f assms(3,5) ld
      by (intro exI [of _ m'] exI [of _ "[]"]) (auto simp: put_uint_le32 path_call_def times_def)
  qed (simp_all add: assms(3) handlers ser_syscall_utime_def)
qed

lemma opendir_served:
  assumes "lossless (t_lzo t)" "t_resends t \<noteq> 0" "alive c" "path_ok s path" "local_call env t (GOpendir path) (smem s) c = Some r"
  shows "served env t c h (ser_opendir t path k) s k r"
proof -
  obtain name where name: "guest_string (smem s) path = Some name" using assms(5) by (auto simp: host_path_def bind_eq_Some_conv)
  define room where "room = (free_slot (opendirs c) < 512)"
  let ?p = "posix_resolve_path (map_path c) 4096 name"
  obtain d u where d: "os_opendir (env_os env) ?p (con_os c) = (d, u)" by fastforce
  obtain ret c' where f: "(if room then open_slot (env_os env) ?p c else (0, c)) = (ret, c')" by fastforce
  then have r: "r = (ret, smem s, c')" using assms(5) name by (auto simp: host_path_def room_def split: if_splits)
  have al: "alive c'" "open_slot (env_os env) ?p (onto c x) = (fst (open_slot (env_os env) ?p c), onto (snd (open_slot (env_os env) ?p c)) x)" for x
    using f assms(3) d by (auto simp: open_slot_def os_call_def Let_def split: if_splits option.splits)
  show ?thesis unfolding r ser_opendir_def
  proof (rule name_call_served [OF assms(1-4), where err = 0])
    fix name' m' assume n: "guest_string (smem s) path = Some name'" "0 \<in> set name'" "agree s (smem s) m'"
    then have "name' = name" using name by simp
    then show "\<exists>m'' tr. agree s (smem s) m'' \<and> (\<lambda>name c. if free_slot (opendirs c) < 512
          then Option.bind (resolve_path name c) (\<lambda>path. send_result (line_ops (t_lzo t)) (open_slot (env_os env) path c))
          else ser_send_uint (line_ops (t_lzo t)) 0 c) name' (onto c (at h (get_uint k) (s\<lparr>smem := m'\<rparr>) []))
        = Some (onto c' (at h (k ret) (traced (s\<lparr>smem := m''\<rparr>) tr) []))"
      using n f assms(3) al by (intro exI [of _ m'] exI [of _ "[]"]) (auto simp: room_def split: if_splits)
  qed (simp_all add: al handlers ser_syscall_opendir_def)
qed

lemma link_served:
  assumes "lossless (t_lzo t)" "t_resends t \<noteq> 0" "alive c" "path_ok s old" "path_ok s new" "local_call env t (GLink old new) (smem s) c = Some r"
  shows "served env t c h (ser_link t old new k) s k r"
proof -
  obtain p q where pq: "guest_string (smem s) old = Some p" "guest_string (smem s) new = Some q"
    using assms(6) by (auto simp: host_path_def bind_eq_Some_conv)
  obtain n where n: "my_strlen (smem s) new = Some n" "n + 1 \<noteq> 0" "unat (n + 1) \<le> 4096" "clear_of s new (unat (n + 1))"
    "q = mem_read (smem s) new (unat (n + 1))" "0 \<in> set q"
    using path_okE [OF assms(5)] pq(2) by (metis option.inject)
  obtain ret u where f: "os_link (env_os env) (posix_resolve_path (map_path c) 4096 p) (posix_resolve_path (map_path c) 4096 q) (con_os c) = (ret, u)"
    by fastforce
  have r: "r = (ret, smem s, c\<lparr>con_os := u\<rparr>)" using assms(6) pq f by (simp add: host_path_def on_host_def)
  let ?kk = "put_uint (n + 1) (send_data_block_compressed t new (n + 1) (\<lambda>_. get_uint k))"
  have "served env t c h (name_call t 7 old ?kk) s k (ret, smem s, c\<lparr>con_os := u\<rparr>)"
  proof (rule name_call_served [OF assms(1-4), where err = "- 1"])
    fix name m' assume a: "guest_string (smem s) old = Some name" "0 \<in> set name" "agree s (smem s) m'"
    let ?s = "s\<lparr>smem := m'\<rparr>"
    have cl: "clear_of ?s new (unat (n + 1))" "mem_read m' new (unat (n + 1)) = q"
      using n(4,5) agree_read [OF a(3) n(4)] by (simp_all add: clear_of_def)
    have "unat (n + 1) < 2147483648" using n(3) by simp
    then obtain m2 where m2: "agree ?s (smem ?s) m2" "ser_recv_data (line_ops (t_lzo t)) (replicate (unat (n + 1)) 0) (n + 1)
        (onto c (at h (send_data_block_compressed t new (n + 1) (\<lambda>_. get_uint k)) ?s [])) = Some (q, onto c (at h (get_uint k) (?s\<lparr>smem := m2\<rparr>) []))"
      using data_from_guest [OF assms(1-3) n(2) _ cl(1), of 0 h "get_uint k"] cl(2) by auto
    then have "agree s (smem s) m2" using a(3) by (simp add: agree_def)
    then show "\<exists>m'' tr. agree s (smem s) m'' \<and> (\<lambda>path1. ser_recv_path (line_ops (t_lzo t)) (- 1) (\<lambda>path2 c.
          Option.bind (resolve_path path1 c) (\<lambda>r1. path_call (line_ops (t_lzo t)) (os_link (env_os env) r1) path2 c))) name (onto c (at h ?kk ?s []))
        = Some (onto (c\<lparr>con_os := u\<rparr>) (at h (k ret) (traced (s\<lparr>smem := m''\<rparr>) tr) []))"
      using a pq f n assms(3) m2(2)
      by (intro exI [of _ m2] exI [of _ "[]"]) (simp add: put_uint_le32 ser_recv_path_def path_call_def)
  qed (simp_all add: assms(3) handlers ser_syscall_link_def)
  then show ?thesis unfolding r using n(1) by (simp add: ser_link_def served_def)
qed

lemma read_served:
  assumes "lossless (t_lzo t)" "alive c" "call_ok t s (GRead fd buf cnt)" "local_call env t (GRead fd buf cnt) (smem s) c = Some r"
  shows "served env t c h (ser_read t fd buf cnt k) s k r"
proof -
  obtain rd u where f: "os_read (env_os env) fd (unat cnt) (con_os c) = (rd, u)" by fastforce
  define bs where "bs = (case rd of None \<Rightarrow> [] | Some bs \<Rightarrow> bs)"
  define ret :: u32 where "ret = (case rd of None \<Rightarrow> - 1 | Some bs \<Rightarrow> of_nat (length bs))"
  define dat where "dat = bs @ replicate (unat cnt - length bs) 0"
  have r: "r = (ret, mem_write (smem s) buf dat, c\<lparr>con_os := u\<rparr>)" "length bs \<le> unat cnt"
    using assms(4) f by (auto simp: bs_def [symmetric] ret_def [symmetric] dat_def [symmetric] Let_def split: if_splits)
  then have put: "put_at (replicate (unat cnt) 0) 0 bs = Some dat" "length dat = unat cnt" by (simp_all add: put_at_def dat_def)
  have al: "alive (c\<lparr>con_os := u\<rparr>)" using assms(2) by simp
  obtain tr where "ser_send_data (line_ops (t_lzo t)) dat cnt (onto (c\<lparr>con_os := u\<rparr>) (at h (load_data_block_general t buf cnt False (get_uint k)) s []))
      = Some (onto (c\<lparr>con_os := u\<rparr>) (at h (get_uint k) (traced (s\<lparr>smem := mem_write (smem s) buf dat\<rparr>) tr) []))"
    using data_to_guest [OF assms(1) al put(2), of h buf "get_uint k" s] assms(3) put(2) by auto
  then show ?thesis unfolding r using assms(2,3) f put(1) al
    by (intro servedI [where tr = tr and m' = "mem_write (smem s) buf dat"])
       (simp_all add: ser_read_def put_uint_le32 step_command handlers ser_syscall_read_def bs_def [symmetric] ret_def [symmetric] word_less_nat_alt word_le_nat_alt)
qed

lemma write_served:
  assumes "lossless (t_lzo t)" "t_resends t \<noteq> 0" "alive c" "call_ok t s (GWrite fd buf cnt)" "local_call env t (GWrite fd buf cnt) (smem s) c = Some r"
  shows "served env t c h (ser_write t fd buf cnt k) s k r"
proof (cases "cnt = 0")
  case True
  then show ?thesis using assms(3,5) by (auto simp: ser_write_def put_uint_le32 step_command handlers ser_syscall_write_def intro!: servedI_same)
next
  case False
  have sz: "unat cnt < 2147483648" "cnt \<le> 0x02000000" "clear_of s buf (unat cnt)" using assms(4) by (auto simp: word_le_nat_alt)
  let ?dat = "mem_read (smem s) buf (unat cnt)"
  obtain m' where m: "agree s (smem s) m'" "ser_recv_data (line_ops (t_lzo t)) (replicate (unat cnt) 0) cnt
      (onto c (at h (send_data_block_compressed t buf cnt (\<lambda>_. get_uint k)) s [])) = Some (?dat, onto c (at h (get_uint k) (s\<lparr>smem := m'\<rparr>) []))"
    using data_from_guest [OF assms(1-3) False sz(1,3), of 0 h "get_uint k"] by blast
  define other where "other = (fd \<noteq> 1 \<and> fd \<noteq> 2)"
  obtain ret c' where r: "r = (ret, smem s, c')" "alive c'"
    "(if other then Option.bind (write_full (env_os env) fd ?dat cnt (con_os c)) (\<lambda>(ret, u). ser_send_uint (line_ops (t_lzo t)) ret
        ((onto c (at h (get_uint k) (s\<lparr>smem := m'\<rparr>) []))\<lparr>con_os := u\<rparr>))
      else send_result (line_ops (t_lzo t)) (console_out env fd ?dat (onto c (at h (get_uint k) (s\<lparr>smem := m'\<rparr>) []))))
     = Some (onto c' (at h (k ret) (s\<lparr>smem := m'\<rparr>) []))"
    using assms(3,5) False
    by (auto simp: other_def console_out_def split: if_splits prod.splits)
  show ?thesis unfolding r(1) using m(2) False leD [OF sz(2)] r(2,3) assms(3)
    by (cases other; intro servedI [OF m(1), where tr = "[]"])
       (simp_all add: ser_write_def put_uint_le32 step_command handlers ser_syscall_write_def other_def [symmetric])
qed

definition recv_dirent :: "ser_target \<Rightarrow> (u32 \<Rightarrow> ser_client io) \<Rightarrow> ser_client io" where
  "recv_dirent t k = (let e = t_endian t; d = t_dir_addr t in
     get_uint (\<lambda>flag. if flag \<noteq> 0 then
       get_uint (\<lambda>v. store32 e d v (
       get_uint (\<lambda>v. store32 e (d + 4) v (
       get_uint (\<lambda>v. store16 e (d + 8) (ucast v) (
       get_uint (\<lambda>v. Mod (\<lambda>s. s\<lparr>smem := mem_write (smem s) (d + 10) [ucast v]\<rparr>) (
       get_uint (\<lambda>namelen. load_data_block_general t (d + 11) namelen False (k d))))))))))
       else k 0))"

lemma ser_readdir_recv: "ser_readdir t d k = Put 18 (put_uint d (recv_dirent t k))"
  by (simp add: ser_readdir_def recv_dirent_def Let_def)

lemma dirent_to_guest:
  assumes "lossless (t_lzo t)" "alive c" "t_blocks t \<noteq> 0"
  obtains tr where "send_dirent (line_ops (t_lzo t)) de (onto c (at h (recv_dirent t k) s []))
    = Some (onto c (at h (k (t_dir_addr t)) (traced (s\<lparr>smem := mem_write (smem s) (t_dir_addr t) (dirent_bytes (t_endian t) de)\<rparr>) tr) []))"
proof -
  let ?d = "t_dir_addr t" and ?e = "t_endian t"
  define name where "name = take 256 (d_name de @ [0])"
  define m where "m = mem_write (mem_write (mem_write (mem_write (smem s) ?d (st32 ?e (ucast (d_ino de)))) (?d + 4) (st32 ?e (ucast (d_off de))))
     (?d + 8) (st16 ?e (d_reclen de))) (?d + 10) [d_type de]"
  have le: "length name \<le> 256" by (simp add: name_def)
  then have "unat (of_nat (length name) :: u32) = length name" by (intro unat_of_nat32) simp
  with le have len: "length name \<le> 256" "length name = unat (of_nat (length name) :: u32)" "min (length (d_name de @ [0])) 256 = length name"
    "take (length name) (d_name de @ [0]) = name"
    by (auto simp: name_def min_def)
  then have "length name \<le> 16384 * t_blocks t" using assms(3) by (cases "t_blocks t") auto
  then obtain tr where "ser_send_data (line_ops (t_lzo t)) name (of_nat (length name)) (onto c (at h (load_data_block_general t (?d + 11)
       (of_nat (length name)) False (k ?d)) (s\<lparr>smem := m\<rparr>) [])) = Some (onto c (at h (k ?d) (traced (s\<lparr>smem := mem_write m (?d + 11) name\<rparr>) tr) []))"
    using data_to_guest [OF assms(1,2) len(2), of h "?d + 11" "k ?d" "s\<lparr>smem := m\<rparr>"] by auto
  moreover have "mem_write m (?d + 11) name = mem_write (smem s) ?d (dirent_bytes ?e de)"
    by (simp add: m_def dirent_bytes_def mem_write_append ac_simps name_def [symmetric] del: take_append)
  moreover have "send_dirent (line_ops (t_lzo t)) de c0 = Option.bind (ser_send_uints (line_ops (t_lzo t))
      [1, ucast (d_ino de), ucast (d_off de), ucast (d_reclen de), ucast (d_type de), of_nat (length name)] c0)
      (ser_send_data (line_ops (t_lzo t)) name (of_nat (length name)))" for c0 :: "(line, 'a) console"
    by (simp only: send_dirent_def Let_def len(3,4))
  ultimately show ?thesis using that [of tr] assms(2)
    by (simp add: recv_dirent_def Let_def store32_def store16_def m_def)
qed

lemma readdir_served:
  assumes "lossless (t_lzo t)" "alive c" "call_ok t s (GReaddir d)" "local_call env t (GReaddir d) (smem s) c = Some r"
  shows "served env t c h (ser_readdir t d k) s k r"
proof -
  have b: "t_blocks t \<noteq> 0" using assms(3) by simp
  show ?thesis
  proof (cases "dir_handle d")
    case False
    then show ?thesis using assms(2,4)
      by (auto simp: dir_call_def ser_readdir_recv put_uint_le32 step_command handlers ser_syscall_readdir_def recv_dirent_def intro!: servedI_same)
  next
    case True
    then obtain x de u where x: "opendirs c ! dir_slot d = Some x" "os_readdir (env_os env) x (con_os c) = (de, u)"
      using assms(4) by (simp add: dir_call_def bind_eq_Some_conv) (metis surj_pair)
    show ?thesis
    proof (cases de)
      case None
      then show ?thesis using True x assms(2,4)
        by (auto simp: dir_call_def ser_readdir_recv put_uint_le32 step_command handlers ser_syscall_readdir_def recv_dirent_def intro!: servedI_same)
    next
      case (Some e)
      have al: "alive (c\<lparr>con_os := u\<rparr>)" using assms(2) by simp
      obtain tr where tr: "send_dirent (line_ops (t_lzo t)) e (onto (c\<lparr>con_os := u\<rparr>) (at h (recv_dirent t k) s []))
        = Some (onto (c\<lparr>con_os := u\<rparr>) (at h (k (t_dir_addr t)) (traced (s\<lparr>smem := mem_write (smem s) (t_dir_addr t) (dirent_bytes (t_endian t) e)\<rparr>) tr) []))"
        using dirent_to_guest [OF assms(1) al b] by metis
      have r: "r = (t_dir_addr t, mem_write (smem s) (t_dir_addr t) (dirent_bytes (t_endian t) e), c\<lparr>con_os := u\<rparr>)"
        using True x Some assms(4) by (simp add: dir_call_def)
      show ?thesis unfolding r
        using tr True x Some assms(2)
        by (intro servedI [OF agree_refl al, where tr = tr])
           (simp add: ser_readdir_recv put_uint_le32 step_command handlers ser_syscall_readdir_def)
    qed
  qed
qed

lemma call_served:
  assumes "lossless (t_lzo t)" "t_resends t \<noteq> 0" "alive c" "call_ok t s call" "local_call env t call (smem s) c = Some r"
  shows "served env t c h (issue t call k) s k r"
  using assms
  by (cases call)
     (auto simp del: local_call.simps intro: fstat_served write_served read_served path_calls_served close_served link_served lseek_served
       time_served stat_served utime_served opendir_served closedir_served readdir_served rewinddir_served)


end
