(* ===== verification/Serial_Run.thy ===== *)
theory Serial_Run
  imports Serial_Calls
begin

text \<open>
  A program under the serial console. A program is seen as the calls it makes, each depending on the results before, up to
  its exit code. Running it on the console with the host at the other end of the line gives what running its calls
  directly on the host gives.
\<close>

section \<open>Programs\<close>

datatype prog = Exit u32 | Do guest_call "u32 \<Rightarrow> prog"

primrec compile :: "ser_target \<Rightarrow> prog \<Rightarrow> ser_client io \<Rightarrow> ser_client io" where
  "compile t (Exit code) k = ser_progexit code k"
| "compile t (Do call p) k = issue t call (\<lambda>r. compile t (p r) k)"

primrec local_run :: "'o con_env \<Rightarrow> ser_target \<Rightarrow> prog \<Rightarrow> memory \<Rightarrow> ('w, 'o) console \<Rightarrow> (u32 \<times> memory \<times> ('w, 'o) console) option" where
  "local_run env t (Exit code) = (\<lambda>m c. Some (code, m, c))"
| "local_run env t (Do call p) = (\<lambda>m c. Option.bind (local_call env t call m c) (\<lambda>(r, m, c). local_run env t (p r) m c))"

text \<open>Every call of the run is within the console's limits.\<close>

primrec run_ok :: "'o con_env \<Rightarrow> ser_target \<Rightarrow> ser_client \<Rightarrow> prog \<Rightarrow> memory \<Rightarrow> ('w, 'o) console \<Rightarrow> bool" where
  "run_ok env t s (Exit code) = (\<lambda>m c. True)"
| "run_ok env t s (Do call p) = (\<lambda>m c. call_ok t (s\<lparr>smem := m\<rparr>) call
     \<and> (case local_call env t call m c of None \<Rightarrow> True | Some (r, m, c) \<Rightarrow> run_ok env t s (p r) m c))"

lemma call_ok_mem: "wrkmem s' = wrkmem s \<Longrightarrow> smem s' = smem s \<Longrightarrow> call_ok t s' call = call_ok t s call"
proof -
  assume s: "wrkmem s' = wrkmem s" "smem s' = smem s"
  then have "clear_of s' = clear_of s" by (auto simp: clear_of_def fun_eq_iff)
  moreover from this s(2) have "path_ok s' = path_ok s" by (intro ext) (simp add: path_ok_def cong: option.case_cong)
  ultimately show ?thesis by (cases call) simp_all
qed

lemma run_ok_mem: "wrkmem s' = wrkmem s \<Longrightarrow> run_ok env t s' p m c = run_ok env t s p m c"
proof (induction p arbitrary: m c)
  case (Do call p)
  then have "call_ok t (s'\<lparr>smem := m\<rparr>) call = call_ok t (s\<lparr>smem := m\<rparr>) call" by (intro call_ok_mem) simp_all
  then show ?case using Do by (auto split: option.splits)
qed simp

lemma agree_all: "wrkmem s = 0 \<Longrightarrow> agree s m m' \<Longrightarrow> m' = m"
  by (auto simp: agree_def)

lemma run_served:
  assumes "lossless (t_lzo t)" "t_resends t \<noteq> 0"
  shows "wrkmem s = 0 \<Longrightarrow> alive c \<Longrightarrow> run_ok env t s p (smem s) c \<Longrightarrow> local_run env t p (smem s) c = Some (code, m, c') \<Longrightarrow>
    \<exists>tr. console_loop (line_ops (t_lzo t)) env (onto c (at h (compile t p k) s []))
      = Some (Ended 0 (Some code) (program_exit env code (onto c' (at h k (traced (s\<lparr>smem := m\<rparr>) tr) []))))"
proof (induction p arbitrary: s c)
  case (Exit x)
  then have "serial_console_step (line_ops (t_lzo t)) env (onto c (at h (compile t (Exit x) k) s []))
      = Some (Ended 0 (Some code) (program_exit env code (onto c' (at h k (traced (s\<lparr>smem := m\<rparr>) [Flush]) []))))"
    by (auto simp: ser_progexit_def put_uint_le32 serial_console_step_def)
  then show ?case by (subst console_loop.simps) auto
next
  case (Do call p)
  obtain r m1 c1 where l: "local_call env t call (smem s) c = Some (r, m1, c1)" "local_run env t (p r) m1 c1 = Some (code, m, c')"
    using Do.prems(4) by (auto simp: bind_eq_Some_conv)
  have ok: "call_ok t s call" "run_ok env t s (p r) m1 c1" using Do.prems(3) l(1) by simp_all
  obtain m' tr where st: "agree s m1 m'" "alive c1" "serial_console_step (line_ops (t_lzo t)) env (onto c (at h (issue t call (\<lambda>r. compile t (p r) k)) s []))
      = Some (Serving (onto c1 (at h (compile t (p r) k) (traced (s\<lparr>smem := m'\<rparr>) tr) [])))"
    using call_served [OF assms Do.prems(2) ok(1) l(1), of h "\<lambda>r. compile t (p r) k"] by (auto simp: served_def)
  let ?s1 = "traced (s\<lparr>smem := m1\<rparr>) tr"
  have m': "m' = m1" using agree_all [OF Do.prems(1) st(1)] .
  have "run_ok env t ?s1 (p r) m1 c1" using ok(2) run_ok_mem [of ?s1 s env t "p r" m1 c1] by simp
  then obtain tr' where "console_loop (line_ops (t_lzo t)) env (onto c1 (at h (compile t (p r) k) ?s1 []))
      = Some (Ended 0 (Some code) (program_exit env code (onto c' (at h k (traced (?s1\<lparr>smem := m\<rparr>) tr') []))))"
    using Do.IH [of "p r" ?s1 c1] Do.prems(1) st(2) l(2) by auto
  then show ?case using st(3) m' by (subst console_loop.simps) auto
qed


section \<open>Examples\<close>

definition example_socks :: "'o socks" where
  "example_socks = \<lparr>so_init = (\<lambda>u. (0, u)), so_cleanup = (\<lambda>u. u), so_tcp_socket = (\<lambda>u. (3, u)), so_setsockopt_reuse = (\<lambda>_ u. u),
     so_bind_listen = (\<lambda>_ _ u. (0, u)), so_accept = (\<lambda>_ u. (4, u)), so_send = (\<lambda>_ bs u. (int (length bs), u)),
     so_recv = (\<lambda>_ _ u. (Some [], u)), so_close = (\<lambda>_ u. u)\<rparr>"

definition example_env :: "(u32 \<Rightarrow> bytes) con_env" where
  "example_env = \<lparr>env_os = terminal_os [], env_socks = example_socks, env_a2l = example_conf\<lparr>loaded_binary_path := None\<rparr>,
     env_bytes_available = (\<lambda>_. 0), env_junk = 0\<rparr>"

definition example_console :: "(line, u32 \<Rightarrow> bytes) console" where
  "example_console = \<lparr>con_host = example_shost, con_os = (\<lambda>_. []), con_out = trace_start, con_gdb = example_gdb, ser_link_dead = False,
     opendirs = replicate 512 None, gdb_buf = replicate 1024 0, map_path = None, cdfs_fd = - 1, cdfs_enabled = False, iso_filename = None\<rparr>"

definition greeted :: "(line, u32 \<Rightarrow> bytes) console" where
  "greeted = example_console\<lparr>con_os := (\<lambda>_. [])(1 := [0, 0, 0]), con_out := trace_start\<lparr>addr2line_available := Some False\<rparr>\<rparr>"

lemma example_write: "local_call example_env example_target (GWrite 1 0x8c010000 3) (\<lambda>_. 0) example_console = Some (3, \<lambda>_. 0, greeted)"
proof -
  have "mem_read (\<lambda>_. 0) 0x8c010000 (unat (3 :: u32)) = [0, 0, 0]" by (simp add: mem_read_def upt_rec)
  then show ?thesis
    by (simp add: console_out_def console_write_def check_addr2line_def example_env_def example_console_def example_conf_def terminal_os_def
        trace_start_def write_result_int_def addr2line_for_console_def greeted_def)
qed



theorem console_protocol_is_transports_witness:
  "ser_recv_uint (line_ops rle_lzo) (example_console\<lparr>con_host := example_shost\<rparr>)
     = map_option (\<lambda>(v, h). (v, example_console\<lparr>con_host := h\<rparr>)) (recv_uint (line_ops rle_lzo) example_shost)"
  using console_protocol_is_transports [of example_console] by (simp add: example_console_def)

end
