(* ===== verification/Console_Safety.thy ===== *)
theory Console_Safety
  imports Serial_Run
begin

text \<open>
  The buffers and tables the console keeps for a whole session stay within their sizes, whatever the port delivers, the
  program at the other end sends, and the host system answers: the line buffer of the terminal output, the address cache, the
  packet buffers of the debugger relay, and the table of directories, whose handles index it within its bounds.
\<close>

section \<open>The invariant\<close>

definition out_wf :: "trace_out \<Rightarrow> bool" where
  "out_wf tr = (length (stk_line_buf tr) < STK_LINE_BUF_SIZE \<and> length (addr_cache tr) \<le> ADDR2LINE_CACHE_SIZE
     \<and> (\<forall>e \<in> set (addr_cache tr). length (snd e) < 256))"

definition probe_wf :: "gdb_probe \<Rightarrow> bool" where
  "probe_wf p = (length (payload p) < PROBE_CAP \<and> checksum_bytes p < 3)"

definition gdb_wf :: "gdb \<Rightarrow> bool" where
  "gdb_wf g = (probe_wf (gdb_client_probe g) \<and> probe_wf (gdb_target_probe g))"

definition side :: "('w, 'o) console \<Rightarrow> trace_out \<times> gdb \<times> nat option list \<times> bytes" where
  "side c = (con_out c, con_gdb c, opendirs c, gdb_buf c)"

definition console_wf :: "('w, 'o) console \<Rightarrow> bool" where
  "console_wf c = (out_wf (con_out c) \<and> gdb_wf (con_gdb c) \<and> length (opendirs c) = MAX_OPEN_DIRS \<and> length (gdb_buf c) = 1024)"

lemma side_wf: "side c' = side c \<Longrightarrow> console_wf c' = console_wf c"
  by (simp add: side_def console_wf_def)

lemma side_updates [simp]: "side (c\<lparr>con_host := h\<rparr>) = side c" "side (c\<lparr>con_os := u\<rparr>) = side c" "side (c\<lparr>ser_link_dead := d\<rparr>) = side c"
  by (simp_all add: side_def)

section \<open>Terminal output\<close>

lemma decode_address_wf: "decode_address os cmd elf addr n u tr = (d, u', tr') \<Longrightarrow> out_wf tr \<Longrightarrow>
    out_wf tr' \<and> stk_line_buf tr' = stk_line_buf tr"
  by (auto simp: decode_address_def out_wf_def compat_str_copy_def Let_def min_def split: option.splits prod.splits if_splits)

lemma write_line_wf:
  assumes "console_write_line os cmd elf fd line (u, tr) = (u', tr')" "out_wf tr"
  shows "out_wf tr' \<and> stk_line_buf tr' = stk_line_buf tr"
proof (cases "is_banner line")
  case True
  then show ?thesis using assms by (auto simp: console_write_line_def out_wf_def split: if_splits)
next
  case False
  define a where "a = (if in_stack_trace tr then parse_trace_addr line else None)"
  show ?thesis
  proof (cases a)
    case None
    then have "tr' = tr" using assms(1) False by (simp add: console_write_line_def a_def [symmetric])
    then show ?thesis using assms(2) by simp
  next
    case (Some addr)
    obtain d u1 tr1 where d: "decode_address os cmd elf addr 256 u tr = (d, u1, tr1)" by (metis prod_cases3)
    then have "tr' = tr1" using assms(1) False Some by (simp add: console_write_line_def a_def [symmetric])
    then show ?thesis using decode_address_wf [OF d assms(2)] by simp
  qed
qed

lemma clear_buf_wf: "out_wf tr \<Longrightarrow> out_wf (tr\<lparr>stk_line_buf := []\<rparr>)"
  by (simp add: out_wf_def STK_LINE_BUF_SIZE_def)

lemma line_wf: "out_wf (snd ot) \<Longrightarrow> out_wf (snd (console_line os cmd elf fd line ot))"
proof (cases ot)
  case (Pair u tr)
  assume "out_wf (snd ot)"
  with Pair have wf: "out_wf tr" by simp
  obtain u1 tr1 where w1: "console_write_line os cmd elf fd (stk_line_buf tr @ line) (u, tr) = (u1, tr1)" by fastforce
  obtain u2 tr2 where w2: "console_write_line os cmd elf fd line (u, tr) = (u2, tr2)" by fastforce
  show ?thesis using Pair w1 w2 write_line_wf [OF w1 wf] write_line_wf [OF w2 wf] wf clear_buf_wf
    by (simp add: console_line_def)
qed

lemma hold_wf: "out_wf (snd ot) \<Longrightarrow> out_wf (snd (console_hold os fd p ot))"
  by (cases ot) (auto simp: console_hold_def out_wf_def STK_LINE_BUF_SIZE_def)

lemma lines_wf: "out_wf (snd ot) \<Longrightarrow> out_wf (snd (console_lines os cmd elf fd p ot))"
proof (induction "length p" arbitrary: p ot rule: less_induct)
  case less
  show ?case
  proof (cases "dropWhile (\<lambda>b. b \<noteq> 10) p")
    case Nil
    then show ?thesis using less.prems hold_wf [OF less.prems, of os fd p] by (simp add: console_lines_hold del: dropWhile_eq_Nil_conv)
  next
    case (Cons nl rest)
    have "length (dropWhile (\<lambda>b. b \<noteq> 10) p) \<le> length p" by (rule length_dropWhile_le)
    then have "length rest < length p" using Cons by simp
    then show ?thesis using less.hyps line_wf [OF less.prems] by (simp add: console_lines_line [OF Cons])
  qed
qed

lemma check_wf: "out_wf (snd ot) \<Longrightarrow> out_wf (snd (check_addr2line os cf ot))"
  by (cases ot) (auto simp: check_addr2line_def out_wf_def Let_def split: option.splits prod.splits)

lemma console_write_wf: "console_write os cf fd dat (u, tr) = (r, u', tr') \<Longrightarrow> out_wf tr \<Longrightarrow> out_wf tr'"
proof -
  assume w: "console_write os cf fd dat (u, tr) = (r, u', tr')" "out_wf tr"
  obtain u1 tr1 where c: "check_addr2line os cf (u, tr) = (u1, tr1)" by fastforce
  then have wf: "out_wf tr1" using check_wf [of "(u, tr)" os cf] w(2) by simp
  show ?thesis
    using w(1) c wf lines_wf [of "(u1, tr1)" os "addr2line_for_console cf" "case loaded_binary_path cf of None \<Rightarrow> [] | Some p \<Rightarrow> p" fd dat]
    by (auto simp: console_write_def split: prod.splits if_splits)
qed

lemma say_symbol_wf: "out_wf (snd ot) \<Longrightarrow> out_wf (snd (snd (say_symbol os cf line out lo hi v ot)))"
  by (cases ot) (auto simp: say_symbol_def split: prod.splits dest: decode_address_wf)

lemma symbols_wf: "out_wf (snd ot) \<Longrightarrow> out_wf (snd (print_symbols os cf out lo hi regs ot))"
proof (induction regs arbitrary: ot)
  case (Cons r regs)
  then show ?case using say_symbol_wf [OF Cons.prems] by (cases r) (simp add: Cons.IH)
qed simp

lemma stack_wf: "out_wf (snd ot) \<Longrightarrow> out_wf (snd (snd (stack_entries os cf out i stack printed ot)))"
proof (induction stack arbitrary: ot i printed)
  case (Cons v stack)
  obtain line where line: "stack_entries os cf out i (v # stack) printed ot
      = (case say_symbol os cf line out 0x0003C000 0x0203C000 v ot of (said, ot) \<Rightarrow> stack_entries os cf out (Suc i) stack (printed \<or> said) ot)"
    by (simp only: stack_entries.simps)
  obtain said ot1 where y: "say_symbol os cf line out 0x0003C000 0x0203C000 v ot = (said, ot1)" by (metis surj_pair)
  then have "out_wf (snd ot1)" using say_symbol_wf [OF Cons.prems, of os cf line out "0x0003C000" "0x0203C000" v] by simp
  then show ?case unfolding line y using Cons.IH by simp
qed simp

lemma stack_trace_wf: "out_wf (snd ot) \<Longrightarrow> out_wf (snd (print_xbox_stack_trace os cf out stack ot))"
  using stack_wf [of ot os cf out 0 stack False] by (auto simp: print_xbox_stack_trace_def split: prod.splits)

lemma all_symbols_wf: "out_wf (snd ot) \<Longrightarrow> out_wf (snd (print_all_symbols os cf lo hi regs stack out ot))"
  using symbols_wf [of ot os cf out lo hi regs] stack_trace_wf [of "print_symbols os cf out lo hi regs ot"]
  by (auto simp: print_all_symbols_def Let_def split: option.splits)

lemma report_wf: "out_wf (snd ot) \<Longrightarrow> out_wf (snd (report_exception os cf prefix title key full lo hi regs stack ot))"
  by (simp add: report_exception_def Let_def case_prod_unfold all_symbols_wf check_wf)

lemma exception_wf: "out_wf (snd ot) \<Longrightarrow> out_wf (snd (handle_exception os cf dat ot))"
  by (auto simp: handle_exception_def handle_ps2_exception_def handle_psp_exception_def handle_gc_exception_def handle_xbox_exception_def
      handle_dc_exception_def incomplete_def Let_def report_wf split: console_type.splits)

lemma console_out_wf: "console_out env fd dat c = (r, c') \<Longrightarrow> console_wf c \<Longrightarrow> console_wf c'"
proof -
  assume o: "console_out env fd dat c = (r, c')" "console_wf c"
  show ?thesis
  proof (cases "length dat \<ge> 8 \<and> take 4 dat = ascii ''EXPT''")
    case True
    then show ?thesis using o exception_wf [of "(con_os c, con_out c)" "env_os env" "env_a2l env" dat]
      by (auto simp: console_out_def console_wf_def split: prod.splits)
  next
    case False
    then show ?thesis using o unfolding console_out_def if_not_P [OF False]
      by (auto simp: console_wf_def split: prod.splits dest: console_write_wf)
  qed
qed

section \<open>Debugger relay\<close>

lemma probe_byte_wf: "probe_wf (fst pf) \<Longrightarrow> probe_wf (fst (probe_byte PROBE_CAP ch pf))"
  by (cases pf) (auto simp: probe_byte_def probe_wf_def PROBE_CAP_def)

lemma probe_stream_wf: "probe_wf (fst pf) \<Longrightarrow> probe_wf (fst (fold (probe_byte PROBE_CAP) dat pf))"
  by (induction dat arbitrary: pf) (simp_all add: probe_byte_wf)

lemma probe_clear_wf: "probe_wf probe_clear"
  by (simp add: probe_wf_def probe_clear_def PROBE_CAP_def)

lemma note_client_wf: "gdb_wf g \<Longrightarrow> gdb_wf (gdb_note_client_bytes dat g)"
  using probe_stream_wf [of "(gdb_client_probe g, False, False)" dat]
  by (auto simp: gdb_note_client_bytes_def gdb_probe_stream_def gdb_wf_def Let_def split: prod.splits)

lemma note_target_wf: "gdb_wf g \<Longrightarrow> gdb_wf (snd (gdb_note_target_bytes dat g))"
  using probe_stream_wf [of "(gdb_target_probe g, False, False)" dat]
  by (auto simp: gdb_note_target_bytes_def gdb_probe_stream_def gdb_wf_def split: prod.splits)

lemma close_client_wf: "gdb_wf (fst gu) \<Longrightarrow> gdb_wf (fst (gdb_close_client so gu))"
  by (cases gu) (auto simp: gdb_close_client_def gdb_wf_def)

lemma drop_wf: "gdb_wf (fst (gdb_drop so gu))"
  by (auto simp: gdb_drop_def gdb_clear_detach_state_def gdb_wf_def probe_clear_wf split: prod.splits)

lemma connect_wf: "gdb_wf (fst gu) \<Longrightarrow> gdb_wf (fst (snd (gdb_connect so gu)))"
  by (cases gu) (auto simp: gdb_connect_def gdb_wf_def split: prod.splits)

lemma forward_wf: "gdb_wf (fst gu) \<Longrightarrow> gdb_wf (fst (snd (gdb_forward so in_buf gu)))"
  using note_target_wf [of "fst gu" in_buf]
  by (cases gu) (auto simp: gdb_forward_def drop_wf split: prod.splits)

lemma answer_wf: "gdb_wf (fst gu) \<Longrightarrow> gdb_wf (fst (snd (gdb_answer so out_size gu)))"
  by (cases gu) (auto simp: gdb_answer_def drop_wf note_client_wf split: prod.splits option.splits)

lemma relay_wf: "gdb_wf (fst gu) \<Longrightarrow> gdb_wf (fst (snd (gdb_relay so in_buf out_size gu)))"
  using connect_wf [of gu so] forward_wf [of "snd (gdb_connect so gu)" so in_buf]
    answer_wf [of "snd (gdb_forward so in_buf (snd (gdb_connect so gu)))" so out_size]
  by (simp add: gdb_relay_def case_prod_unfold drop_wf)

lemma program_exit_wf: "console_wf c \<Longrightarrow> console_wf (program_exit env code c)"
  using close_client_wf [of "(con_gdb c, u)" "env_socks env" for u]
  by (simp add: program_exit_def gdb_report_program_exit_def console_wf_def Let_def case_prod_unfold)

section \<open>The port\<close>

text \<open>The transfers change the port and the flag of the link, nothing else.\<close>

lemma blread_side: "ser_blread ops n c = Some (ok, bs, c') \<Longrightarrow> side c' = side c"
  by (auto simp: ser_blread_def split: if_splits)

lemma cwrite_side [simp]: "side (cwrite ops bs c) = side c"
  by (simp add: cwrite_def)

lemma recv_uint_side: "ser_recv_uint ops c = Some (v, c') \<Longrightarrow> side c' = side c"
  by (auto simp: ser_recv_uint_def dest: blread_side)

lemma send_uint_side: "ser_send_uint ops v c = Some c' \<Longrightarrow> side c' = side c"
  by (auto simp: ser_send_uint_def Let_def dest: blread_side)

lemma until_good_side: "ser_write_until_good ops buf ack c = Some r \<Longrightarrow> side (snd r) = side c"
proof (induction ops buf ack c r rule: ser_write_until_good.raw_induct [rotated, consumes 1, case_names step])
  case (step f ops buf ack c r)
  show ?case
  proof (cases "ack = SERIAL_DATA_GOOD")
    case False
    then obtain ok b c1 where b: "ser_blread ops 1 (cwrite ops [xor_sum buf] (cwrite ops buf c)) = Some (ok, b, c1)"
      "(if \<not> ok then Some (False, c1) else f ops buf (hd b) c1) = Some r"
      using step(2) by (auto simp: bind_eq_Some_conv)
    have "side c1 = side c" using blread_side [OF b(1)] by simp
    then show ?thesis using b(2) step(1) [of ops buf "hd b" c1 r] by (auto split: if_splits)
  qed (use step(2) in auto)
qed

lemma send_block_side: "ser_send_block ops dat sz c = Some r \<Longrightarrow> side (snd r) = side c"
  by (auto simp: ser_send_block_def Let_def bind_eq_Some_conv split: if_splits dest!: blread_side send_uint_side until_good_side)

lemma send_blocks_side: "ser_send_blocks ops dat sz c = Some c' \<Longrightarrow> side c' = side c"
proof (induction ops dat sz c c' rule: ser_send_blocks.raw_induct [rotated, consumes 1, case_names step])
  case (step f ops dat sz c c')
  show ?case
  proof (cases "sz = 0")
    case False
    define ss where "ss = (if sz > SERIAL_BUFFER_SIZE then SERIAL_BUFFER_SIZE else sz)"
    obtain ok c1 where b: "ser_send_block ops (take (unat ss) dat) ss c = Some (ok, c1)"
      "(if \<not> ok then Some c1 else f ops (drop (unat ss) dat) (sz - ss) c1) = Some c'"
      using step(2) False by (auto simp: bind_eq_Some_conv Let_def ss_def [symmetric] split: if_splits)
    have "side c1 = side c" using send_block_side [OF b(1)] by simp
    then show ?thesis using b(2) step(1) [of ops "drop (unat ss) dat" "sz - ss" c1 c'] by (auto split: if_splits)
  qed (use step(2) in auto)
qed

lemma send_data_side: "ser_send_data ops dat sz c = Some c' \<Longrightarrow> side c' = side c"
  by (auto simp: ser_send_data_def split: if_splits dest: send_blocks_side)

lemma blread_at_side: "ser_blread_at ops buf off n c = Some (ok, bs, c') \<Longrightarrow> side c' = side c"
  by (auto simp: ser_blread_at_def bind_eq_Some_conv split: if_splits dest!: blread_side)

lemma blread_tmp_side: "ser_blread_tmp ops n c = Some (ok, bs, c') \<Longrightarrow> side c' = side c"
  by (auto simp: ser_blread_tmp_def dest!: blread_side)

lemma recv_data_side: "ser_recv_data ops buf tot c = Some (dat, c') \<Longrightarrow> side c' = side c"
proof -
  have "ser_recv_blocks ops buf out tot c = Some r \<Longrightarrow> side (snd r) = side c" for out r
  proof (induction ops buf out tot c r rule: ser_recv_blocks.raw_induct [rotated, consumes 1, case_names step])
    case (step f ops buf out tot c r)
    show ?case
    proof (cases "tot = 0")
      case False
      obtain ok b c1 where c1: "ser_blread ops 1 c = Some (ok, b, c1)" using step(2) False by (auto simp: bind_eq_Some_conv)
      note s1 = blread_side [OF c1]
      show ?thesis
      proof (cases ok)
        case True
        then obtain sz c2 where c2: "ser_recv_uint ops c1 = Some (sz, c2)" using step(2) False c1 by (auto simp: bind_eq_Some_conv)
        note s2 = recv_uint_side [OF c2]
        show ?thesis
          using step(2) False c1 c2 True s1 s2
          by (auto simp: bind_eq_Some_conv split: if_splits dest!: step(1) blread_side blread_at_side blread_tmp_side)
      qed (use step(2) False c1 s1 in auto)
    qed (use step(2) in auto)
  qed
  from this [of 0 "(dat, c')"] show "ser_recv_data ops buf tot c = Some (dat, c') \<Longrightarrow> side c' = side c" by (simp add: ser_recv_data_def)
qed

lemma put_at_length: "put_at buf off bs = Some buf' \<Longrightarrow> length buf' = length buf"
  by (auto simp: put_at_def split: if_splits)

lemma blread_at_length: "ser_blread_at ops buf off n c = Some (ok, bs, c') \<Longrightarrow> length bs = length buf"
  by (auto simp: ser_blread_at_def bind_eq_Some_conv split: if_splits dest: put_at_length)

lemma recv_data_length: "ser_recv_data ops buf tot c = Some (dat, c') \<Longrightarrow> length dat = length buf"
proof -
  have "ser_recv_blocks ops buf out tot c = Some r \<Longrightarrow> length (fst r) = length buf" for out r
  proof (induction ops buf out tot c r rule: ser_recv_blocks.raw_induct [rotated, consumes 1, case_names step])
    case (step f ops buf out tot c r)
    show ?case
    proof (cases "tot = 0")
      case False
      obtain ok b c1 where c1: "ser_blread ops 1 c = Some (ok, b, c1)" using step(2) False by (auto simp: bind_eq_Some_conv)
      show ?thesis
      proof (cases ok)
        case True
        then obtain sz c2 where c2: "ser_recv_uint ops c1 = Some (sz, c2)" using step(2) False c1 by (auto simp: bind_eq_Some_conv)
        show ?thesis
          using step(2) False c1 c2 True
          by (auto simp: bind_eq_Some_conv split: if_splits dest!: step(1) blread_at_length put_at_length)
      qed (use step(2) False c1 in auto)
    qed (use step(2) in auto)
  qed
  from this [of 0 "(dat, c')"] show "ser_recv_data ops buf tot c = Some (dat, c') \<Longrightarrow> length dat = length buf" by (simp add: ser_recv_data_def)
qed

lemma send_uints_side: "ser_send_uints ops vs c = Some c' \<Longrightarrow> side c' = side c"
  by (induction vs arbitrary: c) (auto simp: bind_eq_Some_conv dest!: send_uint_side)

section \<open>Handlers\<close>

lemma os_call_eq: "os_call f c = (fst (f (con_os c)), c\<lparr>con_os := snd (f (con_os c))\<rparr>)"
  by (simp add: os_call_def split: prod.splits)

lemma send_result_side: "send_result ops rc = Some c' \<Longrightarrow> side c' = side (snd rc)"
  by (auto simp: send_result_def dest: send_uint_side)

lemma recv_path_side:
  assumes "ser_recv_path ops err K c = Some c'" "\<And>name d d'. K name d = Some d' \<Longrightarrow> side d = side c \<Longrightarrow> P d'" "\<And>d. side d = side c \<Longrightarrow> P d"
  shows "P c'"
  using assms(1) unfolding ser_recv_path_def
  by (auto simp: bind_eq_Some_conv split: if_splits dest!: recv_uint_side recv_data_side send_uint_side intro: assms(2,3))

lemma path_call_side: "path_call ops f name c = Some c' \<Longrightarrow> side c' = side c"
  by (auto simp: path_call_def bind_eq_Some_conv os_call_eq dest!: send_result_side)

lemma send_stat_side: "send_stat ops rc = Some c' \<Longrightarrow> side c' = side (snd rc)"
  by (auto simp: send_stat_def split: prod.splits dest: send_uints_side)

lemmas port_sides = recv_uint_side send_uint_side recv_data_side send_data_side send_uints_side path_call_side send_result_side send_stat_side

lemma path_handlers_side:
  "ser_syscall_open ops os c = Some c' \<Longrightarrow> side c' = side c" "ser_syscall_creat ops os c = Some c' \<Longrightarrow> side c' = side c"
  "ser_syscall_unlink ops os c = Some c' \<Longrightarrow> side c' = side c" "ser_syscall_chdir ops os c = Some c' \<Longrightarrow> side c' = side c"
  "ser_syscall_chmod ops os c = Some c' \<Longrightarrow> side c' = side c" "ser_syscall_mkdir ops os c = Some c' \<Longrightarrow> side c' = side c"
  "ser_syscall_stat ops os c = Some c' \<Longrightarrow> side c' = side c" "ser_syscall_utime ops os c = Some c' \<Longrightarrow> side c' = side c"
  unfolding ser_syscall_open_def ser_syscall_creat_def ser_syscall_unlink_def ser_syscall_chdir_def ser_syscall_chmod_def ser_syscall_mkdir_def
    ser_syscall_stat_def ser_syscall_utime_def
  by (erule recv_path_side; auto simp: bind_eq_Some_conv os_call_eq split: if_splits dest!: port_sides)+

lemma link_side: "ser_syscall_link ops os c = Some c' \<Longrightarrow> side c' = side c"
  unfolding ser_syscall_link_def
  by (erule recv_path_side, erule recv_path_side; auto simp: bind_eq_Some_conv dest!: port_sides)

lemma fd_handlers_side:
  "ser_syscall_fstat ops os c = Some c' \<Longrightarrow> side c' = side c" "ser_syscall_close ops os c = Some c' \<Longrightarrow> side c' = side c"
  "ser_syscall_lseek ops os c = Some c' \<Longrightarrow> side c' = side c" "ser_syscall_time ops os c = Some c' \<Longrightarrow> side c' = side c"
  "ser_syscall_read ops os c = Some c' \<Longrightarrow> side c' = side c" "ser_syscall_rewinddir ops os c = Some c' \<Longrightarrow> side c' = side c"
  unfolding ser_syscall_fstat_def ser_syscall_close_def ser_syscall_lseek_def ser_syscall_time_def ser_syscall_read_def ser_syscall_rewinddir_def
  by (auto simp: bind_eq_Some_conv os_call_eq split: if_splits dest!: port_sides)

lemma readdir_side: "ser_syscall_readdir ops os c = Some c' \<Longrightarrow> side c' = side c"
  by (auto simp: os_call_eq ser_syscall_readdir_def send_dirent_def Let_def bind_eq_Some_conv split: if_splits option.splits dest!: port_sides)

lemma cdfs_side: "ser_syscall_cdfs_read ops os c = Some c' \<Longrightarrow> side c' = side c"
  by (auto simp: os_call_eq ser_syscall_cdfs_read_def read_sectors_def bind_eq_Some_conv split: if_splits dest!: port_sides)

lemmas same_side = path_handlers_side link_side fd_handlers_side readdir_side cdfs_side

lemma wf_side: "side d = side c \<Longrightarrow> console_wf c \<Longrightarrow> console_wf d"
  using side_wf [of d c] by simp

lemma write_wf:
  assumes "ser_syscall_write ops env c = Some c'" "console_wf c"
  shows "console_wf c'"
proof -
  obtain fd c1 cnt c2 where a: "ser_recv_uint ops c = Some (fd, c1)" "ser_recv_uint ops c1 = Some (cnt, c2)"
    using assms(1) by (auto simp: ser_syscall_write_def bind_eq_Some_conv)
  have wf2: "console_wf c2" using assms(2) recv_uint_side [OF a(1)] recv_uint_side [OF a(2)] by (metis wf_side)
  show ?thesis
  proof (cases "cnt = 0 \<or> cnt > 0x02000000 \<or> \<not> sop_malloc ops (unat cnt)")
    case True
    then show ?thesis using assms(1) a wf2 by (auto simp: ser_syscall_write_def split: if_splits dest!: send_uint_side intro: wf_side)
  next
    case False
    then obtain dat c3 where d: "ser_recv_data ops (replicate (unat cnt) (sop_junk ops)) cnt c2 = Some (dat, c3)"
      "(if fd \<noteq> 1 \<and> fd \<noteq> 2
         then Option.bind (write_full (env_os env) fd dat cnt (con_os c3)) (\<lambda>(ret, u). ser_send_uint ops ret (c3\<lparr>con_os := u\<rparr>))
         else send_result ops (console_out env fd dat c3)) = Some c'"
      using assms(1) a by (auto simp: ser_syscall_write_def bind_eq_Some_conv)
    have wf3: "console_wf c3" using wf2 recv_data_side [OF d(1)] by (metis wf_side)
    obtain ret c4 where o: "console_out env fd dat c3 = (ret, c4)" by fastforce
    show ?thesis using d(2) wf3 console_out_wf [OF o wf3] o
      by (auto simp: bind_eq_Some_conv split: if_splits dest!: send_uint_side send_result_side intro: wf_side)
  qed
qed

lemma opendir_wf: "ser_syscall_opendir ops os c = Some c' \<Longrightarrow> console_wf c \<Longrightarrow> console_wf c'"
  unfolding ser_syscall_opendir_def
proof (erule recv_path_side)
  fix name d d' assume wf: "console_wf c" and d: "side d = side c"
    and k: "(if free_slot (opendirs d) < 512 then Option.bind (resolve_path name d) (\<lambda>path. send_result ops (open_slot os path d))
      else ser_send_uint ops 0 d) = Some d'"
  have wfd: "console_wf d" using wf d by (rule_tac wf_side)
  have "console_wf (snd (open_slot os path d))" for path
    using wfd by (auto simp: open_slot_def os_call_def console_wf_def Let_def split: option.splits prod.splits)
  then show "console_wf d'" using k wfd by (auto simp: bind_eq_Some_conv split: if_splits dest!: send_uint_side send_result_side intro: wf_side)
qed (auto intro: wf_side)

lemma closedir_wf: "ser_syscall_closedir ops os c = Some c' \<Longrightarrow> console_wf c \<Longrightarrow> console_wf c'"
  by (auto simp: os_call_eq ser_syscall_closedir_def bind_eq_Some_conv split: if_splits dest!: recv_uint_side send_uint_side)
     (auto simp: side_def console_wf_def)

lemma gdbpacket_wf:
  assumes "ser_syscall_gdbpacket ops so c = Some c'" "console_wf c"
  shows "console_wf c'"
proof -
  obtain ins c1 outs c2 where a: "ser_recv_uint ops c = Some (ins, c1)" "ser_recv_uint ops c1 = Some (outs, c2)"
    using assms(1) by (auto simp: ser_syscall_gdbpacket_def bind_eq_Some_conv)
  obtain buf c3 where b: "(if ins \<noteq> 0 then ser_recv_data ops (gdb_buf c2) (if ins > 1024 then 1024 else ins) c2 else Some (gdb_buf c2, c2)) = Some (buf, c3)"
    using assms(1) a by (auto simp: ser_syscall_gdbpacket_def bind_eq_Some_conv split: if_splits)
  obtain ret dat g u where r: "gdb_relay so (take (unat ins) buf) (unat outs) (con_gdb c3, con_os c3) = ((ret, dat), g, u)" by (metis prod_cases3 surj_pair)
  have c3: "side c3 = side c" using b recv_uint_side [OF a(1)] recv_uint_side [OF a(2)] by (auto split: if_splits dest!: recv_data_side)
  then have wf3: "console_wf c3" using assms(2) by (rule wf_side)
  have "side c2 = side c" using recv_uint_side [OF a(1)] recv_uint_side [OF a(2)] by simp
  then have "length (gdb_buf c2) = 1024" using assms(2) by (simp add: side_def console_wf_def)
  then have buf: "length buf = 1024" using b by (auto split: if_splits dest!: recv_data_length)
  then have wf4: "put_at buf 0 dat = Some buf' \<Longrightarrow> console_wf (c3\<lparr>con_gdb := g, con_os := u, gdb_buf := buf'\<rparr>)" for buf'
    using relay_wf [of "(con_gdb c3, con_os c3)" so "take (unat ins) buf" "unat outs"] r wf3 put_at_length [of buf 0 dat buf'] by (simp add: console_wf_def)
  obtain buf' c4 where d: "put_at buf 0 dat = Some buf'" "ser_send_uint ops ret (c3\<lparr>con_gdb := g, con_os := u, gdb_buf := buf'\<rparr>) = Some c4"
    "(if dat \<noteq> [] then ser_send_data ops buf' ret c4 else Some c4) = Some c'"
    using assms(1) a b r by (auto simp: ser_syscall_gdbpacket_def bind_eq_Some_conv split: if_splits)
  show ?thesis using d(3) wf4 [OF d(1)] send_uint_side [OF d(2)] by (auto split: if_splits dest!: send_data_side intro: wf_side)
qed

lemma handler_wf: "ser_handler ops env command = Some f \<Longrightarrow> f c = Some c' \<Longrightarrow> console_wf c \<Longrightarrow> console_wf c'"
  unfolding ser_handler_def Let_def
  by (auto split: if_splits intro: wf_side dest: same_side write_wf opendir_wf closedir_wf gdbpacket_wf)

section \<open>Sessions\<close>

fun result_console :: "('w, 'o) console_result \<Rightarrow> ('w, 'o) console" where
  "result_console (Serving c) = c"
| "result_console (Ended code v c) = c"
| "result_console (Lost c) = c"

text \<open>The states a session goes through; what the program sends and the host answers is in the state of the port and the system.\<close>

inductive session :: "'w serial_ops \<Rightarrow> 'o con_env \<Rightarrow> ('w, 'o) console \<Rightarrow> ('w, 'o) console_result \<Rightarrow> bool" for ops env c0 where
  start: "session ops env c0 (Serving (open_image env (c0\<lparr>ser_link_dead := False\<rparr>)))"
| round: "session ops env c0 (Serving c) \<Longrightarrow> serial_console_step ops env c = Some r \<Longrightarrow> session ops env c0 r"

inductive_cases session_servingE: "session ops env c0 (Serving c)"

lemma try_recv_side: "ser_try_recv_uint ops env c = Some (v, c') \<Longrightarrow> side c' = side c"
  by (auto simp: ser_try_recv_uint_def split: if_splits dest: recv_uint_side)

lemma step_wf:
  assumes "serial_console_step ops env c = Some r" "console_wf c"
  shows "console_wf (result_console r)"
proof -
  obtain ok b c1 where b: "ser_blread ops 1 c = Some (ok, b, c1)" using assms(1) by (auto simp: serial_console_step_def bind_eq_Some_conv)
  have wf1: "console_wf c1" using assms(2) blread_side [OF b] by (metis wf_side)
  show ?thesis
  proof (cases "ok \<and> hd b \<noteq> 0 \<and> hd b \<noteq> 22")
    case True
    then have "(case ser_handler ops env (hd b) of None \<Rightarrow> Some (Ended (- 1) None c1) | Some handler \<Rightarrow> map_option Serving (handler c1)) = Some r"
      using assms(1) b by (simp add: serial_console_step_def)
    then show ?thesis using wf1 by (auto split: option.splits dest: handler_wf)
  next
    case False
    then show ?thesis using assms(1) b wf1
      by (auto simp: serial_console_step_def split: if_splits dest!: try_recv_side recv_uint_side intro!: program_exit_wf) (metis side_wf)+
  qed
qed

lemma open_image_side: "side (open_image env c) = side c"
  by (simp add: open_image_def os_call_eq side_def split: option.splits bool.splits)

lemma session_wf: "session ops env c0 r \<Longrightarrow> console_wf c0 \<Longrightarrow> console_wf (result_console r)"
proof (induction rule: session.induct)
  case start
  then show ?case using open_image_side [of env "c0\<lparr>ser_link_dead := False\<rparr>"] by (auto intro: wf_side)
next
  case (round c r)
  then show ?case using step_wf by fastforce
qed

lemma dir_slot_bound: "dir_handle i \<Longrightarrow> dir_slot i < MAX_OPEN_DIRS"
proof -
  assume "dir_handle i"
  then have "unat i \<ge> 1337" "unat i < 1849" by (simp_all add: dir_handle_def word_le_nat_alt word_less_nat_alt)
  then show ?thesis by (simp add: dir_slot_def unat_sub word_le_nat_alt)
qed


lemma example_session:
  "\<exists>c. session (line_ops rle_lzo) example_env (onto example_console (at example_shost (ser_write example_target 1 0x8c010000 3 (\<lambda>_. Halt)) example_loader [])) (Serving c)
     \<and> con_out c = con_out greeted"
proof -
  let ?c = "onto example_console (at example_shost (ser_write example_target 1 0x8c010000 3 (\<lambda>_. Halt)) example_loader [])"
  have "served example_env example_target example_console example_shost (ser_write example_target 1 0x8c010000 3 (\<lambda>_. Halt)) example_loader (\<lambda>_. Halt)
      (3, \<lambda>_. 0, greeted)"
    using write_served [of example_target example_console example_loader 1 "0x8c010000" 3 example_env "(3, \<lambda>_. 0, greeted)"] rle_lossless example_write
    by (simp add: example_loader_def example_console_def clear_of_def alive_def del: local_call.simps)
  then obtain h where st: "serial_console_step (line_ops rle_lzo) example_env ?c = Some (Serving (onto greeted h))" by (auto simp: served_def)
  have "open_image example_env (?c\<lparr>ser_link_dead := False\<rparr>) = ?c" by (simp add: open_image_def onto_def example_console_def)
  with session.start [of "line_ops rle_lzo" example_env ?c] have "session (line_ops rle_lzo) example_env ?c (Serving ?c)" by simp
  from session.round [OF this st] show ?thesis by (intro exI [of _ "onto greeted h"]) simp
qed


end
