(* ===== verification/Net_Console.thy ===== *)
theory Net_Console
  imports Serial_Console Host_Net
begin

text \<open>
  The network console, \<^verbatim>\<open>host/src/console.c\<close>: the host waits for a datagram, answers a repeated request from its cache
  (\<open>Dedup\<close>), performs a new one and sends a \<open>RETVAL\<close>. The context is the pair of the network side (\<open>Host_Net\<close>) and what both consoles
  share (\<open>Serial_Console\<close>). Memory of the program moves through the transport's \<open>send_data\<close> and \<open>recv_data\<close>, except where request or
  answer carry it inline. A request is read from the 2048 bytes of the receive buffer, behind a short datagram from
  what an earlier one left there. The host stores integers little-endian; the pause before an answer on two adapters is left out.
\<close>

section \<open>Answers\<close>

type_synonym ('n, 'w, 'o) net_ctx = "'n host \<times> ('w, 'o) console"

definition net_send :: "'n sock_ops \<Rightarrow> bytes \<Rightarrow> u32 \<Rightarrow> u32 \<Rightarrow> bytes \<Rightarrow> 'n host \<Rightarrow> 'n host" where
  "net_send ops cmd addr sz dat h =
     (let out = (\<lambda>ok. \<lparr>o_cmd = cmd, o_addr = addr, o_size = sz, o_data = dat, o_ok = ok\<rparr>);
          (ok, w) = sock_send ops (global_socket h) (fst (net_send_cmd (out True) (h_dedup h))) (world h)
      in h\<lparr>world := w, h_dedup := snd (net_send_cmd (out ok) (h_dedup h))\<rparr>)"

definition net_ret :: "'n sock_ops \<Rightarrow> u32 \<times> ('n, 'w, 'o) net_ctx \<Rightarrow> ('n, 'w, 'o) net_ctx" where
  "net_ret ops r = (case r of (ret, h, c) \<Rightarrow> (net_send ops (ascii ''RETV'') ret ret [] h, c))"

text \<open>A system call on a resolved path or a descriptor, and its answer.\<close>

definition net_os :: "'n sock_ops \<Rightarrow> ('o \<Rightarrow> u32 \<times> 'o) \<Rightarrow> ('n, 'w, 'o) net_ctx \<Rightarrow> ('n, 'w, 'o) net_ctx option" where
  "net_os ops f hc = (case os_call f (snd hc) of (ret, c) \<Rightarrow> Some (net_ret ops (ret, fst hc, c)))"

definition net_path :: "bytes \<Rightarrow> (bytes \<Rightarrow> ('n, 'w, 'o) net_ctx \<Rightarrow> ('n, 'w, 'o) net_ctx option) \<Rightarrow> ('n, 'w, 'o) net_ctx \<Rightarrow> ('n, 'w, 'o) net_ctx option" where
  "net_path name k hc = Option.bind (resolve_path name (snd hc)) (\<lambda>path. k path hc)"

text \<open>Data to the program's memory; the handlers do not look at the result. Reading beyond the data given is \<open>None\<close>.\<close>

definition net_put :: "'n sock_ops \<Rightarrow> bytes \<Rightarrow> u32 \<Rightarrow> u32 \<Rightarrow> ('n, 'w, 'o) net_ctx \<Rightarrow> ('n, 'w, 'o) net_ctx option" where
  "net_put ops dat addr sz hc =
     (if unat sz > length dat then None else map_option (\<lambda>(ok, h). (h, snd hc)) (network_send_data ops dat addr sz (fst hc)))"

section \<open>Structures in the order of the target\<close>

definition target_order16 :: "bool \<Rightarrow> u16 \<Rightarrow> bytes" where
  "target_order16 big x = st16 (if big then BE else LE) x"

definition target_order32 :: "bool \<Rightarrow> u32 \<Rightarrow> bytes" where
  "target_order32 big x = st32 (if big then BE else LE) x"

definition kosload_stat :: "bool \<Rightarrow> host_stat \<Rightarrow> bytes" where
  "kosload_stat big st =
     target_order16 big (ucast (st_dev st)) @ target_order16 big (ucast (st_ino st)) @ target_order32 big (ucast (st_mode st))
     @ target_order16 big (ucast (st_nlink st)) @ target_order16 big (ucast (st_uid st)) @ target_order16 big (ucast (st_gid st))
     @ target_order16 big (ucast (st_rdev st)) @ target_order32 big (ucast (st_size st)) @ target_order32 big (ucast (st_atime st))
     @ replicate 4 0 @ target_order32 big (ucast (st_mtime st)) @ replicate 4 0 @ target_order32 big (ucast (st_ctime st)) @ replicate 4 0
     @ target_order32 big (ucast (st_blksize st)) @ target_order32 big (ucast (st_blocks st)) @ replicate 8 0"

text \<open>The 16-bit \<open>d_reclen\<close> is assigned the result of the 32-bit conversion: its first two bytes.\<close>

definition kosload_dirent :: "bool \<Rightarrow> dirent \<Rightarrow> bytes" where
  "kosload_dirent big de =
     (let name = compat_str_copy 256 (d_name de) in
      target_order32 big (ucast (d_ino de)) @ target_order32 big (ucast (d_off de)) @ take 2 (target_order32 big (ucast (d_reclen de)))
      @ [d_type de] @ name @ replicate (256 - length name) 0 @ [0])"

text \<open>The answer of a call that fills in a structure: inline when the client asked for it, else through the transport.\<close>

definition net_send_struct :: "'n sock_ops \<Rightarrow> bool \<Rightarrow> bytes \<Rightarrow> u32 \<Rightarrow> u32 \<Rightarrow> u32 \<Rightarrow> ('n, 'w, 'o) net_ctx \<Rightarrow> ('n, 'w, 'o) net_ctx option" where
  "net_send_struct ops inline_ret ds addr sz ret hc =
     (case (if inline_ret \<and> unat sz \<le> length ds then net_send_ret_inline ret (take (unat sz) ds) True else None) of
        Some out \<Rightarrow> Some (net_send ops (o_cmd out) (o_addr out) (o_size out) (o_data out) (fst hc), snd hc)
      | None \<Rightarrow> map_option (\<lambda>hc. net_ret ops (ret, hc)) (net_put ops ds addr sz hc))"

section \<open>System calls\<close>

definition net_syscall_fstat :: "'n sock_ops \<Rightarrow> 'o con_env \<Rightarrow> bytes \<Rightarrow> nat \<Rightarrow> ('n, 'w, 'o) net_ctx \<Rightarrow> ('n, 'w, 'o) net_ctx option" where
  "net_syscall_fstat ops env pkt pkt_len hc =
     (let inline_ret = net_has_inline_ret_request (take pkt_len pkt) 16 in
      case os_call (os_fstat (env_os env) (rd32 pkt 4)) (snd hc) of ((ret, st), c) \<Rightarrow>
        net_send_struct ops (inline_ret \<and> 0 \<le> sint ret) (kosload_stat (target_big_endian (env_a2l env)) (case st of None \<Rightarrow> stat_zero | Some s \<Rightarrow> s))
          (rd32 pkt 8) (rd32 pkt 12) ret (fst hc, c))"

definition net_write_data :: "'n sock_ops \<Rightarrow> 'o con_env \<Rightarrow> bytes \<Rightarrow> nat \<Rightarrow> u32 \<Rightarrow> u32 \<Rightarrow> 'n host \<Rightarrow> (bytes \<times> 'n host) option" where
  "net_write_data ops env pkt pkt_len addr cnt h =
     (if pkt_len \<ge> 16 + unat cnt \<and> unat cnt \<le> 1440 - 16 then Some (take (unat cnt) (drop 16 pkt), h)
      else map_option (\<lambda>(ok, dat, h). (dat, h)) (network_recv_data ops (replicate (unat cnt) (env_junk env)) addr cnt True h))"

definition net_syscall_write :: "'n sock_ops \<Rightarrow> 'o con_env \<Rightarrow> bytes \<Rightarrow> nat \<Rightarrow> ('n, 'w, 'o) net_ctx \<Rightarrow> ('n, 'w, 'o) net_ctx option" where
  "net_syscall_write ops env pkt pkt_len hc =
     (let fd = rd32 pkt 4; addr = rd32 pkt 8; cnt = rd32 pkt 12 in
      if cnt = 0 \<or> cnt > MAX_SYSCALL_SIZE \<or> \<not> os_malloc (env_os env) (unat cnt) then Some (net_ret ops (- 1, hc))
      else Option.bind (net_write_data ops env pkt pkt_len addr cnt (fst hc)) (\<lambda>(dat, h).
        if fd \<noteq> 1 \<and> fd \<noteq> 2
        then map_option (\<lambda>(ret, u). net_ret ops (ret, h, (snd hc)\<lparr>con_os := u\<rparr>)) (write_full (env_os env) fd dat cnt (con_os (snd hc)))
        else case console_out env fd dat (snd hc) of (ret, c) \<Rightarrow> Some (net_ret ops (ret, h, c))))"

definition net_syscall_read :: "'n sock_ops \<Rightarrow> 'o con_env \<Rightarrow> bytes \<Rightarrow> ('n, 'w, 'o) net_ctx \<Rightarrow> ('n, 'w, 'o) net_ctx option" where
  "net_syscall_read ops env pkt hc =
     (let fd = rd32 pkt 4; addr = rd32 pkt 8; cnt = rd32 pkt 12 in
      if cnt = 0 \<or> cnt > MAX_SYSCALL_SIZE \<or> \<not> os_malloc (env_os env) (unat cnt) then Some (net_ret ops (- 1, hc))
      else case os_call (os_read (env_os env) fd (unat cnt)) (snd hc) of (r, c) \<Rightarrow>
        Option.bind (put_at (replicate (unat cnt) (env_junk env)) 0 (case r of None \<Rightarrow> [] | Some bs \<Rightarrow> bs)) (\<lambda>dat.
          map_option (\<lambda>hc. net_ret ops (case r of None \<Rightarrow> - 1 | Some bs \<Rightarrow> of_nat (length bs), hc)) (net_put ops dat addr cnt (fst hc, c))))"

definition net_syscall_open :: "'n sock_ops \<Rightarrow> 'o os \<Rightarrow> bytes \<Rightarrow> ('n, 'w, 'o) net_ctx \<Rightarrow> ('n, 'w, 'o) net_ctx option" where
  "net_syscall_open ops os pkt = net_path (drop 12 pkt) (\<lambda>path. net_os ops (os_open os path (posix_translate_flags (rd32 pkt 4)) (rd32 pkt 8)))"

definition net_syscall_close :: "'n sock_ops \<Rightarrow> 'o os \<Rightarrow> bytes \<Rightarrow> ('n, 'w, 'o) net_ctx \<Rightarrow> ('n, 'w, 'o) net_ctx option" where
  "net_syscall_close ops os pkt = net_os ops (os_close os (rd32 pkt 4))"

definition net_syscall_creat :: "'n sock_ops \<Rightarrow> 'o os \<Rightarrow> bytes \<Rightarrow> ('n, 'w, 'o) net_ctx \<Rightarrow> ('n, 'w, 'o) net_ctx option" where
  "net_syscall_creat ops os pkt = net_path (drop 8 pkt) (\<lambda>path. net_os ops (os_open os path creat_flags (rd32 pkt 4)))"

definition net_syscall_link :: "'n sock_ops \<Rightarrow> 'o os \<Rightarrow> bytes \<Rightarrow> ('n, 'w, 'o) net_ctx \<Rightarrow> ('n, 'w, 'o) net_ctx option" where
  "net_syscall_link ops os pkt =
     (let path1 = drop 4 pkt; path2 = drop (length (c_string path1) + 1) path1 in
      net_path path1 (\<lambda>r1. net_path path2 (\<lambda>r2. net_os ops (os_link os r1 r2))))"

definition net_syscall_unlink :: "'n sock_ops \<Rightarrow> 'o os \<Rightarrow> bytes \<Rightarrow> ('n, 'w, 'o) net_ctx \<Rightarrow> ('n, 'w, 'o) net_ctx option" where
  "net_syscall_unlink ops os pkt = net_path (drop 4 pkt) (\<lambda>path. net_os ops (os_unlink os path))"

definition net_syscall_chdir :: "'n sock_ops \<Rightarrow> 'o os \<Rightarrow> bytes \<Rightarrow> ('n, 'w, 'o) net_ctx \<Rightarrow> ('n, 'w, 'o) net_ctx option" where
  "net_syscall_chdir ops os pkt = net_path (drop 4 pkt) (\<lambda>path. net_os ops (os_chdir os path))"

definition net_syscall_chmod :: "'n sock_ops \<Rightarrow> 'o os \<Rightarrow> bytes \<Rightarrow> ('n, 'w, 'o) net_ctx \<Rightarrow> ('n, 'w, 'o) net_ctx option" where
  "net_syscall_chmod ops os pkt = net_path (drop 8 pkt) (\<lambda>path. net_os ops (os_chmod os path (rd32 pkt 4)))"

definition net_syscall_mkdir :: "'n sock_ops \<Rightarrow> 'o os \<Rightarrow> bytes \<Rightarrow> ('n, 'w, 'o) net_ctx \<Rightarrow> ('n, 'w, 'o) net_ctx option" where
  "net_syscall_mkdir ops os pkt = net_path (drop 8 pkt) (\<lambda>path. net_os ops (os_mkdir os path (rd32 pkt 4)))"

text \<open>The offset of \<open>lseek\<close> is the unsigned value of the field, widened to \<open>off_t\<close>.\<close>

definition net_syscall_lseek :: "'n sock_ops \<Rightarrow> 'o os \<Rightarrow> bytes \<Rightarrow> ('n, 'w, 'o) net_ctx \<Rightarrow> ('n, 'w, 'o) net_ctx option" where
  "net_syscall_lseek ops os pkt hc =
     (case os_call (os_lseek os (rd32 pkt 4) (int (unat (rd32 pkt 8))) (rd32 pkt 12)) (snd hc) of (ret, c) \<Rightarrow>
        Some (net_ret ops (word_of_int ret, fst hc, c)))"

definition net_syscall_time :: "'n sock_ops \<Rightarrow> 'o os \<Rightarrow> bytes \<Rightarrow> ('n, 'w, 'o) net_ctx \<Rightarrow> ('n, 'w, 'o) net_ctx option" where
  "net_syscall_time ops os pkt hc = (case os_call (os_time os) (snd hc) of (t, c) \<Rightarrow> Some (net_ret ops (ucast t, fst hc, c)))"

definition net_syscall_stat :: "'n sock_ops \<Rightarrow> 'o con_env \<Rightarrow> bytes \<Rightarrow> nat \<Rightarrow> ('n, 'w, 'o) net_ctx \<Rightarrow> ('n, 'w, 'o) net_ctx option" where
  "net_syscall_stat ops env pkt pkt_len = net_path (drop 12 pkt) (\<lambda>path hc.
     let inline_ret = net_has_inline_ret_request (take pkt_len pkt) (12 + length (c_string (drop 12 pkt)) + 1) in
     case os_call (os_stat (env_os env) path) (snd hc) of ((ret, st), c) \<Rightarrow>
       net_send_struct ops (inline_ret \<and> 0 \<le> sint ret) (kosload_stat (target_big_endian (env_a2l env)) (case st of None \<Rightarrow> stat_zero | Some s \<Rightarrow> s))
         (rd32 pkt 4) (rd32 pkt 8) ret (fst hc, c))"

definition net_syscall_utime :: "'n sock_ops \<Rightarrow> 'o os \<Rightarrow> bytes \<Rightarrow> ('n, 'w, 'o) net_ctx \<Rightarrow> ('n, 'w, 'o) net_ctx option" where
  "net_syscall_utime ops os pkt = net_path (drop 16 pkt) (\<lambda>path.
     net_os ops (os_utime os path (if rd32 pkt 4 \<noteq> 0 then Some (rd32 pkt 8, rd32 pkt 12) else None)))"

definition net_syscall_opendir :: "'n sock_ops \<Rightarrow> 'o os \<Rightarrow> bytes \<Rightarrow> ('n, 'w, 'o) net_ctx \<Rightarrow> ('n, 'w, 'o) net_ctx option" where
  "net_syscall_opendir ops os pkt hc =
     (if free_slot (opendirs (snd hc)) < MAX_OPEN_DIRS
      then net_path (drop 4 pkt) (\<lambda>path hc. case open_slot os path (snd hc) of (i, c) \<Rightarrow> Some (net_ret ops (i, fst hc, c))) hc
      else Some (net_ret ops (0, hc)))"

definition net_syscall_closedir :: "'n sock_ops \<Rightarrow> 'o os \<Rightarrow> bytes \<Rightarrow> ('n, 'w, 'o) net_ctx \<Rightarrow> ('n, 'w, 'o) net_ctx option" where
  "net_syscall_closedir ops os pkt hc = (let i = rd32 pkt 4; c = snd hc in
     if dir_handle i
     then Option.bind (opendirs c ! dir_slot i) (\<lambda>d. case os_call (os_closedir os d) c of (ret, c) \<Rightarrow>
       Some (net_ret ops (ret, fst hc, c\<lparr>opendirs := (opendirs c)[dir_slot i := None]\<rparr>)))
     else Some (net_ret ops (- 1, hc)))"

definition net_syscall_readdir :: "'n sock_ops \<Rightarrow> 'o con_env \<Rightarrow> bytes \<Rightarrow> nat \<Rightarrow> ('n, 'w, 'o) net_ctx \<Rightarrow> ('n, 'w, 'o) net_ctx option" where
  "net_syscall_readdir ops env pkt pkt_len hc =
     (let i = rd32 pkt 4; c = snd hc; inline_ret = net_has_inline_ret_request (take pkt_len pkt) 16 in
      if dir_handle i
      then Option.bind (opendirs c ! dir_slot i) (\<lambda>d. case os_call (os_readdir (env_os env) d) c of
        (None, c) \<Rightarrow> Some (net_ret ops (0, fst hc, c))
      | (Some de, c) \<Rightarrow> net_send_struct ops inline_ret (kosload_dirent (target_big_endian (env_a2l env)) de) (rd32 pkt 8) (rd32 pkt 12) 1 (fst hc, c))
      else Some (net_ret ops (0, hc)))"

definition net_syscall_rewinddir :: "'n sock_ops \<Rightarrow> 'o os \<Rightarrow> bytes \<Rightarrow> ('n, 'w, 'o) net_ctx \<Rightarrow> ('n, 'w, 'o) net_ctx option" where
  "net_syscall_rewinddir ops os pkt hc = (let i = rd32 pkt 4; c = snd hc in
     if dir_handle i
     then map_option (\<lambda>d. net_ret ops (0, fst hc, c\<lparr>con_os := os_rewinddir os d (con_os c)\<rparr>)) (opendirs c ! dir_slot i)
     else Some (net_ret ops (- 1, hc)))"

definition net_syscall_cdfs_read :: "'n sock_ops \<Rightarrow> 'o os \<Rightarrow> bytes \<Rightarrow> ('n, 'w, 'o) net_ctx \<Rightarrow> ('n, 'w, 'o) net_ctx option" where
  "net_syscall_cdfs_read ops os pkt hc =
     (let start = rd32 pkt 4 - 150; addr = rd32 pkt 8; n = rd32 pkt 12 in
      if n = 0 \<or> n > MAX_SYSCALL_SIZE \<or> \<not> os_malloc os (unat n) then Some (net_ret ops (- 1, hc))
      else Option.bind (read_sectors os start (unat n) (snd hc)) (\<lambda>(buf, c).
        map_option (\<lambda>hc. net_ret ops (0, hc)) (net_put ops buf addr n (fst hc, c))))"

text \<open>The length of the packet is not compared with the datagram; beyond the receive buffer it is \<open>None\<close>.\<close>

definition net_syscall_gdbpacket :: "'n sock_ops \<Rightarrow> 'o socks \<Rightarrow> bytes \<Rightarrow> ('n, 'w, 'o) net_ctx \<Rightarrow> ('n, 'w, 'o) net_ctx option" where
  "net_syscall_gdbpacket ops so pkt hc =
     (let in_size = rd32 pkt 4; out_size = rd32 pkt 8; c = snd hc in
      if 12 + unat in_size > length pkt \<and> fst (gdb_connect so (con_gdb c, con_os c)) then None
      else case gdb_relay so (take (unat in_size) (drop 12 pkt)) (unat out_size) (con_gdb c, con_os c) of ((ret, dat), g, u) \<Rightarrow>
        map_option (\<lambda>buf. (net_send ops (ascii ''RETV'') ret ret dat (fst hc), c\<lparr>con_gdb := g, con_os := u, gdb_buf := buf\<rparr>))
          (put_at (gdb_buf c) 0 dat))"

section \<open>The console loop\<close>

definition net_handler :: "'n sock_ops \<Rightarrow> 'o con_env \<Rightarrow> bytes \<Rightarrow> nat \<Rightarrow> (('n, 'w, 'o) net_ctx \<Rightarrow> ('n, 'w, 'o) net_ctx option) option" where
  "net_handler ops env pkt pkt_len = (let os = env_os env; cmd = take 4 pkt in map_of
     [(ascii ''DC01'', net_syscall_fstat ops env pkt pkt_len), (ascii ''DC02'', net_syscall_write ops env pkt pkt_len),
      (ascii ''DD02'', net_syscall_write ops env pkt pkt_len), (ascii ''DC03'', net_syscall_read ops env pkt),
      (ascii ''DC04'', net_syscall_open ops os pkt), (ascii ''DC05'', net_syscall_close ops os pkt),
      (ascii ''DC06'', net_syscall_creat ops os pkt), (ascii ''DC07'', net_syscall_link ops os pkt),
      (ascii ''DC08'', net_syscall_unlink ops os pkt), (ascii ''DC09'', net_syscall_chdir ops os pkt),
      (ascii ''DC10'', net_syscall_chmod ops os pkt), (ascii ''DC11'', net_syscall_lseek ops os pkt),
      (ascii ''DC12'', net_syscall_time ops os pkt), (ascii ''DC13'', net_syscall_stat ops env pkt pkt_len),
      (ascii ''DC14'', net_syscall_utime ops os pkt), (ascii ''DC16'', net_syscall_opendir ops os pkt),
      (ascii ''DC17'', net_syscall_closedir ops os pkt), (ascii ''DC18'', net_syscall_readdir ops env pkt pkt_len),
      (ascii ''DC19'', net_syscall_cdfs_read ops os pkt), (ascii ''DC20'', net_syscall_gdbpacket ops (env_socks env) pkt),
      (ascii ''DC21'', net_syscall_rewinddir ops os pkt), (ascii ''DC23'', net_syscall_mkdir ops os pkt)] cmd)"

text \<open>The receive loop of \<^verbatim>\<open>console.c\<close> is that of the transport; the console repeats it until a datagram arrives.\<close>

definition net_recv_resp :: "'n sock_ops \<Rightarrow> bytes \<Rightarrow> u64 \<Rightarrow> 'n host \<Rightarrow> (nat option \<times> bytes \<times> 'n host) option" where
  "net_recv_resp ops buffer timeout h = recv_resp ops timeout buffer h"

partial_function (option) net_wait :: "'n sock_ops \<Rightarrow> bytes \<Rightarrow> 'n host \<Rightarrow> (nat \<times> bytes \<times> 'n host) option" where
  "net_wait ops buffer h =
     Option.bind (net_recv_resp ops buffer NET_PACKET_TIMEOUT_USEC h) (\<lambda>(r, buffer, h).
       case r of None \<Rightarrow> net_wait ops buffer h | Some n \<Rightarrow> Some (n, buffer, h))"

declare net_wait.simps [code]

fun replay :: "'n sock_ops \<Rightarrow> bytes list \<Rightarrow> 'n host \<Rightarrow> 'n host" where
  "replay ops [] h = h"
| "replay ops (b # bs) h = replay ops bs (h\<lparr>world := snd (sock_send ops (global_socket h) b (world h))\<rparr>)"

datatype ('n, 'w, 'o) net_result = Net_Serving bytes "('n, 'w, 'o) net_ctx" | Net_Ended u32 "('n, 'w, 'o) net_ctx"

definition terminate_at :: "nat \<Rightarrow> bytes \<Rightarrow> bytes" where
  "terminate_at n buffer = (if n < 2048 then buffer[n := 0] else buffer[2047 := 0])"

definition net_dispatch_call :: "'n sock_ops \<Rightarrow> 'o con_env \<Rightarrow> bool \<Rightarrow> nat \<Rightarrow> bytes \<Rightarrow> ('n, 'w, 'o) net_ctx \<Rightarrow> ('n, 'w, 'o) net_result option" where
  "net_dispatch_call ops env dedup_active pkt_len buffer hc =
     (let buffer = terminate_at pkt_len buffer in
      if is_exit buffer then Some (Net_Ended (rd32 buffer 4) (fst hc, program_exit env (rd32 buffer 4) (snd hc)))
      else map_option (\<lambda>(h, c). Net_Serving buffer (if dedup_active then h\<lparr>h_dedup := dedup_end_capture (h_dedup h)\<rparr> else h, c))
        (case net_handler ops env buffer pkt_len of None \<Rightarrow> Some hc | Some handler \<Rightarrow> handler hc))"

definition network_console_step :: "'n sock_ops \<Rightarrow> 'o con_env \<Rightarrow> bytes \<Rightarrow> ('n, 'w, 'o) net_ctx \<Rightarrow> ('n, 'w, 'o) net_result option" where
  "network_console_step ops env buffer hc =
     Option.bind (net_wait ops buffer (fst hc)) (\<lambda>(pkt_len, buffer, h).
       if pkt_len < 4 then Some (Net_Serving buffer (h, snd hc))
       else case dedup_extract_seq (take pkt_len buffer) of
         None \<Rightarrow> net_dispatch_call ops env False pkt_len buffer (h, snd hc)
       | Some seq \<Rightarrow>
           (case now ops h of (t, h) \<Rightarrow>
             case dedup_try_replay seq t (h_dedup h) of
               Some pkts \<Rightarrow> Some (Net_Serving buffer (replay ops pkts h, snd hc))
             | None \<Rightarrow>
                 if dedup_is_stale seq (h_dedup h) then Some (Net_Serving buffer (h, snd hc))
                 else net_dispatch_call ops env True (pkt_len - NET_SEQ_TRAILER_LEN) buffer
                   (h\<lparr>h_dedup := dedup_begin_capture seq t (h_dedup h)\<rparr>, snd hc)))"

partial_function (option) network_loop :: "'n sock_ops \<Rightarrow> 'o con_env \<Rightarrow> bytes \<Rightarrow> ('n, 'w, 'o) net_ctx \<Rightarrow> ('n, 'w, 'o) net_result option" where
  "network_loop ops env buffer hc =
     Option.bind (network_console_step ops env buffer hc) (\<lambda>r.
       case r of Net_Serving buffer hc \<Rightarrow> network_loop ops env buffer hc | Net_Ended code hc \<Rightarrow> Some r)"

declare network_loop.simps [code]

definition do_network_console :: "'n sock_ops \<Rightarrow> 'o con_env \<Rightarrow> ('n, 'w, 'o) net_ctx \<Rightarrow> ('n, 'w, 'o) net_result option" where
  "do_network_console ops env hc = network_loop ops env (stack_bytes ops) (fst hc, open_image env (snd hc))"

section \<open>The entry point\<close>

text \<open>The dumb terminal prints every byte until the link fails.\<close>

partial_function (option) do_dumbterm :: "'w serial_ops \<Rightarrow> 'o os \<Rightarrow> ('w, 'o) console \<Rightarrow> ('w, 'o) console option" where
  "do_dumbterm ops os c =
     Option.bind (ser_blread ops 1 c) (\<lambda>(ok, b, c).
       if \<not> ok then Some c else do_dumbterm ops os (c\<lparr>con_os := snd (os_write os 1 b (con_os c))\<rparr>))"

declare do_dumbterm.simps [code]

record console_args =
  gdb_enabled :: bool
  dumb_terminal :: bool
  transport_is_serial :: bool

text \<open>What \<open>do_console\<close> returned with; the serial console ends the process itself on an exit of the program.\<close>

datatype ('n, 'w, 'o) run_result = Failed_To_Start "('n, 'w, 'o) net_ctx" | Terminal_Lost "('n, 'w, 'o) net_ctx"
  | Ran_Serial "('w, 'o) console_result" "'n host" | Ran_Network "('n, 'w, 'o) net_result"

definition gdb_start :: "'o con_env \<Rightarrow> console_args \<Rightarrow> ('w, 'o) console \<Rightarrow> bool \<times> ('w, 'o) console" where
  "gdb_start env a c =
     (if gdb_enabled a \<and> gdb_server_socket (con_gdb c) < 0
      then case gdb_init (env_socks env) 2159 (con_gdb c, con_os c) of (rv, g, u) \<Rightarrow> (rv = 0, c\<lparr>con_gdb := g, con_os := u\<rparr>)
      else (True, c))"

definition do_console :: "'w serial_ops \<Rightarrow> 'n sock_ops \<Rightarrow> 'o con_env \<Rightarrow> console_args \<Rightarrow> ('n, 'w, 'o) net_ctx \<Rightarrow> ('n, 'w, 'o) run_result option" where
  "do_console sops ops env a hc =
     (case gdb_start env a (snd hc) of (ok, c) \<Rightarrow>
        if \<not> ok then Some (Failed_To_Start (fst hc, c))
        else if dumb_terminal a then map_option (\<lambda>c. Terminal_Lost (fst hc, c)) (do_dumbterm sops (env_os env) c)
        else if transport_is_serial a then map_option (\<lambda>r. Ran_Serial r (fst hc)) (do_serial_console sops env c)
        else map_option Ran_Network (do_network_console ops env (fst hc, c)))"

end
