(* ===== verification/Net_Calls.thy ===== *)
theory Net_Calls
  imports Net_Console Console_Safety
begin

text \<open>
  System calls over the network, end to end: the client's side of each call (\<open>Net_Syscalls\<close>) against the console's
  (\<open>Net_Console\<close>) over the link of \<open>Link\<close>, which may lose datagrams that carry data. The specification is the one the serial console
  meets, \<open>local_call\<close>. The locale \<open>call_server\<close> states what a served program relies on; it is interpreted on the network console.
\<close>

section \<open>Requests\<close>

fun net_issue :: "platform \<Rightarrow> guest_call \<Rightarrow> client \<Rightarrow> (u32 \<times> client) option" where
  "net_issue p (GFstat fd buf) st = net_fstat p fd buf st"
| "net_issue p (GWrite fd buf cnt) st = net_write p fd buf (mem_read (mem st) buf) cnt st"
| "net_issue p (GRead fd buf cnt) st = net_read p fd buf cnt st"
| "net_issue p (GOpen path flags mode) st = net_open p path flags mode st"
| "net_issue p (GClose fd) st = net_close p fd st"
| "net_issue p (GCreat path mode) st = net_creat p path mode st"
| "net_issue p (GLink old new) st = net_link p old new st"
| "net_issue p (GUnlink path) st = net_unlink p path st"
| "net_issue p (GChdir path) st = net_chdir p path st"
| "net_issue p (GChmod path mode) st = net_chmod p path mode st"
| "net_issue p (GMkdir path mode) st = net_mkdir p path mode st"
| "net_issue p (GLseek fd offset whence) st = net_lseek p fd offset whence st"
| "net_issue p (GTime t) st = net_time p t st"
| "net_issue p (GStat path buf) st = net_stat p path buf st"
| "net_issue p (GUtime path buf) st = net_utime p path buf st"
| "net_issue p (GOpendir path) st = net_opendir p path st"
| "net_issue p (GClosedir d) st = net_closedir p d st"
| "net_issue p (GReaddir d) st = net_readdir p d st"
| "net_issue p (GRewinddir d) st = net_rewinddir p d st"

text \<open>The request a call sends, and what the client does with the answer.\<close>

definition named :: "client \<Rightarrow> u32 \<Rightarrow> (bytes \<Rightarrow> bytes) \<Rightarrow> bytes option" where
  "named st a f = map_option f (guest_string (mem st) a)"

fun net_request :: "platform \<Rightarrow> guest_call \<Rightarrow> client \<Rightarrow> bytes option" where
  "net_request p (GFstat fd buf) st = Some (ascii ''DC01'' @ be32 fd @ be32 buf @ be32 (of_nat STAT_SIZE) @ kir0 st)"
| "net_request p (GWrite fd buf cnt) st =
     Some ((if DCTOOL_MAJOR st < 2 then ascii ''DD02'' else ascii ''DC02'') @ be32 fd @ be32 buf @ be32 cnt
       @ (if host_supports_dedup st \<and> cnt > 0 \<and> cnt \<le> NET_WRITE_INLINE_MAX \<and> cnt \<le> NET_PAYLOAD_SIZE - 16 then mem_read (mem st) buf (unat cnt) else []))"
| "net_request p (GRead fd buf cnt) st = Some (ascii ''DC03'' @ be32 fd @ be32 buf @ be32 cnt)"
| "net_request p (GOpen path flags mode) st = named st path (\<lambda>name. ascii ''DC04'' @ be32 flags @ be32 mode @ name)"
| "net_request p (GClose fd) st = Some (ascii ''DC05'' @ be32 fd)"
| "net_request p (GCreat path mode) st = named st path (\<lambda>name. ascii ''DC06'' @ be32 mode @ name)"
| "net_request p (GLink old new) st = Option.bind (guest_string (mem st) old) (\<lambda>n1. named st new (\<lambda>n2. ascii ''DC07'' @ n1 @ n2))"
| "net_request p (GUnlink path) st = named st path (\<lambda>name. ascii ''DC08'' @ name)"
| "net_request p (GChdir path) st = named st path (\<lambda>name. ascii ''DC09'' @ name)"
| "net_request p (GChmod path mode) st = named st path (\<lambda>name. ascii ''DC10'' @ be32 mode @ name)"
| "net_request p (GMkdir path mode) st = named st path (\<lambda>name. ascii ''DC23'' @ be32 mode @ name)"
| "net_request p (GLseek fd offset whence) st = Some (ascii ''DC11'' @ be32 fd @ be32 offset @ be32 whence)"
| "net_request p (GTime t) st = Some (ascii ''DC12'' @ be32 t)"
| "net_request p (GStat path buf) st = named st path (\<lambda>name. ascii ''DC13'' @ be32 buf @ be32 (of_nat STAT_SIZE) @ name @ kir0 st)"
| "net_request p (GUtime path buf) st = named st path (\<lambda>name. ascii ''DC14'' @ be32 buf
     @ (if buf \<noteq> 0 then be32 (mem_ld32 (endian p) (mem st) buf) @ be32 (mem_ld32 (endian p) (mem st) (buf + 4))
        else take 8 (drop (ETHER_H_LEN + IP_H_LEN + UDP_H_LEN + 8) (pkt_buf st))) @ name)"
| "net_request p (GOpendir path) st = named st path (\<lambda>name. ascii ''DC16'' @ name)"
| "net_request p (GClosedir d) st = Some (ascii ''DC17'' @ be32 d)"
| "net_request p (GReaddir d) st = Some (ascii ''DC18'' @ be32 d @ be32 (our_dir_addr p) @ be32 (of_nat DIRENT_SIZE) @ kir0 st)"
| "net_request p (GRewinddir d) st = Some (ascii ''DC21'' @ be32 d)"

fun net_finish :: "platform \<Rightarrow> guest_call \<Rightarrow> u32 \<times> client \<Rightarrow> u32 \<times> client" where
  "net_finish p (GFstat fd buf) res = take_inline_stat buf res"
| "net_finish p (GStat path buf) res = take_inline_stat buf res"
| "net_finish p (GTime t) (r, st) = (r, if t \<noteq> 0 then st\<lparr>mem := mem_write (mem st) t (st32 (endian p) r)\<rparr> else st)"
| "net_finish p (GReaddir d) (r, st) =
     (if r \<noteq> 0
      then (our_dir_addr p,
            if host_supports_dedup st then (case copy_inline_ret DIRENT_SIZE st of Some bs \<Rightarrow> st\<lparr>our_dir := bs\<rparr> | None \<Rightarrow> st) else st)
      else (0, st))"
| "net_finish p _ res = res"

lemma net_issue_request: "net_issue p call st = Option.bind (net_request p call st) (\<lambda>cmd. map_option (net_finish p call) (syscall p cmd st))"
  by (cases call)
    (auto simp: net_fstat_def net_write_def net_read_def net_open_def net_close_def net_creat_def net_link_def net_unlink_def net_chdir_def
      net_chmod_def net_mkdir_def net_lseek_def net_time_def net_stat_def net_utime_def net_opendir_def net_closedir_def net_readdir_def
      net_rewinddir_def named_def Let_def map_option_case option.map_id0 split: option.splits bind_splits)

text \<open>On an adapter that loses nothing, the client's receive loop returns with the answer.\<close>

lemma net_issue_answered:
  assumes "net_request p call st = Some cmd" "build_send_packet p cmd st = Some st1" "\<not> bb_lossy p"
  shows "net_issue (p\<lparr>bb_loop := (\<lambda>_. st2)\<rparr>) call st = Some (net_finish p call (syscall_retval st2, st2))"
proof -
  let ?p = "p\<lparr>bb_loop := (\<lambda>_. st2)\<rparr>"
  have "net_request ?p call st = Some cmd" using assms(1) by (cases call) (simp_all cong: if_cong)
  moreover have "build_send_packet ?p cmd st = Some st1" using assms(2) by (simp add: build_send_packet_def send_udp_def)
  moreover have "net_finish ?p call = net_finish p call" by (rule ext) (cases call, auto)
  ultimately show ?thesis using assms(3) by (simp add: net_issue_request syscall_def kos_syscall_wait_for_retval_def)
qed

section \<open>One exchange\<close>

lemma guest_stringE:
  assumes "guest_string m a = Some name"
  obtains t where "name = t @ [0]" "0 \<notin> set t"
proof -
  have scan: "my_strlen_from m a c = Some n \<Longrightarrow> \<exists>k. n = c + of_nat k \<and> m (a + n) = 0 \<and> (\<forall>i<k. m (a + (c + of_nat i)) \<noteq> 0)" for c n
  proof (induction m a c n rule: my_strlen_from.raw_induct [rotated, consumes 1, case_names step])
    case (step f m a c n)
    show ?case
    proof (cases "m (a + c) = 0")
      case False
      then obtain k where k: "n = c + 1 + of_nat k" "m (a + n) = 0" "\<forall>i<k. m (a + (c + 1 + of_nat i)) \<noteq> 0"
        using step(1) [of m a "c + 1" n] step(2) by auto
      have "\<forall>i<Suc k. m (a + (c + of_nat i)) \<noteq> 0" using k(3) False by (auto simp: less_Suc_eq_0_disj ac_simps)
      then show ?thesis using k(1,2) by (intro exI [of _ "Suc k"]) (simp add: ac_simps)
    next
      case True
      then show ?thesis using step(2) by (intro exI [of _ 0]) simp
    qed
  qed
  obtain n where n: "my_strlen_from m a 0 = Some n" "name = mem_read m a (unat n + 1)"
    using assms by (auto simp: guest_string_def my_strlen_def bind_eq_Some_conv)
  obtain k where k: "n = of_nat k" "m (a + n) = 0" "\<forall>i<k. m (a + of_nat i) \<noteq> 0" using scan [OF n(1)] by auto
  have "unat n \<le> k" using k(1) unat_of_nat_mod_le by simp
  then have "0 \<notin> set (mem_read m a (unat n))" using k(3) by (auto simp: mem_read_def)
  moreover have "name = mem_read m a (unat n) @ [0]" using n(2) k(2) by (simp add: mem_read_def)
  ultimately show ?thesis using that by blast
qed

lemma c_string_named: "0 \<notin> set t \<Longrightarrow> c_string (t @ 0 # rest) = t"
  by (simp add: c_string_def takeWhile_append)

lemma resolve_named:
  assumes "guest_string m a = Some name"
  shows "resolve_path (name @ rest) c = Some (posix_resolve_path (map_path c) MAX_PATH_LEN name)"
proof -
  obtain t where t: "name = t @ [0]" "0 \<notin> set t" using guest_stringE [OF assms] .
  have "c_string (name @ rest) = c_string name" using t c_string_named [of t rest] c_string_named [of t "[]"] by simp
  then show ?thesis using t(1) by (simp add: resolve_path_def posix_resolve_path_def compat_str_append_def split: option.splits)
qed

text \<open>What of the cache an answer's datagrams do not change.\<close>

definition cap :: "dedup \<Rightarrow> bool \<times> u32 \<times> u32 \<times> bool" where
  "cap d = (capturing d, capture_seq d, dd_seq d, dd_valid d)"

lemma cap_capture [simp]: "cap (dedup_capture_pkt b d) = cap d"
  by (simp add: cap_def dedup_capture_pkt_def)

lemma net_wait_link:
  assumes "rxq w = b # bs" "b \<noteq> []" "length b \<le> 2048"
  shows "\<exists>t. net_wait (link_ops f) buffer (hst h d w) = Some (length b, fill b buffer, hst h d (w\<lparr>clk := t, rxq := bs\<rparr>))"
  using assms by (subst net_wait.simps, intro exI [of _ "2 + clk w"]) (simp add: net_recv_resp_def recv_resp_def recv_resp_loop.simps NET_PACKET_TIMEOUT_USEC_def)

lemma net_send_link:
  assumes "capturing d" "capture_seq d = seq"
  shows "\<exists>d'. net_send (link_ops f) (ascii ''RETV'') ret sz dat (hst h d w)
      = hst h d' (f (ascii ''RETV'' @ be32 ret @ be32 sz @ take 2028 dat @ NET_SEQ_MAGIC @ be32 seq) w) \<and> cap d' = cap d"
  using assms
  by (intro exI [of _ "dedup_capture_pkt (ascii ''RETV'' @ be32 ret @ be32 sz @ take 2028 dat @ NET_SEQ_MAGIC @ be32 seq) d"])
     (auto simp: net_send_def net_send_cmd_def link_ops_def Let_def dedup_is_capturing_def dedup_current_seq_def hst_def NET_SEQ_TRAILER_LEN_def)

lemma cmd_retval_keeps_client:
  assumes "cmd_retval p h c st = Some st'"
  shows "keeps st st'" "mem st' = mem st" "\<exists>evs. trace st' = trace st @ evs"
proof -
  have "reply p h d s c [] (emit BbStop st) = Some st1 \<Longrightarrow> keeps st st1 \<and> mem st1 = mem st \<and> (\<exists>evs. trace st1 = trace st @ evs)" for d s st1
    using keeps_reply [of p h d s c "[]" "emit BbStop st" st1]
    by (auto simp: reply_def send_udp_def emit_def keeps_def Let_def split: if_splits bind_splits)
  then have "keeps st st' \<and> mem st' = mem st \<and> (\<exists>evs. trace st' = trace st @ evs)"
    using assms by (fastforce simp: cmd_retval_def Let_def keeps_def split: if_splits bind_splits)
  then show "keeps st st'" "mem st' = mem st" "\<exists>evs. trace st' = trace st @ evs" by simp_all
qed

text \<open>The client's state while its program waits for an answer.\<close>

definition waiting :: "client \<Rightarrow> bool" where
  "waiting st = (running st \<and> tool_version st \<ge> 0x00030000 \<and> DCTOOL_MAJOR st \<ge> 2 \<and> length (pkt_buf st) = TX_CAPACITY \<and> length (tool_mac st) = 6)"

lemma waiting_keeps: "waiting st \<Longrightarrow> keeps st st' \<Longrightarrow> waiting st'"
  by (simp add: waiting_def keeps_def DCTOOL_MAJOR_def)

lemma unat_of_nat_small16: "n < 65536 \<Longrightarrow> unat (of_nat n :: u16) = n"
  by (simp add: unsigned_of_nat take_bit_nat_eq_self)

lemma deliver_retval:
  assumes "addressed p hh" "waiting (cl w)" "kos_syscall_seq (cl w) = seq" "length dat \<le> 2028"
  shows "\<exists>st'. link_send p hh r (ascii ''RETV'' @ be32 ret @ be32 sz @ dat @ NET_SEQ_MAGIC @ be32 seq) w
      = w\<lparr>cl := st', rxq := rxq w @ [ascii ''RETV'' @ be32 ret @ be32 sz]\<rparr> \<and> keeps (cl w) st' \<and> mem st' = mem (cl w)
    \<and> syscall_retval st' = ret \<and> unat (syscall_data_len st') = length dat \<and> take (length dat) (syscall_data st') = dat"
proof -
  let ?b = "ascii ''RETV'' @ be32 ret @ be32 sz @ dat @ NET_SEQ_MAGIC @ be32 seq"
  let ?hh = "with_length ?b hh"
  let ?c = "\<lparr>cmd_id = ascii ''RETV'', cmd_address = ret, cmd_size = sz, cmd_data = dat @ NET_SEQ_MAGIC @ be32 seq @ r\<rparr> :: command"
  let ?s = "ready p ?hh (cl w)"
  have ad: "addressed p ?hh" using assms(1) by simp
  have k: "keeps (cl w) ?s" by (rule keeps_ready [OF ad])
  then have s: "running ?s" "tool_version ?s \<ge> 0x00030000" "14 \<le> length (pkt_buf ?s)" "kos_syscall_seq ?s = seq"
    using assms(2,3) by (simp_all add: waiting_def keeps_def TX_CAPACITY_def)
  have ul: "unat (udp_length ?hh) = UDP_H_LEN + COMMAND_LEN + length dat + NET_SEQ_TRAILER_LEN"
    using assms(4) unat_of_nat_small16 [of "28 + length dat"] by (simp add: with_length_def len_defs ascii_def NET_SEQ_TRAILER_LEN_def)
  obtain st' f where st': "cmd_retval p ?hh ?c ?s = Some st'" "new_frames ?s st' = [f]" "frame_payload f = command_bytes ?c"
      "syscall_retval st' = ret" "take (unat (syscall_data_len st')) (syscall_data st') = dat"
    using cmd_retval_cases(2) [OF s(1-3) _ _ ul, of ?c seq r p] s(4) by (auto simp: ascii_def)
  have "process_command p ?hh (parse_command (?b @ r)) (cl w) = Some st'"
    using process_command_ready [of "ascii ''RETV''" p ?hh ret sz "dat @ NET_SEQ_MAGIC @ be32 seq @ r" "cl w"] st'(1)
    by (simp add: net_dispatch_def ascii_def)
  moreover obtain evs where "trace ?s = trace (cl w) @ evs" "tx_frames evs = []"
    using ready_facts(3) [OF ad, of "cl w"] assms(2) by (auto simp: waiting_def TX_CAPACITY_def)
  ultimately have "deliver p hh r ?b w = w\<lparr>cl := st', rxq := rxq w @ map frame_payload [f]\<rparr>"
    using st'(2) cmd_retval_keeps_client(3) [OF st'(1)] by (intro deliver_answered [where ?st1.0 = ?s])
  moreover have "keeps (cl w) st'" using k cmd_retval_keeps_client(1) [OF st'(1)] by (rule keeps_trans)
  moreover have "mem st' = mem (cl w)" using cmd_retval_keeps_client(2) [OF st'(1)] by (simp add: ready_def)
  moreover have "unat (syscall_data_len st') = length dat"
  proof -
    have "syscall_data st' = cmd_data ?c \<or> st' = ?s" using st'(1) by (auto simp: cmd_retval_def Let_def split: if_splits bind_splits)
    then have "syscall_data st' = cmd_data ?c" using st'(2) by (auto simp: new_frames_def)
    then have "min (unat (syscall_data_len st')) (length dat + (8 + length r)) = length dat"
      using arg_cong [OF st'(5), of length] by simp
    then show ?thesis by linarith
  qed
  ultimately show ?thesis using st' by (auto simp: link_send_def ascii_def command_bytes_def)
qed

section \<open>One turn of the console\<close>

definition fresh :: "u32 \<Rightarrow> dedup \<Rightarrow> bool" where
  "fresh seq d = (dd_valid d \<longrightarrow> 0 < sint (seq - dd_seq d))"

lemma wire_nonempty [simp]: "NET_SEQ_MAGIC \<noteq> []" "be32 v \<noteq> []"
  by (simp_all add: NET_SEQ_MAGIC_def ascii_def be32_def)

lemma extract_seq_trailer: "dedup_extract_seq (cmd @ NET_SEQ_MAGIC @ be32 seq) = Some seq"
  by (simp add: dedup_extract_seq_def NET_SEQ_TRAILER_LEN_def rd32_def Let_def NET_SEQ_MAGIC_def ascii_def be32_def get_be32_be32)

lemma extract_seq_answer: "ret \<noteq> 0x4b535130 \<Longrightarrow> dedup_extract_seq (ascii ''RETV'' @ be32 ret @ be32 sz) = None"
proof -
  have "be32 ret = NET_SEQ_MAGIC \<Longrightarrow> ret = 0x4b535130"
  proof -
    assume "be32 ret = NET_SEQ_MAGIC"
    then have "be32 ret = be32 0x4b535130" by (simp add: NET_SEQ_MAGIC_def be32_def ascii_def)
    then show ?thesis by simp
  qed
  then show "ret \<noteq> 0x4b535130 \<Longrightarrow> ?thesis" by (auto simp: dedup_extract_seq_def NET_SEQ_TRAILER_LEN_def ascii_def)
qed

lemma terminate_fill:
  assumes "length buffer = 2048" "length cmd + length t < 2048" "t \<noteq> []"
  shows "terminate_at (length cmd) (fill (cmd @ t) buffer) = cmd @ 0 # (tl t @ drop (length cmd + length t) buffer)"
  using assms by (cases t) (simp_all add: terminate_at_def fill_def list_update_append)

text \<open>A fresh request reaches its handler, with the answers recorded; what was an answer of the client is not a request.\<close>

lemma step_fresh:
  assumes "rxq w = [cmd @ NET_SEQ_MAGIC @ be32 seq]" "4 \<le> length cmd" "length cmd \<le> 1484" "length buffer = 2048" "fresh seq d" "\<not> is_exit cmd"
  shows "\<exists>t t' rest. network_console_step (link_ops f) env buffer (hst h d w, c)
      = map_option (\<lambda>(h, c). Net_Serving (cmd @ 0 # rest) (h\<lparr>h_dedup := dedup_end_capture (h_dedup h)\<rparr>, c))
          (let hc = (hst h (dedup_begin_capture seq t d) (w\<lparr>rxq := [], clk := t'\<rparr>), c)
           in case net_handler (link_ops f) env (cmd @ 0 # rest) (length cmd) of None \<Rightarrow> Some hc | Some g \<Rightarrow> g hc)
    \<and> length (cmd @ 0 # rest) = 2048"
proof -
  let ?b = "cmd @ NET_SEQ_MAGIC @ be32 seq"
  let ?rest = "tl (NET_SEQ_MAGIC @ be32 seq) @ drop (length cmd + 8) buffer"
  obtain t where t: "net_wait (link_ops f) buffer (hst h d w) = Some (length ?b, fill ?b buffer, hst h d (w\<lparr>clk := t, rxq := []\<rparr>))"
    using net_wait_link [of w ?b "[]" f buffer h d] assms(1-3) by (auto simp: NET_SEQ_MAGIC_def ascii_def)
  have tk: "take (length ?b) (fill ?b buffer) = ?b" by (simp add: fill_def)
  have st: "\<not> dedup_is_stale seq d" "dedup_try_replay seq now_us d = None" for now_us
    using assms(5) by (auto simp: fresh_def dedup_is_stale_def dedup_try_replay_def)
  have tf: "terminate_at (length cmd) (fill ?b buffer) = cmd @ 0 # ?rest"
    using terminate_fill [OF assms(4), of cmd "NET_SEQ_MAGIC @ be32 seq"] assms(3) by simp
  have ex: "\<not> is_exit (cmd @ 0 # ?rest)" using assms(2,6) by (simp add: is_exit_def)
  have "network_console_step (link_ops f) env buffer (hst h d w, c)
      = net_dispatch_call (link_ops f) env True (length cmd) (fill ?b buffer)
          (hst h (dedup_begin_capture seq t d) (w\<lparr>rxq := [], clk := t + 1\<rparr>), c)"
    using assms(2) st unfolding network_console_step_def fst_conv t Option.bind.bind_lunit prod.case tk extract_seq_trailer
    by (simp add: NET_SEQ_TRAILER_LEN_def)
  then show ?thesis
    using ex assms(3,4) unfolding net_dispatch_call_def tf Let_def
    by (intro exI [of _ t] exI [of _ "t + 1"] exI [of _ ?rest]) simp
qed

lemma no_handler: "take 4 pkt = ascii ''RETV'' \<Longrightarrow> net_handler ops env pkt n = None"
  by (simp add: net_handler_def Let_def ascii_def)

lemma step_answer:
  assumes "rxq w = [ascii ''RETV'' @ be32 ret @ be32 sz]" "length buffer = 2048" "ret \<noteq> 0x4b535130"
  shows "\<exists>t buffer'. network_console_step (link_ops f) env buffer (hst h d w, c) = Some (Net_Serving buffer' (hst h d (w\<lparr>clk := t, rxq := []\<rparr>), c))
    \<and> length buffer' = 2048"
proof -
  let ?b = "ascii ''RETV'' @ be32 ret @ be32 sz"
  have l: "length ?b = 12" by (simp add: ascii_def)
  obtain t where t: "net_wait (link_ops f) buffer (hst h d w) = Some (length ?b, fill ?b buffer, hst h d (w\<lparr>clk := t, rxq := []\<rparr>))"
    using net_wait_link [of w ?b "[]" f buffer h d] assms(1) l by auto
  have tk: "take (length ?b) (fill ?b buffer) = ?b" by (simp add: fill_def)
  let ?buf = "terminate_at (length ?b) (fill ?b buffer)"
  have t4: "take 4 ?buf = ascii ''RETV''" by (simp add: terminate_at_def fill_def ascii_def list_update_append)
  have ne: "\<not> is_exit ?buf" using t4 by (simp add: is_exit_def ascii_def)
  have lb: "length ?buf = 2048" using assms(2) l by (simp add: terminate_at_def fill_def)
  show ?thesis
    using assms(3) l ne lb unfolding network_console_step_def fst_conv t Option.bind.bind_lunit prod.case tk extract_seq_answer [OF assms(3)]
    by (auto simp: net_dispatch_call_def Let_def no_handler [OF t4 [unfolded l]])
qed

section \<open>The handlers against the specification\<close>

lemma request_fields:
  "length i = 4 \<Longrightarrow> rd32 (i @ be32 a @ post) 4 = a"
  "length i = 4 \<Longrightarrow> rd32 (i @ be32 x @ be32 a @ post) 8 = a"
  "length i = 4 \<Longrightarrow> rd32 (i @ be32 x @ be32 y @ be32 a @ post) 12 = a"
  using rd32_at [of i 4 a post] rd32_at [of "i @ be32 x" 8 a post] rd32_at [of "i @ be32 x @ be32 y" 12 a post] by simp_all

lemma handler_of:
  "net_handler ops env (ascii ''DC01'' @ xs) n = Some (net_syscall_fstat ops env (ascii ''DC01'' @ xs) n)"
  "net_handler ops env (ascii ''DC02'' @ xs) n = Some (net_syscall_write ops env (ascii ''DC02'' @ xs) n)"
  "net_handler ops env (ascii ''DC03'' @ xs) n = Some (net_syscall_read ops env (ascii ''DC03'' @ xs))"
  "net_handler ops env (ascii ''DC04'' @ xs) n = Some (net_syscall_open ops (env_os env) (ascii ''DC04'' @ xs))"
  "net_handler ops env (ascii ''DC05'' @ xs) n = Some (net_syscall_close ops (env_os env) (ascii ''DC05'' @ xs))"
  "net_handler ops env (ascii ''DC06'' @ xs) n = Some (net_syscall_creat ops (env_os env) (ascii ''DC06'' @ xs))"
  "net_handler ops env (ascii ''DC07'' @ xs) n = Some (net_syscall_link ops (env_os env) (ascii ''DC07'' @ xs))"
  "net_handler ops env (ascii ''DC08'' @ xs) n = Some (net_syscall_unlink ops (env_os env) (ascii ''DC08'' @ xs))"
  "net_handler ops env (ascii ''DC09'' @ xs) n = Some (net_syscall_chdir ops (env_os env) (ascii ''DC09'' @ xs))"
  "net_handler ops env (ascii ''DC10'' @ xs) n = Some (net_syscall_chmod ops (env_os env) (ascii ''DC10'' @ xs))"
  "net_handler ops env (ascii ''DC11'' @ xs) n = Some (net_syscall_lseek ops (env_os env) (ascii ''DC11'' @ xs))"
  "net_handler ops env (ascii ''DC12'' @ xs) n = Some (net_syscall_time ops (env_os env) (ascii ''DC12'' @ xs))"
  "net_handler ops env (ascii ''DC13'' @ xs) n = Some (net_syscall_stat ops env (ascii ''DC13'' @ xs) n)"
  "net_handler ops env (ascii ''DC14'' @ xs) n = Some (net_syscall_utime ops (env_os env) (ascii ''DC14'' @ xs))"
  "net_handler ops env (ascii ''DC16'' @ xs) n = Some (net_syscall_opendir ops (env_os env) (ascii ''DC16'' @ xs))"
  "net_handler ops env (ascii ''DC17'' @ xs) n = Some (net_syscall_closedir ops (env_os env) (ascii ''DC17'' @ xs))"
  "net_handler ops env (ascii ''DC21'' @ xs) n = Some (net_syscall_rewinddir ops (env_os env) (ascii ''DC21'' @ xs))"
  "net_handler ops env (ascii ''DC23'' @ xs) n = Some (net_syscall_mkdir ops (env_os env) (ascii ''DC23'' @ xs))"
  by (simp_all add: net_handler_def Let_def ascii_def)

text \<open>The calls the network console serves as the host would, given how large a datagram and the program's memory are.\<close>

definition name_len :: "memory \<Rightarrow> u32 \<Rightarrow> nat" where
  "name_len m a = (case guest_string m a of None \<Rightarrow> 0 | Some name \<Rightarrow> length name)"

fun net_ok :: "'o con_env \<Rightarrow> platform \<Rightarrow> u32 \<Rightarrow> guest_call \<Rightarrow> memory \<Rightarrow> ('w, 'o) console \<Rightarrow> bool" where
  "net_ok env p adapter (GFstat fd buf) m c = (0 \<le> sint (fst (fst (os_fstat (env_os env) fd (con_os c)))))"
| "net_ok env p adapter (GWrite fd buf cnt) m c = (cnt \<noteq> 0 \<and> cnt \<le> NET_WRITE_INLINE_MAX \<and> os_malloc (env_os env) (unat cnt))"
| "net_ok env p adapter (GRead fd buf cnt) m c =
     (cnt \<noteq> 0 \<and> unat cnt \<le> (if adapter_is_w5500 adapter then 32768 else 3626067) \<and> unat cnt \<le> MAX_RAM_BYTES p
      \<and> cnt \<le> detect_ram_size p \<and> os_malloc (env_os env) (unat cnt))"
| "net_ok env p adapter (GOpen path flags mode) m c = (name_len m path \<le> 1468)"
| "net_ok env p adapter (GCreat path mode) m c = (name_len m path \<le> 1468)"
| "net_ok env p adapter (GLink old new) m c = (name_len m old + name_len m new \<le> 1468)"
| "net_ok env p adapter (GUnlink path) m c = (name_len m path \<le> 1468)"
| "net_ok env p adapter (GChdir path) m c = (name_len m path \<le> 1468)"
| "net_ok env p adapter (GChmod path mode) m c = (name_len m path \<le> 1468)"
| "net_ok env p adapter (GMkdir path mode) m c = (name_len m path \<le> 1468)"
| "net_ok env p adapter (GLseek fd offset whence) m c = (0 \<le> sint offset)"
| "net_ok env p adapter (GStat path buf) m c = (name_len m path \<le> 1468
     \<and> (case host_path m path c of None \<Rightarrow> False | Some name \<Rightarrow> 0 \<le> sint (fst (fst (os_stat (env_os env) name (con_os c))))))"
| "net_ok env p adapter (GUtime path buf) m c = (name_len m path \<le> 1468)"
| "net_ok env p adapter (GOpendir path) m c = (name_len m path \<le> 1468)"
| "net_ok env p adapter (GReaddir d) m c = False"
| "net_ok env p adapter (GRewinddir d) m c = dir_handle d"
| "net_ok env p adapter _ m c = True"

text \<open>A handler that answers at once, and a client that finishes the call with that answer.\<close>

definition replies :: "'n sock_ops \<Rightarrow> 'o con_env \<Rightarrow> bytes \<Rightarrow> nat \<Rightarrow> 'n host \<Rightarrow> ('w, 'o) console \<Rightarrow> u32 \<Rightarrow> bytes \<Rightarrow> ('w, 'o) console \<Rightarrow> bool" where
  "replies ops env pkt n h c ret dat c' = (\<exists>g sz. net_handler ops env pkt n = Some g
     \<and> g (h, c) = Some (net_send ops (ascii ''RETV'') ret sz dat h, c'))"

definition finishes :: "platform \<Rightarrow> guest_call \<Rightarrow> u32 \<Rightarrow> bytes \<Rightarrow> memory \<Rightarrow> memory \<Rightarrow> bool" where
  "finishes p call ret dat m m' = (\<forall>st. mem st = m \<longrightarrow> tool_version st \<ge> 0x00030000 \<longrightarrow> unat (syscall_data_len st) = length dat
     \<longrightarrow> take (length dat) (syscall_data st) = dat \<longrightarrow> net_finish p call (ret, st) = (ret, st\<lparr>mem := m'\<rparr>))"

definition done_by :: "'n sock_ops \<Rightarrow> 'o con_env \<Rightarrow> platform \<Rightarrow> guest_call \<Rightarrow> bytes \<Rightarrow> nat \<Rightarrow> memory \<Rightarrow> 'n host \<Rightarrow> ('w, 'o) console
    \<Rightarrow> u32 \<times> memory \<times> ('w, 'o) console \<Rightarrow> bool" where
  "done_by ops env p call pkt n m h c res = (case res of (ret, m', c') \<Rightarrow>
     \<exists>dat. replies ops env pkt n h c ret dat c' \<and> length dat \<le> 2028 \<and> finishes p call ret dat m m')"

lemma done_byI:
  assumes "net_handler ops env pkt n = Some g" "g (h, c) = Some (net_ret ops (ret, h, c'))" "\<And>st. mem st = m \<Longrightarrow> net_finish p call (ret, st) = (ret, st\<lparr>mem := m'\<rparr>)"
  shows "done_by ops env p call pkt n m h c (ret, m', c')"
  using assms by (auto simp: done_by_def replies_def finishes_def net_ret_def intro!: exI [of _ "[]"])

lemma mem_self: "mem st = m \<Longrightarrow> st\<lparr>mem := m\<rparr> = st"
  by auto

lemma uint_nonneg: "0 \<le> sint (x :: u32) \<Longrightarrow> uint x = sint x"
proof -
  assume "0 \<le> sint x"
  moreover have "sint x < 2147483648" using sint_less [of x] by simp
  moreover have "uint x = sint x mod 4294967296" using uint_word_of_int [of "sint x", where 'a = 32] by simp
  ultimately show ?thesis by simp
qed

lemma descriptor_calls_done:
  "local_call env t (GClose fd) m c = Some r \<Longrightarrow> done_by ops env p (GClose fd) ((ascii ''DC05'' @ be32 fd) @ rest) n m h c r"
  "local_call env t (GTime a) m c = Some r \<Longrightarrow> t_endian t = endian p \<Longrightarrow> done_by ops env p (GTime a) ((ascii ''DC12'' @ be32 a) @ rest) n m h c r"
  "local_call env t (GClosedir d) m c = Some r \<Longrightarrow> done_by ops env p (GClosedir d) ((ascii ''DC17'' @ be32 d) @ rest) n m h c r"
  "local_call env t (GRewinddir d) m c = Some r \<Longrightarrow> dir_handle d \<Longrightarrow> done_by ops env p (GRewinddir d) ((ascii ''DC21'' @ be32 d) @ rest) n m h c r"
  "local_call env t (GLseek fd offset whence) m c = Some r \<Longrightarrow> 0 \<le> sint offset
     \<Longrightarrow> done_by ops env p (GLseek fd offset whence) ((ascii ''DC11'' @ be32 fd @ be32 offset @ be32 whence) @ rest) n m h c r"
  by (auto simp: handler_of on_host_def net_syscall_close_def net_os_def os_call_def request_fields case_prod_unfold mem_self net_syscall_time_def
      dir_call_def net_syscall_closedir_def net_syscall_rewinddir_def net_syscall_lseek_def uint_nonneg bind_eq_Some_conv Let_def
      split: if_splits prod.splits intro!: done_byI)

text \<open>The calls that hand a name to the host.\<close>

lemma name_arg:
  assumes "guest_string m a = Some name"
  shows "net_path (name @ rest) k (h, c) = k (posix_resolve_path (map_path c) MAX_PATH_LEN name) (h, c)"
    "host_path m a c = Some (posix_resolve_path (map_path c) MAX_PATH_LEN name)"
    "length (c_string (name @ rest)) + 1 = length name"
proof -
  obtain t where "name = t @ [0]" "0 \<notin> set t" using guest_stringE [OF assms] .
  then show "length (c_string (name @ rest)) + 1 = length name" using c_string_named [of t rest] by simp
qed (simp_all add: net_path_def resolve_named [OF assms] host_path_def assms)

lemma name_calls_done:
  assumes "guest_string m a = Some name"
  shows "local_call env t (GOpen a flags mode) m c = Some r \<Longrightarrow>
      done_by ops env p (GOpen a flags mode) ((ascii ''DC04'' @ be32 flags @ be32 mode @ name) @ rest) n m h c r"
    "local_call env t (GCreat a mode) m c = Some r \<Longrightarrow> done_by ops env p (GCreat a mode) ((ascii ''DC06'' @ be32 mode @ name) @ rest) n m h c r"
    "local_call env t (GUnlink a) m c = Some r \<Longrightarrow> done_by ops env p (GUnlink a) ((ascii ''DC08'' @ name) @ rest) n m h c r"
    "local_call env t (GChdir a) m c = Some r \<Longrightarrow> done_by ops env p (GChdir a) ((ascii ''DC09'' @ name) @ rest) n m h c r"
    "local_call env t (GChmod a mode) m c = Some r \<Longrightarrow> done_by ops env p (GChmod a mode) ((ascii ''DC10'' @ be32 mode @ name) @ rest) n m h c r"
    "local_call env t (GMkdir a mode) m c = Some r \<Longrightarrow> done_by ops env p (GMkdir a mode) ((ascii ''DC23'' @ be32 mode @ name) @ rest) n m h c r"
    "local_call env t (GOpendir a) m c = Some r \<Longrightarrow> done_by ops env p (GOpendir a) ((ascii ''DC16'' @ name) @ rest) n m h c r"
  by (auto simp: handler_of on_host_def net_os_def os_call_def request_fields case_prod_unfold mem_self name_arg [OF assms]
      net_syscall_open_def net_syscall_creat_def net_syscall_unlink_def net_syscall_chdir_def net_syscall_chmod_def net_syscall_mkdir_def
      net_syscall_opendir_def split: if_splits intro!: done_byI)

lemma link_done:
  assumes "guest_string m a = Some n1" "guest_string m b = Some n2"
  shows "local_call env t (GLink a b) m c = Some r \<Longrightarrow> done_by ops env p (GLink a b) ((ascii ''DC07'' @ n1 @ n2) @ rest) n m h c r"
  using name_arg(3) [OF assms(1), of "n2 @ rest"]
  by (auto simp: handler_of on_host_def net_os_def os_call_def case_prod_unfold mem_self name_arg [OF assms(1)] name_arg [OF assms(2)]
      net_syscall_link_def Let_def intro!: done_byI)

lemma utime_done:
  assumes "guest_string m a = Some name" "t_endian t = endian p"
    and "tms = (if buf \<noteq> 0 then be32 (mem_ld32 (endian p) m buf) @ be32 (mem_ld32 (endian p) m (buf + 4)) else junk)" "length junk = 8"
  shows "local_call env t (GUtime a buf) m c = Some r \<Longrightarrow> done_by ops env p (GUtime a buf) ((ascii ''DC14'' @ be32 buf @ tms @ name) @ rest) n m h c r"
  using assms(2-4)
  by (auto simp: handler_of on_host_def net_os_def os_call_def request_fields case_prod_unfold mem_self name_arg [OF assms(1)]
      net_syscall_utime_def Let_def split: if_splits intro!: done_byI)

text \<open>The calls that answer with a structure, and \<open>write\<close> with its data in the request.\<close>

lemma kosload_stat_bytes: "big = (e = BE) \<Longrightarrow> kosload_stat big st = stat_bytes e st"
  by (cases e) (simp_all add: kosload_stat_def stat_bytes_def target_order16_def target_order32_def st32_def be32_def le32_def numeral_eq_Suc)

lemma length_stat_bytes [simp]: "length (stat_bytes e st) = 60"
  by (simp add: stat_bytes_def)

lemma struct_done:
  assumes "net_handler ops env pkt n = Some g" "g (h, c) = net_send_struct ops True (stat_bytes e s) addr 60 ret (h, c')"
    and "call = GFstat fd buf \<or> call = GStat a buf" "0 \<le> sint ret"
  shows "done_by ops env p call pkt n m h c (ret, mem_write m buf (stat_bytes e s), c')"
proof -
  let ?dat = "NET_INLINE_RET_MAGIC @ stat_bytes e s"
  have "g (h, c) = Some (net_send ops (ascii ''RETV'') ret 64 ?dat h, c')"
    using assms(2) by (simp add: net_send_struct_def net_send_ret_inline_def NET_INLINE_RET_MAX_def)
  moreover have "finishes p call ret ?dat m (mem_write m buf (stat_bytes e s))"
  proof -
    have "copy_inline_ret STAT_SIZE st = Some (stat_bytes e s)"
      if d: "unat (syscall_data_len st) = length ?dat" "take (length ?dat) (syscall_data st) = ?dat" for st
    proof -
      obtain r where "syscall_data st = ?dat @ r" using d(2) by (metis append_take_drop_id)
      then show ?thesis using d(1) by (simp add: copy_inline_ret_def STAT_SIZE_def)
    qed
    then show ?thesis using assms(3,4) by (auto simp: finishes_def take_inline_stat_def host_supports_dedup_def)
  qed
  ultimately show ?thesis using assms(1) by (auto simp: done_by_def replies_def intro!: exI [of _ ?dat])
qed

lemma stat_done:
  assumes "target_big_endian (env_a2l env) = (t_endian t = BE)"
  shows "local_call env t (GFstat fd buf) m c = Some r \<Longrightarrow> net_ok env p adapter (GFstat fd buf) m c \<Longrightarrow>
      cmd = ascii ''DC01'' @ be32 fd @ be32 buf @ be32 60 @ NET_INLINE_RET_MAGIC \<Longrightarrow> done_by ops env p (GFstat fd buf) (cmd @ rest) (length cmd) m h c r"
    "local_call env t (GStat a buf) m c = Some r \<Longrightarrow> net_ok env p adapter (GStat a buf) m c \<Longrightarrow> guest_string m a = Some name \<Longrightarrow>
      cmd = ascii ''DC13'' @ be32 buf @ be32 60 @ name @ NET_INLINE_RET_MAGIC \<Longrightarrow> done_by ops env p (GStat a buf) (cmd @ rest) (length cmd) m h c r"
proof -
  assume l: "local_call env t (GFstat fd buf) m c = Some r" "net_ok env p adapter (GFstat fd buf) m c"
      and cmd: "cmd = ascii ''DC01'' @ be32 fd @ be32 buf @ be32 60 @ NET_INLINE_RET_MAGIC"
  have "net_has_inline_ret_request (take (length cmd) (cmd @ rest)) 16" by (simp add: net_has_inline_ret_request_def cmd)
  then show "done_by ops env p (GFstat fd buf) (cmd @ rest) (length cmd) m h c r"
    using l kosload_stat_bytes [OF assms]
    by (auto simp: put_stat_def case_prod_unfold handler_of cmd net_syscall_fstat_def os_call_def Let_def request_fields intro!: struct_done)
next
  assume l: "local_call env t (GStat a buf) m c = Some r" "net_ok env p adapter (GStat a buf) m c" and g: "guest_string m a = Some name"
      and cmd: "cmd = ascii ''DC13'' @ be32 buf @ be32 60 @ name @ NET_INLINE_RET_MAGIC"
  have "net_has_inline_ret_request (take (length cmd) (cmd @ rest)) (12 + length (c_string (drop 12 (cmd @ rest))) + 1)"
    using name_arg(3) [OF g, of "NET_INLINE_RET_MAGIC @ rest"] by (simp add: net_has_inline_ret_request_def cmd)
  then show "done_by ops env p (GStat a buf) (cmd @ rest) (length cmd) m h c r"
    using l kosload_stat_bytes [OF assms]
    by (auto simp: put_stat_def case_prod_unfold handler_of cmd net_syscall_stat_def os_call_def Let_def request_fields name_arg [OF g] intro!: struct_done)
qed

lemma write_done:
  assumes "local_call env t (GWrite fd buf cnt) m c = Some r" "net_ok env p adapter (GWrite fd buf cnt) m c"
    and "cmd = ascii ''DC02'' @ be32 fd @ be32 buf @ be32 cnt @ mem_read m buf (unat cnt)"
  shows "done_by ops env p (GWrite fd buf cnt) (cmd @ rest) (length cmd) m h c r"
proof -
  have cnt: "cnt \<noteq> 0" "unat cnt \<le> 512" "os_malloc (env_os env) (unat cnt)" "\<not> cnt > MAX_SYSCALL_SIZE"
    using assms(2) by (simp_all add: NET_WRITE_INLINE_MAX_def word_le_nat_alt word_less_nat_alt)
  have l: "length (mem_read m buf (unat cnt)) = unat cnt" by (simp add: mem_read_def)
  have d: "net_write_data ops env (cmd @ rest) (length cmd) buf cnt h = Some (mem_read m buf (unat cnt), h)"
    using cnt(2) l by (simp add: net_write_data_def assms(3))
  show ?thesis
    using assms(1) cnt d
    by (auto simp: handler_of assms(3) net_syscall_write_def Let_def request_fields mem_self case_prod_unfold split: if_splits intro!: done_byI)
qed

text \<open>A transfer adds to the recorded answer and changes nothing else of the cache.\<close>

definition cap_of :: "'n host \<Rightarrow> bool \<times> u32 \<times> u32 \<times> bool" where
  "cap_of h = cap (h_dedup h)"

lemma cap_simps [simp]:
  "cap_of (h\<lparr>world := w\<rparr>) = cap_of h" "cap_of (h\<lparr>h_dedup := d\<rparr>) = cap d" "cap_of (snd (now ops h)) = cap_of h"
  "cap_of (snd (recv_pkt ops h)) = cap_of h" "cap_of (snd (send_cmd ops cmd a s dat h)) = cap_of h"
  by (auto simp: cap_of_def now_def recv_pkt_def send_cmd_def Let_def split: prod.splits)

lemma cap_wait: "wait_loop ops start usec h = Some h' \<Longrightarrow> cap_of h' = cap_of h"
proof (induction ops start usec h h' rule: wait_loop.raw_induct [rotated, consumes 1, case_names step])
  case (step f ops start usec h h')
  show ?case using step(2) by (auto simp: case_prod_unfold split: if_splits dest!: step(1))
qed

lemma cap_drain: "drain_loop ops start usec h = Some h' \<Longrightarrow> cap_of h' = cap_of h"
proof (induction ops start usec h h' rule: drain_loop.raw_induct [rotated, consumes 1, case_names step])
  case (step f ops start usec h h')
  show ?case using step(2) by (auto simp: case_prod_unfold split: if_splits dest!: step(1))
qed

lemma cap_await: "await_ack ops expected a s start buffer h = Some r \<Longrightarrow> cap_of (snd (snd r)) = cap_of h"
proof (induction ops expected a s start buffer h r rule: await_ack.raw_induct [rotated, consumes 1, case_names step])
  case (step f ops expected a s start buffer h r)
  show ?case using step(2) by (auto simp: case_prod_unfold split: if_splits option.splits dest!: step(1))
qed

lemma cap_attempts: "ack_attempts ops cmd a s dat expected n buffer h = Some r \<Longrightarrow> cap_of (snd (snd r)) = cap_of h"
proof (induction n arbitrary: buffer h)
  case (Suc n)
  obtain h1 h2 t where h: "h1 = snd (send_cmd ops cmd a s dat h)" "now ops h1 = (t, h2)" by (meson surj_pair)
  have c2: "cap_of h2 = cap_of h" using cap_simps(3) [of ops h1] cap_simps(5) [of ops cmd a s dat h] h by (simp del: cap_simps)
  have "Option.bind (await_ack ops expected a s t buffer h2) (\<lambda>(ok, buffer, h).
      if ok then Some (True, buffer, h) else ack_attempts ops cmd a s dat expected n buffer h) = Some r"
    using Suc.prems h by (simp add: Let_def case_prod_unfold)
  then obtain ok b h3 where 3: "await_ack ops expected a s t buffer h2 = Some (ok, b, h3)"
      "(if ok then Some (True, b, h3) else ack_attempts ops cmd a s dat expected n b h3) = Some r"
    by (auto simp: bind_eq_Some_conv)
  then show ?case using cap_await [OF 3(1)] c2 Suc.IH [of b h3] by (auto split: if_splits)
qed auto

lemma cap_send_and_wait: "send_and_wait ops cmd a s dat buffer expected h = Some (ok, b, h') \<Longrightarrow> cap_of h' = cap_of h"
  using cap_attempts [of ops cmd a s dat expected MAX_CMD_RETRIES buffer h] by (force simp: send_and_wait_def)

lemma cap_busy_wait: "busy_wait ops usec h = Some h' \<Longrightarrow> cap_of h' = cap_of h"
  by (auto simp: busy_wait_def Let_def case_prod_unfold dest!: cap_wait)

lemma cap_drain_rx: "drain_rx_buffer ops usec h = Some h' \<Longrightarrow> cap_of h' = cap_of h"
  by (auto simp: drain_rx_buffer_def Let_def case_prod_unfold dest!: cap_drain)

lemma cap_stream: "stream_parts ops dat dest sz cs fd offset pc h = Some h' \<Longrightarrow> cap_of h' = cap_of h"
proof (induction ops dat dest sz cs fd offset pc h h' rule: stream_parts.raw_induct [rotated, consumes 1, case_names step])
  case (step f ops dat dest sz cs fd offset pc h h')
  show ?case using step(2) by (auto simp: Let_def case_prod_unfold bind_eq_Some_conv split: if_splits dest!: step(1) cap_busy_wait)
qed

lemma cap_recover: "recover ops dat dest sz fd n buffer h = Some r \<Longrightarrow> cap_of (snd r) = cap_of h"
proof (induction ops dat dest sz fd n buffer h r rule: recover.raw_induct [rotated, consumes 1, case_names step])
  case (step f ops dat dest sz fd n buffer h r)
  show ?case using step(2)
    by (auto simp: Let_def case_prod_unfold bind_eq_Some_conv split: if_splits dest!: step(1) cap_send_and_wait cap_drain_rx)
qed

lemma cap_binds:
  "Option.bind (send_and_wait ops cmd a s dat buffer expected h) K = Some r \<Longrightarrow>
     (\<And>ok b h'. K (ok, b, h') = Some r \<Longrightarrow> cap_of (snd r) = cap_of h') \<Longrightarrow> cap_of (snd r) = cap_of h"
  "Option.bind (stream_parts ops dat dest sz cs fd i n h) L = Some r \<Longrightarrow> (\<And>h'. L h' = Some r \<Longrightarrow> cap_of (snd r) = cap_of h') \<Longrightarrow> cap_of (snd r) = cap_of h"
  "Option.bind (drain_rx_buffer ops usec h) L = Some r \<Longrightarrow> (\<And>h'. L h' = Some r \<Longrightarrow> cap_of (snd r) = cap_of h') \<Longrightarrow> cap_of (snd r) = cap_of h"
  "Option.bind (if g then busy_wait ops usec h else Some h) L = Some r \<Longrightarrow> (\<And>h'. L h' = Some r \<Longrightarrow> cap_of (snd r) = cap_of h') \<Longrightarrow> cap_of (snd r) = cap_of h"
  by (force simp: bind_eq_Some_conv dest: cap_send_and_wait cap_stream cap_drain_rx cap_busy_wait split: if_splits)+

lemma cap_send_data_once: "network_send_data_once ops dat dest sz h = Some r \<Longrightarrow> cap_of (snd r) = cap_of h"
  unfolding network_send_data_once_def Let_def
  by (erule cap_binds | erule cap_recover | (drule option.inject [THEN iffD1], erule subst, simp only: snd_conv; fail) | simp only: prod.case | split if_split_asm)+

lemma cap_send_data:
  assumes "network_send_data ops dat dest sz h = Some (ok, h')" "h_adapter h \<noteq> 0" "\<not> adapter_is_w5500 (h_adapter h) \<or> sz \<le> W5500_UPLOAD_WINDOW_SIZE"
  shows "cap_of h' = cap_of h"
  using assms by (auto simp: network_send_data_def prepare_comms_def split: if_splits dest!: cap_send_data_once)

text \<open>A handler over the link: it may move data before it answers.\<close>

definition performs :: "platform \<Rightarrow> headers \<Rightarrow> bytes \<Rightarrow> 'o con_env \<Rightarrow> guest_call \<Rightarrow> bytes \<Rightarrow> nat \<Rightarrow> link host \<Rightarrow> dedup \<Rightarrow> link \<Rightarrow> ('w, 'o) console
    \<Rightarrow> u32 \<times> memory \<times> ('w, 'o) console \<Rightarrow> bool" where
  "performs p hh r env call pkt n h d w c res = (case res of (ret, m', c') \<Rightarrow>
     \<exists>g d' w' sz dat. net_handler (link_ops (link_send p hh r)) env pkt n = Some g
       \<and> g (hst h d w, c) = Some (net_send (link_ops (link_send p hh r)) (ascii ''RETV'') ret sz dat (hst h d' w'), c')
       \<and> cap d' = cap d \<and> rxq w' = [] \<and> \<not> crashed w' \<and> keeps (cl w) (cl w') \<and> length dat \<le> 2028 \<and> finishes p call ret dat (mem (cl w')) m')"

lemma performsI:
  assumes "net_handler (link_ops (link_send p hh r)) env pkt n = Some g"
    and "g (hst h d w, c) = Some (net_send (link_ops (link_send p hh r)) (ascii ''RETV'') ret sz dat (hst h d' w'), c')"
    and "cap d' = cap d" "rxq w' = []" "\<not> crashed w'" "keeps (cl w) (cl w')" "length dat \<le> 2028" "finishes p call ret dat (mem (cl w')) m'"
  shows "performs p hh r env call pkt n h d w c (ret, m', c')"
  using assms unfolding performs_def by auto

lemma done_performs:
  assumes "done_by (link_ops (link_send p hh r)) env p call pkt n (mem (cl w)) (hst h d w) c res" "rxq w = []" "\<not> crashed w"
  shows "performs p hh r env call pkt n h d w c res"
  using assms by (cases res) (fastforce simp: done_by_def replies_def performs_def)

lemma written:
  assumes "mem_read m' a (length bs) = bs" "\<And>x. outside a (length bs) x \<Longrightarrow> m' x = m x" "length bs \<le> 4294967296"
  shows "m' = mem_write m a bs"
proof
  fix x
  show "m' x = mem_write m a bs x"
  proof (cases "outside a (length bs) x")
    case True
    then show ?thesis using assms(2) mem_write_other [of bs x a m] by (simp add: outside_def)
  next
    case False
    then obtain i where i: "i < length bs" "x = a + of_nat i" by (auto simp: outside_def)
    have "m' x = mem_read m' a (length bs) ! i" using i by (simp add: mem_read_def)
    then show ?thesis using assms(1,3) i mem_write_same [of i bs m a] by simp
  qed
qed

lemma read_performs:
  assumes "local_call env t (GRead fd buf cnt) (mem (cl w)) c = Some res" "net_ok env p (h_adapter h) (GRead fd buf cnt) (mem (cl w)) c"
    and "env_junk env = 0" "addressed p hh" "MAX_RAM_BYTES p < 4294967296" "h_adapter h \<noteq> 0" "\<not> legacy_mode h"
    and "rxq w = []" "\<not> crashed w" "waiting (cl w)"
  shows "performs p hh r env (GRead fd buf cnt) ((ascii ''DC03'' @ be32 fd @ be32 buf @ be32 cnt) @ rest) n h d w c res"
proof -
  let ?ops = "link_ops (link_send p hh r)"
  obtain v u where v: "os_read (env_os env) fd (unat cnt) (con_os c) = (v, u)" by fastforce
  define bs where "bs = (case v of None \<Rightarrow> [] | Some bs \<Rightarrow> bs)"
  define img where "img = bs @ replicate (unat cnt - length bs) 0"
  define ret :: u32 where "ret = (case v of None \<Rightarrow> - 1 | Some bs \<Rightarrow> of_nat (length bs))"
  have l: "length bs \<le> unat cnt" "res = (ret, mem_write (mem (cl w)) buf img, c\<lparr>con_os := u\<rparr>)"
    using assms(1) v by (auto simp: bs_def [symmetric] ret_def img_def Let_def split: if_splits)
  have li: "length img = unat cnt" using l(1) by (simp add: img_def)
  have c: "cnt \<noteq> 0" "unat cnt \<le> 3626067" "unat cnt \<le> MAX_RAM_BYTES p" "unat cnt \<le> unat (detect_ram_size p)" "os_malloc (env_os env) (unat cnt)"
      "\<not> adapter_is_w5500 (h_adapter h) \<or> unat cnt \<le> 32768" "\<not> cnt > MAX_SYSCALL_SIZE"
    using assms(2) by (auto simp: word_le_nat_alt word_less_nat_alt split: if_splits)
  have "img \<noteq> []" using li c(1) by (metis list.size(3) unat_eq_zero)
  then have up: "uploadable p hh img" using assms(4,5) c li by (simp add: uploadable_def)
  obtain d' w' S where s: "network_send_data ?ops img buf (of_nat (length img)) (hst h d w) = Some (True, hst h d' w')"
      "mem_read (mem (cl w')) buf (length img) = img" "uploading p buf img (cl w) S w'"
    using network_send_data_link [OF _ _ _ up, of "hst h d w" r buf] assms(6-10) c(6) li by (auto simp: waiting_def TX_CAPACITY_def)
  have "cap d' = cap d"
    using cap_send_data [OF s(1)] assms(6) c(6) li by (simp add: cap_of_def word_le_nat_alt W5500_UPLOAD_WINDOW_SIZE_def)
  moreover have "mem (cl w') = mem_write (mem (cl w)) buf img"
    using s(2,3) li c(2) by (intro written) (auto simp: uploading_def)
  moreover have "net_put ?ops img buf cnt (hst h d w, c\<lparr>con_os := u\<rparr>) = Some (hst h d' w', c\<lparr>con_os := u\<rparr>)"
    using s(1) li by (simp add: net_put_def)
  moreover have "put_at (replicate (unat cnt) (env_junk env)) 0 bs = Some img"
    using l(1) assms(3) by (simp add: put_at_def img_def)
  ultimately have "net_syscall_read ?ops env ((ascii ''DC03'' @ be32 fd @ be32 buf @ be32 cnt) @ rest) (hst h d w, c)
      = Some (net_send ?ops (ascii ''RETV'') ret ret [] (hst h d' w'), c\<lparr>con_os := u\<rparr>)" "cap d' = cap d"
      "finishes p (GRead fd buf cnt) ret [] (mem (cl w')) (mem_write (mem (cl w)) buf img)"
    using c(1,5,7) v
    by (simp_all add: net_syscall_read_def request_fields os_call_def bs_def [symmetric] ret_def [symmetric] net_ret_def finishes_def mem_self Let_def)
  moreover have "rxq w' = []" "\<not> crashed w'" "keeps (cl w) (cl w')" using s(3) by (simp_all add: uploading_def)
  ultimately show ?thesis
    unfolding l(2) append_assoc by (intro performsI [OF handler_of(3), where d' = d' and w' = w' and sz = ret and dat = "[]"]) simp_all
qed

text \<open>
  The two ends agree on the byte order; the host talks to an adapter it knows, with datagrams of full size, and the client's adapter is
  not one that loses requests (on such an adapter the client repeats them: \<open>Net_Syscalls\<close>, \<open>Dedup\<close>). The host's
  allocator hands out cleared memory, which is what a short \<open>read\<close> leaves behind its data.
\<close>

definition net_setting :: "'o con_env \<Rightarrow> ser_target \<Rightarrow> platform \<Rightarrow> headers \<Rightarrow> link host \<Rightarrow> bool" where
  "net_setting env t p hh h = (t_endian t = endian p \<and> target_big_endian (env_a2l env) = (endian p = BE) \<and> env_junk env = 0 \<and> addressed p hh
     \<and> \<not> bb_lossy p \<and> MAX_RAM_BYTES p < 4294967296 \<and> h_adapter h \<noteq> 0 \<and> \<not> legacy_mode h)"

lemma request_size:
  assumes "net_request p call st = Some cmd" "net_ok env p adapter call (mem st) c" "waiting st"
  shows "4 \<le> length cmd" "length cmd \<le> 1484" "\<not> is_exit cmd"
proof -
  have b: "length (take 8 (drop 50 (pkt_buf st))) = 8" using assms(3) by (simp add: waiting_def TX_CAPACITY_def)
  have w: "unat cnt \<le> 512" if "cnt \<le> NET_WRITE_INLINE_MAX" for cnt
    using that by (simp add: NET_WRITE_INLINE_MAX_def word_le_nat_alt)
  have "4 \<le> length cmd \<and> length cmd \<le> 1484"
    using assms b by (cases call) (auto simp: named_def name_len_def bind_eq_Some_conv kir0_def mem_read_def len_defs dest: w)
  then show "4 \<le> length cmd" "length cmd \<le> 1484" by simp_all
  show "\<not> is_exit cmd"
    using assms by (cases call) (auto simp: named_def bind_eq_Some_conv is_exit_def ascii_def split: if_splits)
qed

lemma request_performs:
  assumes "net_request p call st = Some cmd" "local_call env t call (mem st) c = Some res" "net_ok env p (h_adapter h) call (mem st) c"
    and "net_setting env t p hh h" "waiting st" "rxq w = []" "\<not> crashed w" "waiting (cl w)" "mem (cl w) = mem st"
  shows "performs p hh r env call (cmd @ rest) (length cmd) h d w c res"
proof -
  note set = assms(4) [unfolded net_setting_def]
  have l: "local_call env t call (mem (cl w)) c = Some res" "net_ok env p (h_adapter h) call (mem (cl w)) c" using assms(2,3,9) by simp_all
  have k: "kir0 st = NET_INLINE_RET_MAGIC" "host_supports_dedup st" "\<not> DCTOOL_MAJOR st < 2" using assms(5) by (auto simp: waiting_def kir0_def host_supports_dedup_def)
  have b: "length (take 8 (drop 50 (pkt_buf st))) = 8" using assms(5) by (simp add: waiting_def TX_CAPACITY_def)
  have be: "target_big_endian (env_a2l env) = (t_endian t = BE)" using set by simp
  show ?thesis
  proof (cases "\<exists>fd buf cnt. call = GRead fd buf cnt")
    case True
    then show ?thesis using read_performs [of env t _ _ _ w c res p h hh] l assms(1,6-8) set by auto
  next
    case False
    have "done_by (link_ops (link_send p hh r)) env p call (cmd @ rest) (length cmd) (mem (cl w)) (hst h d w) c res"
    proof (cases call)
      case (GWrite fd buf cnt)
      then have "cnt \<le> NET_PAYLOAD_SIZE - 16" "cnt > 0"
        using l(2) by (auto simp: NET_WRITE_INLINE_MAX_def NET_PAYLOAD_SIZE_def word_le_nat_alt word_gt_0)
      then show ?thesis using assms(1,9) l k GWrite by (intro write_done [OF l [unfolded GWrite], folded GWrite]) (auto simp del: local_call.simps)
    next
      case (GUtime a buf)
      then obtain name where n: "guest_string (mem (cl w)) a = Some name" using assms(1,9) by (auto simp: named_def)
      show ?thesis
        using utime_done [OF n, of t p _ buf "take 8 (drop 50 (pkt_buf st))" env c res "link_ops (link_send p hh r)" rest "length cmd" "hst h d w"]
          l(1) assms(1,9) b set n GUtime by (auto simp: named_def len_defs simp del: local_call.simps)
    qed (use False assms(1,9) l k be set in \<open>auto simp: named_def bind_eq_Some_conv STAT_SIZE_def simp del: local_call.simps append_assoc
        intro!: descriptor_calls_done name_calls_done link_done stat_done\<close>)
    then show ?thesis by (rule done_performs) (use assms(6,7) in simp_all)
  qed
qed

section \<open>The composition\<close>

text \<open>
  The client sends its request and waits; the host takes its turns until no datagram is left; the client finishes the call in the
  state its receive loop has reached.
\<close>

type_synonym ('w, 'o) net_state = "bytes \<times> link host \<times> ('w, 'o) console"

partial_function (option) net_settle :: "link sock_ops \<Rightarrow> 'o con_env \<Rightarrow> ('w, 'o) net_state \<Rightarrow> ('w, 'o) net_state option" where
  "net_settle ops env s = (case s of (buffer, h, c) \<Rightarrow>
     if rxq (world h) = [] then Some s
     else Option.bind (network_console_step ops env buffer (h, c)) (\<lambda>x. case x of
       Net_Serving buffer hc \<Rightarrow> net_settle ops env (buffer, hc) | Net_Ended code hc \<Rightarrow> None))"

declare net_settle.simps [code]

definition sends :: "client \<Rightarrow> link \<Rightarrow> link" where
  "sends st w = w\<lparr>cl := st, rxq := rxq w @ map frame_payload (new_frames (cl w) st)\<rparr>"

definition net_perform :: "platform \<Rightarrow> headers \<Rightarrow> bytes \<Rightarrow> 'o con_env \<Rightarrow> guest_call \<Rightarrow> ('w, 'o) net_state \<Rightarrow> (u32 \<times> ('w, 'o) net_state) option" where
  "net_perform p hh r env call s = (case s of (buffer, h, c) \<Rightarrow>
     let st = cl (world h) in do {
       cmd \<leftarrow> net_request p call st;
       st1 \<leftarrow> build_send_packet p cmd st;
       (buffer, h, c) \<leftarrow> net_settle (link_ops (link_send p hh r)) env (buffer, h\<lparr>world := sends st1 (world h)\<rparr>, c);
       (ret, st) \<leftarrow> net_issue (p\<lparr>bb_loop := (\<lambda>_. cl (world h))\<rparr>) call st;
       Some (ret, buffer, h\<lparr>world := (world h)\<lparr>cl := st\<rparr>\<rparr>, c) })"

text \<open>Between two calls: nothing on the link, and the cache holds the answer to the client's last request.\<close>

definition net_good :: "'o con_env \<Rightarrow> ser_target \<Rightarrow> platform \<Rightarrow> headers \<Rightarrow> u32 \<Rightarrow> ('w, 'o) net_state \<Rightarrow> bool" where
  "net_good env t p hh adapter s = (case s of (buffer, h, c) \<Rightarrow>
     net_setting env t p hh h \<and> h_adapter h = adapter \<and> length buffer = 2048 \<and> waiting (cl (world h)) \<and> rxq (world h) = [] \<and> \<not> crashed (world h)
     \<and> (dd_valid (h_dedup h) \<longrightarrow> kos_syscall_next_seq (cl (world h)) = next_seq_after (dd_seq (h_dedup h))))"

definition net_view :: "('w, 'o) net_state \<Rightarrow> memory \<times> ('w, 'o) console" where
  "net_view s = (case s of (buffer, h, c) \<Rightarrow> (mem (cl (world h)), c))"

lemma next_fresh: "0 < sint (next_seq_after n - n)"
proof (cases "n + 1 = 0")
  case True
  then have "n = - 1" by (simp add: eq_neg_iff_add_eq_0)
  then show ?thesis by (simp add: next_seq_after_def)
qed (simp add: next_seq_after_def)

lemma build_send_packet_client:
  assumes "waiting st" "length (bb_mac p) = 6" "length cmd \<le> 1484"
  shows "\<exists>st'. build_send_packet p cmd st = Some st' \<and> map frame_payload (new_frames st st') = [cmd @ NET_SEQ_MAGIC @ be32 (kos_syscall_next_seq st)]
    \<and> waiting st' \<and> mem st' = mem st \<and> kos_syscall_seq st' = kos_syscall_next_seq st
    \<and> kos_syscall_next_seq st' = next_seq_after (kos_syscall_next_seq st)"
proof -
  have w: "length (pkt_buf st) = TX_CAPACITY" "length (tool_mac st) = 6" using assms(1) by (simp_all add: waiting_def)
  obtain st' f where st': "build_send_packet p cmd st = Some st'" "trace st' = trace st @ [BbStart, Tx f]"
      "frame_payload f = cmd @ NET_SEQ_MAGIC @ be32 (kos_syscall_next_seq st)" "kos_syscall_seq st' = kos_syscall_next_seq st"
      "kos_syscall_next_seq st' = next_seq_after (kos_syscall_next_seq st)" "length (pkt_buf st') = TX_CAPACITY" "tool_mac st' = tool_mac st"
    using build_send_packet_cases [OF w assms(2), of cmd] assms(3) by auto
  have "mem st' = mem st \<and> running st' = running st \<and> tool_version st' = tool_version st"
    using st'(1) by (auto simp: build_send_packet_def Let_def send_udp_def emit_def bind_eq_Some_conv split: if_splits)
  then show ?thesis using st' assms(1) new_frames_append [OF st'(2)] by (auto simp: waiting_def DCTOOL_MAJOR_def)
qed

lemma request_exists: "local_call env t call (mem st) c = Some res \<Longrightarrow> net_ok env p a call (mem st) c \<Longrightarrow> \<exists>cmd. net_request p call st = Some cmd"
  by (cases call) (auto simp: named_def host_path_def bind_eq_Some_conv simp del: split_paired_Ex)

text \<open>The turn that performs a request: the client has the answer, and acknowledges it.\<close>

lemma turn_performs:
  assumes "performs p hh r env call pkt n h d w c (ret, m', c')" "addressed p hh" "waiting (cl w)" "kos_syscall_seq (cl w) = seq"
    and "capturing d" "capture_seq d = seq"
  shows "\<exists>d' w' sz. (let hc = (hst h d w, c) in
        case net_handler (link_ops (link_send p hh r)) env pkt n of None \<Rightarrow> Some hc | Some g \<Rightarrow> g hc) = Some (hst h d' w', c')
      \<and> cap d' = cap d \<and> rxq w' = [ascii ''RETV'' @ be32 ret @ be32 sz] \<and> \<not> crashed w' \<and> keeps (cl w) (cl w')
      \<and> syscall_retval (cl w') = ret \<and> net_finish p call (ret, cl w') = (ret, (cl w')\<lparr>mem := m'\<rparr>)"
proof -
  let ?ops = "link_ops (link_send p hh r)"
  obtain g d1 w1 sz dat where g: "net_handler ?ops env pkt n = Some g" "g (hst h d w, c) = Some (net_send ?ops (ascii ''RETV'') ret sz dat (hst h d1 w1), c')"
      "cap d1 = cap d" "rxq w1 = []" "\<not> crashed w1" "keeps (cl w) (cl w1)" "length dat \<le> 2028" "finishes p call ret dat (mem (cl w1)) m'"
    using assms(1) by (auto simp: performs_def)
  have d1: "capturing d1" "capture_seq d1 = seq" using g(3) assms(5,6) by (simp_all add: cap_def)
  have w1: "waiting (cl w1)" "kos_syscall_seq (cl w1) = seq" using g(6) assms(3,4) waiting_keeps by (auto simp: keeps_def)
  obtain d2 where d2: "net_send ?ops (ascii ''RETV'') ret sz dat (hst h d1 w1)
      = hst h d2 (link_send p hh r (ascii ''RETV'' @ be32 ret @ be32 sz @ dat @ NET_SEQ_MAGIC @ be32 seq) w1)" "cap d2 = cap d1"
    using net_send_link [OF d1, of "link_send p hh r" ret sz dat h w1] g(7) by auto
  obtain st' where st': "link_send p hh r (ascii ''RETV'' @ be32 ret @ be32 sz @ dat @ NET_SEQ_MAGIC @ be32 seq) w1
      = w1\<lparr>cl := st', rxq := rxq w1 @ [ascii ''RETV'' @ be32 ret @ be32 sz]\<rparr>" "keeps (cl w1) st'" "mem st' = mem (cl w1)"
      "syscall_retval st' = ret" "unat (syscall_data_len st') = length dat" "take (length dat) (syscall_data st') = dat"
    using deliver_retval [OF assms(2) w1 g(7), of r ret sz] by blast
  have "net_finish p call (ret, st') = (ret, st'\<lparr>mem := m'\<rparr>)"
    using g(8) st' waiting_keeps [OF w1(1) st'(2)] by (simp add: finishes_def waiting_def)
  then show ?thesis
    using g(1-6) d2 st' keeps_trans [OF g(6) st'(2)]
    by (intro exI [of _ d2] exI [of _ "w1\<lparr>cl := st', rxq := [ascii ''RETV'' @ be32 ret @ be32 sz]\<rparr>"] exI [of _ sz]) simp
qed

lemma settle_two:
  assumes "rxq w \<noteq> []" "network_console_step ops env buffer (hst h d w, c) = Some (Net_Serving b1 (hst h d1 w1, c1))" "rxq w1 \<noteq> []"
    and "network_console_step ops env b1 (hst h d1 w1, c1) = Some (Net_Serving b2 (hst h d1 w2, c1))" "rxq w2 = []"
  shows "net_settle ops env (buffer, hst h d w, c) = Some (b2, hst h d1 w2, c1)"
  using assms by (subst net_settle.simps, simp, subst net_settle.simps, simp, subst net_settle.simps, simp)

lemma request_settles:
  assumes rx: "rxq w = [cmd @ NET_SEQ_MAGIC @ be32 seq]" and cmd: "4 \<le> length cmd" "length cmd \<le> 1484" "\<not> is_exit cmd"
    and st: "\<not> crashed w" "waiting (cl w)" "kos_syscall_seq (cl w) = seq" "fresh seq d" "length buffer = 2048" "addressed p hh" "ret \<noteq> 0x4b535130"
    and perf: "\<And>d w' rest. rxq w' = [] \<Longrightarrow> \<not> crashed w' \<Longrightarrow> cl w' = cl w \<Longrightarrow> performs p hh r env call (cmd @ rest) (length cmd) h d w' c (ret, m', c')"
  shows "\<exists>buffer' d' w'. net_settle (link_ops (link_send p hh r)) env (buffer, hst h d w, c) = Some (buffer', hst h d' w', c') \<and> length buffer' = 2048
    \<and> rxq w' = [] \<and> \<not> crashed w' \<and> keeps (cl w) (cl w') \<and> dd_seq d' = seq \<and> syscall_retval (cl w') = ret
    \<and> net_finish p call (ret, cl w') = (ret, (cl w')\<lparr>mem := m'\<rparr>)"
proof -
  let ?ops = "link_ops (link_send p hh r)"
  obtain u u' rest where turn: "network_console_step ?ops env buffer (hst h d w, c)
      = map_option (\<lambda>(h, c). Net_Serving (cmd @ 0 # rest) (h\<lparr>h_dedup := dedup_end_capture (h_dedup h)\<rparr>, c))
          (let hc = (hst h (dedup_begin_capture seq u d) (w\<lparr>rxq := [], clk := u'\<rparr>), c)
           in case net_handler ?ops env (cmd @ 0 # rest) (length cmd) of None \<Rightarrow> Some hc | Some g \<Rightarrow> g hc)" "length (cmd @ 0 # rest) = 2048"
    using step_fresh [OF rx cmd(1,2) st(5,4) cmd(3), of "link_send p hh r" env h c] by blast
  define d1 w2 where "d1 = dedup_begin_capture seq u d" and "w2 = w\<lparr>rxq := [], clk := u'\<rparr>"
  have w2: "cl w2 = cl w" "rxq w2 = []" "\<not> crashed w2" using st(1) by (simp_all add: w2_def)
  have d1: "capturing d1" "capture_seq d1 = seq" by (simp_all add: d1_def dedup_begin_capture_def)
  from turn_performs [OF perf [OF w2(2,3,1)] st(6) _ _ d1] w2(1) st(2,3) obtain d2 w3 sz where
    p: "(let hc = (hst h d1 w2, c) in case net_handler ?ops env (cmd @ 0 # rest) (length cmd) of None \<Rightarrow> Some hc | Some g \<Rightarrow> g hc) = Some (hst h d2 w3, c')"
      "cap d2 = cap d1" "rxq w3 = [ascii ''RETV'' @ be32 ret @ be32 sz]" "\<not> crashed w3" "keeps (cl w) (cl w3)" "syscall_retval (cl w3) = ret"
      "net_finish p call (ret, cl w3) = (ret, (cl w3)\<lparr>mem := m'\<rparr>)" by metis
  let ?d3 = "dedup_end_capture d2"
  have step1: "network_console_step ?ops env buffer (hst h d w, c) = Some (Net_Serving (cmd @ 0 # rest) (hst h ?d3 w3, c'))"
    unfolding turn(1) d1_def [symmetric] w2_def [symmetric] p(1) by simp
  obtain v buffer' where step2: "network_console_step ?ops env (cmd @ 0 # rest) (hst h ?d3 w3, c')
      = Some (Net_Serving buffer' (hst h ?d3 (w3\<lparr>clk := v, rxq := []\<rparr>), c'))" "length buffer' = 2048"
    using step_answer [OF p(3) turn(2) st(7), of "link_send p hh r" env h ?d3 c'] by blast
  have "net_settle ?ops env (buffer, hst h d w, c) = Some (buffer', hst h ?d3 (w3\<lparr>clk := v, rxq := []\<rparr>), c')"
    by (rule settle_two [OF _ step1 _ step2(1)]) (use rx p(3) in simp_all)
  moreover have "dd_seq ?d3 = seq" using p(2) d1 by (auto simp: cap_def dedup_end_capture_def)
  ultimately show ?thesis using step2(2) p(4-7)
    by (intro exI [of _ buffer'] exI [of _ ?d3] exI [of _ "w3\<lparr>clk := v, rxq := []\<rparr>"]) simp
qed

text \<open>A request whose handler does what \<open>res\<close> says, through both ends.\<close>

lemma net_call_performed:
  assumes "net_good env t p hh a (buffer, h, c)" and cmd: "net_request p call (cl (world h)) = Some cmd" and sz: "4 \<le> length cmd" "length cmd \<le> 1484" "\<not> is_exit cmd"
    and perf: "\<And>d w rest. rxq w = [] \<Longrightarrow> \<not> crashed w \<Longrightarrow> waiting (cl w) \<Longrightarrow> mem (cl w) = mem (cl (world h))
      \<Longrightarrow> performs p hh r env call (cmd @ rest) (length cmd) h d w c (ret, m', c')"
    and ret: "ret \<noteq> 0x4b535130"
  shows "\<exists>buffer' h'. net_perform p hh r env call (buffer, h, c) = Some (ret, buffer', h', c') \<and> net_good env t p hh a (buffer', h', c')
    \<and> mem (cl (world h')) = m'"
proof -
  let ?ops = "link_ops (link_send p hh r)"
  define d w where "d = h_dedup h" and "w = world h"
  define st seq where "st = cl w" and "seq = kos_syscall_next_seq st"
  have good: "net_setting env t p hh h" "h_adapter h = a" "length buffer = 2048" "waiting st" "rxq w = []" "\<not> crashed w"
      "dd_valid d \<Longrightarrow> seq = next_seq_after (dd_seq d)"
    using assms(1) by (simp_all add: net_good_def d_def w_def st_def seq_def)
  have ad: "addressed p hh" "length (bb_mac p) = 6" "\<not> bb_lossy p" using good(1) by (simp_all add: net_setting_def addressed_def)
  obtain st1 where st1: "build_send_packet p cmd st = Some st1" "map frame_payload (new_frames st st1) = [cmd @ NET_SEQ_MAGIC @ be32 seq]"
      "waiting st1" "mem st1 = mem st" "kos_syscall_seq st1 = seq" "kos_syscall_next_seq st1 = next_seq_after seq"
    using build_send_packet_client [OF good(4) ad(2) sz(2)] by (auto simp: seq_def)
  let ?w1 = "sends st1 w"
  have w1: "rxq ?w1 = [cmd @ NET_SEQ_MAGIC @ be32 seq]" "cl ?w1 = st1" "\<not> crashed ?w1"
    using st1(2) good(5,6) by (simp_all add: sends_def st_def)
  have fr: "fresh seq d" using good(7) next_fresh by (simp add: fresh_def)
  obtain buffer' d' w' where
    t: "net_settle ?ops env (buffer, hst h d ?w1, c) = Some (buffer', hst h d' w', c')" "length buffer' = 2048" "rxq w' = []" "\<not> crashed w'"
      "keeps st1 (cl w')" "dd_seq d' = seq" "syscall_retval (cl w') = ret" "net_finish p call (ret, cl w') = (ret, (cl w')\<lparr>mem := m'\<rparr>)"
    using request_settles [OF w1(1) sz w1(3) _ _ fr good(3) ad(1) ret, where call = call and h = h and r = r and env = env and c = c and c' = c' and m' = m']
      perf st1(3-5) w1(2) by (auto simp: st_def w_def)
  have "h\<lparr>world := ?w1\<rparr> = hst h d ?w1" by (simp add: hst_def d_def)
  moreover have "net_issue (p\<lparr>bb_loop := (\<lambda>_. cl w')\<rparr>) call st = Some (ret, (cl w')\<lparr>mem := m'\<rparr>)"
    using net_issue_answered [OF _ st1(1) ad(3), of call "cl w'"] cmd t(7,8) by (simp add: st_def w_def)
  ultimately have "net_perform p hh r env call (buffer, h, c) = Some (ret, buffer', hst h d' (w'\<lparr>cl := (cl w')\<lparr>mem := m'\<rparr>\<rparr>), c')"
    using cmd st1(1) t(1) by (simp add: net_perform_def st_def w_def)
  moreover have "net_good env t p hh a (buffer', hst h d' (w'\<lparr>cl := (cl w')\<lparr>mem := m'\<rparr>\<rparr>), c')"
    using good(1,2) t(2-6) waiting_keeps [OF st1(3) t(5)] st1(6)
    by (simp add: net_good_def net_setting_def waiting_def keeps_def DCTOOL_MAJOR_def)
  ultimately show ?thesis by auto
qed

lemma net_call_served:
  assumes "net_good env t p hh a s" "net_view s = (m, c)" "net_ok env p a call m c" "local_call env t call m c = Some (ret, m', c')"
    and "ret \<noteq> 0x4b535130"
  shows "\<exists>s'. net_perform p hh r env call s = Some (ret, s') \<and> net_good env t p hh a s' \<and> net_view s' = (m', c')"
proof -
  obtain buffer h where s: "s = (buffer, h, c)" and m: "mem (cl (world h)) = m" using assms(2) by (cases s) (auto simp: net_view_def)
  let ?st = "cl (world h)"
  have good: "net_setting env t p hh h" "h_adapter h = a" "waiting ?st" using assms(1) by (simp_all add: s net_good_def)
  obtain cmd where cmd: "net_request p call ?st = Some cmd" using request_exists assms(3,4) m by metis
  note sz = request_size [OF cmd assms(3) [folded m] good(3)]
  have perf: "performs p hh r env call (cmd @ rest) (length cmd) h d w c (ret, m', c')"
    if "rxq w = []" "\<not> crashed w" "waiting (cl w)" "mem (cl w) = mem ?st" for d w rest
    using request_performs [OF cmd assms(4) [folded m] _ good(1,3) that] assms(3) good(2) m by simp
  obtain buffer' h' where "net_perform p hh r env call s = Some (ret, buffer', h', c')" "net_good env t p hh a (buffer', h', c')" "mem (cl (world h')) = m'"
    using net_call_performed [OF assms(1) [unfolded s] cmd sz perf assms(5)] unfolding s by blast
  then show ?thesis by (intro exI [of _ "(buffer', h', c')"]) (simp add: net_view_def)
qed

end
