(* ===== verification/Net_Run.thy ===== *)
theory Net_Run
  imports Net_Calls Serial_Run
begin

text \<open>
  Programs under the network console. The locale \<open>call_server\<close> states what a program relies on when something serves its calls;
  in it, a run of a program is the run of its calls on the host. It is interpreted on the network console of \<open>Net_Calls\<close>. The
  errors at the end are calls the network console does not serve as the host would.
\<close>

section \<open>Served programs\<close>

primrec run_calls :: "(guest_call \<Rightarrow> 's \<Rightarrow> (u32 \<times> 's) option) \<Rightarrow> prog \<Rightarrow> 's \<Rightarrow> (u32 \<times> 's) option" where
  "run_calls perform (Exit code) = (\<lambda>s. Some (code, s))"
| "run_calls perform (Do call p) = (\<lambda>s. Option.bind (perform call s) (\<lambda>(r, s). run_calls perform (p r) s))"

text \<open>Every call of the run is one the server accepts.\<close>

primrec run_within :: "(guest_call \<Rightarrow> memory \<Rightarrow> ('w, 'o) console \<Rightarrow> bool) \<Rightarrow> 'o con_env \<Rightarrow> ser_target \<Rightarrow> prog \<Rightarrow> memory \<Rightarrow> ('w, 'o) console \<Rightarrow> bool" where
  "run_within accepts env t (Exit code) = (\<lambda>m c. True)"
| "run_within accepts env t (Do call p) = (\<lambda>m c. accepts call m c
     \<and> (case local_call env t call m c of None \<Rightarrow> True | Some (r, m, c) \<Rightarrow> run_within accepts env t (p r) m c))"

locale call_server =
  fixes env :: "'o con_env" and t :: ser_target
    and perform :: "guest_call \<Rightarrow> 's \<Rightarrow> (u32 \<times> 's) option"
    and accepts :: "guest_call \<Rightarrow> memory \<Rightarrow> ('w, 'o) console \<Rightarrow> bool"
    and good :: "'s \<Rightarrow> bool"
    and view :: "'s \<Rightarrow> memory \<times> ('w, 'o) console"
  assumes serves: "good s \<Longrightarrow> view s = (m, c) \<Longrightarrow> accepts call m c \<Longrightarrow> local_call env t call m c = Some (r, m', c')
      \<Longrightarrow> \<exists>s'. perform call s = Some (r, s') \<and> good s' \<and> view s' = (m', c')"
begin

lemma run_is_local:
  "good s \<Longrightarrow> view s = (m, c) \<Longrightarrow> run_within accepts env t p m c \<Longrightarrow> local_run env t p m c = Some (code, m', c')
    \<Longrightarrow> \<exists>s'. run_calls perform p s = Some (code, s') \<and> good s' \<and> view s' = (m', c')"
proof (induction p arbitrary: s m c)
  case (Do call p)
  obtain r m1 c1 where l: "local_call env t call m c = Some (r, m1, c1)" "local_run env t (p r) m1 c1 = Some (code, m', c')"
    using Do.prems(4) by (auto simp: bind_eq_Some_conv)
  obtain s1 where "perform call s = Some (r, s1)" "good s1" "view s1 = (m1, c1)" using serves [OF Do.prems(1,2) _ l(1)] Do.prems(3) by auto
  then show ?case using Do.IH [of "p r" s1 m1 c1] Do.prems(3) l by auto
qed simp

end

section \<open>The network console as a server\<close>

text \<open>A result equal to the magic number of request trailers is excluded: see the last section.\<close>

definition net_accepts :: "'o con_env \<Rightarrow> ser_target \<Rightarrow> platform \<Rightarrow> u32 \<Rightarrow> guest_call \<Rightarrow> memory \<Rightarrow> ('w, 'o) console \<Rightarrow> bool" where
  "net_accepts env t p adapter call m c = (net_ok env p adapter call m c
     \<and> (case local_call env t call m c of None \<Rightarrow> True | Some (r, m', c') \<Rightarrow> r \<noteq> 0x4b535130))"

interpretation network: call_server env t "net_perform p hh r env" "net_accepts env t p adapter" "net_good env t p hh adapter" net_view
  for env t p hh r adapter
proof
  fix s m c call v m' c'
  assume "net_good env t p hh adapter s" "net_view s = (m, c)" "net_accepts env t p adapter call m c" "local_call env t call m c = Some (v, m', c')"
  then show "\<exists>s'. net_perform p hh r env call s = Some (v, s') \<and> net_good env t p hh adapter s' \<and> net_view s' = (m', c')"
    by (intro net_call_served) (simp_all add: net_accepts_def)
qed

text \<open>The program's end: the client announces the exit code, and the console's loop returns.\<close>

definition net_exit :: "platform \<Rightarrow> headers \<Rightarrow> bytes \<Rightarrow> 'o con_env \<Rightarrow> u32 \<Rightarrow> ('w, 'o) net_state \<Rightarrow> (link, 'w, 'o) net_result option" where
  "net_exit p hh r env code s = (case s of (buffer, h, c) \<Rightarrow> do {
     st \<leftarrow> progexit p code (cl (world h));
     network_loop (link_ops (link_send p hh r)) env buffer (h\<lparr>world := sends st (world h)\<rparr>, c) })"

definition net_run :: "platform \<Rightarrow> headers \<Rightarrow> bytes \<Rightarrow> 'o con_env \<Rightarrow> prog \<Rightarrow> ('w, 'o) net_state \<Rightarrow> (link, 'w, 'o) net_result option" where
  "net_run p hh r env prog s = Option.bind (run_calls (net_perform p hh r env) prog s) (\<lambda>(code, s). net_exit p hh r env code s)"

lemma repeat_send:
  assumes "length (bb_mac p) = 6" "length cmd \<le> 1484"
  shows "waiting st \<Longrightarrow> \<exists>st' evs. repeat_opt n (build_send_packet p cmd) st = Some st' \<and> trace st' = trace st @ evs \<and> mem st' = mem st"
proof (induction n arbitrary: st)
  case (Suc n)
  obtain st1 where 1: "build_send_packet p cmd st = Some st1" "waiting st1" "mem st1 = mem st"
    using build_send_packet_client [OF Suc.prems assms] by blast
  have "\<exists>evs. trace st1 = trace st @ evs"
    using 1(1) build_send_packet_cases [OF _ _ assms(1), of st cmd] assms(2) Suc.prems by (auto simp: waiting_def)
  then show ?case using Suc.IH [OF 1(2)] 1(1,3) by auto
qed simp

lemma step_exit:
  assumes "rxq w = (ascii ''DC00'' @ be32 code @ be32 0 @ NET_SEQ_MAGIC @ be32 seq) # bs" "length buffer = 2048" "fresh seq d"
  shows "\<exists>d' t'. network_console_step (link_ops f) env buffer (hst h d w, c)
    = Some (Net_Ended code (hst h d' (w\<lparr>rxq := bs, clk := t'\<rparr>), program_exit env code c))"
proof -
  let ?cmd = "ascii ''DC00'' @ be32 code @ be32 0"
  let ?b = "?cmd @ NET_SEQ_MAGIC @ be32 seq"
  obtain t where t: "net_wait (link_ops f) buffer (hst h d w) = Some (length ?b, fill ?b buffer, hst h d (w\<lparr>clk := t, rxq := bs\<rparr>))"
    using net_wait_link [of w ?b bs f buffer h d] assms(1) by auto
  have tk: "take (length ?b) (fill ?b buffer) = ?b" by (simp add: fill_def)
  have st: "\<not> dedup_is_stale seq d" "dedup_try_replay seq now_us d = None" for now_us
    using assms(3) by (auto simp: fresh_def dedup_is_stale_def dedup_try_replay_def)
  let ?buf = "terminate_at (length ?cmd) (fill ?b buffer)"
  have tf: "?buf = ?cmd @ 0 # (tl (NET_SEQ_MAGIC @ be32 seq) @ drop (length ?cmd + 8) buffer)"
    using terminate_fill [OF assms(2), of ?cmd "NET_SEQ_MAGIC @ be32 seq"] by simp
  have ex: "is_exit ?buf" "rd32 ?buf 4 = code" unfolding tf by (simp_all add: is_exit_def request_fields)
  have "network_console_step (link_ops f) env buffer (hst h d w, c)
      = net_dispatch_call (link_ops f) env True (length ?cmd) (fill ?b buffer)
          (hst h (dedup_begin_capture seq t d) (w\<lparr>rxq := bs, clk := t + 1\<rparr>), c)"
    using st unfolding network_console_step_def fst_conv t Option.bind.bind_lunit prod.case tk extract_seq_trailer
    by (simp add: NET_SEQ_TRAILER_LEN_def)
  then show ?thesis using ex unfolding net_dispatch_call_def Let_def by auto
qed

lemma exit_served:
  assumes "net_good env t p hh a s" "net_view s = (m, c)"
  shows "\<exists>h'. net_exit p hh r env code s = Some (Net_Ended code (h', program_exit env code c)) \<and> mem (cl (world h')) = m"
proof -
  let ?ops = "link_ops (link_send p hh r)" and ?cmd = "ascii ''DC00'' @ be32 code @ be32 0"
  obtain buffer h where s: "s = (buffer, h, c)" using assms(2) by (cases s) (auto simp: net_view_def)
  define d w where "d = h_dedup h" and "w = world h"
  define st seq where "st = emit BbStop (cl w)" and "seq = kos_syscall_next_seq st"
  have good: "length (bb_mac p) = 6" "length buffer = 2048" "waiting st" "rxq w = []" "mem st = m" "fresh seq d"
    using assms next_fresh by (auto simp: s net_good_def net_view_def net_setting_def addressed_def d_def w_def st_def seq_def waiting_def fresh_def DCTOOL_MAJOR_def)
  obtain st1 f where st1: "build_send_packet p ?cmd st = Some st1" "trace st1 = trace st @ [BbStart, Tx f]" "frame_payload f = ?cmd @ NET_SEQ_MAGIC @ be32 seq"
    using build_send_packet_cases [OF _ _ good(1), of st ?cmd] good(3) by (auto simp: waiting_def seq_def)
  have "waiting st1" "mem st1 = m" using build_send_packet_client [OF good(3,1), of ?cmd] st1(1) good(5) by auto
  then obtain st' evs where st': "repeat_opt 4 (build_send_packet p ?cmd) st1 = Some st'" "trace st' = trace st1 @ evs" "mem st' = m"
    using repeat_send [OF good(1), of ?cmd st1 4] by auto
  have pe: "progexit p code (cl w) = Some st'"
    using st1(1) st'(1) by (simp add: progexit_def PROGEXIT_RETRANSMIT_COUNT_def st_def numeral_eq_Suc)
  have "trace st' = trace (cl w) @ [BbStop, BbStart, Tx f] @ evs" using st'(2) st1(2) by (simp add: st_def emit_def)
  then obtain bs where "map frame_payload (new_frames (cl w) st') = (?cmd @ NET_SEQ_MAGIC @ be32 seq) # bs"
    using new_frames_append st1(3) by force
  then have "rxq (sends st' w) = (ascii ''DC00'' @ be32 code @ be32 0 @ NET_SEQ_MAGIC @ be32 seq) # bs" using good(4) by (simp add: sends_def)
  from step_exit [OF this good(2,6)] obtain d' t' where
    "network_console_step ?ops env buffer (hst h d (sends st' w), c)
      = Some (Net_Ended code (hst h d' ((sends st' w)\<lparr>rxq := bs, clk := t'\<rparr>), program_exit env code c))" by blast
  moreover have "h\<lparr>world := sends st' w\<rparr> = hst h d (sends st' w)" by (simp add: hst_def d_def)
  ultimately show ?thesis
    using pe st'(3) by (simp add: net_exit_def s w_def [symmetric] network_loop.simps) (simp add: sends_def)
qed

text \<open>A stale request: the console goes back to waiting.\<close>

lemma step_stale:
  assumes "rxq w = [cmd @ NET_SEQ_MAGIC @ be32 seq]" "4 \<le> length cmd" "length cmd \<le> 1484" "dedup_is_stale seq d" "\<And>u. dedup_try_replay seq u d = None"
  shows "\<exists>b' w'. network_console_step (link_ops f) env buffer (hst h d w, c) = Some (Net_Serving b' (hst h d w', c)) \<and> cl w' = cl w \<and> rxq w' = []"
proof -
  let ?b = "cmd @ NET_SEQ_MAGIC @ be32 seq"
  obtain t where t: "net_wait (link_ops f) buffer (hst h d w) = Some (length ?b, fill ?b buffer, hst h d (w\<lparr>clk := t, rxq := []\<rparr>))"
    using net_wait_link [of w ?b "[]" f buffer h d] assms(1-3) by auto
  have tk: "take (length ?b) (fill ?b buffer) = ?b" by (simp add: fill_def)
  show ?thesis
    using assms(2,4,5) unfolding network_console_step_def fst_conv t Option.bind.bind_lunit prod.case tk extract_seq_trailer
    by (intro exI [of _ "fill ?b buffer"] exI [of _ "w\<lparr>rxq := [], clk := t + 1\<rparr>"]) simp
qed

lemma answer_no_exit: "\<not> is_exit (ascii ''RETV'')"
  by (simp add: is_exit_def ascii_def)

lemma uint_negative: "sint (x :: u32) < 0 \<Longrightarrow> uint x = sint x + 4294967296"
proof -
  assume "sint x < 0"
  moreover have "- 2147483648 \<le> sint x" using sint_ge [of x] by simp
  moreover have "uint x = sint x mod 4294967296" using uint_word_of_int [of "sint x", where 'a = 32] by simp
  ultimately show ?thesis using mod_add_self2 [of "sint x" 4294967296] mod_pos_pos_trivial [of "sint x + 4294967296" 4294967296] by simp
qed

section \<open>Properties\<close>



text \<open>
  C38. A backward seek goes forward. The program passes \<open>lseek\<close> a signed offset, and the host itself and the serial console
  seek by it. The network console widens the field without its sign: a seek by a negative offset \<open>n\<close> is performed as a
  seek by \<open>n + 4294967296\<close>, whatever the file and wherever the seek starts from, and the program gets the result of that one.
\<close>

theorem net_seek_loses_sign:
  assumes "net_good env t p hh (h_adapter h) (buffer, h, c)" "sint offset < 0"
    and "os_lseek (env_os env) fd (sint offset + 4294967296) whence (con_os c) = (pos, u)" "word_of_int pos \<noteq> (0x4b535130 :: u32)"
  shows "\<exists>buffer' h'. net_perform p hh r env (GLseek fd offset whence) (buffer, h, c) = Some (word_of_int pos, buffer', h', c\<lparr>con_os := u\<rparr>)"
proof -
  let ?cmd = "ascii ''DC11'' @ be32 fd @ be32 offset @ be32 whence"
  have "done_by (link_ops (link_send p hh r)) env p (GLseek fd offset whence) (?cmd @ rest) n m hd' c (word_of_int pos, m, c\<lparr>con_os := u\<rparr>)" for rest n m hd'
    using assms(2,3) by (auto simp: handler_of net_syscall_lseek_def os_call_def request_fields uint_negative mem_self intro!: done_byI)
  then have "performs p hh r env (GLseek fd offset whence) (?cmd @ rest) (length ?cmd) h d w c (word_of_int pos, mem (cl (world h)), c\<lparr>con_os := u\<rparr>)"
    if "rxq w = []" "\<not> crashed w" "mem (cl w) = mem (cl (world h))" for d w rest
    using that by (intro done_performs) simp_all
  then show ?thesis
    using net_call_performed [OF assms(1), of "GLseek fd offset whence" ?cmd r "word_of_int pos" "mem (cl (world h))" "c\<lparr>con_os := u\<rparr>"] assms(4)
    by (auto simp: is_exit_def ascii_def)
qed

text \<open>
  C39. A result can be taken for a request. The client acknowledges an answer with a datagram that ends in the result, twice. When the result is
  \<open>0x4b535130\<close>, the magic number of request trailers, the console reads the acknowledgement as a request of that number and remembers it as the
  last one served. Every later request with a smaller number is then dropped as stale: not performed, not answered, the client's state
  unchanged, until the client's numbers have passed the magic number.
\<close>

theorem result_taken_for_request:
  assumes "rxq w = [ascii ''RETV'' @ be32 0x4b535130 @ be32 0x4b535130]" "length buffer = 2048" "fresh 0x4b535130 d"
    and "4 \<le> length cmd" "length cmd \<le> 1484" "sint (seq - 0x4b535130) < 0"
  shows "\<exists>b d' w'. network_console_step (link_ops f) env buffer (hst h d w, c) = Some (Net_Serving b (hst h d' w', c)) \<and> cl w' = cl w
    \<and> (\<exists>b' w''. network_console_step (link_ops f) env b (hst h d' (w'\<lparr>rxq := [cmd @ NET_SEQ_MAGIC @ be32 seq]\<rparr>), c)
         = Some (Net_Serving b' (hst h d' w'', c)) \<and> cl w'' = cl w \<and> rxq w'' = [])"
proof -
  have rx: "rxq w = [ascii ''RETV'' @ NET_SEQ_MAGIC @ be32 0x4b535130]" using assms(1) by (simp add: NET_SEQ_MAGIC_def be32_def ascii_def)
  obtain t t' rest where 1: "network_console_step (link_ops f) env buffer (hst h d w, c)
      = map_option (\<lambda>(h, c). Net_Serving (ascii ''RETV'' @ 0 # rest) (h\<lparr>h_dedup := dedup_end_capture (h_dedup h)\<rparr>, c))
          (let hc = (hst h (dedup_begin_capture 0x4b535130 t d) (w\<lparr>rxq := [], clk := t'\<rparr>), c)
           in case net_handler (link_ops f) env (ascii ''RETV'' @ 0 # rest) (length (ascii ''RETV'')) of None \<Rightarrow> Some hc | Some g \<Rightarrow> g hc)" "length (ascii ''RETV'' @ 0 # rest) = 2048"
    using step_fresh [OF rx _ _ assms(2,3) answer_no_exit, of f env h c] by (simp del: length_append) blast
  let ?d = "dedup_end_capture (dedup_begin_capture 0x4b535130 t d)" and ?b = "ascii ''RETV'' @ 0 # rest"
  have s1: "network_console_step (link_ops f) env buffer (hst h d w, c) = Some (Net_Serving ?b (hst h ?d (w\<lparr>rxq := [], clk := t'\<rparr>), c))"
    unfolding 1(1) by (simp add: no_handler)
  have "dedup_is_stale seq ?d" "dedup_try_replay seq u ?d = None" for u
    using assms(6) by (auto simp: dedup_is_stale_def dedup_try_replay_def dedup_end_capture_def dedup_begin_capture_def)
  then show ?thesis
    using s1 step_stale [of "(w\<lparr>rxq := [], clk := t'\<rparr>)\<lparr>rxq := [cmd @ NET_SEQ_MAGIC @ be32 seq]\<rparr>" cmd seq ?d f env ?b h c] assms(4,5) 1(2)
    by (intro exI [of _ ?b] exI [of _ ?d] exI [of _ "w\<lparr>rxq := [], clk := t'\<rparr>"]) auto
qed

section \<open>Examples\<close>

definition quiet_platform :: platform where
  "quiet_platform = example_platform\<lparr>bb_lossy := False\<rparr>"

definition net_example :: "bool list \<Rightarrow> (line, u32 \<Rightarrow> bytes) net_state" where
  "net_example ls = (replicate 2048 0,
     (example_host ls)\<lparr>world := (world (example_host ls))\<lparr>cl := example_client\<lparr>running := True, mem := (\<lambda>_. 0)\<rparr>\<rparr>\<rparr>, example_console)"

lemma net_example_good: "net_good example_env example_target quiet_platform example_headers 0x100 (net_example ls)"
  by (simp add: net_good_def net_example_def net_setting_def quiet_platform_def example_host_def example_defs example_env_def example_conf_def
      example_target_def addressed_def waiting_def DCTOOL_MAJOR_def dedup_init_def TX_CAPACITY_def)


lemma net_example_simps:
  "net_example ls = (replicate 2048 0, fst (snd (net_example ls)), example_console)" "h_adapter (fst (snd (net_example ls))) = 0x100"
  "mem (cl (world (fst (snd (net_example ls))))) = (\<lambda>_. 0)"
  by (simp_all add: net_example_def example_host_def)

lemma zeros_zeros: "mem_write (\<lambda>_. 0) a (replicate n 0) = (\<lambda>_. 0)"
  by (induction n arbitrary: a) (simp_all add: fun_upd_idem)



theorem net_seek_loses_sign_witness:
  "\<exists>buffer' h'. net_perform quiet_platform example_headers [] example_env (GLseek 5 (- 10) 1) (net_example []) = Some (- 1, buffer', h', example_console)"
proof -
  have "os_lseek (env_os example_env) 5 (sint (- 10 :: u32) + 4294967296) 1 (con_os example_console) = (- 1, con_os example_console)"
    by (simp add: example_env_def terminal_os_def)
  then show ?thesis
    using net_seek_loses_sign [of example_env example_target quiet_platform example_headers "fst (snd (net_example []))" "replicate 2048 0" example_console
        "- 10" 5 1 "- 1" "con_os example_console" "[]"] net_example_good [of "[]"] net_example_simps [of "[]"]
    by (auto simp: example_console_def)
qed

theorem result_taken_for_request_witness:
  "\<exists>b d' w'. network_console_step (link_ops (\<lambda>b w. w)) example_env (replicate 2048 0)
      (hst (example_host []) dedup_init ((world (example_host []))\<lparr>rxq := [ascii ''RETV'' @ be32 0x4b535130 @ be32 0x4b535130]\<rparr>), example_console)
    = Some (Net_Serving b (hst (example_host []) d' w', example_console))"
  using result_taken_for_request [of "(world (example_host []))\<lparr>rxq := [ascii ''RETV'' @ be32 0x4b535130 @ be32 0x4b535130]\<rparr>" "replicate 2048 0" dedup_init
      "ascii ''DC05'' @ be32 5" 2 "\<lambda>b w. w" example_env "example_host []" example_console]
  by (auto simp: fresh_def dedup_init_def)

end
