(* ===== verification/Firmware.thy ===== *)
theory Firmware
  imports Upload Host_Os Lease
begin

text \<open>
  \<^verbatim>\<open>host/src/firmware_update.c\<close>: comparing the loader's version with the embedded firmware, building the
  update image (a trampoline of machine code for the console's processor, with the firmware behind it), uploading and starting it, and waiting for
  the new loader. \<open>kostool_context_t\<close> is the record \<open>kctx\<close>, reduced to the fields this file uses; the transport's function table is
  the record \<open>transport_ops\<close> of functions on it. The embedded images are generated by the build and are a parameter (\<open>firmware\<close>; an image that is not
  embedded is empty). The host stores integers little-endian. Messages are left out, and the build without \<open>KOS_TOOL_DEV_FORCE_REFLASH\<close> is modelled.
\<close>

section \<open>Consoles\<close>

definition starts_with :: "string \<Rightarrow> bytes \<Rightarrow> bool" where
  "starts_with pre s = (take (length pre) s = ascii pre)"

definition detect_console :: "bytes \<Rightarrow> console_type" where
  "detect_console name =
     (if starts_with ''dc-load-'' name \<or> starts_with ''dcload-'' name then CONSOLE_DC
      else if starts_with ''gc-load-'' name then CONSOLE_GC
      else if starts_with ''ps2-load-'' name then CONSOLE_PS2
      else if starts_with ''wii-load-'' name then CONSOLE_WII
      else if starts_with ''xbox-load-'' name then CONSOLE_XBOX
      else if starts_with ''psp-load-'' name then CONSOLE_PSP
      else CONSOLE_UNKNOWN)"

abbreviation DC_DEFAULT_LOAD_ADDR :: u32 where "DC_DEFAULT_LOAD_ADDR \<equiv> 0x8c010000"
abbreviation GC_DEFAULT_LOAD_ADDR :: u32 where "GC_DEFAULT_LOAD_ADDR \<equiv> 0x80003100"
abbreviation WII_DEFAULT_LOAD_ADDR :: u32 where "WII_DEFAULT_LOAD_ADDR \<equiv> 0x80004000"
abbreviation PS2_DEFAULT_LOAD_ADDR :: u32 where "PS2_DEFAULT_LOAD_ADDR \<equiv> 0x00100000"
abbreviation XBOX_DEFAULT_LOAD_ADDR :: u32 where "XBOX_DEFAULT_LOAD_ADDR \<equiv> 0x0003C000"
abbreviation PSP_DEFAULT_LOAD_ADDR :: u32 where "PSP_DEFAULT_LOAD_ADDR \<equiv> 0x08804000"
abbreviation XBOX_GUEST_ARENA_SIZE :: u32 where "XBOX_GUEST_ARENA_SIZE \<equiv> 0x02000000"
abbreviation DC_LOADER_BASE :: u32 where "DC_LOADER_BASE \<equiv> 0x8c004000"
abbreviation GC_LOADER_BASE :: u32 where "GC_LOADER_BASE \<equiv> 0x817EC000"
abbreviation WII_LOADER_BASE :: u32 where "WII_LOADER_BASE \<equiv> 0x81330000"
abbreviation PS2_LOADER_BASE :: u32 where "PS2_LOADER_BASE \<equiv> 0x80000280"
abbreviation XBOX_KOSLOAD_BASE :: u32 where "XBOX_KOSLOAD_BASE \<equiv> 0x00011000"
abbreviation PSP_LOADER_BASE :: u32 where "PSP_LOADER_BASE \<equiv> 0x08000000"

section \<open>Trampolines\<close>

record arch_update_params =
  trampoline :: bytes
  trampoline_size :: u32
  size_patch_offset :: nat
  arch_load_addr :: u32
  loader_base :: u32
  big_endian :: bool

definition zero_padded :: "nat \<Rightarrow> bytes \<Rightarrow> bytes" where
  "zero_padded n bs = bs @ replicate (n - length bs) 0"

definition sh4_trampoline :: bytes where
  "sh4_trampoline = zero_padded 256
     [0x0b, 0xd0, 0x0e, 0x40, 0x0b, 0xd4, 0x0c, 0xd5, 0x0c, 0xd6, 0x44, 0x60, 0x00, 0x25, 0x01, 0x75, 0x10, 0x46, 0xfa, 0x8b, 0x0a, 0xd0, 0x0b, 0xd1,
      0x12, 0x20, 0x09, 0x00, 0x09, 0x00, 0x09, 0x00, 0x09, 0x00, 0x09, 0x00, 0x09, 0x00, 0x09, 0x00, 0x09, 0x00, 0x07, 0xd0, 0x2b, 0x40, 0x09, 0x00,
      0xf0, 0x00, 0x00, 0x50, 0x00, 0x01, 0x01, 0x8c, 0x00, 0x40, 0x00, 0x8c, 0x00, 0x00, 0x00, 0x00, 0x1c, 0x00, 0x00, 0xff, 0x08, 0x08, 0x00, 0x00,
      0x00, 0x40, 0x00, 0xac]"

definition ppc_trampoline :: bytes where
  "ppc_trampoline = zero_padded 256
     [0x3c, 0xe0, 0x80, 0x00, 0x38, 0x00, 0x20, 0x30, 0x7c, 0x00, 0x01, 0x24, 0x4c, 0x00, 0x01, 0x2c, 0x3c, 0x20, 0x80, 0x20, 0x60, 0x21, 0x00, 0x00,
      0x94, 0x01, 0xff, 0xf0, 0x80, 0x87, 0x31, 0x90, 0x80, 0xa7, 0x31, 0x94, 0x80, 0xc7, 0x31, 0x98, 0x80, 0x67, 0x31, 0x9c, 0x7c, 0xa9, 0x2b, 0x78,
      0x7c, 0xca, 0x33, 0x78, 0x54, 0xc6, 0xf0, 0xbe, 0x7c, 0xc9, 0x03, 0xa6, 0x80, 0x04, 0x00, 0x00, 0x90, 0x05, 0x00, 0x00, 0x38, 0x84, 0x00, 0x04,
      0x38, 0xa5, 0x00, 0x04, 0x42, 0x00, 0xff, 0xf0, 0x7d, 0x24, 0x4b, 0x78, 0x7c, 0xa9, 0x52, 0x14, 0x7c, 0x00, 0x20, 0xac, 0x38, 0x84, 0x00, 0x20,
      0x7c, 0x04, 0x28, 0x40, 0x41, 0x80, 0xff, 0xf4, 0x7c, 0x00, 0x04, 0xac, 0x7d, 0x24, 0x4b, 0x78, 0x7c, 0x00, 0x27, 0xac, 0x38, 0x84, 0x00, 0x20,
      0x7c, 0x04, 0x28, 0x40, 0x41, 0x80, 0xff, 0xf4, 0x7c, 0x00, 0x04, 0xac, 0x4c, 0x00, 0x01, 0x2c, 0x7c, 0x69, 0x03, 0xa6, 0x4e, 0x80, 0x04, 0x20,
      0x80, 0x00, 0x32, 0x00, 0x81, 0x7e, 0xc0, 0x00, 0x00, 0x00, 0x00, 0x00, 0x81, 0x7e, 0xc0, 0x00]"

definition ppc_wii_trampoline :: bytes where
  "ppc_wii_trampoline = zero_padded 256
     [0x3c, 0xe0, 0x80, 0x00, 0x38, 0x00, 0x20, 0x30, 0x7c, 0x00, 0x01, 0x24, 0x4c, 0x00, 0x01, 0x2c, 0x3c, 0x20, 0x80, 0x20, 0x60, 0x21, 0x00, 0x00,
      0x94, 0x01, 0xff, 0xf0, 0x80, 0x87, 0x40, 0x90, 0x80, 0xa7, 0x40, 0x94, 0x80, 0xc7, 0x40, 0x98, 0x80, 0x67, 0x40, 0x9c, 0x7c, 0xa9, 0x2b, 0x78,
      0x7c, 0xca, 0x33, 0x78, 0x54, 0xc6, 0xf0, 0xbe, 0x7c, 0xc9, 0x03, 0xa6, 0x80, 0x04, 0x00, 0x00, 0x90, 0x05, 0x00, 0x00, 0x38, 0x84, 0x00, 0x04,
      0x38, 0xa5, 0x00, 0x04, 0x42, 0x00, 0xff, 0xf0, 0x7d, 0x24, 0x4b, 0x78, 0x7c, 0xa9, 0x52, 0x14, 0x7c, 0x00, 0x20, 0xac, 0x38, 0x84, 0x00, 0x20,
      0x7c, 0x04, 0x28, 0x40, 0x41, 0x80, 0xff, 0xf4, 0x7c, 0x00, 0x04, 0xac, 0x7d, 0x24, 0x4b, 0x78, 0x7c, 0x00, 0x27, 0xac, 0x38, 0x84, 0x00, 0x20,
      0x7c, 0x04, 0x28, 0x40, 0x41, 0x80, 0xff, 0xf4, 0x7c, 0x00, 0x04, 0xac, 0x4c, 0x00, 0x01, 0x2c, 0x7c, 0x69, 0x03, 0xa6, 0x4e, 0x80, 0x04, 0x20,
      0x80, 0x00, 0x41, 0x00, 0x81, 0x33, 0x00, 0x00, 0x00, 0x00, 0x00, 0x00, 0x81, 0x33, 0x00, 0x00]"

definition mips_r5900_trampoline :: bytes where
  "mips_r5900_trampoline = zero_padded 256
     [0x00, 0x60, 0x09, 0x40, 0x04, 0x00, 0x29, 0x35, 0x00, 0x60, 0x89, 0x40, 0x0f, 0x04, 0x00, 0x00, 0x10, 0x00, 0x08, 0x3c, 0xf8, 0x00, 0x10, 0x8d,
      0x00, 0xa0, 0x19, 0x3c, 0x80, 0x02, 0x39, 0x37, 0x00, 0x01, 0x18, 0x35, 0x00, 0x00, 0x00, 0x00, 0x00, 0x80, 0x08, 0x3c, 0x40, 0x00, 0x0a, 0x24,
      0x00, 0x00, 0x14, 0xbd, 0x0f, 0x00, 0x00, 0x00, 0x01, 0x00, 0x14, 0xbd, 0x0f, 0x00, 0x00, 0x00, 0x40, 0x00, 0x08, 0x25, 0xff, 0xff, 0x4a, 0x25,
      0xf9, 0xff, 0x40, 0x15, 0x00, 0x00, 0x00, 0x00, 0x82, 0x88, 0x10, 0x00, 0x08, 0x00, 0x20, 0x12, 0x00, 0x00, 0x00, 0x00, 0x00, 0x00, 0x08, 0x8f,
      0x00, 0x00, 0x28, 0xaf, 0x04, 0x00, 0x18, 0x27, 0x04, 0x00, 0x39, 0x27, 0xff, 0xff, 0x31, 0x26, 0xfa, 0xff, 0x20, 0x16, 0x00, 0x00, 0x00, 0x00,
      0x0f, 0x00, 0x00, 0x00, 0x0f, 0x04, 0x00, 0x00, 0x00, 0x80, 0x08, 0x3c, 0x00, 0x80, 0x0a, 0x3c, 0x00, 0x20, 0x4a, 0x35, 0x00, 0x00, 0x07, 0xbd,
      0x01, 0x00, 0x07, 0xbd, 0x40, 0x00, 0x08, 0x25, 0xfc, 0xff, 0x0a, 0x15, 0x00, 0x00, 0x00, 0x00, 0x0f, 0x04, 0x00, 0x00, 0x00, 0x80, 0x08, 0x3c,
      0x80, 0x02, 0x08, 0x35, 0x00, 0xf0, 0x88, 0x40, 0x0f, 0x04, 0x00, 0x00, 0x00, 0x60, 0x09, 0x40, 0x04, 0x00, 0x29, 0x35, 0x00, 0x60, 0x89, 0x40,
      0x0f, 0x04, 0x00, 0x00, 0x18, 0x00, 0x00, 0x42]"

definition allegrex_trampoline :: bytes where
  "allegrex_trampoline =
     [0x00, 0x60, 0x0e, 0x40, 0xfe, 0xff, 0x0f, 0x24, 0x24, 0x70, 0xcf, 0x01, 0x00, 0x60, 0x8e, 0x40, 0x00, 0x00, 0x00, 0x00, 0x00, 0x00, 0x00, 0x00,
      0x01, 0x00, 0x11, 0x04, 0x00, 0x00, 0x00, 0x00, 0x20, 0x00, 0x0e, 0x24, 0x23, 0x40, 0xee, 0x03, 0xff, 0x1f, 0x0e, 0x3c, 0xff, 0xff, 0xce, 0x35,
      0x24, 0x50, 0x0e, 0x01, 0x00, 0x40, 0x0e, 0x3c, 0x25, 0x50, 0x4e, 0x01, 0x0c, 0x01, 0x0e, 0x24, 0x21, 0x70, 0x0e, 0x01, 0x00, 0xc8, 0x8e, 0x40,
      0x00, 0x00, 0x00, 0x00, 0x00, 0x00, 0x00, 0x00, 0x00, 0x48, 0xce, 0x40, 0x00, 0x00, 0x00, 0x00, 0x00, 0x00, 0x00, 0x00, 0xf0, 0x01, 0x50, 0x8d,
      0xf8, 0x01, 0x4b, 0x8d, 0x00, 0x02, 0x4d, 0x25, 0x00, 0x08, 0x0e, 0x3c, 0x2b, 0x78, 0x0e, 0x02, 0x28, 0x00, 0xe0, 0x15, 0x00, 0x00, 0x00, 0x00,
      0x00, 0x0a, 0x0e, 0x3c, 0x2b, 0x78, 0x0e, 0x02, 0x24, 0x00, 0xe0, 0x11, 0x00, 0x00, 0x00, 0x00, 0x22, 0x00, 0x60, 0x11, 0x00, 0x00, 0x00, 0x00,
      0x10, 0x00, 0x0e, 0x3c, 0x2b, 0x78, 0xcb, 0x01, 0x1e, 0x00, 0xe0, 0x15, 0x00, 0x00, 0x00, 0x00, 0x25, 0x60, 0x00, 0x02, 0x25, 0x78, 0x00, 0x02,
      0x03, 0x00, 0x6b, 0x25, 0xfc, 0xff, 0x0e, 0x24, 0x24, 0x58, 0x6e, 0x01, 0x25, 0xc0, 0x60, 0x01, 0x08, 0x00, 0x60, 0x11, 0x00, 0x00, 0x00, 0x00,
      0x00, 0x00, 0xae, 0x8d, 0x00, 0x00, 0x8e, 0xad, 0x04, 0x00, 0xad, 0x25, 0x04, 0x00, 0x8c, 0x25, 0xfc, 0xff, 0x6b, 0x25, 0xfa, 0xff, 0x60, 0x15,
      0x00, 0x00, 0x00, 0x00, 0x21, 0xc8, 0xf8, 0x01, 0x07, 0x00, 0x00, 0x13, 0x00, 0x00, 0x00, 0x00, 0x00, 0x00, 0xfb, 0xbd, 0x00, 0x00, 0xe8, 0xbd,
      0x40, 0x00, 0xef, 0x25, 0x2b, 0x70, 0xf9, 0x01, 0xfb, 0xff, 0xc0, 0x15, 0x00, 0x00, 0x00, 0x00, 0x0f, 0x00, 0x00, 0x00, 0x08, 0x00, 0x00, 0x02,
      0x00, 0x00, 0x00, 0x00, 0xff, 0xff, 0x00, 0x10, 0x00, 0x00, 0x00, 0x00, 0xff, 0xff, 0x00, 0x10, 0x00, 0x00, 0x00, 0x00]
     @ replicate 212 0 @ [0x00, 0x00, 0x00, 0x08, 0x00, 0x00, 0x00, 0x00, 0x00, 0x00, 0x00, 0x00, 0x00, 0x00, 0x00, 0x00]"

definition i386_xbox_trampoline :: bytes where
  "i386_xbox_trampoline = zero_padded 256
     ([0xfa, 0xfc, 0x0f, 0x20, 0xc0, 0x89, 0xc3, 0x25, 0xff, 0xff, 0xfe, 0xff, 0x0f, 0x22, 0xc0, 0xbc]
      @ le32 (XBOX_DEFAULT_LOAD_ADDR + XBOX_GUEST_ARENA_SIZE)
      @ [0xbe]
      @ le32 (XBOX_DEFAULT_LOAD_ADDR + 0x100)
      @ [0xbf]
      @ le32 (XBOX_KOSLOAD_BASE)
      @ [0xb9, 0x00, 0x00, 0x00, 0x00, 0xf3, 0xa4, 0x0f, 0x09, 0x0f, 0x22, 0xc3, 0xb8]
      @ le32 (XBOX_KOSLOAD_BASE + 0x20)
      @ [0xff, 0xe0])"

definition sh4_params :: arch_update_params where
  "sh4_params = \<lparr>trampoline = sh4_trampoline, trampoline_size = 256, size_patch_offset = 0x3C, arch_load_addr = DC_DEFAULT_LOAD_ADDR,
     loader_base = DC_LOADER_BASE, big_endian = False\<rparr>"

definition ppc_params :: arch_update_params where
  "ppc_params = \<lparr>trampoline = ppc_trampoline, trampoline_size = 256, size_patch_offset = 0x98, arch_load_addr = GC_DEFAULT_LOAD_ADDR,
     loader_base = GC_LOADER_BASE, big_endian = True\<rparr>"

definition ppc_wii_params :: arch_update_params where
  "ppc_wii_params = \<lparr>trampoline = ppc_wii_trampoline, trampoline_size = 256, size_patch_offset = 0x98, arch_load_addr = WII_DEFAULT_LOAD_ADDR,
     loader_base = WII_LOADER_BASE, big_endian = True\<rparr>"

definition mips_r5900_params :: arch_update_params where
  "mips_r5900_params = \<lparr>trampoline = mips_r5900_trampoline, trampoline_size = 256, size_patch_offset = 0xF8, arch_load_addr = PS2_DEFAULT_LOAD_ADDR,
     loader_base = PS2_LOADER_BASE, big_endian = False\<rparr>"

definition allegrex_params :: arch_update_params where
  "allegrex_params = \<lparr>trampoline = allegrex_trampoline, trampoline_size = 512, size_patch_offset = 0x1F8, arch_load_addr = PSP_DEFAULT_LOAD_ADDR,
     loader_base = PSP_LOADER_BASE, big_endian = False\<rparr>"

definition i386_xbox_params :: arch_update_params where
  "i386_xbox_params = \<lparr>trampoline = i386_xbox_trampoline, trampoline_size = 256, size_patch_offset = 31, arch_load_addr = XBOX_DEFAULT_LOAD_ADDR,
     loader_base = XBOX_KOSLOAD_BASE, big_endian = False\<rparr>"

section \<open>Versions\<close>

text \<open>
  \<open>%d\<close> of \<open>sscanf\<close>: white space, a sign, digits; the value and the rest of the input, or \<open>None\<close> when no digit is there. (C leaves a
  number that is no \<open>int\<close> undefined; it is reduced to 32 bits here.)
\<close>

definition is_space :: "u8 \<Rightarrow> bool" where
  "is_space c = (c = 32 \<or> 9 \<le> c \<and> c \<le> 13)"

definition is_digit :: "u8 \<Rightarrow> bool" where
  "is_digit c = (48 \<le> c \<and> c \<le> 57)"

definition digits_value :: "bytes \<Rightarrow> int" where
  "digits_value ds = foldl (\<lambda>n c. n * 10 + (uint c - 48)) 0 ds"

definition scan_int :: "bytes \<Rightarrow> (u32 \<times> bytes) option" where
  "scan_int s =
     (let s = dropWhile is_space s;
          t = (if take 1 s = [45] \<or> take 1 s = [43] then tl s else s);
          ds = takeWhile is_digit t
      in if ds = [] then None
         else Some (word_of_int (if take 1 s = [45] then - digits_value ds else digits_value ds), drop (length ds) t))"

fun scan_dot_int :: "bytes \<Rightarrow> (u32 \<times> bytes) option" where
  "scan_dot_int [] = None"
| "scan_dot_int (c # s) = (if c = 46 then scan_int s else None)"

text \<open>Whether the string was parsed, and what was stored: the name up to the first space, and the numbers read.\<close>

definition parse_version_string :: "bytes \<Rightarrow> nat \<Rightarrow> bool \<times> bytes \<times> u32 \<times> u32 \<times> u32" where
  "parse_version_string str name_size =
     (let before = takeWhile (\<lambda>c. c \<noteq> 32) str; name = take (name_size - 1) before in
      if length before = length str then (False, [], 0, 0, 0)
      else case scan_int (drop (length before + 1) str) of
        None \<Rightarrow> (False, name, 0, 0, 0)
      | Some (major, s) \<Rightarrow> (case scan_dot_int s of
          None \<Rightarrow> (False, name, major, 0, 0)
        | Some (minor, s) \<Rightarrow> (True, name, major, minor, (case scan_dot_int s of None \<Rightarrow> 0 | Some (pat, s) \<Rightarrow> pat))))"

definition compare_versions :: "u32 \<Rightarrow> u32 \<Rightarrow> u32 \<Rightarrow> u32 \<Rightarrow> u32 \<Rightarrow> u32 \<Rightarrow> u32" where
  "compare_versions a_major a_minor a_patch b_major b_minor b_patch =
     (if a_major \<noteq> b_major then a_major - b_major
      else if a_minor \<noteq> b_minor then a_minor - b_minor
      else a_patch - b_patch)"

definition is_serial_loader :: "bytes \<Rightarrow> bool" where
  "is_serial_loader name = strstr name (ascii ''serial'')"

definition is_ip_loader :: "bytes \<Rightarrow> bool" where
  "is_ip_loader name = strstr name (ascii ''ip'')"

section \<open>The address in the firmware\<close>

definition IP_CONFIG_MAGIC :: bytes where
  "IP_CONFIG_MAGIC = ascii ''KOSLD_IP''"

definition IP_CONFIG_IP_LEN :: nat where "IP_CONFIG_IP_LEN = 16"

definition ip_config_field :: "bytes \<Rightarrow> bytes" where
  "ip_config_field ip_str = zero_padded IP_CONFIG_IP_LEN (take (IP_CONFIG_IP_LEN - 1) ip_str)"

fun patch_firmware_ip :: "bytes \<Rightarrow> bytes \<Rightarrow> bytes option" where
  "patch_firmware_ip ip_str [] = None"
| "patch_firmware_ip ip_str (b # fw) =
     (if length (b # fw) < 8 + IP_CONFIG_IP_LEN then None
      else if take 8 (b # fw) = IP_CONFIG_MAGIC
      then Some (IP_CONFIG_MAGIC @ ip_config_field ip_str @ drop (8 + IP_CONFIG_IP_LEN) (b # fw))
      else map_option (Cons b) (patch_firmware_ip ip_str fw))"

section \<open>The context\<close>

record ('s, 'o) kctx =
  k_speed :: u32
  k_adapter :: u32
  k_legacy :: bool
  k_caps :: u32
  k_version :: bytes
  k_argc :: u32
  k_fw_update :: bool
  k_hostname :: bytes
  k_firmware_path :: "bytes option"
  k_os :: 'o
  k_state :: 's

record ('s, 'o) transport_ops =
  tr_name :: bytes
  tr_init :: "('s, 'o) kctx \<Rightarrow> (int \<times> ('s, 'o) kctx) option"
  tr_shutdown :: "('s, 'o) kctx \<Rightarrow> ('s, 'o) kctx"
  tr_send_data :: "('s, 'o) kctx send_data"
  tr_recv_data :: "bytes \<Rightarrow> u32 \<Rightarrow> u32 \<Rightarrow> bool \<Rightarrow> ('s, 'o) kctx \<Rightarrow> (int \<times> bytes \<times> ('s, 'o) kctx) option"
  tr_send_command :: "bytes \<Rightarrow> u32 \<Rightarrow> u32 \<Rightarrow> bytes \<Rightarrow> ('s, 'o) kctx \<Rightarrow> (int \<times> ('s, 'o) kctx) option"
  tr_execute :: "u32 \<Rightarrow> bool \<Rightarrow> bool \<Rightarrow> ('s, 'o) kctx \<Rightarrow> (int \<times> ('s, 'o) kctx) option"

record ('s, 'o) time_ops =
  tm_usec :: "('s, 'o) kctx \<Rightarrow> u64 \<times> ('s, 'o) kctx"
  tm_sleep :: "u32 \<Rightarrow> ('s, 'o) kctx \<Rightarrow> ('s, 'o) kctx"

record firmware =
  firmware_dc_serial :: bytes
  firmware_dc_ip :: bytes
  firmware_gc_serial :: bytes
  firmware_gc_ip :: bytes
  firmware_ps2_ip :: bytes
  firmware_wii_ip :: bytes
  firmware_xbox_ip :: bytes
  firmware_psp_usb :: bytes

record ('s, 'o) fw_env =
  fe_transport :: "('s, 'o) transport_ops"
  fe_os :: "'o os"
  fe_time :: "('s, 'o) time_ops option"
  fe_firmware :: firmware
  fe_junk :: u8

text \<open>Reading a firmware file: \<open>None\<close> for the null pointer.\<close>

definition read_only :: open_flags where
  "read_only = \<lparr>o_access = O_RDONLY, o_append = False, o_creat = False, o_trunc = False, o_excl = False\<rparr>"

definition load_firmware_file :: "'o os \<Rightarrow> bytes \<Rightarrow> 'o \<Rightarrow> bytes option \<times> 'o" where
  "load_firmware_file os path u =
     (let (fd, u) = os_open os path read_only 0 u in
      if sint fd < 0 then (None, u)
      else let (fsize, u) = os_lseek os fd 0 2 u; (_, u) = os_lseek os fd 0 0 u in
        if fsize \<le> 0 \<or> fsize > 512 * 1024 \<or> \<not> os_malloc os (nat fsize) then (None, snd (os_close os fd u))
        else let (r, u) = os_read os fd (nat fsize) u; u = snd (os_close os fd u) in
          (case r of None \<Rightarrow> (None, u) | Some buf \<Rightarrow> if int (length buf) \<noteq> fsize then (None, u) else (Some buf, u)))"

section \<open>Reconnecting\<close>

definition RECONNECT_SETTLE_USEC :: u32 where "RECONNECT_SETTLE_USEC = 1500000"
definition RECONNECT_ABSENT_USEC :: u32 where "RECONNECT_ABSENT_USEC = 400000"
definition RECONNECT_QUIET_USEC :: u32 where "RECONNECT_QUIET_USEC = 2000000"
definition RECONNECT_TIMEOUT_USEC :: u64 where "RECONNECT_TIMEOUT_USEC = 30000000"

definition reconnect_drop_link :: "('s, 'o) transport_ops \<Rightarrow> bool \<Rightarrow> ('s, 'o) kctx \<Rightarrow> ('s, 'o) kctx" where
  "reconnect_drop_link tr is_serial k =
     (tr_shutdown tr (if is_serial then k\<lparr>k_speed := 57600\<rparr> else k))\<lparr>k_adapter := 0, k_legacy := False, k_caps := 0, k_version := []\<rparr>"

definition slept :: "('s, 'o) time_ops option \<Rightarrow> u32 \<Rightarrow> ('s, 'o) kctx \<Rightarrow> ('s, 'o) kctx" where
  "slept tm interval k = (case tm of None \<Rightarrow> k | Some t \<Rightarrow> tm_sleep t interval k)"

partial_function (option) reconnect_loop ::
  "('s, 'o) transport_ops \<Rightarrow> ('s, 'o) time_ops option \<Rightarrow> bool \<Rightarrow> u64 \<Rightarrow> u32 \<Rightarrow> ('s, 'o) kctx \<Rightarrow> (bool \<times> ('s, 'o) kctx) option" where
  "reconnect_loop tr tm is_serial deadline interval k =
     Option.bind (tr_init tr (slept tm interval k)) (\<lambda>(rc, k).
       if rc = 0 \<and> k_version k \<noteq> [] then Some (True, k)
       else case tm of None \<Rightarrow> Some (False, k)
         | Some t \<Rightarrow> (case tm_usec t k of (now_us, k) \<Rightarrow>
             if now_us \<ge> deadline then Some (False, k)
             else if rc = 0 then reconnect_loop tr tm is_serial deadline RECONNECT_QUIET_USEC (reconnect_drop_link tr is_serial k)
             else reconnect_loop tr tm is_serial deadline RECONNECT_ABSENT_USEC k))"

declare reconnect_loop.simps [code]

definition reconnect_after_update :: "('s, 'o) transport_ops \<Rightarrow> ('s, 'o) time_ops option \<Rightarrow> ('s, 'o) kctx \<Rightarrow> (bool \<times> ('s, 'o) kctx) option" where
  "reconnect_after_update tr tm k =
     (let is_serial = (tr_name tr = ascii ''serial'');
          k = reconnect_drop_link tr is_serial k
      in case tm of
           None \<Rightarrow> reconnect_loop tr tm is_serial 0 RECONNECT_SETTLE_USEC k
         | Some t \<Rightarrow> (case tm_usec t k of (now_us, k) \<Rightarrow>
             reconnect_loop tr tm is_serial (now_us + RECONNECT_TIMEOUT_USEC) RECONNECT_SETTLE_USEC k))"

section \<open>The update\<close>

text \<open>Trampoline and firmware, with the address and the size of the firmware filled in.\<close>

definition patched_firmware :: "bytes option \<Rightarrow> bytes \<Rightarrow> bytes" where
  "patched_firmware patch_ip fw =
     (case patch_ip of None \<Rightarrow> fw | Some ip \<Rightarrow> (case patch_firmware_ip ip fw of None \<Rightarrow> fw | Some fw' \<Rightarrow> fw'))"

definition size_word :: "arch_update_params \<Rightarrow> u32 \<Rightarrow> bytes" where
  "size_word arch fw_size = (if big_endian arch then be32 fw_size else le32 fw_size)"

definition update_blob :: "arch_update_params \<Rightarrow> bytes option \<Rightarrow> bytes \<Rightarrow> bytes" where
  "update_blob arch patch_ip fw =
     (let blob = take (unat (trampoline_size arch)) (trampoline arch) @ patched_firmware patch_ip fw; off = size_patch_offset arch
      in take off blob @ size_word arch (of_nat (length fw)) @ drop (off + 4) blob)"

definition KOSLOAD_EXEC_FW_UPDATE :: u32 where "KOSLOAD_EXEC_FW_UPDATE = 4"

definition start_trampoline :: "('s, 'o) transport_ops \<Rightarrow> u32 \<Rightarrow> ('s, 'o) kctx \<Rightarrow> (int \<times> ('s, 'o) kctx) option" where
  "start_trampoline tr addr k =
     (if tr_name tr = ascii ''network'' then tr_send_command tr (ascii ''EXEC'') addr KOSLOAD_EXEC_FW_UPDATE [] k
      else let saved_prog_argc = k_argc k in
        map_option (\<lambda>(ret, k). (ret, k\<lparr>k_fw_update := False, k_argc := saved_prog_argc\<rparr>))
          (tr_execute tr addr False False (k\<lparr>k_argc := 0, k_fw_update := True\<rparr>)))"

fun after_start :: "('s, 'o) fw_env \<Rightarrow> bool \<Rightarrow> int \<times> ('s, 'o) kctx \<Rightarrow> (int \<times> ('s, 'o) kctx) option" where
  "after_start env dhcp_reconnect (ret, k) =
     (if ret \<noteq> 0 then Some (- 1, k)
      else if dhcp_reconnect then Some (1, reconnect_drop_link (fe_transport env) False k)
      else map_option (\<lambda>(ok, k). (if ok then 1 else - 1, k)) (reconnect_after_update (fe_transport env) (fe_time env) k))"

text \<open>The size of the image is computed with 32 bits; where that wraps, the copy runs past it (\<open>None\<close>).\<close>

definition perform_update :: "('s, 'o) fw_env \<Rightarrow> bytes \<Rightarrow> bytes option \<Rightarrow> arch_update_params \<Rightarrow> bool \<Rightarrow> ('s, 'o) kctx \<Rightarrow> (int \<times> ('s, 'o) kctx) option" where
  "perform_update env fw patch_ip arch dhcp_reconnect k =
     (let tr = fe_transport env; blob_size = trampoline_size arch + of_nat (length fw) in
      if \<not> os_malloc (fe_os env) (unat blob_size) then Some (- 1, k)
      else if unat blob_size \<noteq> unat (trampoline_size arch) + length fw then None
      else Option.bind (tr_send_data tr (update_blob arch patch_ip fw) (arch_load_addr arch) blob_size k) (\<lambda>(ret, k).
        if ret \<noteq> 0 then Some (- 1, k)
        else Option.bind (start_trampoline tr (arch_load_addr arch) k) (after_start env dhcp_reconnect)))"

section \<open>The decision\<close>

definition arch_of :: "console_type \<Rightarrow> arch_update_params" where
  "arch_of console = (case console of
     CONSOLE_GC \<Rightarrow> ppc_params | CONSOLE_WII \<Rightarrow> ppc_wii_params | CONSOLE_PS2 \<Rightarrow> mips_r5900_params | CONSOLE_PSP \<Rightarrow> allegrex_params
   | CONSOLE_XBOX \<Rightarrow> i386_xbox_params | _ \<Rightarrow> sh4_params)"

definition console_prefix :: "console_type \<Rightarrow> string" where
  "console_prefix console = (case console of
     CONSOLE_DC \<Rightarrow> ''dc'' | CONSOLE_GC \<Rightarrow> ''gc'' | CONSOLE_WII \<Rightarrow> ''wii'' | CONSOLE_XBOX \<Rightarrow> ''xbox'' | CONSOLE_PSP \<Rightarrow> ''psp'' | _ \<Rightarrow> ''ps2'')"

definition expected_name :: "console_type \<Rightarrow> bool \<Rightarrow> bytes" where
  "expected_name console is_serial =
     ascii (console_prefix console @ ''-load-'' @ (if console = CONSOLE_PSP then ''usb'' else if is_serial then ''serial'' else ''ip''))"

definition embedded_firmware :: "firmware \<Rightarrow> console_type \<Rightarrow> bool \<Rightarrow> bytes" where
  "embedded_firmware f console is_serial = (case console of
     CONSOLE_DC \<Rightarrow> if is_serial then firmware_dc_serial f else firmware_dc_ip f
   | CONSOLE_GC \<Rightarrow> if is_serial then firmware_gc_serial f else firmware_gc_ip f
   | CONSOLE_WII \<Rightarrow> firmware_wii_ip f | CONSOLE_XBOX \<Rightarrow> firmware_xbox_ip f | CONSOLE_PSP \<Rightarrow> firmware_psp_usb f
   | _ \<Rightarrow> firmware_ps2_ip f)"

definition need_update :: "console_type \<Rightarrow> bool \<Rightarrow> bytes \<Rightarrow> u32 \<Rightarrow> u32 \<Rightarrow> u32 \<Rightarrow> bool" where
  "need_update console is_serial remote_name remote_major remote_minor remote_patch =
     (if remote_name \<noteq> expected_name console is_serial
      then (if console \<noteq> CONSOLE_PSP
            then \<not> (is_serial \<and> \<not> is_serial_loader remote_name) \<and> \<not> (\<not> is_serial \<and> \<not> is_ip_loader remote_name)
            else False)
      else 0 < sint (compare_versions 3 1 0 remote_major remote_minor remote_patch))"

definition PROBE_SIZE :: u32 where "PROBE_SIZE = 24576"

text \<open>The address to put into the firmware and whether the loader will ask for a new one; \<open>None\<close> when the loader cannot be read.\<close>

definition choose_ip :: "('s, 'o) fw_env \<Rightarrow> arch_update_params \<Rightarrow> bytes \<Rightarrow> ('s, 'o) kctx \<Rightarrow> ((bytes option \<times> bool) option \<times> ('s, 'o) kctx) option" where
  "choose_ip env arch remote_name k =
     (if tr_name (fe_transport env) = ascii ''serial'' then Some (Some (None, False), k)
      else if k_caps k \<noteq> 0 then Some (Some (Some (k_hostname k), False), k)
      else if strstr remote_name (ascii ''dcload'') then
        (if \<not> os_malloc (fe_os env) (unat PROBE_SIZE) then Some (None, k)
         else map_option (\<lambda>(ret, loader_mem, k).
             (if ret \<noteq> 0 then None
              else if strstr loader_mem (ascii ''0.0.0.0'' @ [0]) then Some (Some (ascii ''0.0.0.0''), True)
              else Some (Some (k_hostname k), False), k))
           (tr_recv_data (fe_transport env) (replicate (unat PROBE_SIZE) (fe_junk env)) (loader_base arch) PROBE_SIZE True k))
      else Some (Some (None, False), k))"

definition auto_update_firmware :: "('s, 'o) fw_env \<Rightarrow> ('s, 'o) kctx \<Rightarrow> (int \<times> ('s, 'o) kctx) option" where
  "auto_update_firmware env k =
     (let (parsed, remote_name, remote_major, remote_minor, remote_patch) = parse_version_string (k_version k) 64;
          is_serial = (tr_name (fe_transport env) = ascii ''serial'');
          console = detect_console remote_name;
          arch = arch_of console;
          fw = embedded_firmware (fe_firmware env) console is_serial
      in case k_firmware_path k of
           Some path \<Rightarrow> (case load_firmware_file (fe_os env) path (k_os k) of
               (None, u) \<Rightarrow> Some (- 1, k\<lparr>k_os := u\<rparr>)
             | (Some ext_fw, u) \<Rightarrow> perform_update env ext_fw None arch False (k\<lparr>k_os := u\<rparr>))
         | None \<Rightarrow>
             if \<not> parsed \<or> console = CONSOLE_UNKNOWN \<or> fw = [] \<or> \<not> need_update console is_serial remote_name remote_major remote_minor remote_patch
             then Some (0, k)
             else Option.bind (choose_ip env arch remote_name k) (\<lambda>(choice, k).
               case choice of None \<Rightarrow> Some (0, k)
               | Some (patch_ip, dhcp_reconnect) \<Rightarrow> perform_update env fw patch_ip arch dhcp_reconnect k))"

section \<open>The image\<close>

lemma patch_firmware_ip_SomeE:
  assumes "patch_firmware_ip ip fw = Some fw'"
  obtains pre old post where "fw = pre @ IP_CONFIG_MAGIC @ old @ post" "length old = 16" "fw' = pre @ IP_CONFIG_MAGIC @ ip_config_field ip @ post"
proof -
  have "\<exists>pre old post. fw = pre @ IP_CONFIG_MAGIC @ old @ post \<and> length old = 16 \<and> fw' = pre @ IP_CONFIG_MAGIC @ ip_config_field ip @ post"
    using assms
  proof (induction ip fw arbitrary: fw' rule: patch_firmware_ip.induct)
    case (2 ip b fw)
    show ?case
    proof (cases "take 8 (b # fw) = IP_CONFIG_MAGIC")
      case True
      then have "b # fw = [] @ IP_CONFIG_MAGIC @ take 16 (drop 8 (b # fw)) @ drop 24 (b # fw)"
        using append_take_drop_id [of 8 "b # fw"] append_take_drop_id [of 16 "drop 8 (b # fw)"] by (simp only: drop_drop append_Nil) simp
      moreover have "24 \<le> length (b # fw)" using 2(2) by (simp add: IP_CONFIG_IP_LEN_def split: if_splits)
      moreover have "fw' = [] @ IP_CONFIG_MAGIC @ ip_config_field ip @ drop 24 (b # fw)"
        using 2(2) True by (simp add: IP_CONFIG_IP_LEN_def split: if_splits)
      moreover have "length (take 16 (drop 8 (b # fw))) = 16" using calculation(2) by simp
      ultimately show ?thesis by blast
    next
      case False
      then obtain f where f: "patch_firmware_ip ip fw = Some f" "fw' = b # f" using 2(2) by (auto split: if_splits)
      from 2(1) [OF _ False f(1)] 2(2) False obtain pre old post where
        "fw = pre @ IP_CONFIG_MAGIC @ old @ post" "length old = 16" "f = pre @ IP_CONFIG_MAGIC @ ip_config_field ip @ post"
        by (auto split: if_splits)
      then show ?thesis using f(2) by (intro exI [of _ "b # pre"] exI [of _ old] exI [of _ post]) simp
    qed
  qed simp
  then show ?thesis using that by blast
qed

lemma length_ip_config_field [simp]: "length (ip_config_field ip) = 16"
  by (simp add: ip_config_field_def zero_padded_def IP_CONFIG_IP_LEN_def)

lemma length_patched_firmware [simp]: "length (patched_firmware ip fw) = length fw"
  by (auto simp: patched_firmware_def split: option.splits elim!: patch_firmware_ip_SomeE)

lemma length_IP_CONFIG_MAGIC [simp]: "length IP_CONFIG_MAGIC = 8"
  by (simp add: IP_CONFIG_MAGIC_def ascii_def)

lemma patch_firmware_ip_found:
  "16 \<le> length b \<Longrightarrow> \<exists>fw'. patch_firmware_ip ip (a @ IP_CONFIG_MAGIC @ b) = Some fw'"
proof (induction a)
  case Nil
  have "\<exists>m ms. IP_CONFIG_MAGIC = m # ms \<and> length ms = 7" by (simp add: IP_CONFIG_MAGIC_def ascii_def)
  then obtain m ms where m: "IP_CONFIG_MAGIC = m # ms" "length ms = 7" by blast
  have "take 8 (IP_CONFIG_MAGIC @ b) = IP_CONFIG_MAGIC" by simp
  then show ?case using Nil m(2) unfolding m(1) append_Nil append_Cons patch_firmware_ip.simps by (simp add: IP_CONFIG_IP_LEN_def)
next
  case (Cons c a)
  then show ?case by (auto simp: IP_CONFIG_IP_LEN_def)
qed

lemma parse_ip_append: "parse_ip s i ip = Some v \<Longrightarrow> parse_ip (s @ t) i ip = Some v"
  by (induction s i ip rule: parse_ip.induct) (auto split: if_splits)

lemma set_ip_from_string_append: "set_ip_from_string e s ip = Some v \<Longrightarrow> set_ip_from_string e (s @ t) ip = Some v"
  by (auto simp: set_ip_from_string_def parse_ip_append split: if_splits)

lemma length_ip_to_string: "length (ip_to_string ip) \<le> 16"
proof -
  have "length (octet_to_string v) \<le> 3" for v by (simp add: octet_to_string_def Let_def)
  from this [of "drop_bit 24 ip AND 255"] this [of "drop_bit 16 ip AND 255"] this [of "drop_bit 8 ip AND 255"] this [of "ip AND 255"]
  show ?thesis by (simp add: ip_to_string_def)
qed

section \<open>Properties\<close>

text \<open>
  C31. An update keeps the console's address. The host writes the address it reaches the console at into the firmware's configuration
  block, which the new loader reads with \<open>set_ip_from_string\<close>: for every address and both byte orders the loader gets that address, and
  nothing but the 16 bytes behind the first marker is changed.
\<close>
theorem update_keeps_address:
  assumes "hostname @ [0] = ip_to_string ip" and "fw = a @ IP_CONFIG_MAGIC @ b" and "16 \<le> length b"
  shows "\<exists>pre old block post. fw = pre @ IP_CONFIG_MAGIC @ old @ post \<and> length old = 16 \<and> length block = 16
    \<and> patched_firmware (Some hostname) fw = pre @ IP_CONFIG_MAGIC @ block @ post \<and> set_ip_from_string e block 0 = Some ip"
proof -
  obtain fw' where fw': "patch_firmware_ip hostname fw = Some fw'" using patch_firmware_ip_found [OF assms(3)] assms(2) by blast
  then obtain pre old post where p: "fw = pre @ IP_CONFIG_MAGIC @ old @ post" "length old = 16"
    "fw' = pre @ IP_CONFIG_MAGIC @ ip_config_field hostname @ post" by (rule patch_firmware_ip_SomeE)
  have "length hostname \<le> 15" using length_ip_to_string [of ip] arg_cong [OF assms(1), of length] by simp
  then have "ip_config_field hostname = ip_to_string ip @ replicate (15 - length hostname) 0"
    unfolding assms(1) [symmetric] by (simp add: ip_config_field_def zero_padded_def IP_CONFIG_IP_LEN_def Suc_diff_le flip: replicate_Suc)
  then have "set_ip_from_string e (ip_config_field hostname) 0 = Some ip" using ip_string_roundtrip by (simp add: set_ip_from_string_append)
  moreover have "patched_firmware (Some hostname) fw = pre @ IP_CONFIG_MAGIC @ ip_config_field hostname @ post"
    using fw' p(3) by (simp add: patched_firmware_def)
  ultimately show ?thesis using p(1,2) length_ip_config_field by blast
qed

theorem update_keeps_address_witness:
  "\<exists>pre old block post. patched_firmware (Some (ascii ''192.168.1.9'')) (ascii ''KOSLD_IP'' @ replicate 20 7) = pre @ IP_CONFIG_MAGIC @ block @ post
     \<and> ascii ''KOSLD_IP'' @ replicate 20 7 = pre @ IP_CONFIG_MAGIC @ old @ post \<and> set_ip_from_string LE block 0 = Some 0xC0A80109"
proof -
  have h: "ascii ''192.168.1.9'' @ [0] = ip_to_string 0xC0A80109" by code_simp
  show ?thesis using update_keeps_address [OF h, of "ascii ''KOSLD_IP'' @ replicate 20 7" "[]" "replicate 20 7" LE] by (auto simp: IP_CONFIG_MAGIC_def)
qed

lemma sint_diff_bounded: "\<bar>sint (a :: u32)\<bar> < 2 ^ 30 \<Longrightarrow> \<bar>sint b\<bar> < 2 ^ 30 \<Longrightarrow> sint (a - b) = sint a - sint b"
  by (simp add: sint_word_ariths signed_take_bit_int_eq_self)

lemma compare_versions_positive:
  assumes "\<bar>sint b_major\<bar> < 2 ^ 30" "\<bar>sint b_minor\<bar> < 2 ^ 30" "\<bar>sint b_patch\<bar> < 2 ^ 30"
    and "\<bar>sint a_major\<bar> < 2 ^ 30" "\<bar>sint a_minor\<bar> < 2 ^ 30" "\<bar>sint a_patch\<bar> < 2 ^ 30"
  shows "0 < sint (compare_versions a_major a_minor a_patch b_major b_minor b_patch) \<longleftrightarrow>
    sint b_major < sint a_major \<or> sint b_major = sint a_major \<and> (sint b_minor < sint a_minor \<or> sint b_minor = sint a_minor \<and> sint b_patch < sint a_patch)"
proof -
  have "a = b \<longleftrightarrow> sint a = sint b" for a b :: u32 by (metis signed_word_eqI)
  then show ?thesis using assms by (auto simp: compare_versions_def sint_diff_bounded)
qed

text \<open>
  C25. Without the user's order (\<open>-U\<close>) only an older loader of a known console is replaced. When \<open>auto_update_firmware\<close> does anything, the
  loader's version string was understood, its console is known and has embedded firmware, and either its name is the one the embedded firmware has and its
  version is lower, or it is another loader of the same kind of transport, on a console that has more than one. (The version numbers are below \<open>2^30\<close>;
  the subtraction in \<open>compare_versions\<close> overflows for large ones.)
\<close>
theorem update_only_when_older:
  assumes "k_firmware_path k = None" and "parse_version_string (k_version k) 64 = (parsed, name, major, minor, pat)"
    and "\<bar>sint major\<bar> < 2 ^ 30" "\<bar>sint minor\<bar> < 2 ^ 30" "\<bar>sint pat\<bar> < 2 ^ 30" and "auto_update_firmware env k \<noteq> Some (0, k)"
  shows "parsed \<and> detect_console name \<noteq> CONSOLE_UNKNOWN
    \<and> embedded_firmware (fe_firmware env) (detect_console name) (tr_name (fe_transport env) = ascii ''serial'') \<noteq> []
    \<and> (if name = expected_name (detect_console name) (tr_name (fe_transport env) = ascii ''serial'')
       then sint major < 3 \<or> sint major = 3 \<and> (sint minor < 1 \<or> sint minor = 1 \<and> sint pat < 0)
       else detect_console name \<noteq> CONSOLE_PSP \<and> (if tr_name (fe_transport env) = ascii ''serial'' then is_serial_loader name else is_ip_loader name))"
proof -
  have v: "0 < sint (compare_versions 3 1 0 major minor pat) \<longleftrightarrow> sint major < 3 \<or> sint major = 3 \<and> (sint minor < 1 \<or> sint minor = 1 \<and> sint pat < 0)"
    using compare_versions_positive [OF assms(3-5), of 3 1 0] by simp
  have "parsed \<and> detect_console name \<noteq> CONSOLE_UNKNOWN
    \<and> embedded_firmware (fe_firmware env) (detect_console name) (tr_name (fe_transport env) = ascii ''serial'') \<noteq> []
    \<and> need_update (detect_console name) (tr_name (fe_transport env) = ascii ''serial'') name major minor pat"
    using assms(6) by (auto simp: auto_update_firmware_def assms(1,2) Let_def split: if_splits)
  then show ?thesis using v by (auto simp: need_update_def split: if_splits)
qed

text \<open>For evaluation: a transport on which nothing is ever answered.\<close>

definition dead_transport :: "bytes \<Rightarrow> ('s, 'o) transport_ops" where
  "dead_transport name = \<lparr>tr_name = name, tr_init = (\<lambda>k. Some (- 1, k)), tr_shutdown = (\<lambda>k. k), tr_send_data = (\<lambda>_ _ _ k. Some (- 1, k)),
     tr_recv_data = (\<lambda>buf _ _ _ k. Some (- 1, buf, k)), tr_send_command = (\<lambda>_ _ _ _ k. Some (- 1, k)), tr_execute = (\<lambda>_ _ _ k. Some (- 1, k))\<rparr>"

definition one_firmware :: "bytes \<Rightarrow> firmware" where
  "one_firmware fw = \<lparr>firmware_dc_serial = fw, firmware_dc_ip = fw, firmware_gc_serial = [], firmware_gc_ip = [], firmware_ps2_ip = [],
     firmware_wii_ip = [], firmware_xbox_ip = [], firmware_psp_usb = []\<rparr>"

definition example_kctx :: "bytes \<Rightarrow> 's \<Rightarrow> 'o \<Rightarrow> ('s, 'o) kctx" where
  "example_kctx v s u = \<lparr>k_speed = 115200, k_adapter = 1, k_legacy = False, k_caps = 1, k_version = v, k_argc = 0, k_fw_update = False,
     k_hostname = ascii ''192.168.1.9'', k_firmware_path = None, k_os = u, k_state = s\<rparr>"

definition example_fw_env :: "('s, u32 \<Rightarrow> bytes) transport_ops \<Rightarrow> bytes \<Rightarrow> ('s, u32 \<Rightarrow> bytes) fw_env" where
  "example_fw_env tr fw = \<lparr>fe_transport = tr, fe_os = terminal_os [], fe_time = None, fe_firmware = one_firmware fw, fe_junk = 0\<rparr>"

theorem update_only_when_older_witness:
  "parse_version_string (ascii ''dc-load-ip 3.0.2 - test'') 64 = (True, ascii ''dc-load-ip'', 3, 0, 2)
   \<and> auto_update_firmware (example_fw_env (dead_transport (ascii ''network'')) [1, 2]) (example_kctx (ascii ''dc-load-ip 3.0.2 - test'') () (\<lambda>_. []))
       \<noteq> Some (0, example_kctx (ascii ''dc-load-ip 3.0.2 - test'') () (\<lambda>_. []))
   \<and> detect_console (ascii ''dc-load-ip'') \<noteq> CONSOLE_UNKNOWN"
proof -
  let ?k = "example_kctx (ascii ''dc-load-ip 3.0.2 - test'') () (\<lambda>_. []) :: (unit, u32 \<Rightarrow> bytes) kctx"
  let ?e = "example_fw_env (dead_transport (ascii ''network'')) [1, 2] :: (unit, u32 \<Rightarrow> bytes) fw_env"
  have v: "parse_version_string (ascii ''dc-load-ip 3.0.2 - test'') 64 = (True, ascii ''dc-load-ip'', 3, 0, 2)" by code_simp
  have c: "detect_console (ascii ''dc-load-ip'') = CONSOLE_DC" by code_simp
  have n: "need_update CONSOLE_DC False (ascii ''dc-load-ip'') 3 0 2" by code_simp
  have t: "ascii ''network'' \<noteq> ascii ''serial''" by code_simp
  have "auto_update_firmware ?e ?k = Some (- 1, ?k)"
    using v c n t by (simp add: auto_update_firmware_def example_fw_env_def dead_transport_def example_kctx_def one_firmware_def embedded_firmware_def
      choose_ip_def perform_update_def arch_of_def sh4_params_def terminal_os_def Let_def)
  then have "auto_update_firmware ?e ?k \<noteq> Some (0, ?k)" by simp
  moreover from update_only_when_older [of ?k True "ascii ''dc-load-ip''" 3 0 2 ?e] this v
  have "detect_console (ascii ''dc-load-ip'') \<noteq> CONSOLE_UNKNOWN" by (simp add: example_kctx_def)
  ultimately show ?thesis using v by blast
qed

lemma of_nat_le_iff64: "x < 2 ^ 64 \<Longrightarrow> y < 2 ^ 64 \<Longrightarrow> (of_nat x :: u64) \<le> of_nat y \<longleftrightarrow> x \<le> y"
  by (simp add: word_le_nat_alt unat_of_nat_lt)

text \<open>The clock is part of the transport's state; sleeping takes the time asked for, and no call takes more than \<open>d\<close> beyond that.\<close>

definition clocked :: "('s \<Rightarrow> nat) \<Rightarrow> nat \<Rightarrow> ('s, 'o) transport_ops \<Rightarrow> ('s, 'o) time_ops \<Rightarrow> bool" where
  "clocked clock d tr t =
     ((\<forall>k. tm_usec t k = (of_nat (clock (k_state k)), k))
      \<and> (\<forall>i k. clock (k_state k) + unat i \<le> clock (k_state (tm_sleep t i k)) \<and> clock (k_state (tm_sleep t i k)) \<le> clock (k_state k) + unat i + d)
      \<and> (\<forall>k. \<exists>rc k'. tr_init tr k = Some (rc, k') \<and> clock (k_state k) \<le> clock (k_state k') \<and> clock (k_state k') \<le> clock (k_state k) + d)
      \<and> (\<forall>k. clock (k_state k) \<le> clock (k_state (tr_shutdown tr k)) \<and> clock (k_state (tr_shutdown tr k)) \<le> clock (k_state k) + d))"

lemma reconnect_drop_link_clock:
  assumes "clocked clock d tr t"
  shows "clock (k_state k) \<le> clock (k_state (reconnect_drop_link tr b k)) \<and> clock (k_state (reconnect_drop_link tr b k)) \<le> clock (k_state k) + d"
proof -
  let ?k = "if b then k\<lparr>k_speed := 57600\<rparr> else k"
  have "clock (k_state ?k) \<le> clock (k_state (tr_shutdown tr ?k)) \<and> clock (k_state (tr_shutdown tr ?k)) \<le> clock (k_state ?k) + d"
    using assms unfolding clocked_def by blast
  moreover have "k_state ?k = k_state k" by simp
  ultimately show ?thesis by (simp add: reconnect_drop_link_def)
qed

lemma reconnect_loop_ends:
  assumes c: "clocked clock d tr t" and lim: "D + 2000000 + 3 * d < 2 ^ 64"
  shows "clock (k_state k) \<le> D + d \<Longrightarrow> 0 < i \<Longrightarrow> unat i \<le> 2000000 \<Longrightarrow>
    \<exists>ok k'. reconnect_loop tr (Some t) b (of_nat D) i k = Some (ok, k') \<and> (ok \<longrightarrow> k_version k' \<noteq> [])
      \<and> clock (k_state k') \<le> D + 2000000 + 3 * d"
proof (induction "D + d - clock (k_state k)" arbitrary: k i rule: less_induct)
  case less
  let ?s = "tm_sleep t i k"
  obtain rc k1 where i1: "tr_init tr ?s = Some (rc, k1)" "clock (k_state ?s) \<le> clock (k_state k1)" "clock (k_state k1) \<le> clock (k_state ?s) + d"
    using c unfolding clocked_def by blast
  have s: "clock (k_state k) + unat i \<le> clock (k_state ?s)" "clock (k_state ?s) \<le> clock (k_state k) + unat i + d"
    using c unfolding clocked_def by auto
  have hi: "clock (k_state k1) \<le> D + 2000000 + 3 * d" using i1 s less.prems by linarith
  have u: "tm_usec t k1 = (of_nat (clock (k_state k1)), k1)" using c unfolding clocked_def by blast
  have cmp: "(of_nat (clock (k_state k1)) :: u64) \<ge> of_nat D \<longleftrightarrow> D \<le> clock (k_state k1)"
    using lim hi by (intro of_nat_le_iff64) linarith+
  have pos: "0 < unat i" using less.prems(2) by (simp add: word_less_nat_alt)
  note unfolded = reconnect_loop.simps [of tr "Some t" b "of_nat D" i k]
  show ?case
  proof (cases "rc = 0 \<and> k_version k1 \<noteq> [] \<or> D \<le> clock (k_state k1)")
    case True
    then show ?thesis using i1(1) u cmp hi by (subst unfolded) (auto simp: slept_def)
  next
    case False
    define k2 :: "('a, 'b) kctx" where "k2 = (if rc = 0 then reconnect_drop_link tr b k1 else k1)"
    define i2 where "i2 = (if rc = 0 then RECONNECT_QUIET_USEC else RECONNECT_ABSENT_USEC)"
    have "clock (k_state k1) \<le> clock (k_state k2) \<and> clock (k_state k2) \<le> clock (k_state k1) + d"
      unfolding k2_def using reconnect_drop_link_clock [OF c, of k1 b] by simp
    then have k2: "clock (k_state k2) \<le> D + d" "D + d - clock (k_state k2) < D + d - clock (k_state k)"
      using False pos s(1) i1(2) by linarith+
    have i2: "0 < i2" "unat i2 \<le> 2000000" by (simp_all add: i2_def RECONNECT_QUIET_USEC_def RECONNECT_ABSENT_USEC_def)
    have "reconnect_loop tr (Some t) b (of_nat D) i k = reconnect_loop tr (Some t) b (of_nat D) i2 k2"
      using i1(1) u cmp False by (subst unfolded) (auto simp: slept_def k2_def i2_def)
    then show ?thesis using less.hyps [OF k2(2,1) i2] by simp
  qed
qed


text \<open>For evaluation: a clock that only sleeping moves.\<close>

definition sleep_clock :: "(nat, 'o) time_ops" where
  "sleep_clock = \<lparr>tm_usec = (\<lambda>k. (of_nat (k_state k), k)), tm_sleep = (\<lambda>i k. k\<lparr>k_state := k_state k + unat i\<rparr>)\<rparr>"


end
