(* ===== verification/Trampoline.thy ===== *)
theory Trampoline
  imports Firmware Serial_Line
begin

text \<open>
  The machine code of the Dreamcast's update trampoline, run on a model of the SH4 instructions it uses. The trampoline is a program of
  \<^verbatim>\<open>host/src/firmware_update.c\<close> written as bytes; what it does is given by the processor's manual: \<open>sh4_decode\<close> reads the instructions that occur,
  \<open>sh4_exec\<close> runs one, and everything else (other instructions, misaligned accesses, branches in a delay slot, a change of \<open>SR\<close> outside
  privileged mode) is \<open>None\<close>. The loader's \<open>execute\<close> turns the caches off before it jumps, so memory is read and written directly; the on-chip
  registers are memory cells at their addresses.
\<close>

section \<open>The processor\<close>

datatype sh4_instr =
    Nop
  | Mov_l_pc nat u8
  | Ldc_sr nat
  | Mov_b_inc nat nat
  | Mov_b_to nat nat
  | Mov_l_to nat nat
  | Add_imm nat u8
  | Dt nat
  | Bf u8
  | Jmp nat

record sh4 =
  regs :: "nat \<Rightarrow> u32"
  other_bank :: "nat \<Rightarrow> u32"
  sr :: u32
  t_bit :: bool
  pc :: u32
  delayed :: "u32 option"
  ram :: memory

definition sh4_decode :: "u16 \<Rightarrow> sh4_instr option" where
  "sh4_decode h =
     (let op = unat h div 4096; n = unat h div 256 mod 16; m = unat h div 16 mod 16; l = unat h mod 16; d = ucast h :: u8 in
      if h = 0x0009 then Some Nop
      else if op = 13 then Some (Mov_l_pc n d)
      else if op = 4 \<and> d = 0x0e then Some (Ldc_sr n)
      else if op = 6 \<and> l = 4 then Some (Mov_b_inc m n)
      else if op = 2 \<and> l = 0 then Some (Mov_b_to m n)
      else if op = 2 \<and> l = 2 then Some (Mov_l_to m n)
      else if op = 7 then Some (Add_imm n d)
      else if op = 4 \<and> d = 0x10 then Some (Dt n)
      else if op = 8 \<and> n = 11 then Some (Bf d)
      else if op = 4 \<and> d = 0x2b then Some (Jmp n)
      else None)"

definition ram_le16 :: "memory \<Rightarrow> u32 \<Rightarrow> u16" where
  "ram_le16 m a = get_be16 (m (a + 1)) (m a)"

definition ram_le32 :: "memory \<Rightarrow> u32 \<Rightarrow> u32" where
  "ram_le32 m a = get_le32 (m a) (m (a + 1)) (m (a + 2)) (m (a + 3))"

text \<open>Where the next instruction is, when this one is no branch that is taken.\<close>

definition next_pc :: "sh4 \<Rightarrow> sh4" where
  "next_pc s = (case delayed s of None \<Rightarrow> s\<lparr>pc := pc s + 2\<rparr> | Some t \<Rightarrow> s\<lparr>pc := t, delayed := None\<rparr>)"

definition bank_selected :: "u32 \<Rightarrow> bool" where
  "bank_selected v = (bit v 30 \<and> bit v 29)"

definition load_sr :: "u32 \<Rightarrow> sh4 \<Rightarrow> sh4" where
  "load_sr v s =
     (let s = (if bank_selected v \<noteq> bank_selected (sr s)
               then s\<lparr>regs := (\<lambda>i. if i < 8 then other_bank s i else regs s i), other_bank := (\<lambda>i. if i < 8 then regs s i else other_bank s i)\<rparr>
               else s)
      in s\<lparr>sr := v, t_bit := bit v 0\<rparr>)"

fun sh4_exec :: "sh4_instr \<Rightarrow> sh4 \<Rightarrow> sh4 option" where
  "sh4_exec Nop s = Some (next_pc s)"
| "sh4_exec (Mov_l_pc n d) s =
     (if delayed s \<noteq> None then None
      else Some (next_pc (s\<lparr>regs := (regs s)(n := ram_le32 (ram s) ((pc s AND 0xFFFFFFFC) + 4 + 4 * ucast d))\<rparr>)))"
| "sh4_exec (Ldc_sr n) s = (if bit (sr s) 30 then Some (next_pc (load_sr (regs s n) s)) else None)"
| "sh4_exec (Mov_b_inc m n) s =
     (let v = scast (ram s (regs s m)) in
      Some (next_pc (s\<lparr>regs := (if m = n then (regs s)(n := v) else (regs s)(m := regs s m + 1, n := v))\<rparr>)))"
| "sh4_exec (Mov_b_to m n) s = Some (next_pc (s\<lparr>ram := (ram s)(regs s n := ucast (regs s m))\<rparr>))"
| "sh4_exec (Mov_l_to m n) s =
     (if regs s n AND 3 \<noteq> 0 then None else Some (next_pc (s\<lparr>ram := mem_write (ram s) (regs s n) (le32 (regs s m))\<rparr>)))"
| "sh4_exec (Add_imm n d) s = Some (next_pc (s\<lparr>regs := (regs s)(n := regs s n + scast d)\<rparr>))"
| "sh4_exec (Dt n) s = Some (next_pc (s\<lparr>regs := (regs s)(n := regs s n - 1), t_bit := (regs s n - 1 = 0)\<rparr>))"
| "sh4_exec (Bf d) s =
     (if delayed s \<noteq> None then None
      else Some (if t_bit s then next_pc s else s\<lparr>pc := pc s + 4 + 2 * scast d\<rparr>))"
| "sh4_exec (Jmp n) s = (if delayed s \<noteq> None then None else Some (s\<lparr>pc := pc s + 2, delayed := Some (regs s n)\<rparr>))"

definition sh4_step :: "sh4 \<Rightarrow> sh4 option" where
  "sh4_step s =
     (if pc s AND 1 \<noteq> 0 then None
      else Option.bind (sh4_decode (ram_le16 (ram s) (pc s))) (\<lambda>i. sh4_exec i s))"

primrec sh4_steps :: "nat \<Rightarrow> sh4 \<Rightarrow> sh4 option" where
  "sh4_steps 0 s = Some s"
| "sh4_steps (Suc n) s = Option.bind (sh4_step s) (sh4_steps n)"

lemma sh4_steps_add: "sh4_steps (i + j) s = Option.bind (sh4_steps i s) (sh4_steps j)"
  by (induction i arbitrary: s) (simp_all split: bind_split)

lemma sh4_steps_numeral: "sh4_steps (numeral k) s = Option.bind (sh4_step s) (sh4_steps (pred_numeral k))"
  by (simp add: numeral_eq_Suc)

lemma ucast_scast_byte [simp]: "ucast (scast b :: u32) = (b :: u8)"
  by (rule bit_word_eqI) (simp add: bit_simps)

lemma sh4_decode_used:
  "sh4_decode 0x0009 = Some Nop"
  "sh4_decode 0xd00b = Some (Mov_l_pc 0 11)" "sh4_decode 0x400e = Some (Ldc_sr 0)" "sh4_decode 0xd40b = Some (Mov_l_pc 4 11)"
  "sh4_decode 0xd50c = Some (Mov_l_pc 5 12)" "sh4_decode 0xd60c = Some (Mov_l_pc 6 12)" "sh4_decode 0x6044 = Some (Mov_b_inc 4 0)"
  "sh4_decode 0x2500 = Some (Mov_b_to 0 5)" "sh4_decode 0x7501 = Some (Add_imm 5 1)" "sh4_decode 0x4610 = Some (Dt 6)"
  "sh4_decode 0x8bfa = Some (Bf 0xfa)" "sh4_decode 0xd00a = Some (Mov_l_pc 0 10)" "sh4_decode 0xd10b = Some (Mov_l_pc 1 11)"
  "sh4_decode 0x2012 = Some (Mov_l_to 1 0)" "sh4_decode 0xd007 = Some (Mov_l_pc 0 7)" "sh4_decode 0x402b = Some (Jmp 0)"
  by (simp_all add: sh4_decode_def)

section \<open>The program\<close>

text \<open>The trampoline is in memory, with the number of bytes to copy in its constant.\<close>

definition sh4_loaded :: "memory \<Rightarrow> u32 \<Rightarrow> bool" where
  "sh4_loaded m n = (mem_read m DC_DEFAULT_LOAD_ADDR 256 = take 60 sh4_trampoline @ le32 n @ drop 64 sh4_trampoline)"

lemma mem_read_nth: "mem_read m a n = bs \<Longrightarrow> i < n \<Longrightarrow> m (a + of_nat i) = bs ! i"
  by (auto simp: mem_read_def)

lemma length_sh4_trampoline [simp]: "length sh4_trampoline = 256"
  by (simp add: sh4_trampoline_def zero_padded_def)

lemma sh4_loaded_byte:
  assumes "sh4_loaded m n" "i < 60 \<or> 64 \<le> i \<and> i < 256"
  shows "m (0x8c010000 + of_nat i) = sh4_trampoline ! i"
proof -
  have "m (0x8c010000 + of_nat i) = (take 60 sh4_trampoline @ le32 n @ drop 64 sh4_trampoline) ! i"
    using assms mem_read_nth [of m DC_DEFAULT_LOAD_ADDR 256 _ i] by (auto simp: sh4_loaded_def)
  then show ?thesis using assms(2) by (auto simp: nth_append)
qed

lemma sh4_loaded_le16:
  "sh4_loaded m n \<Longrightarrow> i + 1 < 60 \<Longrightarrow> ram_le16 m (0x8c010000 + of_nat i) = get_be16 (sh4_trampoline ! (i + 1)) (sh4_trampoline ! i)"
  using sh4_loaded_byte [of m n i] sh4_loaded_byte [of m n "i + 1"] by (simp add: ram_le16_def add.assoc add.commute [of 1])

lemma sh4_loaded_le32:
  assumes "sh4_loaded m n" "i + 3 < 60 \<or> 64 \<le> i \<and> i + 3 < 256"
  shows "ram_le32 m (0x8c010000 + of_nat i)
     = get_le32 (sh4_trampoline ! i) (sh4_trampoline ! (i + 1)) (sh4_trampoline ! (i + 2)) (sh4_trampoline ! (i + 3))"
proof -
  have b: "m (0x8c010000 + of_nat i + of_nat j) = sh4_trampoline ! (i + j)" if "j < 4" for j
    using sh4_loaded_byte [OF assms(1), of "i + j"] assms(2) that by (auto simp: add.assoc)
  show ?thesis using b [of 0] b [of 1] b [of 2] b [of 3] by (simp add: ram_le32_def)
qed

text \<open>The listing: the copy loop is instructions 5 to 9.\<close>

definition sh4_listing :: "sh4_instr list" where
  "sh4_listing =
     [Mov_l_pc 0 11, Ldc_sr 0, Mov_l_pc 4 11, Mov_l_pc 5 12, Mov_l_pc 6 12,
      Mov_b_inc 4 0, Mov_b_to 0 5, Add_imm 5 1, Dt 6, Bf 0xfa,
      Mov_l_pc 0 10, Mov_l_pc 1 11, Mov_l_to 1 0, Nop, Nop, Nop, Nop, Nop, Nop, Nop, Nop, Mov_l_pc 0 7, Jmp 0, Nop]"

lemma length_sh4_listing [simp]: "length sh4_listing = 24"
  by (simp add: sh4_listing_def)

fun halfwords :: "bytes \<Rightarrow> u16 list" where
  "halfwords (a # b # bs) = get_be16 b a # halfwords bs"
| "halfwords _ = []"

lemma nth_halfwords: "2 * i + 1 < length bs \<Longrightarrow> halfwords bs ! i = get_be16 (bs ! (2 * i + 1)) (bs ! (2 * i))"
proof (induction bs arbitrary: i rule: halfwords.induct)
  case (1 a b bs)
  then show ?case by (cases i) auto
qed auto

lemma halfwords_sh4_trampoline: "halfwords (take 48 sh4_trampoline) =
  [0xd00b, 0x400e, 0xd40b, 0xd50c, 0xd60c, 0x6044, 0x2500, 0x7501, 0x4610, 0x8bfa, 0xd00a, 0xd10b, 0x2012, 0x0009, 0x0009, 0x0009, 0x0009, 0x0009, 0x0009, 0x0009, 0x0009, 0xd007, 0x402b, 0x0009]"
  by (simp add: sh4_trampoline_def zero_padded_def get_be16_def)

lemma sh4_listing_decoded: "map sh4_decode (halfwords (take 48 sh4_trampoline)) = map Some sh4_listing"
  by (simp add: halfwords_sh4_trampoline sh4_decode_used sh4_listing_def)

lemma sh4_step_listing:
  assumes "sh4_loaded (ram s) n" "i < 24" "pc s = 0x8c010000 + of_nat (2 * i)"
  shows "sh4_step s = sh4_exec (sh4_listing ! i) s"
proof -
  have l: "length (halfwords (take 48 sh4_trampoline)) = 24" by (simp add: halfwords_sh4_trampoline)
  have "ram_le16 (ram s) (pc s) = get_be16 (sh4_trampoline ! (2 * i + 1)) (sh4_trampoline ! (2 * i))"
    unfolding assms(3) using sh4_loaded_le16 [OF assms(1), of "2 * i"] assms(2) by simp
  also have "\<dots> = halfwords (take 48 sh4_trampoline) ! i" using nth_halfwords [of i "take 48 sh4_trampoline"] assms(2) by simp
  finally have "sh4_decode (ram_le16 (ram s) (pc s)) = map sh4_decode (halfwords (take 48 sh4_trampoline)) ! i" using assms(2) l by simp
  also have "\<dots> = Some (sh4_listing ! i)" unfolding sh4_listing_decoded using assms(2) by simp
  moreover have "even (pc s)" unfolding assms(3) by simp
  ultimately show ?thesis by (simp add: sh4_step_def and_one_eq even_iff_mod_2_eq_zero)
qed

lemmas sh4_step_at =
  sh4_step_listing [where i = 0, unfolded sh4_listing_def, simplified]
  sh4_step_listing [where i = 1, unfolded sh4_listing_def, simplified]
  sh4_step_listing [where i = 2, unfolded sh4_listing_def, simplified]
  sh4_step_listing [where i = 3, unfolded sh4_listing_def, simplified]
  sh4_step_listing [where i = 4, unfolded sh4_listing_def, simplified]
  sh4_step_listing [where i = 5, unfolded sh4_listing_def, simplified]
  sh4_step_listing [where i = 6, unfolded sh4_listing_def, simplified]
  sh4_step_listing [where i = 7, unfolded sh4_listing_def, simplified]
  sh4_step_listing [where i = 8, unfolded sh4_listing_def, simplified]
  sh4_step_listing [where i = 9, unfolded sh4_listing_def, simplified]
  sh4_step_listing [where i = 10, unfolded sh4_listing_def, simplified]
  sh4_step_listing [where i = 11, unfolded sh4_listing_def, simplified]
  sh4_step_listing [where i = 12, unfolded sh4_listing_def, simplified]
  sh4_step_listing [where i = 13, unfolded sh4_listing_def, simplified]
  sh4_step_listing [where i = 14, unfolded sh4_listing_def, simplified]
  sh4_step_listing [where i = 15, unfolded sh4_listing_def, simplified]
  sh4_step_listing [where i = 16, unfolded sh4_listing_def, simplified]
  sh4_step_listing [where i = 17, unfolded sh4_listing_def, simplified]
  sh4_step_listing [where i = 18, unfolded sh4_listing_def, simplified]
  sh4_step_listing [where i = 19, unfolded sh4_listing_def, simplified]
  sh4_step_listing [where i = 20, unfolded sh4_listing_def, simplified]
  sh4_step_listing [where i = 21, unfolded sh4_listing_def, simplified]
  sh4_step_listing [where i = 22, unfolded sh4_listing_def, simplified]
  sh4_step_listing [where i = 23, unfolded sh4_listing_def, simplified]

lemma sh4_constants:
  assumes "sh4_loaded m n"
  shows "ram_le32 m 0x8c010030 = 0x500000f0" "ram_le32 m 0x8c010034 = 0x8c010100" "ram_le32 m 0x8c010038 = 0x8c004000"
    "ram_le32 m 0x8c010040 = 0xff00001c" "ram_le32 m 0x8c010044 = 0x808" "ram_le32 m 0x8c010048 = 0xac004000"
  using sh4_loaded_le32 [OF assms, of 48] sh4_loaded_le32 [OF assms, of 52] sh4_loaded_le32 [OF assms, of 56]
    sh4_loaded_le32 [OF assms, of 64] sh4_loaded_le32 [OF assms, of 68] sh4_loaded_le32 [OF assms, of 72]
  by (simp_all add: sh4_trampoline_def zero_padded_def get_le32_def get_be32_def)

lemma sh4_loaded_size:
  assumes "sh4_loaded m n"
  shows "ram_le32 m 0x8c01003c = n"
proof -
  have "m (0x8c01003c + of_nat j) = le32 n ! j" if "j < 4" for j
    using mem_read_nth [OF assms [unfolded sh4_loaded_def], of "60 + j"] that by (simp add: nth_append add.assoc [symmetric])
  from this [of 0] this [of 1] this [of 2] this [of 3] show ?thesis by (simp add: ram_le32_def le32_def get_le32_le32)
qed

lemmas sh4_run_simps = sh4_steps_numeral next_pc_def sh4_step_at sh4_constants sh4_loaded_size

lemma load_sr_simps [simp]:
  "ram (load_sr v s) = ram s" "pc (load_sr v s) = pc s" "delayed (load_sr v s) = delayed s"
  by (simp_all add: load_sr_def Let_def)

lemma sh4_prologue:
  assumes "sh4_loaded (ram s) n" "pc s = 0x8c010000" "delayed s = None" "bit (sr s) 30"
  shows "\<exists>s'. sh4_steps 5 s = Some s' \<and> pc s' = 0x8c01000a \<and> delayed s' = None \<and> ram s' = ram s
    \<and> regs s' 4 = 0x8c010100 \<and> regs s' 5 = 0x8c004000 \<and> regs s' 6 = n"
  using assms by (simp add: sh4_run_simps)

lemma sh4_round:
  assumes "sh4_loaded (ram s) n" "pc s = 0x8c01000a" "delayed s = None" "sh4_loaded ((ram s)(regs s 5 := ram s (regs s 4))) n"
  shows "\<exists>s'. sh4_steps 5 s = Some s' \<and> pc s' = (if regs s 6 = 1 then 0x8c010014 else 0x8c01000a) \<and> delayed s' = None
    \<and> ram s' = (ram s)(regs s 5 := ram s (regs s 4)) \<and> regs s' 4 = regs s 4 + 1 \<and> regs s' 5 = regs s 5 + 1 \<and> regs s' 6 = regs s 6 - 1"
  using assms by (simp add: sh4_run_simps)

section \<open>The copy\<close>

lemma in_block_unat: "i < n \<Longrightarrow> unat (a :: u32) + n \<le> 4294967296 \<Longrightarrow> unat (a + of_nat i) = unat a + i"
  by (simp add: unat_word_ariths unat_of_nat take_bit_nat_def)

lemma sh4_loaded_cong:
  assumes "sh4_loaded m n" "\<And>x. 0x8c010000 \<le> unat x \<Longrightarrow> unat x < 0x8c010100 \<Longrightarrow> m' x = m x"
  shows "sh4_loaded m' n"
proof -
  have "mem_read m' DC_DEFAULT_LOAD_ADDR 256 = mem_read m DC_DEFAULT_LOAD_ADDR 256"
    by (rule mem_read_outside, rule assms(2)) (simp_all add: in_block_unat [where n = 256])
  then show ?thesis using assms(1) by (simp add: sh4_loaded_def)
qed

lemma sh4_copy_loop:
  assumes "sh4_loaded (ram s) n" "pc s = 0x8c01000a" "delayed s = None" "regs s 6 = of_nat (Suc k)"
    "unat (regs s 5) + Suc k \<le> 0x8c010000" "0x8c010100 \<le> unat (regs s 4)" "unat (regs s 4) + Suc k < 4294967296"
  shows "\<exists>s'. sh4_steps (5 * Suc k) s = Some s' \<and> pc s' = 0x8c010014 \<and> delayed s' = None
    \<and> ram s' = mem_write (ram s) (regs s 5) (mem_read (ram s) (regs s 4) (Suc k))"
  using assms
proof (induction k arbitrary: s)
  case (0 s)
  have "sh4_loaded ((ram s)(regs s 5 := ram s (regs s 4))) n"
    by (rule sh4_loaded_cong [OF "0"(1)]) (use "0"(5) in auto)
  from sh4_round [OF "0"(1-3) this] "0"(4) show ?case by (auto simp: mem_read_Suc)
next
  case (Suc k s)
  let ?m = "(ram s)(regs s 5 := ram s (regs s 4))"
  have l: "sh4_loaded ?m n" by (rule sh4_loaded_cong [OF Suc.prems(1)]) (use Suc.prems(5) in auto)
  have "regs s 6 \<noteq> 1"
  proof
    assume "regs s 6 = 1"
    then have "unat (of_nat (Suc (Suc k)) :: u32) = 1" using Suc.prems(4) by simp
    then show False using Suc.prems(7) by (simp add: unat_of_nat take_bit_nat_def del: of_nat_Suc)
  qed
  with sh4_round [OF Suc.prems(1-3) l] obtain s1 where s1: "sh4_steps 5 s = Some s1" "pc s1 = 0x8c01000a" "delayed s1 = None" "ram s1 = ?m"
    "regs s1 4 = regs s 4 + 1" "regs s1 5 = regs s 5 + 1" "regs s1 6 = regs s 6 - 1" by auto
  have u: "unat (regs s 4 + 1) = unat (regs s 4) + 1" "unat (regs s 5 + 1) = unat (regs s 5) + 1"
    using in_block_unat [of 1 2 "regs s 4"] in_block_unat [of 1 2 "regs s 5"] Suc.prems(5,7) by simp_all
  have p: "regs s1 6 = of_nat (Suc k)" "unat (regs s1 5) + Suc k \<le> 0x8c010000" "0x8c010100 \<le> unat (regs s1 4)" "unat (regs s1 4) + Suc k < 4294967296"
    using s1(5-7) u Suc.prems(4-7) by simp_all
  obtain s' where s': "sh4_steps (5 * Suc k) s1 = Some s'" "pc s' = 0x8c010014" "delayed s' = None"
    "ram s' = mem_write (ram s1) (regs s1 5) (mem_read (ram s1) (regs s1 4) (Suc k))"
    using Suc.IH [OF l [folded s1(4)] s1(2,3) p] by blast
  have "mem_read ?m (regs s 4 + 1) (Suc k) = mem_read (ram s) (regs s 4 + 1) (Suc k)"
  proof (rule mem_read_outside)
    fix i assume "i < Suc k"
    then have "unat (regs s 4 + 1 + of_nat i) = unat (regs s 4) + 1 + i"
      using in_block_unat [of i "Suc k" "regs s 4 + 1"] u(1) Suc.prems(7) by simp
    then have "regs s 4 + 1 + of_nat i \<noteq> regs s 5" using Suc.prems(5,6) by auto
    then show "?m (regs s 4 + 1 + of_nat i) = ram s (regs s 4 + 1 + of_nat i)" by simp
  qed
  then have "ram s' = mem_write (ram s) (regs s 5) (mem_read (ram s) (regs s 4) (Suc (Suc k)))"
    using s'(4) s1(4-6) by (simp only: mem_read_Suc [of "ram s" "regs s 4" "Suc k"] mem_write.simps)
  moreover have "sh4_steps (5 * Suc (Suc k)) s = Some s'" using sh4_steps_add [of 5 "5 * Suc k" s] s1(1) s'(1) by simp
  ultimately show ?case using s'(2,3) by blast
qed

lemma sh4_epilogue:
  assumes "sh4_loaded (ram s) n" "pc s = 0x8c010014" "delayed s = None"
  shows "\<exists>s'. sh4_steps 14 s = Some s' \<and> pc s' = 0xac004000 \<and> delayed s' = None \<and> ram s' = mem_write (ram s) 0xff00001c (le32 0x808)"
proof -
  have "sh4_loaded (mem_write (ram s) 0xff00001c (le32 0x808)) n"
    by (rule sh4_loaded_cong [OF assms(1)], rule mem_write_other) (auto simp: le32_def in_block_unat)
  then show ?thesis using assms by (simp add: sh4_run_simps)
qed

text \<open>The program copies the firmware behind it over the loader, turns the caches off and invalidates them, and enters the new loader.\<close>

lemma sh4_trampoline_runs:
  assumes "sh4_loaded (ram s) (of_nat n)" "0 < n" "n \<le> 0xC000" "pc s = DC_DEFAULT_LOAD_ADDR" "delayed s = None" "bit (sr s) 30"
  shows "\<exists>s'. sh4_steps (5 * n + 19) s = Some s' \<and> pc s' = 0xac004000 \<and> delayed s' = None
    \<and> ram s' = mem_write (mem_write (ram s) DC_LOADER_BASE (mem_read (ram s) 0x8c010100 n)) 0xff00001c (le32 0x808)"
proof -
  obtain k where k: "n = Suc k" using assms(2) by (cases n) auto
  obtain s1 where s1: "sh4_steps 5 s = Some s1" "pc s1 = 0x8c01000a" "delayed s1 = None" "ram s1 = ram s"
    "regs s1 4 = 0x8c010100" "regs s1 5 = 0x8c004000" "regs s1 6 = of_nat n"
    using sh4_prologue [OF assms(1,4-6)] by blast
  obtain s2 where s2: "sh4_steps (5 * n) s1 = Some s2" "pc s2 = 0x8c010014" "delayed s2 = None"
    "ram s2 = mem_write (ram s) DC_LOADER_BASE (mem_read (ram s) 0x8c010100 n)"
    using sh4_copy_loop [of s1 "of_nat n" k] s1 assms(1,3) unfolding k by auto
  have "sh4_loaded (ram s2) (of_nat n)" unfolding s2(4)
  proof (rule sh4_loaded_cong [OF assms(1)], rule mem_write_other)
    fix x :: u32 and i
    assume x: "0x8c010000 \<le> unat x" "i < length (mem_read (ram s) 0x8c010100 n)"
    then have "unat (DC_LOADER_BASE + of_nat i) < 0x8c010000" using in_block_unat [of i n DC_LOADER_BASE] assms(3) by simp
    then show "x \<noteq> DC_LOADER_BASE + of_nat i" using x(1) by auto
  qed
  from sh4_epilogue [OF this s2(2,3)] obtain s3 where s3: "sh4_steps 14 s2 = Some s3" "pc s3 = 0xac004000" "delayed s3 = None"
    "ram s3 = mem_write (ram s2) 0xff00001c (le32 0x808)" by blast
  have "sh4_steps (5 * n + 19) s = Some s3"
    using sh4_steps_add [of 5 "5 * n + 14" s] sh4_steps_add [of "5 * n" 14 s1] s1(1) s2(1) s3(1) by (simp add: add.commute)
  then show ?thesis using s3 s2(4) by auto
qed

section \<open>Installing a Dreamcast loader\<close>

text \<open>
  A processor that enters the load address with this memory, in privileged mode, ends up at the start of the new loader: its bytes are \<open>fw\<close>,
  and nothing else changed but the cache control register.
\<close>

definition sh4_installs :: "memory \<Rightarrow> bytes \<Rightarrow> bool" where
  "sh4_installs m fw = (\<forall>c :: sh4. pc c = DC_DEFAULT_LOAD_ADDR \<longrightarrow> delayed c = None \<longrightarrow> bit (sr c) 30 \<longrightarrow> ram c = m \<longrightarrow>
     (\<exists>j c'. sh4_steps j c = Some c' \<and> pc c' = 0x20000000 + DC_LOADER_BASE \<and> delayed c' = None
       \<and> mem_read (ram c') DC_LOADER_BASE (length fw) = fw
       \<and> (\<forall>a. outside DC_LOADER_BASE (length fw) a \<longrightarrow> outside 0xff00001c 4 a \<longrightarrow> ram c' a = m a)))"

lemma sh4_loaded_installs:
  assumes "sh4_loaded m (of_nat (length fw))" "mem_read m 0x8c010100 (length fw) = fw" "0 < length fw" "length fw \<le> 0xC000"
  shows "sh4_installs m fw"
  unfolding sh4_installs_def
proof (intro allI impI)
  fix c :: sh4 assume c: "pc c = DC_DEFAULT_LOAD_ADDR" "delayed c = None" "bit (sr c) 30" "ram c = m"
  obtain c' where c': "sh4_steps (5 * length fw + 19) c = Some c'" "pc c' = 0xac004000" "delayed c' = None"
    "ram c' = mem_write (mem_write m DC_LOADER_BASE fw) 0xff00001c (le32 0x808)"
    using sh4_trampoline_runs [of c "length fw"] assms c by auto
  have "mem_read (ram c') DC_LOADER_BASE (length fw) = mem_read (mem_write m DC_LOADER_BASE fw) DC_LOADER_BASE (length fw)"
    unfolding c'(4)
  proof (rule mem_read_outside, rule mem_write_other)
    fix i j assume ij: "i < length fw" "j < length (le32 0x808)"
    then have "unat (DC_LOADER_BASE + of_nat i) < 0x8c010000" using in_block_unat [of i "length fw" DC_LOADER_BASE] assms(4) by simp
    moreover have "unat (0xff00001c + of_nat j :: u32) = 0xff00001c + j" using ij(2) in_block_unat [of j 4 "0xff00001c"] by simp
    ultimately show "DC_LOADER_BASE + of_nat i \<noteq> 0xff00001c + of_nat j" by auto
  qed
  then have "mem_read (ram c') DC_LOADER_BASE (length fw) = fw" using assms(4) by (simp add: mem_read_write)
  moreover have "ram c' a = m a" if "outside DC_LOADER_BASE (length fw) a" "outside 0xff00001c 4 a" for a
    unfolding c'(4) using that by (simp add: mem_write_outside)
  ultimately show "\<exists>j c'. sh4_steps j c = Some c' \<and> pc c' = 0x20000000 + DC_LOADER_BASE \<and> delayed c' = None
      \<and> mem_read (ram c') DC_LOADER_BASE (length fw) = fw
      \<and> (\<forall>a. outside DC_LOADER_BASE (length fw) a \<longrightarrow> outside 0xff00001c 4 a \<longrightarrow> ram c' a = m a)"
    using c'(1-3) by (intro exI [of _ "5 * length fw + 19"] exI [of _ c']) simp
qed

lemma update_blob_sh4:
  "update_blob sh4_params ip fw = (take 60 sh4_trampoline @ le32 (of_nat (length fw)) @ drop 64 sh4_trampoline) @ patched_firmware ip fw"
  by (simp add: update_blob_def sh4_params_def size_word_def Let_def)

lemma length_update_blob_sh4 [simp]: "length (update_blob sh4_params ip fw) = 256 + length fw"
  by (simp add: update_blob_sh4)

text \<open>A transport that delivers leaves an image that installs itself.\<close>

context data_transport
begin

lemma dc_image_sent:
  assumes "ready s" "accepts (update_blob sh4_params ip fw)" "0 < length fw" "length fw \<le> 0xC000"
  shows "\<exists>s'. send (update_blob sh4_params ip fw) DC_DEFAULT_LOAD_ADDR (of_nat (256 + length fw)) s = Some (0, s') \<and> ready s'
    \<and> sh4_installs (console_mem s') (patched_firmware ip fw)"
proof -
  obtain s' where s': "send (update_blob sh4_params ip fw) DC_DEFAULT_LOAD_ADDR (of_nat (256 + length fw)) s = Some (0, s')" "ready s'"
    "mem_read (console_mem s') DC_DEFAULT_LOAD_ADDR (256 + length fw) = update_blob sh4_params ip fw"
    using send_delivers [OF assms(1,2), of DC_DEFAULT_LOAD_ADDR] by auto
  have "mem_read (console_mem s') DC_DEFAULT_LOAD_ADDR 256 = take 60 sh4_trampoline @ le32 (of_nat (length fw)) @ drop 64 sh4_trampoline"
    "mem_read (console_mem s') 0x8c010100 (length fw) = patched_firmware ip fw"
    using s'(3) unfolding update_blob_sh4 mem_read_add by (subst (asm) append_eq_append_conv; simp)+
  then have "sh4_installs (console_mem s') (patched_firmware ip fw)"
    using assms(3,4) by (intro sh4_loaded_installs) (simp_all add: sh4_loaded_def)
  then show ?thesis using s'(1,2) by blast
qed

end

section \<open>Properties\<close>

text \<open>A transport of the update code whose state is that of a transport of the upload code.\<close>

definition on_state :: "'s send_data \<Rightarrow> ('s, 'o) kctx send_data" where
  "on_state send dat addr n k = map_option (\<lambda>(rc, s). (rc, k\<lparr>k_state := s\<rparr>)) (send dat addr n (k_state k))"

text \<open>
  C7. A firmware update installs the firmware. The host builds the update image for a Dreamcast and uploads it over a link that loses data
  datagrams; when \<open>perform_update\<close> then starts it, the machine code in the console's memory, run by the processor from the load address, copies the new
  loader (with the console's address filled in) byte for byte over the old one and enters it, changing nothing else but the cache control register.
  The firmware may have up to \<open>0xC000\<close> bytes, the distance from the loader to the load address; beyond it the copy would overwrite the trampoline.
\<close>
theorem dc_update_installs:
  fixes k :: "(link host, 'o) kctx"
  assumes "tr_send_data (fe_transport env) = on_state (link_transport p hh r)" and "link_ready (k_state k)"
    and "uploadable p hh (update_blob sh4_params ip fw)" and "0 < length fw" and "length fw \<le> 0xC000"
    and "os_malloc (fe_os env) (256 + length fw)"
  shows "\<exists>h'. perform_update env fw ip sh4_params dhcp k
      = Option.bind (start_trampoline (fe_transport env) DC_DEFAULT_LOAD_ADDR (k\<lparr>k_state := h'\<rparr>)) (after_start env dhcp)
    \<and> sh4_installs (link_mem h') (patched_firmware ip fw)"
proof -
  obtain h' where h': "link_transport p hh r (update_blob sh4_params ip fw) DC_DEFAULT_LOAD_ADDR (of_nat (256 + length fw)) (k_state k) = Some (0, h')"
    "sh4_installs (link_mem h') (patched_firmware ip fw)"
    using udp.dc_image_sent [OF assms(2-5)] by blast
  have "trampoline_size sh4_params + of_nat (length fw) = of_nat (256 + length fw)" by (simp add: sh4_params_def)
  moreover have "unat (of_nat (256 + length fw) :: u32) = 256 + length fw" using assms(5) by (intro unat_of_nat32) simp
  ultimately have "perform_update env fw ip sh4_params dhcp k
      = Option.bind (start_trampoline (fe_transport env) DC_DEFAULT_LOAD_ADDR (k\<lparr>k_state := h'\<rparr>)) (after_start env dhcp)"
    using h'(1) assms(1,6) by (simp add: perform_update_def on_state_def sh4_params_def Let_def)
  then show ?thesis using h'(2) by blast
qed

theorem dc_update_installs_witness:
  "\<exists>h' k'. perform_update (example_fw_env ((dead_transport (ascii ''network''))
          \<lparr>tr_send_data := on_state (link_transport example_platform example_headers []), tr_send_command := (\<lambda>_ _ _ _ k. Some (0, k))\<rparr>) [])
        [9, 8, 7] None sh4_params True (example_kctx [] (example_host [True, False]) (\<lambda>_. [])) = Some (1, k')
    \<and> k_state k' = h' \<and> sh4_installs (link_mem h') [9, 8, 7]"
proof -
  let ?env = "example_fw_env ((dead_transport (ascii ''network''))
    \<lparr>tr_send_data := on_state (link_transport example_platform example_headers []), tr_send_command := (\<lambda>_ _ _ _ k. Some (0, k))\<rparr>) []"
  have "length (update_blob sh4_params None [9, 8, 7]) = 259" "update_blob sh4_params None [9, 8, 7] \<noteq> []" by (simp_all add: update_blob_sh4)
  then have u: "uploadable example_platform example_headers (update_blob sh4_params None [9, 8, 7])"
    by (simp add: uploadable_def addressed_def example_defs)
  have r: "link_ready (example_host [True, False])"
    by (simp add: link_ready_def example_host_def DCTOOL_MAJOR_def example_defs adapter_is_w5500_def)
  show ?thesis
    using dc_update_installs [of ?env example_platform example_headers "[]" "example_kctx [] (example_host [True, False]) (\<lambda>_. [])" None "[9, 8, 7]" True] u r
    by (auto simp: example_fw_env_def dead_transport_def terminal_os_def start_trampoline_def patched_firmware_def example_kctx_def reconnect_drop_link_def)
qed

end
