(* ===== verification/Spec2Isabelle.thy ===== *)
theory Spec2Isabelle
  imports Divutil Checksum Client_State Net_Syscalls Commands Dhcp Lease Net Dedup Host_Net Link Scramble Srec Dol Upload
    Serial_Client Serial_Syscalls Serial_Host Serial_Line Serial_Session
    Host_Os Console_Output Exceptions Gdb Serial_Console Serial_Port Serial_Calls Serial_Run Console_Safety
    Net_Console Net_Calls Net_Run Firmware Trampoline
begin

text \<open>
  A verification development for kos-tool: the host program that uploads, runs and serves programs on
  game consoles, and the kosload client that runs on the console.

  \<^bold>\<open>The program.\<close> The host (\<^verbatim>\<open>src/host\<close>) sends datagrams with a twelve-byte command header to the client
  (\<^verbatim>\<open>src/client\<close>). The client answers in its receive loop: it loads memory (LBIN, PBIN, DBIN), sends memory
  back (SBIN, SBIQ), starts a program (EXEC), and takes the answers of its own requests (RETV). A running
  program calls back through system calls: the client sends a numbered request, the host's console loop serves
  it, and the client waits with a deadline and retransmits. Both sides work over UDP without any help from an
  operating system on the console's side, so the client also holds the IP, ICMP, ARP and DHCP code.

  \<^bold>\<open>The theories.\<close>
  \<^item> \<open>Kos_Base\<close>: bytes, 16- and 32-bit big-endian fields, guest memory, the shared collections of lemmas.
  \<^item> \<open>Divutil\<close> (\<^verbatim>\<open>client/include/kosload/divutil.h\<close>): division by a constant through a reciprocal and the
    conversion of milliseconds to ticks, on words; exact error bounds of both.
  \<^item> \<open>Checksum\<close> (\<^verbatim>\<open>checksum.c\<close>, \<^verbatim>\<open>packet_helpers.c\<close>): the Internet checksum as two different loops on little-
    and big-endian consoles, the header builders; both orders are shown to store the same bytes.
  \<^item> \<open>Client_State\<close> (\<^verbatim>\<open>info.h\<close>, \<^verbatim>\<open>net_adapter.h\<close>, \<^verbatim>\<open>net_stack.h\<close>, \<^verbatim>\<open>packet.h\<close>, \<^verbatim>\<open>protocol.h\<close>): the client's globals
    as the record \<open>client\<close>, the platform's callbacks as the record \<open>platform\<close>, and the list of effects
    (\<open>Tx\<close>, \<open>Reboot\<close>, \<open>Enter\<close>, ...) that every operation appends to.
  \<^item> \<open>Net_Syscalls\<close> (\<^verbatim>\<open>network_syscalls.c\<close>): request numbering, the saved frame, the bounded wait, every call.
  \<^item> \<open>Commands\<close> (\<^verbatim>\<open>commands.c\<close>): the thirteen handlers; the bitmap of received chunks carries an invariant.
  \<^item> \<open>Dhcp\<close> (\<^verbatim>\<open>dhcp.c\<close>), \<open>Lease\<close> (\<^verbatim>\<open>entry.c\<close>, \<^verbatim>\<open>network_transport.c\<close>): discovery, renewal, the lease clock and the
    number and address formatting of the status screen.
  \<^item> \<open>Net\<close> (\<^verbatim>\<open>net.c\<close>): from a received frame to the dispatcher: ARP, ICMP echo, UDP with its checksum.
  \<^item> \<open>Dedup\<close> (\<^verbatim>\<open>host/src/dedup.c\<close>, the network loop of \<^verbatim>\<open>console.c\<close>): the cache of the last answer. The locale
    \<open>high_water\<close> states what a server with a newest number promises and is interpreted on the console loop.
  \<^item> \<open>Host_Net\<close> (\<^verbatim>\<open>host/src/transport/network.c\<close>): the host's side over an abstract socket \<open>sock_ops\<close>.
  \<^item> \<open>Link\<close>: the host's calls run against the client's handlers over a link that loses datagrams.
  \<^item> \<open>Binary\<close>, \<open>Srec\<close>, \<open>Dol\<close>, \<open>Scramble\<close>, \<open>Upload\<close> (\<^verbatim>\<open>host/src/binary\<close>, \<^verbatim>\<open>host/src/upload.c\<close>, \<^verbatim>\<open>make-dist/tools/elf2dol.c\<close>):
    program files, from the bytes of a file to the sections handed to a transport. The locale \<open>data_transport\<close> of \<open>Upload\<close> states what an
    upload needs of a transport; it is interpreted on the UDP transport of \<open>Link\<close>.
  \<^item> \<open>Serial_Client\<close>, \<open>Serial_Syscalls\<close> (\<^verbatim>\<open>client/common/serial\<close>): the serial loader as processes that send and wait for
    bytes; \<open>Serial_Host\<close> (\<^verbatim>\<open>host/src/transport/serial.c\<close>): the host's end over the operations of a port.
  \<^item> \<open>Serial_Line\<close>, \<open>Serial_Session\<close>: the host's calls run against the loader over a line that splits reads as it
    likes; a second interpretation of \<open>data_transport\<close>, so that the upload theorems hold for both transports.
  \<^item> \<open>Host_Os\<close>: the system calls of the host as a record, string helpers, path and flag translation; \<open>Console_Output\<close>, \<open>Exceptions\<close>,
    \<open>Gdb\<close> (\<^verbatim>\<open>host/src/console.c\<close>, \<^verbatim>\<open>host/src/gdb.c\<close>): terminal output with annotated stack traces, exception reports of the five
    console families, the debugger relay.
  \<^item> \<open>Serial_Console\<close>: the console loop of the serial line with every system call; \<open>Serial_Port\<close>: its helpers are those of the serial
    transport; \<open>Serial_Calls\<close>, \<open>Serial_Run\<close>: each call of the loader against the console's handler refines the call made on the host
    (\<open>local_call\<close>), and so does a whole program (\<open>local_run\<close>); \<open>Console_Safety\<close>: the sizes of the console's tables in every reachable state.
  \<^item> \<open>Net_Console\<close> (\<^verbatim>\<open>host/src/console.c\<close>): the console loop of the network with every system call, the dumb terminal and the
    entry point; \<open>Net_Calls\<close>: each call of \<open>Net_Syscalls\<close> against the console's handler over the link of \<open>Link\<close> refines \<open>local_call\<close>;
    \<open>Net_Run\<close>: the locale \<open>call_server\<close> states what a program needs of whatever serves its calls, and is interpreted on the
    network console, so that a whole program refines \<open>local_run\<close>; two errors of the network console.
  \<^item> \<open>Firmware\<close> (\<^verbatim>\<open>host/src/firmware_update.c\<close>): the decision to update a loader, the update image and the reconnection; \<open>Trampoline\<close>: the SH4
    instructions of the Dreamcast's update trampoline, and that it installs the image whichever transport of the locale \<open>data_transport\<close> delivered it.
  \<^bold>\<open>Conventions.\<close> A function whose C counterpart would read or write outside its buffer, or divide or loop over a
  negative count, returns \<open>None\<close>; the theorems that say \<open>Some\<close> therefore include memory safety. Machine integers
  are words of the source's width. Pointers into guest memory are 32-bit words into a total memory. Errors the
  code returns are values: \<open>False\<close> for the host's -1, sums where a caller tells cases apart.

  \<^bold>\<open>Loops and fuel.\<close> Bounded loops are structural recursions on the number of rounds the code allows (seven
  waits of a system call, thirty attempts of DHCP, one round per chunk). The receive loop \<open>bb_loop\<close> belongs to the
  platform (it is the adapter's) and is a parameter. The host's loops depend on a clock and a socket and may run
  for as long as datagrams come, so they are \<open>partial_function (option)\<close>; that they return is part of the
  statements (\<open>upload_survives_losses\<close>, \<open>unanswered_command_gives_up\<close>).

  \<^bold>\<open>What the theorems show.\<close> An upload over a link that loses any finite number of data datagrams ends and
  leaves the image in the console's memory; a request is served at most once and a retransmission gets the same
  answer; the client reports exactly the missing chunks, sends exactly the range asked for, accepts only answers to
  its present request and only acknowledgements of its own DHCP exchange; every frame it builds passes its own
  checks; waiting always ends; a firmware update installs the firmware and keeps the address; a program served over the serial line or over the network behaves as if it ran on the host. The properties of kind \<open>error\<close> describe inputs on which the code does not do what
  its comments say; each is a theorem about the same definitions.

  \<^bold>\<open>Not modelled.\<close> Adapter drivers and the start-up code of each console (register-level access to
  hardware), drawing on the screen, the platform layer of the host (sockets, terminals and files of the
  operating system), the command line and configuration, the vendored LZO library and libelf (parameters where they are used),
  and the image tools other than \<open>elf2dol\<close>. The update trampolines of the other
  consoles are bytes here; only the Dreamcast's is executed. Open: the CD redirection over the network.
\<close>

section \<open>Retransmissions against the host's window\<close>

text \<open>
  The client's last retransmission comes too late. A request served at time \<open>t\<close> is
  retransmitted for the last time \<open>KOS_SYSCALL_MAX_RETRIES\<close> intervals of \<open>KOS_SYSCALL_RETRY_MS\<close> later, 3.6 seconds after
  it, when the host's window of 3 seconds has passed: if nothing newer was served the datagram is
  dropped without an answer, although the comment at the window says that it outlasts the client's retries.
\<close>

theorem last_retransmission_dropped:
  fixes exec :: "'w handlers"
  assumes "console_recv exec t buf s w = (Served req bs, s', w')" and "dedup_extract_seq buf = Some q"
    and "length (packets s) = DEDUP_MAX_PACKETS"
    and "\<forall>out \<in> set (snd (exec req w)). sendable out" and "length (snd (exec req w)) \<le> DEDUP_MAX_PACKETS"
  shows "console_recv exec (t + of_nat (KOS_SYSCALL_MAX_RETRIES * unat KOS_SYSCALL_RETRY_MS * 1000)) buf s' w' = (Dropped, s', w')"
proof -
  have "\<not> length buf < 4" using assms(2) by (auto simp: dedup_extract_seq_def NET_SEQ_TRAILER_LEN_def split: if_splits)
  then show ?thesis using served_request_cached [OF assms] assms(2)
    by (simp add: console_recv_def dedup_try_replay_def dedup_is_stale_def KOS_SYSCALL_MAX_RETRIES_def KOS_SYSCALL_RETRY_MS_def DEDUP_WINDOW_USEC_def)
qed

theorem last_retransmission_dropped_witness:
  "\<exists>s' bs. console_recv counting_handler 7 (trailered (ascii ''DC03'') 1) dedup_init 0 = (Served (ascii ''DC03'') bs, s', 1)
     \<and> console_recv counting_handler 3600007 (trailered (ascii ''DC03'') 1) s' 1 = (Dropped, s', 1)"
proof -
  have a: "fst (console_recv counting_handler 7 (trailered (ascii ''DC03'') 1) dedup_init 0)
      = Served (ascii ''DC03'') [ascii ''RETV'' @ be32 0 @ be32 0 @ NET_SEQ_MAGIC @ be32 1]"
    "snd (snd (console_recv counting_handler 7 (trailered (ascii ''DC03'') 1) dedup_init 0)) = 1" by code_simp+
  then obtain s' where r: "console_recv counting_handler 7 (trailered (ascii ''DC03'') 1) dedup_init 0
      = (Served (ascii ''DC03'') [ascii ''RETV'' @ be32 0 @ be32 0 @ NET_SEQ_MAGIC @ be32 1], s', 1)"
    by (metis prod.collapse)
  have k: "dedup_extract_seq (trailered (ascii ''DC03'') 1) = Some 1" by code_simp
  have h: "length (packets dedup_init) = DEDUP_MAX_PACKETS" by (simp add: dedup_init_def)
  have o: "\<forall>out \<in> set (snd (counting_handler (ascii ''DC03'') 0)). sendable out" "length (snd (counting_handler (ascii ''DC03'') 0)) \<le> DEDUP_MAX_PACKETS"
    by code_simp+
  from last_retransmission_dropped [OF r k h o] r show ?thesis by (auto simp: KOS_SYSCALL_MAX_RETRIES_def KOS_SYSCALL_RETRY_MS_def)
qed

section \<open>Waiting for a slow answer\<close>

text \<open>
  A receive loop in which one chunk of the requested data arrives \<open>d\<close> ticks into the wait and the answer
  \<open>d\<close> ticks later.
\<close>

definition slow_read :: "platform \<Rightarrow> headers \<Rightarrow> command \<Rightarrow> command \<Rightarrow> u64 \<Rightarrow> client \<Rightarrow> client" where
  "slow_read p h part ret d st =
     (case cmd_partbin p part (st\<lparr>ticks := ticks st + d\<rparr>) of
        None \<Rightarrow> st\<lparr>ticks := ticks st + d + d\<rparr>
      | Some st \<Rightarrow> (case cmd_retval p h ret (st\<lparr>ticks := ticks st + d\<rparr>) of None \<Rightarrow> st\<lparr>ticks := ticks st + d\<rparr> | Some st \<Rightarrow> st))"

lemma cmd_partbin_keeps:
  "cmd_partbin p c st = Some st' \<Longrightarrow> ticks st' = ticks st \<and> kos_syscall_save_pkt st' = kos_syscall_save_pkt st \<and> length (pkt_buf st') = length (pkt_buf st)"
  by (auto simp: cmd_partbin_def Let_def net_bump_syscall_deadline_def map_set_def split: if_splits)

lemma cmd_retval_keeps:
  "cmd_retval p h c st = Some st' \<Longrightarrow> ticks st' = ticks st \<and> kos_syscall_save_pkt st' = kos_syscall_save_pkt st"
  by (auto simp: cmd_retval_def reply_def send_udp_def Let_def split: if_splits bind_splits)

lemma slow_read_keeps:
  "ticks (slow_read p h part ret d st) = ticks st + d + d \<and> kos_syscall_save_pkt (slow_read p h part ret d st) = kos_syscall_save_pkt st"
proof (cases "cmd_partbin p part (st\<lparr>ticks := ticks st + d\<rparr>)")
  case (Some st1)
  note k = cmd_partbin_keeps [OF Some]
  show ?thesis
  proof (cases "cmd_retval p h ret (st1\<lparr>ticks := ticks st1 + d\<rparr>)")
    case None
    then show ?thesis using Some k by (simp add: slow_read_def)
  next
    case (Some st2)
    then show ?thesis using \<open>cmd_partbin p part _ = _\<close> k cmd_retval_keeps [OF Some] by (simp add: slow_read_def)
  qed
qed (simp add: slow_read_def)

lemma cmd_partbin_accepts:
  assumes "unat (cmd_size c) \<le> length (cmd_data c)" "has_get_ticks p" "loop_deadline_ticks st \<noteq> 0"
  shows "\<exists>st'. cmd_partbin p c st = Some st' \<and> loop_deadline_ticks st' = ticks st + kos_syscall_timeout_ticks st \<and> running st' = running st
    \<and> tool_version st' = tool_version st \<and> pkt_buf st' = pkt_buf st \<and> kos_syscall_seq st' = kos_syscall_seq st \<and> ticks st' = ticks st"
  using assms by (simp add: cmd_partbin_def Let_def net_bump_syscall_deadline_def map_set_def)

lemma slow_round:
  assumes "\<forall>st. bb_loop p st = slow_read p0 h part ret d st" and "unat t \<le> 2 * unat d"
    and "unat (ticks st) + 2 * unat d < 18446744073709551616"
  shows "ticks (bb_loop p (st\<lparr>escape_loop := False, loop_deadline_ticks := ticks st + t\<rparr>)) = ticks st + d + d"
    and "kos_syscall_save_pkt (bb_loop p (st\<lparr>escape_loop := False, loop_deadline_ticks := ticks st + t\<rparr>)) = kos_syscall_save_pkt st"
    and "\<not> ticks st + d + d < ticks st + t" and "unat (ticks st + d + d) = unat (ticks st) + 2 * unat d"
proof -
  show "ticks (bb_loop p (st\<lparr>escape_loop := False, loop_deadline_ticks := ticks st + t\<rparr>)) = ticks st + d + d"
    and "kos_syscall_save_pkt (bb_loop p (st\<lparr>escape_loop := False, loop_deadline_ticks := ticks st + t\<rparr>)) = kos_syscall_save_pkt st"
    using slow_read_keeps [of p0 h part ret d "st\<lparr>escape_loop := False, loop_deadline_ticks := ticks st + t\<rparr>"] assms(1) by simp_all
  have "unat (ticks st + d) = unat (ticks st) + unat d" using assms(3) by (simp add: unat_word_ariths)
  then show u: "unat (ticks st + d + d) = unat (ticks st) + 2 * unat d" using assms(3) unat_word_ariths(1) [of "ticks st + d" d] by simp
  have "unat (ticks st + t) = unat (ticks st) + unat t" using assms(2,3) by (simp add: unat_word_ariths)
  then show "\<not> ticks st + d + d < ticks st + t" unfolding word_less_nat_alt u using assms(2) by linarith
qed

lemma wait_retries_slow:
  assumes "\<forall>st. bb_loop p st = slow_read p0 h part ret d st" and "unat t \<le> 2 * unat d"
  shows "kos_syscall_save_pkt st \<noteq> [] \<Longrightarrow> unat (ticks st) + (2 * n + 2) * unat d < 18446744073709551616
    \<Longrightarrow> syscall_retval (wait_retries p t n st) = - 1"
proof (induction n arbitrary: st)
  case 0
  from slow_round [OF assms, of st] 0 show ?case by (subst wait_retries.simps) (simp add: Let_def)
next
  case (Suc n)
  let ?s = "(bb_loop p (st\<lparr>escape_loop := False, loop_deadline_ticks := ticks st + t\<rparr>))\<lparr>loop_deadline_ticks := 0\<rparr>"
  let ?pkt = "kos_syscall_save_pkt st"
  let ?s1 = "emit (Tx ?pkt) (?s\<lparr>pkt_buf := ?pkt @ drop (length ?pkt) (pkt_buf ?s)\<rparr>)"
  have "unat (ticks st) + 2 * unat d < 18446744073709551616" using Suc.prems(2) by simp
  note r = slow_round [OF assms this]
  have w: "wait_retries p t (Suc n) st = wait_retries p t n ?s1"
    using r(1-3) Suc.prems(1) by (subst wait_retries.simps) (simp add: Let_def)
  have "unat (ticks ?s1) + (2 * n + 2) * unat d < 18446744073709551616" using Suc.prems(2) r(1,4) by (simp add: algebra_simps)
  from Suc.IH [OF _ this] show ?case unfolding w using r(2) Suc.prems(1) by simp
qed

text \<open>
  C37. An answer that is slow but never late is thrown away. On a lossy adapter a chunk of a \<open>read\<close> arrives
  before the deadline and moves it forward, and the answer arrives before the new deadline and is accepted: its value is in
  \<open>syscall_retval\<close>. The wait nevertheless compares the clock with the deadline it armed first, takes the answer for a
  stall, asks again, and, when every repetition is as slow, returns -1 (the comment there says that a transfer that keeps
  making progress never trips the timeout).
\<close>

theorem slow_answer_discarded:
  assumes "bb_lossy p" "host_supports_dedup st" "has_get_ticks p" "ticks_per_second p \<noteq> 0"
    and "t = ucast (ms_to_ticks (ticks_per_second p) 600)" "t \<noteq> 0" "has_get_ticks p0"
    and "\<forall>st. bb_loop p st = slow_read p0 h part ret d st" "d < t" "unat t \<le> 2 * unat d"
    and "unat (ticks st) + 14 * unat d < 18446744073709551616" "kos_syscall_save_pkt st \<noteq> []"
    and "unat (cmd_size part) \<le> length (cmd_data part)" "running st" "14 \<le> length (pkt_buf st)"
    and "length (cmd_id ret) = 4" "cmd_data ret = inline @ NET_SEQ_MAGIC @ be32 (kos_syscall_seq st) @ residue"
    and "unat (udp_length h) = UDP_H_LEN + COMMAND_LEN + length inline + NET_SEQ_TRAILER_LEN"
  shows "(let st0 = st\<lparr>kos_syscall_timeout_ticks := t, escape_loop := False, loop_deadline_ticks := ticks st + t\<rparr> in
      \<exists>st1. cmd_partbin p0 part (st0\<lparr>ticks := ticks st + d\<rparr>) = Some st1 \<and> ticks st + d < loop_deadline_ticks st0
        \<and> ticks st + d + d < loop_deadline_ticks st1 \<and> syscall_retval (bb_loop p st0) = cmd_address ret)
    \<and> syscall_retval (kos_syscall_wait_for_retval p st) = - 1"
proof
  let ?arm = "st\<lparr>kos_syscall_timeout_ticks := t, escape_loop := False, loop_deadline_ticks := ticks st + t\<rparr>"
  let ?mid = "?arm\<lparr>ticks := ticks st + d\<rparr>"
  show "let st0 = ?arm in
      \<exists>st1. cmd_partbin p0 part (st0\<lparr>ticks := ticks st + d\<rparr>) = Some st1 \<and> ticks st + d < loop_deadline_ticks st0
        \<and> ticks st + d + d < loop_deadline_ticks st1 \<and> syscall_retval (bb_loop p st0) = cmd_address ret"
  proof -
    have u: "unat (ticks st) + unat t < 18446744073709551616" "unat d < unat t" "0 < unat t"
      using assms(6,9-11) by (simp_all add: word_less_nat_alt unat_gt_0)
    have v: "unat (ticks st + d) = unat (ticks st) + unat d" "unat (ticks st + t) = unat (ticks st) + unat t"
      using u(1) assms(11) by (simp_all add: unat_word_ariths)
    have w: "unat (ticks st + d + d) = unat (ticks st + d) + unat d" "unat (ticks st + d + t) = unat (ticks st + d) + unat t"
      using v(1) u assms(10,11) unat_word_ariths(1) [of "ticks st + d" d] unat_word_ariths(1) [of "ticks st + d" t] by simp_all
    have nz: "ticks st + t \<noteq> 0" using v(2) u(3) by (metis add_is_0 less_irrefl unat_0)
    obtain st1 where st1: "cmd_partbin p0 part ?mid = Some st1" "loop_deadline_ticks st1 = ticks st + d + t" "running st1"
        "tool_version st1 = tool_version st" "pkt_buf st1 = pkt_buf st" "kos_syscall_seq st1 = kos_syscall_seq st" "ticks st1 = ticks st + d"
      using cmd_partbin_accepts [OF assms(13,7), of ?mid] nz assms(14) by auto
    have "tool_version st \<ge> 0x00030000" using assms(2) by (simp add: host_supports_dedup_def)
    then have r: "running (st1\<lparr>ticks := ticks st1 + d\<rparr>)" "tool_version (st1\<lparr>ticks := ticks st1 + d\<rparr>) \<ge> 0x00030000"
      "14 \<le> length (pkt_buf (st1\<lparr>ticks := ticks st1 + d\<rparr>))" "kos_syscall_seq st = kos_syscall_seq (st1\<lparr>ticks := ticks st1 + d\<rparr>)"
      using st1 assms(15) by simp_all
    obtain st2 where st2: "cmd_retval p0 h ret (st1\<lparr>ticks := ticks st1 + d\<rparr>) = Some st2" "syscall_retval st2 = cmd_address ret"
      using cmd_retval_cases(2) [OF r(1-3) assms(16-18) r(4)] by blast
    have "bb_loop p ?arm = st2" using assms(8) st1(1) st2(1) by (simp add: slow_read_def)
    moreover have "ticks st + d < ticks st + t" "ticks st + d + d < ticks st + d + t"
      using u(2) v w by (simp_all add: word_less_nat_alt)
    ultimately show ?thesis using st1 st2 by (simp add: Let_def)
  qed
  have "kos_syscall_wait_for_retval p st = wait_retries p t 6 (st\<lparr>kos_syscall_timeout_ticks := t\<rparr>)"
    unfolding kos_syscall_wait_for_retval_def using assms(1-6)
    by (simp add: KOS_SYSCALL_RETRY_MS_def KOS_SYSCALL_MAX_RETRIES_def Let_def)
  then show "syscall_retval (kos_syscall_wait_for_retval p st) = - 1"
    using wait_retries_slow [OF assms(8,10), of "st\<lparr>kos_syscall_timeout_ticks := t\<rparr>" 6] assms(11,12) by simp
qed

theorem slow_answer_discarded_witness:
  "let h = example_headers\<lparr>udp_length := 28\<rparr>;
       part = \<lparr>cmd_id = ascii ''PBIN'', cmd_address = 0x8c010000, cmd_size = 1, cmd_data = [7]\<rparr>;
       ret = \<lparr>cmd_id = ascii ''RETV'', cmd_address = 5, cmd_size = 0, cmd_data = NET_SEQ_MAGIC @ be32 9\<rparr>;
       p = example_platform\<lparr>bb_loop := slow_read example_platform h part ret 400000\<rparr>;
       st = example_client\<lparr>running := True, kos_syscall_seq := 9, kos_syscall_save_pkt := [1, 2, 3]\<rparr>
   in syscall_retval (bb_loop p (st\<lparr>kos_syscall_timeout_ticks := 600000, escape_loop := False, loop_deadline_ticks := 600000\<rparr>)) = 5
      \<and> syscall_retval (kos_syscall_wait_for_retval p st) = - 1"
proof -
  let ?h = "example_headers\<lparr>udp_length := 28\<rparr>"
  let ?part = "\<lparr>cmd_id = ascii ''PBIN'', cmd_address = 0x8c010000, cmd_size = 1, cmd_data = [7]\<rparr> :: command"
  let ?ret = "\<lparr>cmd_id = ascii ''RETV'', cmd_address = 5, cmd_size = 0, cmd_data = NET_SEQ_MAGIC @ be32 9\<rparr> :: command"
  let ?p = "example_platform\<lparr>bb_loop := slow_read example_platform ?h ?part ?ret 400000\<rparr>"
  let ?c = "example_client\<lparr>running := True, kos_syscall_seq := 9, kos_syscall_save_pkt := [1, 2, 3]\<rparr>"
  have "ms_to_ticks 1000000 600 = 600000" by (simp add: ms_to_ticks_def UDIV_CONST_def UDIV_RECIP_def)
  then have t: "(600000 :: u64) = ucast (ms_to_ticks (ticks_per_second ?p) 600)" by (simp add: example_defs)
  have pre: "bb_lossy ?p" "host_supports_dedup ?c" "has_get_ticks ?p" "ticks_per_second ?p \<noteq> 0" "has_get_ticks example_platform"
    "\<forall>st. bb_loop ?p st = slow_read example_platform ?h ?part ?ret 400000 st" "kos_syscall_save_pkt ?c \<noteq> []" "running ?c"
    "14 \<le> length (pkt_buf ?c)" "ticks ?c = 0"
    by (simp_all add: example_defs host_supports_dedup_def)
  have ret: "cmd_data ?ret = [] @ NET_SEQ_MAGIC @ be32 (kos_syscall_seq ?c) @ []" by simp
  have len: "unat (udp_length ?h) = UDP_H_LEN + COMMAND_LEN + length ([] :: bytes) + NET_SEQ_TRAILER_LEN" by (simp add: len_defs)
  from slow_answer_discarded [OF pre(1-4) t _ pre(5,6) _ _ _ pre(7) _ pre(8,9) _ ret len] pre(10)
  show ?thesis by (auto simp: Let_def ascii_def)
qed

end
